(* ===== verification/Prelude.thy ===== *)
theory Prelude
  imports Complex_Main "HOL-Library.Word" "HOL-Library.AList" "HOL-Library.Signed_Division"
begin

text \<open>
  What the components share: Go's built-in data (maps, 64-bit integers, the string functions the
  sources call), results that carry an error, and the generic lemmas on them.

  \<^item> A Go map that the code ranges over is an association list \<open>('k, 'v) gomap\<close> with distinct keys.
    Its order is the iteration order; Go leaves that order open, so a theorem about a loop over a
    map holds for every order of the list.
  \<^item> A Go map used only as a set of strings (\<^verbatim>\<open>map[string]bool\<close> that only ever stores
    \<^verbatim>\<open>true\<close>, \<^verbatim>\<open>map[string]struct{}\<close>) is a set.
  \<^item> Go's \<^verbatim>\<open>int64\<close> is a 64-bit word where the code computes with it: \<open>+\<close>, \<open>-\<close>, \<open>*\<close> wrap,
    \<open>sint\<close> reads it, and \<open>int64_quot\<close>, \<open>int64_rem\<close> truncate towards zero.
  \<^item> A Go string is its bytes, a \<open>string\<close>.
\<close>

section \<open>Collections of rewrite rules\<close>

named_theorems result_iff \<open>when an operation returns a value, and which\<close>
named_theorems frame \<open>what an operation leaves unchanged\<close>

section \<open>Results\<close>

text \<open>Inversion of the two-way results \<open>'e + 'a\<close>, used with \<open>simp\<close> and \<open>auto\<close>.\<close>

lemma case_sum_Inr_iff [result_iff]:
  "(case m of Inl e \<Rightarrow> Inl e | Inr x \<Rightarrow> f x) = Inr y \<longleftrightarrow> (\<exists>x. m = Inr x \<and> f x = Inr y)"
  by (cases m) auto

lemma case_option_Inr_iff [result_iff]:
  "(case m of Some e \<Rightarrow> Inl e | None \<Rightarrow> r) = Inr y \<longleftrightarrow> m = None \<and> r = Inr y"
  by (cases m) auto

lemma case_option_None_iff [result_iff]:
  "(case m of Some e \<Rightarrow> Some e | None \<Rightarrow> r) = None \<longleftrightarrow> m = None \<and> r = None"
  by (cases m) auto

lemma if_Inl_Inr_iff [result_iff]:
  "(if b then Inl e else r) = Inr y \<longleftrightarrow> \<not> b \<and> r = Inr y"
  by auto

lemma if_Some_None_iff [result_iff]:
  "(if b then Some e else r) = None \<longleftrightarrow> \<not> b \<and> r = None"
  by auto

section \<open>Go maps\<close>

type_synonym ('k, 'v) gomap = "('k \<times> 'v) list"

definition gomap_keys :: "('k, 'v) gomap \<Rightarrow> 'k set" where
  "gomap_keys m = fst ` set m"

definition gomap_wf :: "('k, 'v) gomap \<Rightarrow> bool" where
  "gomap_wf m \<longleftrightarrow> distinct (map fst m)"

text \<open>\<^verbatim>\<open>m[k]\<close> with the zero value of the element type where the key is missing.\<close>

definition gomap_get :: "'v \<Rightarrow> ('k, 'v) gomap \<Rightarrow> 'k \<Rightarrow> 'v" where
  "gomap_get zero m k = (case map_of m k of None \<Rightarrow> zero | Some v \<Rightarrow> v)"

text \<open>\<^verbatim>\<open>m[k] = v\<close>.\<close>

definition gomap_put :: "'k \<Rightarrow> 'v \<Rightarrow> ('k, 'v) gomap \<Rightarrow> ('k, 'v) gomap" where
  "gomap_put k v m = AList.update k v m"

text \<open>Two maps with the same entries (\<^verbatim>\<open>equality.Semantic.DeepEqual\<close> on maps).\<close>

definition gomap_equal :: "('k, 'v) gomap \<Rightarrow> ('k, 'v) gomap \<Rightarrow> bool" where
  "gomap_equal a b \<longleftrightarrow> (\<forall>k \<in> gomap_keys a \<union> gomap_keys b. map_of a k = map_of b k)"

lemma map_of_gomap_put [simp]: "map_of (gomap_put k v m) = (map_of m)(k \<mapsto> v)"
  by (simp add: gomap_put_def update_conv')

lemma gomap_keys_put [simp]: "gomap_keys (gomap_put k v m) = insert k (gomap_keys m)"
  by (simp add: gomap_keys_def gomap_put_def dom_update)

lemma gomap_wf_put [intro, simp]: "gomap_wf m \<Longrightarrow> gomap_wf (gomap_put k v m)"
  by (simp add: gomap_wf_def gomap_put_def distinct_update)

lemma gomap_wf_Nil [simp]: "gomap_wf []"
  by (simp add: gomap_wf_def)

lemma gomap_wf_Cons [simp]:
  "gomap_wf ((k, v) # m) \<longleftrightarrow> k \<notin> gomap_keys m \<and> gomap_wf m"
  by (auto simp: gomap_wf_def gomap_keys_def)

lemma gomap_keys_Nil [simp]: "gomap_keys [] = {}"
  by (simp add: gomap_keys_def)

lemma gomap_keys_Cons [simp]: "gomap_keys ((k, v) # m) = insert k (gomap_keys m)"
  by (simp add: gomap_keys_def)

lemma gomap_keys_dom: "gomap_keys m = dom (map_of m)"
  by (simp add: gomap_keys_def dom_map_of_conv_image_fst)

lemma gomap_get_Nil [simp]: "gomap_get z [] k = z"
  by (simp add: gomap_get_def)

lemma gomap_get_put [simp]:
  "gomap_get z (gomap_put k v m) k' = (if k' = k then v else gomap_get z m k')"
  by (simp add: gomap_get_def)

lemma gomap_get_missing: "k \<notin> gomap_keys m \<Longrightarrow> gomap_get z m k = z"
  by (auto simp: gomap_get_def gomap_keys_dom domIff)

lemma map_of_wf_iff: "gomap_wf m \<Longrightarrow> map_of m k = Some v \<longleftrightarrow> (k, v) \<in> set m"
  by (auto simp: gomap_wf_def)

lemma map_of_wf_cong: "gomap_wf a \<Longrightarrow> gomap_wf b \<Longrightarrow> set a = set b \<Longrightarrow> map_of a = map_of b"
  by (simp add: gomap_wf_def map_of_inject_set)

lemma gomap_equal_iff: "gomap_equal a b \<longleftrightarrow> map_of a = map_of b"
proof
  assume eq: "gomap_equal a b"
  show "map_of a = map_of b"
  proof
    fix k
    show "map_of a k = map_of b k"
      using eq by (cases "k \<in> gomap_keys a \<union> gomap_keys b")
        (auto simp: gomap_equal_def gomap_keys_dom domIff)
  qed
qed (simp add: gomap_equal_def)

section \<open>64-bit integers\<close>

type_synonym int64 = "64 word"

definition max_int64 :: int where
  "max_int64 = 2 ^ 63 - 1"

text \<open>Go's \<^verbatim>\<open>/\<close> and \<^verbatim>\<open>%\<close> on \<^verbatim>\<open>int64\<close>, for a divisor that is not zero.\<close>

definition int64_quot :: "int64 \<Rightarrow> int64 \<Rightarrow> int64" where
  "int64_quot a b = word_of_int (sint a sdiv sint b)"

definition int64_rem :: "int64 \<Rightarrow> int64 \<Rightarrow> int64" where
  "int64_rem a b = word_of_int (sint a smod sint b)"

text \<open>\<open>sint_wrap\<close> is the value of an int64 result whose exact value is the argument.\<close>

definition sint_wrap :: "int \<Rightarrow> int" where
  "sint_wrap i = (i + 2 ^ 63) mod 2 ^ 64 - 2 ^ 63"

lemma sint_word_of_int64: "sint (word_of_int i :: int64) = sint_wrap i"
  by (simp add: sint_wrap_def sint_sbintrunc' signed_take_bit_eq_take_bit_shift take_bit_eq_mod)

lemma sint_wrap_id: "- (2 ^ 63) \<le> i \<Longrightarrow> i < 2 ^ 63 \<Longrightarrow> sint_wrap i = i"
  by (simp add: sint_wrap_def)

lemma sint_wrap_overflow: "2 ^ 63 \<le> i \<Longrightarrow> i < 2 ^ 64 + 2 ^ 63 \<Longrightarrow> sint_wrap i = i - 2 ^ 64"
proof -
  assume "2 ^ 63 \<le> i" and "i < 2 ^ 64 + 2 ^ 63"
  then have "(i + 2 ^ 63 - 2 ^ 64) mod 2 ^ 64 = i + 2 ^ 63 - 2 ^ 64"
    by (intro mod_pos_pos_trivial) simp_all
  then have "(i + 2 ^ 63) mod 2 ^ 64 = i + 2 ^ 63 - 2 ^ 64"
    by (metis minus_mod_self2)
  then show ?thesis by (simp add: sint_wrap_def)
qed

lemma sint64_bounds: "- (2 ^ 63) \<le> sint (x :: int64)" "sint (x :: int64) < 2 ^ 63"
  using sint_ge [of x] sint_lt [of x] by simp_all

lemma sint64_add: "sint (a + b :: int64) = sint_wrap (sint a + sint b)"
  using sint_word_of_int64 [of "sint a + sint b"] by simp

lemma sint64_diff: "sint (a - b :: int64) = sint_wrap (sint a - sint b)"
  using sint_word_of_int64 [of "sint a - sint b"] by simp

lemma sint64_mult: "sint (a * b :: int64) = sint_wrap (sint a * sint b)"
  using sint_word_of_int64 [of "sint a * sint b"] by simp

lemma int64_of_sint: "word_of_int (sint x) = (x :: int64)"
  by simp

lemma int64_quot_nonneg:
  "0 \<le> sint a \<Longrightarrow> 0 < sint b \<Longrightarrow> int64_quot a b = word_of_int (sint a div sint b)"
  by (cases "sint a = 0") (simp_all add: int64_quot_def signed_divide_int_def)

lemma int64_rem_nonneg:
  "0 \<le> sint a \<Longrightarrow> 0 < sint b \<Longrightarrow> int64_rem a b = word_of_int (sint a mod sint b)"
  by (cases "sint a = 0") (simp_all add: int64_rem_def signed_modulo_int_def signed_divide_int_def
      minus_div_mult_eq_mod mult.commute)

lemma word_of_int64_eq_0: "0 \<le> i \<Longrightarrow> i < 2 ^ 63 \<Longrightarrow> (word_of_int i :: int64) = 0 \<longleftrightarrow> i = 0"
  by (metis sint_word_of_int64 sint_wrap_id signed_0 of_int_0 neg_le_0_iff_le order_trans
      zero_le_numeral zero_le_power)

section \<open>Strings\<close>

text \<open>\<^verbatim>\<open>%d\<close> of \<^verbatim>\<open>fmt\<close>: decimal digits, with a sign where negative.\<close>

fun decimal :: "nat \<Rightarrow> string" where
  "decimal n = (if n < 10 then [char_of (48 + n)] else decimal (n div 10) @ [char_of (48 + n mod 10)])"

declare decimal.simps [simp del]

definition decimalValue :: "string \<Rightarrow> nat" where
  "decimalValue s = foldl (\<lambda>a c. 10 * a + (of_char c - 48)) 0 s"

lemma decimalValue_decimal: "decimalValue (decimal n) = n"
proof (induction n rule: decimal.induct)
  case (1 n)
  have digit: "of_char (char_of (48 + k) :: char) = 48 + k" if "k < 10" for k :: nat
    using that by simp
  show ?case
  proof (cases "n < 10")
    case True
    then show ?thesis using digit by (simp add: decimal.simps [of n] decimalValue_def)
  next
    case False
    then have "decimalValue (decimal (n div 10)) = n div 10" by (rule "1.IH")
    with False show ?thesis
      using digit [of "n mod 10"] by (simp add: decimal.simps [of n] decimalValue_def)
  qed
qed

lemma decimal_inject [simp]: "decimal m = decimal n \<longleftrightarrow> m = n"
  by (metis decimalValue_decimal)

lemma decimal_digits: "c \<in> set (decimal n) \<Longrightarrow> 48 \<le> (of_char c :: nat) \<and> of_char c \<le> (57 :: nat)"
proof (induction n rule: decimal.induct)
  case (1 n)
  show ?case
  proof (cases "n < 10")
    case True
    with 1(2) show ?thesis by (simp add: decimal.simps [of n])
  next
    case False
    with 1(2) consider "c \<in> set (decimal (n div 10))" | "c = char_of (48 + n mod 10)"
      by (auto simp: decimal.simps [of n])
    then show ?thesis
    proof cases
      case 1
      with "1.IH" [OF False] show ?thesis by blast
    next
      case 2
      have "n mod 10 < 10" by simp
      then have "(of_char c :: nat) = 48 + n mod 10" unfolding 2 by simp
      then show ?thesis by (simp add: less_Suc_eq_le)
    qed
  qed
qed

definition decimalInt :: "int \<Rightarrow> string" where
  "decimalInt i = (if i < 0 then CHR ''-'' # decimal (nat (- i)) else decimal (nat i))"

text \<open>\<^verbatim>\<open>strings.Join\<close>.\<close>

fun strings_Join :: "string list \<Rightarrow> string \<Rightarrow> string" where
  "strings_Join [] sep = ''''"
| "strings_Join [x] sep = x"
| "strings_Join (x # y # xs) sep = x @ sep @ strings_Join (y # xs) sep"

lemma strings_Join_Cons: "strings_Join (x # xs) sep = x @ concat (map (\<lambda>y. sep @ y) xs)"
  by (induction xs arbitrary: x) auto

lemma separated_append_inject:
  assumes "c \<notin> set a" and "c \<notin> set a'" and "a @ c # b = a' @ c # b'"
  shows "a = a' \<and> b = b'"
proof -
  have "takeWhile (\<lambda>x. x \<noteq> c) (a @ c # b) = a" using assms(1)
    by (subst takeWhile_append2) auto
  moreover have "takeWhile (\<lambda>x. x \<noteq> c) (a' @ c # b') = a'" using assms(2)
    by (subst takeWhile_append2) auto
  ultimately show ?thesis using assms(3) by auto
qed

text \<open>
  A part written as its length, a colon and its bytes delimits itself, so parts joined this way after a
  kind without a slash can be read back.
\<close>

definition lengthPrefixed :: "string \<Rightarrow> string" where
  "lengthPrefixed part = decimal (length part) @ '':'' @ part"

lemma lengthPrefixed_inject:
  assumes "lengthPrefixed p @ r = lengthPrefixed p' @ r'"
  shows "p = p' \<and> r = r'"
proof -
  have "CHR '':'' \<notin> set (decimal n)" for n using decimal_digits [of "CHR '':''" n] by auto
  then have "decimal (length p) = decimal (length p') \<and> p @ r = p' @ r'"
    using assms by (intro separated_append_inject [of "CHR '':''"]) (simp_all add: lengthPrefixed_def)
  then show ?thesis using append_eq_append_conv [of p p' r r'] by simp
qed

lemma lengthPrefixed_concat_inject:
  "concat (map (\<lambda>p. ''/'' @ lengthPrefixed p) ps) = concat (map (\<lambda>p. ''/'' @ lengthPrefixed p) qs) \<Longrightarrow> ps = qs"
proof (induction ps arbitrary: qs)
  case Nil
  then show ?case by (cases qs) auto
next
  case (Cons p ps)
  then obtain q qs' where qs: "qs = q # qs'" by (cases qs) auto
  with Cons.prems have "p = q \<and> concat (map (\<lambda>p. ''/'' @ lengthPrefixed p) ps) = concat (map (\<lambda>p. ''/'' @ lengthPrefixed p) qs')"
    by (intro lengthPrefixed_inject) simp
  with Cons.IH qs show ?case by blast
qed

lemma joinedParts_inject:
  assumes "CHR ''/'' \<notin> set kind" and "CHR ''/'' \<notin> set kind'"
    and "strings_Join (kind # map lengthPrefixed ps) ''/'' = strings_Join (kind' # map lengthPrefixed qs) ''/''"
  shows "kind = kind' \<and> ps = qs"
proof -
  have eq: "kind @ concat (map (\<lambda>p. ''/'' @ lengthPrefixed p) ps) = kind' @ concat (map (\<lambda>p. ''/'' @ lengthPrefixed p) qs)"
    using assms(3) by (simp add: strings_Join_Cons comp_def)
  have kind: "takeWhile (\<lambda>c. c \<noteq> CHR ''/'') (k @ concat (map (\<lambda>p. ''/'' @ lengthPrefixed p) xs)) = k"
    if "CHR ''/'' \<notin> set k" for k xs
    using that by (subst takeWhile_append2) (auto simp: neq_Nil_conv, cases xs, auto)
  have "kind = kind'" using arg_cong [OF eq, of "takeWhile (\<lambda>c. c \<noteq> CHR ''/'')"] kind assms(1,2) by simp
  with eq show ?thesis using lengthPrefixed_concat_inject by simp
qed

end
