(* ===== verification/Quantity.thy ===== *)
theory Quantity
  imports Prelude
begin

text \<open>
  The interface of \<^verbatim>\<open>k8s.io/apimachinery/pkg/api/resource.Quantity\<close>. The package is not part of the
  repository, so its operations are a parameter: every definition that handles quantities takes a
  \<open>'q quantity_api\<close>, and the theorems that need to know what the operations compute have the
  hypothesis \<open>quantity_laws Q den\<close>, the documented behaviour of the package: \<open>den q\<close> is the amount
  a quantity stands for; \<^verbatim>\<open>Sign\<close> and \<^verbatim>\<open>Cmp\<close> compare amounts; \<^verbatim>\<open>Add\<close> adds them;
  \<^verbatim>\<open>Value\<close> is the amount rounded up to an \<^verbatim>\<open>int64\<close> (stated for the amounts an \<^verbatim>\<open>int64\<close> holds only);
  \<^verbatim>\<open>NewQuantity\<close> is the inverse of \<^verbatim>\<open>Value\<close> on integers; the zero value is zero.
  Quantities are values here, so \<^verbatim>\<open>DeepCopy\<close> is the identity.
\<close>

record 'q quantity_api =
  q_sign :: "'q \<Rightarrow> int"
  q_cmp :: "'q \<Rightarrow> 'q \<Rightarrow> int"
  q_add :: "'q \<Rightarrow> 'q \<Rightarrow> 'q"
  q_value :: "'q \<Rightarrow> int64"
  q_new :: "int64 \<Rightarrow> 'q"
  q_zero :: 'q
  q_string :: "'q \<Rightarrow> string"

definition quantity_laws :: "'q quantity_api \<Rightarrow> ('q \<Rightarrow> rat) \<Rightarrow> bool" where
  "quantity_laws Q den \<longleftrightarrow>
     (\<forall>a. q_sign Q a = (if den a < 0 then -1 else if den a = 0 then 0 else 1)) \<and>
     (\<forall>a b. q_cmp Q a b = (if den a < den b then -1 else if den a = den b then 0 else 1)) \<and>
     (\<forall>a b. den (q_add Q a b) = den a + den b) \<and>
     (\<forall>a. 0 \<le> den a \<and> den a \<le> of_int max_int64 \<longrightarrow> sint (q_value Q a) = \<lceil>den a\<rceil>) \<and>
     (\<forall>v. den (q_new Q v) = of_int (sint v)) \<and>
     den (q_zero Q) = 0"

text \<open>
  The contract a client of the package relies on, and the comparison lemmas its proofs use.
\<close>

locale quantity =
  fixes Q :: "'q quantity_api" and den :: "'q \<Rightarrow> rat"
  assumes laws: "quantity_laws Q den"
begin

lemma sign_eq: "q_sign Q a = (if den a < 0 then -1 else if den a = 0 then 0 else 1)"
  using laws by (simp add: quantity_laws_def)

lemma cmp_eq: "q_cmp Q a b = (if den a < den b then -1 else if den a = den b then 0 else 1)"
  using laws by (simp add: quantity_laws_def)

lemma sign_less [simp]: "q_sign Q a < 0 \<longleftrightarrow> den a < 0"
  by (simp add: sign_eq)

lemma sign_le [simp]: "q_sign Q a \<le> 0 \<longleftrightarrow> den a \<le> 0"
  by (auto simp: sign_eq)

lemma cmp_less [simp]: "q_cmp Q a b < 0 \<longleftrightarrow> den a < den b"
  by (simp add: cmp_eq)

lemma cmp_le [simp]: "q_cmp Q a b \<le> 0 \<longleftrightarrow> den a \<le> den b"
  by (auto simp: cmp_eq)

lemma cmp_greater [simp]: "0 < q_cmp Q a b \<longleftrightarrow> den b < den a"
  by (auto simp: cmp_eq)

lemma cmp_ge [simp]: "0 \<le> q_cmp Q a b \<longleftrightarrow> den b \<le> den a"
  by (auto simp: cmp_eq)

lemma cmp_zero [simp]: "q_cmp Q a b = 0 \<longleftrightarrow> den a = den b"
  by (auto simp: cmp_eq)

lemma den_add [simp]: "den (q_add Q a b) = den a + den b"
  using laws by (simp add: quantity_laws_def)

lemma value_eq: "0 \<le> den a \<Longrightarrow> den a \<le> of_int max_int64 \<Longrightarrow> sint (q_value Q a) = \<lceil>den a\<rceil>"
  using laws by (simp add: quantity_laws_def)

lemma den_new [simp]: "den (q_new Q v) = of_int (sint v)"
  using laws by (simp add: quantity_laws_def)

lemma den_zero [simp]: "den (q_zero Q) = 0"
  using laws by (simp add: quantity_laws_def)

end

section \<open>An instance of the interface\<close>

text \<open>
  Exact rational amounts satisfy the laws, so the hypothesis can hold; the witnesses use this
  instance.
\<close>

definition exact_quantity :: "rat quantity_api" where
  "exact_quantity =
     \<lparr>q_sign = (\<lambda>a. if a < 0 then -1 else if a = 0 then 0 else 1),
      q_cmp = (\<lambda>a b. if a < b then -1 else if a = b then 0 else 1),
      q_add = (+),
      q_value = (\<lambda>a. word_of_int \<lceil>a\<rceil>),
      q_new = (\<lambda>v. of_int (sint v)),
      q_zero = 0,
      q_string = (\<lambda>_. '''')\<rparr>"

lemma exact_quantity_laws: "quantity_laws exact_quantity (\<lambda>a. a)"
proof -
  have "sint (word_of_int \<lceil>a\<rceil> :: int64) = \<lceil>a\<rceil>" if "0 \<le> a" "a \<le> of_int max_int64" for a :: rat
  proof -
    have "0 \<le> \<lceil>a\<rceil>" using that(1) by linarith
    moreover have "\<lceil>a\<rceil> \<le> max_int64" using that(2) by linarith
    ultimately show ?thesis
      by (simp add: sint_word_of_int64 sint_wrap_id max_int64_def)
  qed
  then show ?thesis
    by (simp add: quantity_laws_def exact_quantity_def)
qed

interpretation exact: quantity exact_quantity "\<lambda>a. a"
  by (unfold_locales) (rule exact_quantity_laws)

end
