(* ===== verification/DRA_Types.thy ===== *)
theory DRA_Types
  imports Quantity
begin

text \<open>
  The Kubernetes API objects the simulator reads and writes (\<^verbatim>\<open>k8s.io/api/resource/v1\<close>, the fields the
  sources use), with Go's pointers as \<open>option\<close> and slices as lists, and the planner's failures
  (\<^verbatim>\<open>allocationFailure\<close> of \<^verbatim>\<open>internal/simulator/allocation_plan.go\<close>).
  Counts, generations and attribute values are Go \<^verbatim>\<open>int64\<close>s that the code only compares, so they
  are \<open>int\<close>s; fields of which the code reads only whether they are set or empty keep a list of names.
  A failure message keeps the verb and the arguments of its \<^verbatim>\<open>fmt.Sprintf\<close> as a constructor, without
  the rendering.
\<close>

section \<open>Node selectors\<close>

record NodeSelectorRequirement =
  req_key :: string
  req_operator :: string
  req_values :: "string list"

record NodeSelectorTerm =
  matchFields :: "NodeSelectorRequirement list"
  matchExpressions :: "NodeSelectorRequirement list"

type_synonym NodeSelector = "NodeSelectorTerm list"

section \<open>Devices and slices\<close>

record DeviceAttribute =
  intValue :: "int option"
  boolValue :: "bool option"
  stringValue :: "string option"
  versionValue :: "string option"
  intValues :: "int list"
  boolValues :: "bool list"
  stringValues :: "string list"
  versionValues :: "string list"

record 'q CapacityRequestPolicyRange =
  rangeMin :: "'q option"
  rangeMax :: "'q option"
  rangeStep :: "'q option"

record 'q CapacityRequestPolicy =
  policyDefault :: "'q option"
  validValues :: "'q list"
  validRange :: "'q CapacityRequestPolicyRange option"

record 'q DeviceCapacity =
  capValue :: 'q
  requestPolicy :: "'q CapacityRequestPolicy option"

record 'q Device =
  devName :: string
  devAttributes :: "(string, DeviceAttribute) gomap"
  devCapacity :: "(string, 'q DeviceCapacity) gomap"
  consumesCounters :: "string list"
  devNodeName :: "string option"
  devNodeSelector :: "NodeSelector option"
  devAllNodes :: "bool option"
  taints :: "string list"
  bindsToNode :: "bool option"
  bindingConditions :: "string list"
  bindingFailureConditions :: "string list"
  allowMultipleAllocations :: "bool option"
  nodeAllocatableResourceMappings :: "string list"

record 'q ResourceSlice =
  sliceName :: string
  sliceLabels :: "(string, string) gomap"
  sliceDriver :: string
  poolName :: string
  poolGeneration :: int
  resourceSliceCount :: int
  sliceNodeName :: "string option"
  sliceNodeSelector :: "NodeSelector option"
  sliceAllNodes :: "bool option"
  perDeviceNodeSelection :: "bool option"
  sharedCounters :: "string list"
  sliceDevices :: "'q Device list"

section \<open>Classes, requests and claims\<close>

record DeviceSelector =
  selCEL :: "string option"

record DeviceClass =
  className :: string
  classSelectors :: "DeviceSelector list"

type_synonym 'q CapacityRequirements = "(string, 'q) gomap"

text \<open>\<^verbatim>\<open>DeviceAllocationMode\<close> is a string; its values in use are "", "ExactCount" and "All".\<close>

datatype DeviceAllocationMode = ModeUnset | ModeExactCount | ModeAll | ModeOther string

record 'q ExactDeviceRequest =
  exDeviceClassName :: string
  exSelectors :: "DeviceSelector list"
  exAllocationMode :: DeviceAllocationMode
  exCount :: int
  exAdminAccess :: "bool option"
  exTolerations :: "string list"
  exCapacity :: "'q CapacityRequirements option"

record 'q DeviceSubRequest =
  subName :: string
  subDeviceClassName :: string
  subSelectors :: "DeviceSelector list"
  subAllocationMode :: DeviceAllocationMode
  subCount :: int
  subTolerations :: "string list"
  subCapacity :: "'q CapacityRequirements option"

record 'q DeviceRequest =
  drName :: string
  drExactly :: "'q ExactDeviceRequest option"
  drFirstAvailable :: "'q DeviceSubRequest list"

record DeviceConstraint =
  dcRequests :: "string list"
  dcMatchAttribute :: "string option"
  dcDistinctAttribute :: "string option"

record 'q DeviceRequestAllocationResult =
  resRequest :: string
  resDriver :: string
  resPool :: string
  resDevice :: string
  resShareID :: "string option"
  resConsumedCapacity :: "(string, 'q) gomap option"

record 'q AllocationResult =
  allocResults :: "'q DeviceRequestAllocationResult list"
  allocNodeSelector :: "NodeSelector option"

record 'q ResourceClaim =
  claimName :: string
  claimNamespace :: string
  claimRequests :: "'q DeviceRequest list"
  claimConstraints :: "DeviceConstraint list"
  claimAllocation :: "'q AllocationResult option"
  claimReservedFor :: "string list"

text \<open>\<^verbatim>\<open>AllocationResultsMaxSize\<close> of \<^verbatim>\<open>k8s.io/api/resource/v1\<close>.\<close>

definition AllocationResultsMaxSize :: int where
  "AllocationResultsMaxSize = 32"

section \<open>Errors of the capacity policy\<close>

text \<open>The \<^verbatim>\<open>fmt.Errorf\<close> results of \<^verbatim>\<open>capacity_policy.go\<close>, by capacity name and the printed quantity.\<close>

datatype (plugins only: code size) capacity_error =
    NegativeRequested string string
  | NegativeUsage string string string
  | UndefinedUsage string string
  | NegativeTotal string string
  | BothValuesAndRange string
  | DefaultOutsideCapacity string string
  | TooManyValidValues string nat
  | ValidValuesNoDefault string
  | ValidValueOutside string string
  | ValidValuesNotIncreasing string
  | DefaultNotInValidValues string string
  | RangeNoMinimum string
  | RangeNoDefault string
  | RangeMinimumOutside string string
  | RangeMaximumOutside string string
  | RangeDefaultOutside string string
  | RangeStepNotPositive string string
  | RangeMinimumPlusStep string string
  | RangeDefaultNotAligned string string
  | RangeMaximumNotAligned string string

section \<open>Errors of the selector evaluation\<close>

text \<open>The errors of \<^verbatim>\<open>draeval/evaluator.go\<close>, with the set index, the selector index and the cause.\<close>

datatype selector_error =
    CELRequired nat nat
  | CompileSelector nat nat string
  | EvaluateSelector nat nat string

section \<open>Failures of the planner\<close>

datatype failure_reason =
    DeviceClassNotFound | NoMatch | SelectorError | UnsupportedRequest

datatype (plugins only: code size) failure_message =
    ClaimResultLimit int
  | ResultBudget string int
  | UnavailableClasses string "string list"
  | NoDeviceSet string
  | ExactlyOneOf string
  | NoDeviceClassName string
  | UsesAdminAccess string
  | UsesTolerations string
  | NegativeCount string int
  | CountExceedsLimit string int
  | AllWithCount string int
  | UnsupportedMode string DeviceAllocationMode
  | InconsistentSliceCounts string string int
  | IncompletePool string string int nat int
  | SelectorEvaluation string selector_error
  | SliceNodeSelection string
  | PartitionableDevice string
  | DeviceTaints string
  | DeviceBindingConditions string
  | DeviceResourceMappings string
  | NegativeCapacity string string string
  | AllowsMultiple string
  | UnsupportedPolicy string string
  | NegativeDeviceCapacity string string string
  | ShareIDWithoutCapacity string string string string string
  | ConflictingState string string string
  | InvalidShareID string string string string string string
  | DuplicateShareID string string string string
  | NegativeConsumed string string string string string string string
  | ShareableWithoutCapacity string string string
  | ShareableExclusive string string string
  | ExclusiveAndShared string string string
  | InvalidCapacityState string string string capacity_error
  | ExclusiveWithShared string string string
  | ShareMissingCapacity nat string string string string
  | ShareUnknownCapacity nat string string string string
  | ConsumedExceedsCapacity string string string string string string
  | BranchLimit int
  | UnsupportedDistinctAttribute nat
  | NoConstraintType nat
  | InvalidMatchAttribute nat string
  | UnknownConstraintRequest nat string
  | ClaimUnsatisfied string bool
  | SearchCanceled string
  | ListAttribute
  | MultiValuedScalar

record allocationFailure =
  failReason :: failure_reason
  failMessage :: failure_message

definition unsupportedFailure :: "failure_message \<Rightarrow> allocationFailure" where
  "unsupportedFailure m = \<lparr>failReason = UnsupportedRequest, failMessage = m\<rparr>"

section \<open>Device identity\<close>

definition deviceIdentityKey :: "string \<Rightarrow> string \<Rightarrow> string \<Rightarrow> string" where
  "deviceIdentityKey driverName pool deviceName = driverName @ [CHR 0x00] @ pool @ [CHR 0x00] @ deviceName"

definition resultKey :: "'q DeviceRequestAllocationResult \<Rightarrow> string" where
  "resultKey r = deviceIdentityKey (resDriver r) (resPool r) (resDevice r)"

lemma deviceIdentityKey_inject:
  assumes "CHR 0x00 \<notin> set d" "CHR 0x00 \<notin> set d'" "CHR 0x00 \<notin> set p" "CHR 0x00 \<notin> set p'"
    and "deviceIdentityKey d p n = deviceIdentityKey d' p' n'"
  shows "d = d' \<and> p = p' \<and> n = n'"
proof -
  have "d = d' \<and> p @ CHR 0x00 # n = p' @ CHR 0x00 # n'"
    using assms(1,2,5) by (intro separated_append_inject) (simp_all add: deviceIdentityKey_def)
  then show ?thesis using separated_append_inject [OF assms(3,4)] by blast
qed

text \<open>
  The key under which a device is tracked names one device: for driver and pool names without NUL
  (Kubernetes names have none), two keys are equal exactly when driver, pool and device are.
\<close>

theorem deviceIdentityKey_unique:
  assumes "CHR 0x00 \<notin> set driver" "CHR 0x00 \<notin> set driver'" "CHR 0x00 \<notin> set pool" "CHR 0x00 \<notin> set pool'"
  shows "deviceIdentityKey driver pool device = deviceIdentityKey driver' pool' device' \<longleftrightarrow>
    driver = driver' \<and> pool = pool' \<and> device = device'"
  using deviceIdentityKey_inject [OF assms] by auto

theorem deviceIdentityKey_unique_witness:
  "deviceIdentityKey ''gpu'' ''a'' ''b'' \<noteq> deviceIdentityKey ''gpu'' ''ab'' ''''"
  using deviceIdentityKey_unique [of "''gpu''" "''gpu''" "''a''" "''ab''" "''b''" "''''"] by simp

end
