(* ===== verification/Draeval.thy ===== *)
theory Draeval
  imports DRA_Types
begin

text \<open>
  The selector evaluator, \<^verbatim>\<open>internal/draeval/evaluator.go\<close>. The CEL compiler and interpreter are the
  package \<^verbatim>\<open>k8s.io/dynamic-resource-allocation/cel\<close>, outside the repository: a \<open>'q cel_api\<close> is its two
  operations, the compilation error of an expression (\<^verbatim>\<open>GetOrCompile\<close>; the cache only saves work) and
  the outcome of a compiled expression on a device (\<^verbatim>\<open>DeviceMatches\<close>). No law about them is needed.
\<close>

record 'q cel_device =
  celDriver :: string
  celAllowMultipleAllocations :: "bool option"
  celAttributes :: "(string, DeviceAttribute) gomap"
  celCapacity :: "(string, 'q DeviceCapacity) gomap"

record 'q cel_api =
  celCompileError :: "string \<Rightarrow> string option"
  celDeviceMatches :: "string \<Rightarrow> 'q cel_device \<Rightarrow> string + bool"

text \<open>The inner loop of \<^verbatim>\<open>Matches\<close> over one selector set, then the loop over the sets.\<close>

fun matchesSelectors ::
  "'q cel_api \<Rightarrow> 'q cel_device \<Rightarrow> nat \<Rightarrow> nat \<Rightarrow> DeviceSelector list \<Rightarrow> selector_error + bool" where
  "matchesSelectors cel dev setIndex selectorIndex [] = Inr True"
| "matchesSelectors cel dev setIndex selectorIndex (sel # sels) =
     (case selCEL sel of
        None \<Rightarrow> Inl (CELRequired setIndex selectorIndex)
      | Some expression \<Rightarrow>
          (case celCompileError cel expression of
             Some err \<Rightarrow> Inl (CompileSelector setIndex selectorIndex err)
           | None \<Rightarrow>
               (case celDeviceMatches cel expression dev of
                  Inl err \<Rightarrow> Inl (EvaluateSelector setIndex selectorIndex err)
                | Inr matched \<Rightarrow>
                    (if \<not> matched then Inr False
                     else matchesSelectors cel dev setIndex (Suc selectorIndex) sels))))"

fun matchesSets ::
  "'q cel_api \<Rightarrow> 'q cel_device \<Rightarrow> nat \<Rightarrow> DeviceSelector list list \<Rightarrow> selector_error + bool" where
  "matchesSets cel dev setIndex [] = Inr True"
| "matchesSets cel dev setIndex (selectors # rest) =
     (case matchesSelectors cel dev setIndex 0 selectors of
        Inl err \<Rightarrow> Inl err
      | Inr matched \<Rightarrow> (if \<not> matched then Inr False else matchesSets cel dev (Suc setIndex) rest))"

definition celInput :: "string \<Rightarrow> 'q Device \<Rightarrow> 'q cel_device" where
  "celInput driver device =
     \<lparr>celDriver = driver,
      celAllowMultipleAllocations = allowMultipleAllocations device,
      celAttributes = devAttributes device,
      celCapacity = devCapacity device\<rparr>"

definition Matches ::
  "'q cel_api \<Rightarrow> string \<Rightarrow> 'q Device \<Rightarrow> DeviceSelector list list \<Rightarrow> selector_error + bool" where
  "Matches cel driver device selectorSets = matchesSets cel (celInput driver device) 0 selectorSets"

section \<open>What a selector means\<close>

definition selectorHolds :: "'q cel_api \<Rightarrow> 'q cel_device \<Rightarrow> DeviceSelector \<Rightarrow> bool" where
  "selectorHolds cel dev sel =
     (case selCEL sel of
        None \<Rightarrow> False
      | Some e \<Rightarrow> celCompileError cel e = None \<and> celDeviceMatches cel e dev = Inr True)"

definition selectorFails :: "'q cel_api \<Rightarrow> 'q cel_device \<Rightarrow> DeviceSelector \<Rightarrow> bool" where
  "selectorFails cel dev sel =
     (case selCEL sel of
        None \<Rightarrow> True
      | Some e \<Rightarrow> celCompileError cel e \<noteq> None \<or> (\<exists>err. celDeviceMatches cel e dev = Inl err))"

text \<open>
  The reference: read the selectors of all sets as one list; the first that does not hold decides.
  \<open>None\<close> stands for an error.
\<close>

definition selectorSpec :: "'q cel_api \<Rightarrow> 'q cel_device \<Rightarrow> DeviceSelector list \<Rightarrow> bool option" where
  "selectorSpec cel dev sels =
     (case dropWhile (selectorHolds cel dev) sels of
        [] \<Rightarrow> Some True
      | sel # _ \<Rightarrow> if selectorFails cel dev sel then None else Some False)"

definition outcome :: "'e + bool \<Rightarrow> bool option" where
  "outcome r = (case r of Inl _ \<Rightarrow> None | Inr b \<Rightarrow> Some b)"

lemma outcome_simps [simp]: "outcome (Inl e) = None" "outcome (Inr b) = Some b"
  by (simp_all add: outcome_def)

lemma selectorSpec_Nil [simp]: "selectorSpec cel dev [] = Some True"
  by (simp add: selectorSpec_def)

lemma selectorSpec_Cons:
  "selectorSpec cel dev (sel # sels) =
     (if selectorHolds cel dev sel then selectorSpec cel dev sels
      else if selectorFails cel dev sel then None else Some False)"
  by (simp add: selectorSpec_def)

lemma selectorSpec_append:
  "selectorSpec cel dev (xs @ ys) =
     (if selectorSpec cel dev xs = Some True then selectorSpec cel dev ys else selectorSpec cel dev xs)"
  by (induction xs) (auto simp: selectorSpec_Cons)

lemma selectorSpec_True:
  "selectorSpec cel dev sels = Some True \<longleftrightarrow> (\<forall>sel \<in> set sels. selectorHolds cel dev sel)"
  by (induction sels) (auto simp: selectorSpec_Cons)

lemma matchesSelectors_refines:
  "outcome (matchesSelectors cel dev si i sels) = selectorSpec cel dev sels"
  by (induction cel dev si i sels rule: matchesSelectors.induct)
    (auto simp: selectorSpec_Cons selectorHolds_def selectorFails_def split: option.splits sum.splits)

lemma matchesSets_refines:
  "outcome (matchesSets cel dev si sets) = selectorSpec cel dev (concat sets)"
proof (induction sets arbitrary: si)
  case (Cons selectors rest)
  have "outcome (matchesSelectors cel dev si 0 selectors) = selectorSpec cel dev selectors"
    by (rule matchesSelectors_refines)
  then show ?case
    using Cons.IH by (cases "matchesSelectors cel dev si 0 selectors") (auto simp: selectorSpec_append)
qed simp

lemma outcome_eq_Some [simp]: "outcome r = Some b \<longleftrightarrow> r = Inr b"
  by (cases r) auto

text \<open>
  C11. \<^verbatim>\<open>Matches\<close> computes what the selector sets mean together: read as one list in order, the first
  selector that does not hold decides. It is an error exactly when that selector has no CEL
  expression, does not compile or fails to evaluate; it is false when that selector evaluates to false;
  and it is true when every selector of every set holds.
\<close>

theorem Matches_refines:
  "outcome (Matches cel driver device sets) = selectorSpec cel (celInput driver device) (concat sets)"
  by (simp add: Matches_def matchesSets_refines)

lemma Matches_True_iff:
  "Matches cel driver device sets = Inr True \<longleftrightarrow>
     (\<forall>sels \<in> set sets. \<forall>sel \<in> set sels. selectorHolds cel (celInput driver device) sel)"
  using matchesSets_refines [of cel "celInput driver device" 0 sets]
  by (auto simp: Matches_def selectorSpec_True simp flip: outcome_eq_Some)

end
