(* ===== verification/Capacity_Policy.thy ===== *)
theory Capacity_Policy
  imports DRA_Types
begin

text \<open>
  Capacity requests: \<^verbatim>\<open>internal/simulator/capacity_policy.go\<close> (what a request consumes on a device that
  several claims share) and \<^verbatim>\<open>allocation_capacity.go\<close> (filtering of exclusive devices).
  A result \<^verbatim>\<open>(value, fits, err)\<close> is \<open>Inl err\<close>, \<open>Inr None\<close> for \<^verbatim>\<open>fits == false\<close>, or \<open>Inr (Some value)\<close>;
  a result \<^verbatim>\<open>error\<close> is an \<open>option\<close>. The code reads \<^verbatim>\<open>*validRange.Min\<close> and divides by the step only
  after the policy was validated; \<open>policy_wf\<close> below is what validation establishes there.
\<close>

section \<open>Ranges\<close>

definition maxCapacityPolicyValidValues :: nat where
  "maxCapacityPolicyValidValues = 10"

definition quantityWithinRange ::
  "'q quantity_api \<Rightarrow> 'q \<Rightarrow> 'q CapacityRequestPolicyRange \<Rightarrow> bool" where
  "quantityWithinRange Q v r =
     (if q_cmp Q v (the (rangeMin r)) < 0 then False
      else case rangeMax r of None \<Rightarrow> True | Some m \<Rightarrow> q_cmp Q v m \<le> 0)"

definition quantityAlignedToRange ::
  "'q quantity_api \<Rightarrow> 'q \<Rightarrow> 'q CapacityRequestPolicyRange \<Rightarrow> bool" where
  "quantityAlignedToRange Q v r =
     (case rangeStep r of
        None \<Rightarrow> True
      | Some s \<Rightarrow> int64_rem (q_value Q v - q_value Q (the (rangeMin r))) (q_value Q s) = 0)"

definition roundCapacityToValidRange ::
  "'q quantity_api \<Rightarrow> 'q \<Rightarrow> 'q CapacityRequestPolicyRange \<Rightarrow> 'q option" where
  "roundCapacityToValidRange Q requested r =
     (if q_cmp Q requested (the (rangeMin r)) < 0 then Some (the (rangeMin r))
      else case rangeStep r of
        None \<Rightarrow> (if \<not> quantityWithinRange Q requested r then None else Some requested)
      | Some step \<Rightarrow>
          (let requestedValue = q_value Q requested;
               minimumValue = q_value Q (the (rangeMin r));
               stepValue = q_value Q step;
               steps0 = int64_quot (requestedValue - minimumValue) stepValue;
               steps = (if int64_rem (requestedValue - minimumValue) stepValue \<noteq> 0
                        then steps0 + 1 else steps0);
               rounded = q_new Q (minimumValue + steps * stepValue)
           in if \<not> quantityWithinRange Q rounded r then None else Some rounded))"

section \<open>Validation of a policy\<close>

text \<open>The loop over \<^verbatim>\<open>policy.ValidValues\<close>: the value before the current one and \<^verbatim>\<open>defaultFound\<close>.\<close>

fun checkValidValues ::
  "'q quantity_api \<Rightarrow> string \<Rightarrow> 'q \<Rightarrow> 'q \<Rightarrow> 'q option \<Rightarrow> bool \<Rightarrow> 'q list \<Rightarrow> capacity_error option" where
  "checkValidValues Q name tot dflt prev defaultFound [] =
     (if \<not> defaultFound then Some (DefaultNotInValidValues name (q_string Q dflt)) else None)"
| "checkValidValues Q name tot dflt prev defaultFound (v # vs) =
     (if q_sign Q v < 0 \<or> q_cmp Q v tot > 0 then Some (ValidValueOutside name (q_string Q v))
      else if (case prev of None \<Rightarrow> False | Some p \<Rightarrow> q_cmp Q p v \<ge> 0)
      then Some (ValidValuesNotIncreasing name)
      else checkValidValues Q name tot dflt (Some v) (defaultFound \<or> q_cmp Q v dflt = 0) vs)"

definition validateCapacityValidValues ::
  "'q quantity_api \<Rightarrow> string \<Rightarrow> 'q \<Rightarrow> 'q CapacityRequestPolicy \<Rightarrow> capacity_error option" where
  "validateCapacityValidValues Q name tot policy =
     (if length (validValues policy) > maxCapacityPolicyValidValues
      then Some (TooManyValidValues name (length (validValues policy)))
      else case policyDefault policy of
        None \<Rightarrow> Some (ValidValuesNoDefault name)
      | Some dflt \<Rightarrow> checkValidValues Q name tot dflt None False (validValues policy))"

definition validateCapacityRangeBounds ::
  "'q quantity_api \<Rightarrow> string \<Rightarrow> 'q \<Rightarrow> 'q \<Rightarrow> 'q CapacityRequestPolicyRange \<Rightarrow> capacity_error option" where
  "validateCapacityRangeBounds Q name tot dflt r =
     (if q_sign Q (the (rangeMin r)) < 0 \<or> q_cmp Q (the (rangeMin r)) tot > 0
      then Some (RangeMinimumOutside name (q_string Q (the (rangeMin r))))
      else if (case rangeMax r of
                 None \<Rightarrow> False
               | Some m \<Rightarrow> q_cmp Q m (the (rangeMin r)) < 0 \<or> q_cmp Q m tot > 0)
      then Some (RangeMaximumOutside name (q_string Q (the (rangeMax r))))
      else if \<not> quantityWithinRange Q dflt r then Some (RangeDefaultOutside name (q_string Q dflt))
      else None)"

definition validateCapacityRangeStep ::
  "'q quantity_api \<Rightarrow> string \<Rightarrow> 'q \<Rightarrow> 'q \<Rightarrow> 'q CapacityRequestPolicyRange \<Rightarrow> capacity_error option" where
  "validateCapacityRangeStep Q name tot dflt r =
     (case rangeStep r of
        None \<Rightarrow> None
      | Some step \<Rightarrow>
          (if q_sign Q step \<le> 0 then Some (RangeStepNotPositive name (q_string Q step))
           else let minimumPlusStep = q_add Q (the (rangeMin r)) step
                in if q_cmp Q minimumPlusStep tot > 0
                   then Some (RangeMinimumPlusStep name (q_string Q minimumPlusStep))
                   else if \<not> quantityAlignedToRange Q dflt r
                   then Some (RangeDefaultNotAligned name (q_string Q dflt))
                   else (case rangeMax r of
                           None \<Rightarrow> None
                         | Some m \<Rightarrow>
                             if \<not> quantityAlignedToRange Q m r
                             then Some (RangeMaximumNotAligned name (q_string Q m)) else None)))"

definition validateCapacityValidRange ::
  "'q quantity_api \<Rightarrow> string \<Rightarrow> 'q \<Rightarrow> 'q option \<Rightarrow> 'q CapacityRequestPolicyRange \<Rightarrow> capacity_error option" where
  "validateCapacityValidRange Q name tot dfltOpt r =
     (if rangeMin r = None then Some (RangeNoMinimum name)
      else case dfltOpt of
        None \<Rightarrow> Some (RangeNoDefault name)
      | Some dflt \<Rightarrow>
          (case validateCapacityRangeBounds Q name tot dflt r of
             Some err \<Rightarrow> Some err
           | None \<Rightarrow> validateCapacityRangeStep Q name tot dflt r))"

definition validateDeviceCapacityPolicy ::
  "'q quantity_api \<Rightarrow> string \<Rightarrow> 'q DeviceCapacity \<Rightarrow> capacity_error option" where
  "validateDeviceCapacityPolicy Q name capacity =
     (if q_sign Q (capValue capacity) < 0
      then Some (NegativeTotal name (q_string Q (capValue capacity)))
      else case requestPolicy capacity of
        None \<Rightarrow> None
      | Some policy \<Rightarrow>
          (if validValues policy \<noteq> [] \<and> validRange policy \<noteq> None then Some (BothValuesAndRange name)
           else if validValues policy \<noteq> []
           then validateCapacityValidValues Q name (capValue capacity) policy
           else case validRange policy of
             Some r \<Rightarrow> validateCapacityValidRange Q name (capValue capacity) (policyDefault policy) r
           | None \<Rightarrow>
               (case policyDefault policy of
                  None \<Rightarrow> None
                | Some dflt \<Rightarrow>
                    if q_sign Q dflt < 0 \<or> q_cmp Q dflt (capValue capacity) > 0
                    then Some (DefaultOutsideCapacity name (q_string Q dflt)) else None)))"

section \<open>What a request consumes\<close>

definition requestedCapacity :: "'q CapacityRequirements option \<Rightarrow> string \<Rightarrow> 'q option" where
  "requestedCapacity requirements name =
     (case requirements of None \<Rightarrow> None | Some requests \<Rightarrow> map_of requests name)"

definition consumedCapacityForRequest ::
  "'q quantity_api \<Rightarrow> 'q DeviceCapacity \<Rightarrow> 'q option \<Rightarrow> 'q option" where
  "consumedCapacityForRequest Q capacity requested =
     (case requested of
        None \<Rightarrow>
          (case requestPolicy capacity of
             None \<Rightarrow> Some (capValue capacity)
           | Some policy \<Rightarrow>
               (case policyDefault policy of Some d \<Rightarrow> Some d | None \<Rightarrow> Some (capValue capacity)))
      | Some req \<Rightarrow>
          (case requestPolicy capacity of
             None \<Rightarrow> Some req
           | Some policy \<Rightarrow>
               (if validValues policy \<noteq> [] then find (\<lambda>v. q_cmp Q req v \<le> 0) (validValues policy)
                else case validRange policy of
                  Some r \<Rightarrow> roundCapacityToValidRange Q req r
                | None \<Rightarrow> Some req)))"

definition capacityWouldBeExceeded ::
  "'q quantity_api \<Rightarrow> 'q \<Rightarrow> 'q \<Rightarrow> 'q \<Rightarrow> 'q \<Rightarrow> bool" where
  "capacityWouldBeExceeded Q tot committed pending additional =
     (q_cmp Q (q_add Q (q_add Q committed pending) additional) tot > 0)"

definition evaluateShareableCapacityEntry ::
  "'q quantity_api \<Rightarrow> string \<Rightarrow> 'q DeviceCapacity \<Rightarrow> 'q CapacityRequirements option \<Rightarrow>
   (string, 'q) gomap \<Rightarrow> (string, 'q) gomap \<Rightarrow> capacity_error + 'q option" where
  "evaluateShareableCapacityEntry Q name capacity requirements committed pending =
     (case validateDeviceCapacityPolicy Q name capacity of
        Some err \<Rightarrow> Inl err
      | None \<Rightarrow>
          (case consumedCapacityForRequest Q capacity (requestedCapacity requirements name) of
             None \<Rightarrow> Inr None
           | Some amount \<Rightarrow>
               (if capacityWouldBeExceeded Q (capValue capacity)
                     (gomap_get (q_zero Q) committed name) (gomap_get (q_zero Q) pending name) amount
                then Inr None else Inr (Some amount))))"

fun validateCapacityUsage ::
  "'q quantity_api \<Rightarrow> string \<Rightarrow> (string, 'q) gomap \<Rightarrow> (string, 'q DeviceCapacity) gomap \<Rightarrow>
   capacity_error option" where
  "validateCapacityUsage Q kind [] capacities = None"
| "validateCapacityUsage Q kind ((name, amount) # usage) capacities =
     (if q_sign Q amount < 0 then Some (NegativeUsage kind name (q_string Q amount))
      else if map_of capacities name = None then Some (UndefinedUsage kind name)
      else validateCapacityUsage Q kind usage capacities)"

fun checkCapacityRequests ::
  "'q quantity_api \<Rightarrow> 'q CapacityRequirements \<Rightarrow> (string, 'q DeviceCapacity) gomap \<Rightarrow>
   capacity_error + bool" where
  "checkCapacityRequests Q [] capacities = Inr True"
| "checkCapacityRequests Q ((name, requested) # requests) capacities =
     (if q_sign Q requested < 0 then Inl (NegativeRequested name (q_string Q requested))
      else if map_of capacities name = None then Inr False
      else checkCapacityRequests Q requests capacities)"

definition validateCapacityRequirements ::
  "'q quantity_api \<Rightarrow> 'q CapacityRequirements option \<Rightarrow> (string, 'q DeviceCapacity) gomap \<Rightarrow>
   capacity_error + bool" where
  "validateCapacityRequirements Q requirements capacities =
     (case requirements of
        None \<Rightarrow> Inr True
      | Some requests \<Rightarrow> checkCapacityRequests Q requests capacities)"

definition validateShareableCapacityInput ::
  "'q quantity_api \<Rightarrow> 'q CapacityRequirements option \<Rightarrow> (string, 'q DeviceCapacity) gomap \<Rightarrow>
   (string, 'q) gomap \<Rightarrow> (string, 'q) gomap \<Rightarrow> capacity_error + bool" where
  "validateShareableCapacityInput Q requirements capacities committed pending =
     (case validateCapacityUsage Q ''committed'' committed capacities of
        Some err \<Rightarrow> Inl err
      | None \<Rightarrow>
          (case validateCapacityUsage Q ''pending'' pending capacities of
             Some err \<Rightarrow> Inl err
           | None \<Rightarrow> validateCapacityRequirements Q requirements capacities))"

text \<open>The loop of \<^verbatim>\<open>evaluateShareableCapacity\<close> over \<^verbatim>\<open>capacities\<close>, in the order of the list.\<close>

fun evaluateShareableCapacityEntries ::
  "'q quantity_api \<Rightarrow> 'q CapacityRequirements option \<Rightarrow> (string, 'q) gomap \<Rightarrow> (string, 'q) gomap \<Rightarrow>
   (string, 'q DeviceCapacity) gomap \<Rightarrow> (string, 'q) gomap \<Rightarrow>
   capacity_error + (string, 'q) gomap option" where
  "evaluateShareableCapacityEntries Q requirements committed pending [] consumed = Inr (Some consumed)"
| "evaluateShareableCapacityEntries Q requirements committed pending ((name, capacity) # rest) consumed =
     (case evaluateShareableCapacityEntry Q name capacity requirements committed pending of
        Inl err \<Rightarrow> Inl err
      | Inr None \<Rightarrow> Inr None
      | Inr (Some amount) \<Rightarrow>
          evaluateShareableCapacityEntries Q requirements committed pending rest
            (gomap_put name amount consumed))"

definition evaluateShareableCapacity ::
  "'q quantity_api \<Rightarrow> 'q CapacityRequirements option \<Rightarrow> (string, 'q DeviceCapacity) gomap \<Rightarrow>
   (string, 'q) gomap \<Rightarrow> (string, 'q) gomap \<Rightarrow> capacity_error + (string, 'q) gomap option" where
  "evaluateShareableCapacity Q requirements capacities committed pending =
     (case validateShareableCapacityInput Q requirements capacities committed pending of
        Inl err \<Rightarrow> Inl err
      | Inr eligible \<Rightarrow>
          (if \<not> eligible then Inr None
           else evaluateShareableCapacityEntries Q requirements committed pending capacities []))"

section \<open>Exclusive devices\<close>

fun checkNonNegativeRequests ::
  "'q quantity_api \<Rightarrow> string \<Rightarrow> 'q CapacityRequirements \<Rightarrow> allocationFailure option" where
  "checkNonNegativeRequests Q requestName [] = None"
| "checkNonNegativeRequests Q requestName ((name, requested) # requests) =
     (if q_sign Q requested < 0
      then Some (unsupportedFailure (NegativeCapacity requestName (q_string Q requested) name))
      else checkNonNegativeRequests Q requestName requests)"

definition validateExclusiveCapacityRequirements ::
  "'q quantity_api \<Rightarrow> string \<Rightarrow> 'q CapacityRequirements option \<Rightarrow> allocationFailure option" where
  "validateExclusiveCapacityRequirements Q requestName requirements =
     (case requirements of
        None \<Rightarrow> None
      | Some requests \<Rightarrow> checkNonNegativeRequests Q requestName requests)"

fun checkExclusiveCapacities ::
  "'q quantity_api \<Rightarrow> string \<Rightarrow> (string, 'q DeviceCapacity) gomap \<Rightarrow> allocationFailure option" where
  "checkExclusiveCapacities Q deviceName [] = None"
| "checkExclusiveCapacities Q deviceName ((name, capacity) # rest) =
     (if requestPolicy capacity \<noteq> None then Some (unsupportedFailure (UnsupportedPolicy deviceName name))
      else if q_sign Q (capValue capacity) < 0
      then Some (unsupportedFailure
             (NegativeDeviceCapacity deviceName name (q_string Q (capValue capacity))))
      else checkExclusiveCapacities Q deviceName rest)"

fun exclusiveRequestsFit ::
  "'q quantity_api \<Rightarrow> (string, 'q DeviceCapacity) gomap \<Rightarrow> 'q CapacityRequirements \<Rightarrow> bool" where
  "exclusiveRequestsFit Q capacities [] = True"
| "exclusiveRequestsFit Q capacities ((name, requested) # requests) =
     (case map_of capacities name of
        None \<Rightarrow> False
      | Some capacity \<Rightarrow>
          (if q_cmp Q requested (capValue capacity) > 0 then False
           else exclusiveRequestsFit Q capacities requests))"

definition exclusiveCapacityMatches ::
  "'q quantity_api \<Rightarrow> 'q Device \<Rightarrow> 'q CapacityRequirements option \<Rightarrow> allocationFailure + bool" where
  "exclusiveCapacityMatches Q device requirements =
     (if allowMultipleAllocations device = Some True
      then Inl (unsupportedFailure (AllowsMultiple (devName device)))
      else case checkExclusiveCapacities Q (devName device) (devCapacity device) of
        Some failure \<Rightarrow> Inl failure
      | None \<Rightarrow>
          (case requirements of
             None \<Rightarrow> Inr True
           | Some requests \<Rightarrow> Inr (exclusiveRequestsFit Q (devCapacity device) requests)))"

section \<open>What a request is owed\<close>

text \<open>
  \<open>coversRequest\<close>: an amount consumed of a capacity is at least what the request asks for, for amounts up to the largest \<^verbatim>\<open>int64\<close>;
  without a request it is the policy's default, or else the whole capacity. \<open>requestFits\<close>: an exclusive device has all that is asked for.
\<close>

definition coversRequest :: "('q \<Rightarrow> rat) \<Rightarrow> 'q CapacityRequirements option \<Rightarrow> string \<Rightarrow> 'q DeviceCapacity \<Rightarrow> 'q \<Rightarrow> bool" where
  "coversRequest den requirements name capacity amount \<longleftrightarrow>
     (case Option.bind requirements (\<lambda>requests. map_of requests name) of
        Some requested \<Rightarrow>
          den requested \<le> of_int max_int64 \<and> den (capValue capacity) \<le> of_int max_int64 \<longrightarrow> den requested \<le> den amount
      | None \<Rightarrow> amount = (case Option.bind (requestPolicy capacity) policyDefault of Some d \<Rightarrow> d | None \<Rightarrow> capValue capacity))"

definition requestFits :: "('q \<Rightarrow> rat) \<Rightarrow> 'q CapacityRequirements option \<Rightarrow> (string, 'q DeviceCapacity) gomap \<Rightarrow> bool" where
  "requestFits den requirements capacities \<longleftrightarrow>
     (case requirements of
        None \<Rightarrow> True
      | Some requests \<Rightarrow> list_all (\<lambda>(name, requested). \<exists>capacity. map_of capacities name = Some capacity \<and>
          den requested \<le> den (capValue capacity)) requests)"

section \<open>Rounding to a range\<close>

text \<open>
  \<open>rangeAligned r m s v\<close>: \<open>v\<close> is \<open>m\<close> plus a number of steps \<open>s\<close>. \<open>belowMax\<close> is the upper bound of the
  range, if it has one.
\<close>

definition rangeAligned :: "int \<Rightarrow> int \<Rightarrow> int \<Rightarrow> bool" where
  "rangeAligned m s v \<longleftrightarrow> m \<le> v \<and> (v - m) mod s = 0"

definition belowMax :: "('q \<Rightarrow> rat) \<Rightarrow> 'q CapacityRequestPolicyRange \<Rightarrow> int \<Rightarrow> bool" where
  "belowMax den r v \<longleftrightarrow> (case rangeMax r of None \<Rightarrow> True | Some m \<Rightarrow> of_int v \<le> den m)"

text \<open>The least aligned value that is at least \<open>x\<close>.\<close>

definition ceilAligned :: "int \<Rightarrow> int \<Rightarrow> int \<Rightarrow> int" where
  "ceilAligned m s x = m + ((x - m) div s + (if (x - m) mod s \<noteq> 0 then 1 else 0)) * s"

lemma ceilAligned_ge:
  assumes "0 < s"
  shows "x \<le> ceilAligned m s x"
proof -
  have "(x - m) div s * s = x - m - (x - m) mod s" by (simp add: minus_mod_eq_div_mult)
  moreover have "(x - m) mod s < s" using assms by simp
  ultimately show ?thesis unfolding ceilAligned_def distrib_right by auto
qed

lemma ceilAligned_less:
  assumes "0 < s"
  shows "ceilAligned m s x < x + s"
proof -
  have "(x - m) div s * s = x - m - (x - m) mod s" by (simp add: minus_mod_eq_div_mult)
  moreover have "0 \<le> (x - m) mod s" using assms by simp
  moreover have "0 < (x - m) mod s \<or> (x - m) mod s = 0" using calculation(2) by auto
  ultimately show ?thesis using assms unfolding ceilAligned_def distrib_right by auto
qed

lemma ceilAligned_aligned: "0 < s \<Longrightarrow> m \<le> x \<Longrightarrow> rangeAligned m s (ceilAligned m s x)"
  using ceilAligned_ge [of s x m] by (simp add: rangeAligned_def ceilAligned_def)

lemma ceilAligned_least:
  assumes "0 < s" and "rangeAligned m s w" and "x \<le> w"
  shows "ceilAligned m s x \<le> w"
proof -
  obtain j where j: "w - m = s * j" using assms(2) by (auto simp: rangeAligned_def mod_eq_0_iff_dvd dvd_def)
  obtain k where k: "ceilAligned m s x - m = s * k" unfolding ceilAligned_def by (metis add_diff_cancel_left' mult.commute)
  have "ceilAligned m s x < w + s" using ceilAligned_less [OF assms(1), of m x] assms(3) by simp
  then have "s * k < s * (j + 1)" using j k by (simp add: algebra_simps)
  then have "k \<le> j" using assms(1) by (simp add: mult_less_cancel_left)
  then have "s * k \<le> s * j" using assms(1) by simp
  then show ?thesis using j k by simp
qed

context quantity
begin

lemma within_range_iff:
  "rangeMin r = Some mn \<Longrightarrow> quantityWithinRange Q v r \<longleftrightarrow>
     den mn \<le> den v \<and> (case rangeMax r of None \<Rightarrow> True | Some m \<Rightarrow> den v \<le> den m)"
  by (auto simp: quantityWithinRange_def not_less split: option.splits)

lemma within_range_new:
  assumes "rangeMin r = Some mn" and "0 \<le> den mn" and "den mn \<le> of_int v" and "v < 2 ^ 64"
  shows "quantityWithinRange Q (q_new Q (word_of_int v)) r \<longleftrightarrow> v \<le> max_int64 \<and> belowMax den r v"
proof -
  have v0: "0 \<le> v" using assms(2,3) by linarith
  show ?thesis
  proof (cases "v < 2 ^ 63")
    case True
    then have "sint (word_of_int v :: int64) = v" using v0 by (simp add: sint_word_of_int64 sint_wrap_id)
    then show ?thesis using True assms(1,3)
      by (auto simp: within_range_iff belowMax_def max_int64_def split: option.splits)
  next
    case False
    then have "sint (word_of_int v :: int64) = v - 2 ^ 64"
      using assms(4) by (simp add: sint_word_of_int64 sint_wrap_overflow)
    then have "sint (word_of_int v :: int64) < 0" using assms(4) by simp
    then have "(of_int (sint (word_of_int v :: int64)) :: rat) < 0" unfolding of_int_less_0_iff .
    then show ?thesis using False assms(1,2)
      by (auto simp: within_range_iff max_int64_def)
  qed
qed

lemma round_eq:
  assumes "rangeMin r = Some mn" and "rangeStep r = Some st"
    and "0 \<le> den mn" and "den mn \<le> den req" and "den req \<le> of_int max_int64"
    and "0 < den st" and "den st \<le> of_int max_int64"
  shows "roundCapacityToValidRange Q req r =
    (let v = ceilAligned \<lceil>den mn\<rceil> \<lceil>den st\<rceil> \<lceil>den req\<rceil>
     in if v \<le> max_int64 \<and> belowMax den r v then Some (q_new Q (word_of_int v)) else None)"
proof -
  let ?m = "\<lceil>den mn\<rceil>" and ?s = "\<lceil>den st\<rceil>" and ?x = "\<lceil>den req\<rceil>"
  let ?v = "ceilAligned ?m ?s ?x"
  have m: "sint (q_value Q mn) = ?m" using assms by (simp add: value_eq)
  have s: "sint (q_value Q st) = ?s" using assms by (simp add: value_eq)
  have x: "sint (q_value Q req) = ?x" using assms by (simp add: value_eq)
  have bounds: "0 \<le> ?m" "?m \<le> ?x" "?x < 2 ^ 63" "0 < ?s" "?s < 2 ^ 63"
  proof -
    show "0 \<le> ?m" using assms(3) by linarith
    show "?m \<le> ?x" using assms(4) by (rule ceiling_mono)
    show "0 < ?s" using assms(6) by linarith
    have "?x \<le> max_int64" using assms(5) by linarith
    then show "?x < 2 ^ 63" by (simp add: max_int64_def)
    have "?s \<le> max_int64" using assms(7) by linarith
    then show "?s < 2 ^ 63" by (simp add: max_int64_def)
  qed
  have d: "sint (q_value Q req - q_value Q mn) = ?x - ?m"
    unfolding sint64_diff m x using bounds by (intro sint_wrap_id) linarith+
  have rem: "int64_rem (q_value Q req - q_value Q mn) (q_value Q st) = word_of_int ((?x - ?m) mod ?s)"
    using bounds by (subst int64_rem_nonneg) (simp_all add: d s)
  have "(?x - ?m) mod ?s < 2 ^ 63"
    using bounds(4,5) by (meson less_trans pos_mod_bound)
  then have rem0: "int64_rem (q_value Q req - q_value Q mn) (q_value Q st) \<noteq> 0 \<longleftrightarrow> (?x - ?m) mod ?s \<noteq> 0"
    unfolding rem using bounds(4) by (subst word_of_int64_eq_0) simp_all
  have quot: "int64_quot (q_value Q req - q_value Q mn) (q_value Q st) = word_of_int ((?x - ?m) div ?s)"
    using bounds by (subst int64_quot_nonneg) (simp_all add: d s)
  have words: "q_value Q mn = word_of_int ?m" "q_value Q st = word_of_int ?s"
    using m s by (metis int64_of_sint)+
  have rounded: "q_value Q mn + (if int64_rem (q_value Q req - q_value Q mn) (q_value Q st) \<noteq> 0
      then int64_quot (q_value Q req - q_value Q mn) (q_value Q st) + 1
      else int64_quot (q_value Q req - q_value Q mn) (q_value Q st)) * q_value Q st = word_of_int ?v"
    unfolding rem0 quot unfolding words ceilAligned_def by simp
  have "?v < 2 ^ 64"
    using ceilAligned_less [OF bounds(4), of ?m ?x] bounds(3,5) add_strict_mono [OF bounds(3,5)] by simp
  moreover have "den mn \<le> of_int ?v"
    using ceilAligned_ge [OF bounds(4), of ?x ?m] bounds(2) by linarith
  ultimately have within: "quantityWithinRange Q (q_new Q (word_of_int ?v)) r \<longleftrightarrow> ?v \<le> max_int64 \<and> belowMax den r ?v"
    by (rule within_range_new [OF assms(1,3), rotated])
  show ?thesis
    using assms(4)
    unfolding roundCapacityToValidRange_def Let_def assms(1,2) option.sel option.case rounded within
    by (simp add: not_less [symmetric])
qed

section \<open>What validation establishes\<close>

text \<open>
  \<open>policy_wf\<close>: the shape of a capacity that passed validation. A range has its minimum, so reading it
  is defined, and its step is at least one unit, so dividing by it is defined.
\<close>

lemma policy_range_wf:
  assumes "validateDeviceCapacityPolicy Q name cap = None" and "requestPolicy cap = Some p"
    and "validRange p = Some r"
  obtains mn where "rangeMin r = Some mn" "0 \<le> den mn" "den mn \<le> den (capValue cap)"
    "\<And>st. rangeStep r = Some st \<Longrightarrow> 0 < den st \<and> den mn + den st \<le> den (capValue cap)"
    "\<And>mx. rangeMax r = Some mx \<Longrightarrow> den mn \<le> den mx \<and> den mx \<le> den (capValue cap)"
    "\<exists>d. policyDefault p = Some d \<and> quantityWithinRange Q d r"
proof -
  have bounds: "rangeMin r \<noteq> None" "\<exists>d. policyDefault p = Some d
      \<and> validateCapacityRangeBounds Q name (capValue cap) d r = None
      \<and> validateCapacityRangeStep Q name (capValue cap) d r = None"
    using assms by (auto simp: validateDeviceCapacityPolicy_def validateCapacityValidRange_def
        split: if_splits option.splits)
  then obtain mn d where mn: "rangeMin r = Some mn" and d: "policyDefault p = Some d"
    and b: "validateCapacityRangeBounds Q name (capValue cap) d r = None"
    and st: "validateCapacityRangeStep Q name (capValue cap) d r = None"
    by auto
  show ?thesis
  proof
    show "rangeMin r = Some mn" by (rule mn)
    show "0 \<le> den mn" "den mn \<le> den (capValue cap)"
      using b mn by (auto simp: validateCapacityRangeBounds_def split: if_splits)
    show "0 < den x \<and> den mn + den x \<le> den (capValue cap)" if "rangeStep r = Some x" for x
      using st mn that by (auto simp: validateCapacityRangeStep_def Let_def split: if_splits)
    show "den mn \<le> den x \<and> den x \<le> den (capValue cap)" if "rangeMax r = Some x" for x
      using b mn that by (auto simp: validateCapacityRangeBounds_def split: if_splits)
    show "\<exists>d. policyDefault p = Some d \<and> quantityWithinRange Q d r"
      using b d by (auto simp: validateCapacityRangeBounds_def split: if_splits)
  qed
qed

lemma checkValidValues_bounds:
  "checkValidValues Q name t dflt prev found vs = None \<Longrightarrow> v \<in> set vs \<Longrightarrow>
     0 \<le> den v \<and> den v \<le> den t"
  by (induction vs arbitrary: prev found) (auto split: if_splits)

lemma checkValidValues_sorted:
  "checkValidValues Q name t dflt prev found vs = None \<Longrightarrow>
     sorted_wrt (\<lambda>a b. den a < den b) (case prev of None \<Rightarrow> vs | Some p \<Rightarrow> p # vs)"
proof (induction vs arbitrary: prev found)
  case (Cons v vs)
  from Cons.prems have "checkValidValues Q name t dflt (Some v) (found \<or> q_cmp Q v dflt = 0) vs = None"
    and prev: "\<forall>p. prev = Some p \<longrightarrow> den p < den v"
    by (auto split: if_splits option.splits)
  from Cons.IH [OF this(1)] have "sorted_wrt (\<lambda>a b. den a < den b) (v # vs)" by simp
  with prev show ?case by (auto split: option.splits intro: less_trans)
qed (simp split: option.splits)

lemma policy_values_wf:
  assumes "validateDeviceCapacityPolicy Q name cap = None" and "requestPolicy cap = Some p"
    and "validValues p \<noteq> []"
  shows "sorted_wrt (\<lambda>a b. den a < den b) (validValues p)"
    and "v \<in> set (validValues p) \<Longrightarrow> 0 \<le> den v \<and> den v \<le> den (capValue cap)"
proof -
  obtain d where "checkValidValues Q name (capValue cap) d None False (validValues p) = None"
    using assms by (auto simp: validateDeviceCapacityPolicy_def validateCapacityValidValues_def
        split: if_splits option.splits)
  from checkValidValues_sorted [OF this] checkValidValues_bounds [OF this]
  show "sorted_wrt (\<lambda>a b. den a < den b) (validValues p)"
    and "v \<in> set (validValues p) \<Longrightarrow> 0 \<le> den v \<and> den v \<le> den (capValue cap)"
    by simp_all
qed

lemma policy_default_wf:
  assumes "validateDeviceCapacityPolicy Q name cap = None" and "requestPolicy cap = Some p"
    and "policyDefault p = Some d"
  shows "0 \<le> den d"
proof (cases "validRange p")
  case None
  show ?thesis
  proof (cases "validValues p = []")
    case True
    with assms None show ?thesis
      by (auto simp: validateDeviceCapacityPolicy_def split: if_splits)
  next
    case False
    have found: "found \<or> (\<exists>v \<in> set vs. den v = den d)"
      if "checkValidValues Q name t d prev found vs = None" for t prev found vs
      using that by (induction vs arbitrary: prev found) (auto split: if_splits)
    from assms None False
    have "checkValidValues Q name (capValue cap) d None False (validValues p) = None"
      by (auto simp: validateDeviceCapacityPolicy_def validateCapacityValidValues_def
          split: if_splits)
    from found [OF this] checkValidValues_bounds [OF this] show ?thesis by fastforce
  qed
next
  case (Some r)
  from policy_range_wf [OF assms(1,2) Some] assms(3) show ?thesis
    by (metis option.inject order_trans within_range_iff)
qed

lemma policy_total_wf: "validateDeviceCapacityPolicy Q name cap = None \<Longrightarrow> 0 \<le> den (capValue cap)"
  by (auto simp: validateDeviceCapacityPolicy_def split: if_splits)

lemma round_ge_min:
  assumes "rangeMin r = Some mn" and "roundCapacityToValidRange Q req r = Some q"
  shows "den mn \<le> den q"
  using assms by (auto simp: roundCapacityToValidRange_def Let_def within_range_iff
      split: if_splits option.splits)

lemma consumed_nonneg:
  assumes "validateDeviceCapacityPolicy Q name cap = None"
    and "\<And>r. requested = Some r \<Longrightarrow> 0 \<le> den r"
    and "consumedCapacityForRequest Q cap requested = Some a"
  shows "0 \<le> den a"
proof (cases "requestPolicy cap")
  case None
  with assms policy_total_wf [OF assms(1)] show ?thesis
    by (auto simp: consumedCapacityForRequest_def split: option.splits)
next
  case (Some p)
  show ?thesis
  proof (cases requested)
    case None
    with assms(1,3) Some policy_total_wf [OF assms(1)] policy_default_wf [OF assms(1) Some] show ?thesis
      by (auto simp: consumedCapacityForRequest_def split: option.splits)
  next
    case (Some req)
    note req = this
    show ?thesis
    proof (cases "validValues p = []")
      case False
      with assms(3) req \<open>requestPolicy cap = Some p\<close> have "a \<in> set (validValues p)"
        by (auto simp: consumedCapacityForRequest_def find_Some_iff)
      then show ?thesis using policy_values_wf(2) [OF assms(1) \<open>requestPolicy cap = Some p\<close> False] by blast
    next
      case True
      show ?thesis
      proof (cases "validRange p")
        case None
        with assms(2,3) req True \<open>requestPolicy cap = Some p\<close> show ?thesis
          by (auto simp: consumedCapacityForRequest_def)
      next
        case (Some r)
        obtain mn where mn: "rangeMin r = Some mn" "0 \<le> den mn"
          using policy_range_wf [OF assms(1) \<open>requestPolicy cap = Some p\<close> Some] by metis
        have "roundCapacityToValidRange Q req r = Some a"
          using assms(3) req True Some \<open>requestPolicy cap = Some p\<close>
          by (auto simp: consumedCapacityForRequest_def)
        from round_ge_min [OF mn(1) this] mn(2) show ?thesis by simp
      qed
    qed
  qed
qed

lemma entry_Some_iff:
  "evaluateShareableCapacityEntry Q n cap req committed pending = Inr (Some a) \<longleftrightarrow>
     validateDeviceCapacityPolicy Q n cap = None \<and>
     consumedCapacityForRequest Q cap (requestedCapacity req n) = Some a \<and>
     den (gomap_get (q_zero Q) committed n) + den (gomap_get (q_zero Q) pending n) + den a
       \<le> den (capValue cap)"
  by (auto simp: evaluateShareableCapacityEntry_def capacityWouldBeExceeded_def
      split: option.splits if_splits)

lemma checkCapacityRequests_nonneg:
  "checkCapacityRequests Q reqs caps = Inr b \<Longrightarrow> b \<Longrightarrow> map_of reqs n = Some r \<Longrightarrow> 0 \<le> den r"
  by (induction reqs) (auto split: if_splits)

lemma consumed_values_least:
  assumes "validateDeviceCapacityPolicy Q name cap = None" and "requestPolicy cap = Some p"
    and "validValues p \<noteq> []" and "consumedCapacityForRequest Q cap (Some req) = Some a"
  shows "a \<in> set (validValues p)" and "den req \<le> den a"
    and "v \<in> set (validValues p) \<Longrightarrow> den req \<le> den v \<Longrightarrow> den a \<le> den v"
proof -
  let ?vs = "validValues p"
  have sorted: "sorted_wrt (\<lambda>a b. den a < den b) ?vs" by (rule policy_values_wf(1) [OF assms(1-3)])
  have "find (\<lambda>v. q_cmp Q req v \<le> 0) ?vs = Some a"
    using assms(2-4) by (simp add: consumedCapacityForRequest_def)
  then obtain i where i: "i < length ?vs" "a = ?vs ! i" "den req \<le> den a"
    and before: "\<And>j. j < i \<Longrightarrow> \<not> den req \<le> den (?vs ! j)"
    by (auto simp: find_Some_iff)
  show "a \<in> set ?vs" "den req \<le> den a" using i by auto
  assume v: "v \<in> set ?vs" "den req \<le> den v"
  then obtain j where j: "j < length ?vs" "v = ?vs ! j" by (auto simp: in_set_conv_nth)
  have "i \<le> j" using before [of j] v j by fastforce
  then show "den a \<le> den v" using sorted_wrt_nth_less [OF sorted, of i j] i j
    by (cases "i = j") auto
qed

lemma round_covers:
  assumes "rangeMin r = Some mn" and "0 \<le> den mn" and "\<And>st. rangeStep r = Some st \<Longrightarrow> 0 < den st \<and> den st \<le> of_int max_int64"
    and "den req \<le> of_int max_int64" and "roundCapacityToValidRange Q req r = Some q"
  shows "den req \<le> den q"
proof (cases "den req < den mn")
  case True
  then show ?thesis using round_ge_min [OF assms(1,5)] by simp
next
  case False
  show ?thesis
  proof (cases "rangeStep r")
    case None
    with assms(1,5) False show ?thesis by (auto simp: roundCapacityToValidRange_def split: if_splits)
  next
    case (Some st)
    let ?v = "ceilAligned \<lceil>den mn\<rceil> \<lceil>den st\<rceil> \<lceil>den req\<rceil>"
    have st: "0 < den st" "den st \<le> of_int max_int64" using assms(3) [OF Some] by auto
    have q: "?v \<le> max_int64" "q = q_new Q (word_of_int ?v)"
      using round_eq [OF assms(1) Some assms(2) _ assms(4) st] False assms(5) by (auto simp: Let_def split: if_splits)
    have "0 < \<lceil>den st\<rceil>" using st(1) by linarith
    then have ge: "\<lceil>den req\<rceil> \<le> ?v" by (rule ceilAligned_ge)
    with False assms(2) have "0 \<le> ?v" by linarith
    with q(1) have "sint (word_of_int ?v :: int64) = ?v" by (simp add: sint_word_of_int64 sint_wrap_id max_int64_def)
    then have "den q = of_int ?v" by (simp only: q(2) den_new)
    with ge show ?thesis by linarith
  qed
qed

lemma consumed_covers:
  assumes "validateDeviceCapacityPolicy Q name cap = None"
    and "consumedCapacityForRequest Q cap (Some req) = Some a"
    and "den req \<le> of_int max_int64" and "den (capValue cap) \<le> of_int max_int64"
  shows "den req \<le> den a"
proof (cases "requestPolicy cap")
  case None
  with assms(2) show ?thesis by (simp add: consumedCapacityForRequest_def)
next
  case (Some p)
  note policy = this
  show ?thesis
  proof (cases "validValues p = []")
    case False
    show ?thesis by (rule consumed_values_least(2) [OF assms(1) policy False assms(2)])
  next
    case True
    show ?thesis
    proof (cases "validRange p")
      case None
      with assms(2) policy True show ?thesis by (simp add: consumedCapacityForRequest_def)
    next
      case (Some r)
      with assms(2) policy True have round: "roundCapacityToValidRange Q req r = Some a"
        by (simp add: consumedCapacityForRequest_def)
      show ?thesis
      proof (rule policy_range_wf [OF assms(1) policy Some])
        fix mn assume mn: "rangeMin r = Some mn" "0 \<le> den mn"
          and step: "\<And>st. rangeStep r = Some st \<Longrightarrow> 0 < den st \<and> den mn + den st \<le> den (capValue cap)"
        have "0 < den st \<and> den st \<le> of_int max_int64" if "rangeStep r = Some st" for st
          using step [OF that] mn(2) assms(4) by linarith
        from round_covers [OF mn this assms(3) round] show ?thesis .
      qed
    qed
  qed
qed

lemma consumed_coversRequest:
  assumes "validateDeviceCapacityPolicy Q name cap = None"
    and "consumedCapacityForRequest Q cap (requestedCapacity requirements name) = Some a"
  shows "coversRequest den requirements name cap a"
proof (cases "requestedCapacity requirements name")
  case None
  then have "Option.bind requirements (\<lambda>requests. map_of requests name) = None"
    by (auto simp: requestedCapacity_def split: option.splits)
  with assms(2) None show ?thesis
    by (auto simp: coversRequest_def consumedCapacityForRequest_def split: option.splits)
next
  case (Some req)
  then have "Option.bind requirements (\<lambda>requests. map_of requests name) = Some req"
    by (auto simp: requestedCapacity_def split: option.splits)
  with assms consumed_covers [OF assms(1), of req a] Some show ?thesis by (simp add: coversRequest_def)
qed

lemma exclusiveCapacityMatches_fits:
  assumes "exclusiveCapacityMatches Q device requirements = Inr True"
  shows "requestFits den requirements (devCapacity device)"
proof -
  have "list_all (\<lambda>(name, requested). \<exists>capacity. map_of capacities name = Some capacity \<and> den requested \<le> den (capValue capacity)) requests"
    if "exclusiveRequestsFit Q capacities requests" for capacities requests
    using that by (induction requests) (auto split: option.splits if_splits)
  with assms show ?thesis by (auto simp: exclusiveCapacityMatches_def requestFits_def split: if_splits option.splits)
qed

end

text \<open>What the loop over the capacities collects.\<close>

lemma evaluateShareableCapacityEntries_Some:
  assumes "evaluateShareableCapacityEntries Q req committed pending caps acc = Inr (Some out)"
    and "gomap_wf caps"
  shows "case map_of caps n of
      None \<Rightarrow> map_of out n = map_of acc n
    | Some cap \<Rightarrow> (\<exists>a. map_of out n = Some a \<and>
        evaluateShareableCapacityEntry Q n cap req committed pending = Inr (Some a))"
  using assms
proof (induction caps arbitrary: acc)
  case (Cons entry caps)
  obtain k cap where entry: "entry = (k, cap)" by (cases entry)
  from Cons.prems(1) entry obtain a where
    a: "evaluateShareableCapacityEntry Q k cap req committed pending = Inr (Some a)"
    and rest: "evaluateShareableCapacityEntries Q req committed pending caps (gomap_put k a acc)
      = Inr (Some out)"
    by (auto split: sum.splits option.splits)
  have "k \<notin> gomap_keys caps" and wf: "gomap_wf caps" using Cons.prems(2) entry by auto
  then have "map_of caps k = None" by (auto simp: gomap_keys_dom)
  with Cons.IH [OF rest wf] a entry show ?case by (cases "n = k") (auto split: option.splits)
qed simp

lemma evaluateShareableCapacityEntries_wf:
  "evaluateShareableCapacityEntries Q req committed pending caps acc = Inr (Some out) \<Longrightarrow>
     gomap_wf acc \<Longrightarrow> gomap_wf out"
  by (induction Q req committed pending caps acc rule: evaluateShareableCapacityEntries.induct)
    (auto split: sum.splits option.splits)

lemma evaluateShareableCapacity_SomeD:
  assumes "evaluateShareableCapacity Q req caps committed pending = Inr (Some out)"
    and "gomap_wf caps"
  shows "gomap_wf out" and "gomap_keys out = gomap_keys caps"
    and "map_of caps n = Some cap \<Longrightarrow> \<exists>a. map_of out n = Some a \<and>
        evaluateShareableCapacityEntry Q n cap req committed pending = Inr (Some a)"
    and "req = Some reqs \<Longrightarrow> checkCapacityRequests Q reqs caps = Inr True"
proof -
  from assms(1) have run: "evaluateShareableCapacityEntries Q req committed pending caps [] = Inr (Some out)"
    and input: "validateShareableCapacityInput Q req caps committed pending = Inr True"
    by (auto simp: evaluateShareableCapacity_def split: sum.splits if_splits)
  note entries = evaluateShareableCapacityEntries_Some [OF run assms(2)]
  show "gomap_wf out" using evaluateShareableCapacityEntries_wf [OF run] by simp
  show "map_of caps n = Some cap \<Longrightarrow> \<exists>a. map_of out n = Some a \<and>
        evaluateShareableCapacityEntry Q n cap req committed pending = Inr (Some a)"
    using entries [of n] by simp
  have "k \<in> dom (map_of out) \<longleftrightarrow> k \<in> dom (map_of caps)" for k
    using entries [of k] by (cases "map_of caps k") auto
  then show "gomap_keys out = gomap_keys caps" unfolding gomap_keys_dom by blast
  show "req = Some reqs \<Longrightarrow> checkCapacityRequests Q reqs caps = Inr True"
    using input by (auto simp: validateShareableCapacityInput_def validateCapacityRequirements_def
        split: option.splits)
qed

text \<open>
  With valid policies no entry is an error, and the loop returns \<open>None\<close> exactly when some entry does
  not fit.
\<close>

lemma evaluateShareableCapacityEntries_valid:
  assumes "\<forall>(n, cap) \<in> set caps. validateDeviceCapacityPolicy Q n cap = None"
  shows "evaluateShareableCapacityEntries Q req committed pending caps acc = Inr None
      \<and> (\<exists>(n, cap) \<in> set caps. evaluateShareableCapacityEntry Q n cap req committed pending = Inr None)
    \<or> (\<exists>out. evaluateShareableCapacityEntries Q req committed pending caps acc = Inr (Some out))
      \<and> (\<forall>(n, cap) \<in> set caps. evaluateShareableCapacityEntry Q n cap req committed pending \<noteq> Inr None)"
  using assms
proof (induction caps arbitrary: acc)
  case (Cons entry caps)
  obtain k cap where entry: "entry = (k, cap)" by (cases entry)
  have "evaluateShareableCapacityEntry Q k cap req committed pending \<noteq> Inl err" for err
    using Cons.prems entry by (auto simp: evaluateShareableCapacityEntry_def split: option.splits)
  then consider "evaluateShareableCapacityEntry Q k cap req committed pending = Inr None"
    | a where "evaluateShareableCapacityEntry Q k cap req committed pending = Inr (Some a)"
    by (metis old.sum.exhaust option.exhaust)
  then show ?case
  proof cases
    case 1
    then show ?thesis using entry by auto
  next
    case (2 a)
    with Cons.IH [of "gomap_put k a acc"] Cons.prems entry show ?thesis by auto
  qed
qed simp

context quantity
begin

lemma shareable_entry_bound:
  assumes "gomap_wf capacities"
    and "evaluateShareableCapacity Q requirements capacities committed pending = Inr (Some consumed)"
    and "(name, capacity) \<in> set capacities"
  shows "\<exists>amount. map_of consumed name = Some amount \<and> 0 \<le> den amount \<and> coversRequest den requirements name capacity amount \<and>
    den (gomap_get (q_zero Q) committed name) + den (gomap_get (q_zero Q) pending name) + den amount
      \<le> den (capValue capacity)"
proof -
  note run = evaluateShareableCapacity_SomeD [OF assms(2,1)]
  have "map_of capacities name = Some capacity" using assms(1,3) by (simp add: map_of_wf_iff)
  then obtain a where a: "map_of consumed name = Some a"
    and entry: "evaluateShareableCapacityEntry Q name capacity requirements committed pending = Inr (Some a)"
    using run(3) by blast
  note parts = entry [unfolded entry_Some_iff]
  have "0 \<le> den r" if "requestedCapacity requirements name = Some r" for r
    using that run(4) checkCapacityRequests_nonneg
    by (auto simp: requestedCapacity_def split: option.splits)
  with parts have "0 \<le> den a" using consumed_nonneg by blast
  with a parts consumed_coversRequest [of name capacity requirements a] show ?thesis by blast
qed

end

lemma checkCapacityRequests_keys:
  "checkCapacityRequests Q requests capacities = Inr True \<Longrightarrow> fst ` set requests \<subseteq> gomap_keys capacities"
proof (induction requests)
  case (Cons entry requests)
  then show ?case by (cases entry) (simp add: gomap_keys_dom domIff split: if_splits)
qed simp

section \<open>Properties\<close>

text \<open>
  C4. Consumption on a shared device never exceeds its capacity: when
  \<^verbatim>\<open>evaluateShareableCapacity\<close> accepts a device, it reports an amount for every capacity of the
  device and for no other name, no amount is negative, and committed, pending and new consumption
  together stay within the capacity. The consumption covers the request: everything that is requested is a
  capacity of the device and, for amounts up to the largest \<^verbatim>\<open>int64\<close>, the amount consumed is at least the
  amount requested; of a capacity without a request, the default of its policy or all of it is consumed.
\<close>

theorem evaluateShareableCapacity_sound:
  assumes "quantity_laws Q den" and "gomap_wf capacities"
    and "evaluateShareableCapacity Q requirements capacities committed pending = Inr (Some consumed)"
  shows "gomap_keys consumed = gomap_keys capacities \<and>
    fst ` set (case requirements of None \<Rightarrow> [] | Some requests \<Rightarrow> requests) \<subseteq> gomap_keys capacities \<and>
    (\<forall>(name, capacity) \<in> set capacities. \<exists>amount. map_of consumed name = Some amount \<and> 0 \<le> den amount \<and>
       coversRequest den requirements name capacity amount \<and>
       den (gomap_get (q_zero Q) committed name) + den (gomap_get (q_zero Q) pending name) + den amount
         \<le> den (capValue capacity))"
proof -
  have quantity: "quantity Q den" by (rule quantity.intro) (rule assms(1))
  from evaluateShareableCapacity_SomeD(2) [OF assms(3,2)]
    quantity.shareable_entry_bound [OF quantity assms(2,3)]
    evaluateShareableCapacity_SomeD(4) [OF assms(3,2)] checkCapacityRequests_keys
  show ?thesis by (cases requirements) (simp, blast, simp, blast)
qed

text \<open>
  Above the range of \<^verbatim>\<open>int64\<close> the rounding does not cover a request: \<^verbatim>\<open>Value\<close> of a quantity that large keeps its low bits, so a
  request for 16Ei against steps of 4 from 0 is served with nothing.
\<close>

lemma large_request_uncovered:
  "roundCapacityToValidRange exact_quantity (2 ^ 64) \<lparr>rangeMin = Some 0, rangeMax = None, rangeStep = Some 4\<rparr> = Some 0"
  by (simp add: roundCapacityToValidRange_def quantityWithinRange_def exact_quantity_def int64_quot_def int64_rem_def)

text \<open>
  A device with capacity 10 and steps of 4 from 2, of which 4 are in use: a request for 3 consumes 6.
\<close>

definition exampleRange :: "rat CapacityRequestPolicyRange" where
  "exampleRange = \<lparr>rangeMin = Some 2, rangeMax = None, rangeStep = Some 4\<rparr>"

definition exampleCapacity :: "rat DeviceCapacity" where
  "exampleCapacity =
     \<lparr>capValue = 10,
      requestPolicy = Some \<lparr>policyDefault = Some 2, validValues = [], validRange = Some exampleRange\<rparr>\<rparr>"

lemma example_round: "roundCapacityToValidRange exact_quantity 3 exampleRange = Some 6"
  by (subst exact.round_eq [of _ 2 4])
    (simp_all add: exampleRange_def exact_quantity_def max_int64_def belowMax_def ceilAligned_def)

lemma example_validate: "validateDeviceCapacityPolicy exact_quantity ''m'' exampleCapacity = None"
  by (simp add: validateDeviceCapacityPolicy_def exampleCapacity_def exampleRange_def
      validateCapacityValidRange_def validateCapacityRangeBounds_def validateCapacityRangeStep_def
      quantityWithinRange_def quantityAlignedToRange_def exact_quantity_def int64_rem_def)

lemma example_evaluate:
  "evaluateShareableCapacity exact_quantity (Some [(''m'', 3)]) [(''m'', exampleCapacity)] [(''m'', 4)] []
     = Inr (Some [(''m'', 6)])"
proof -
  have entry: "evaluateShareableCapacityEntry exact_quantity ''m'' exampleCapacity (Some [(''m'', 3)]) [(''m'', 4)] []
      = Inr (Some 6)"
    by (subst exact.entry_Some_iff)
      (simp add: example_validate, simp add: consumedCapacityForRequest_def requestedCapacity_def
        exampleCapacity_def example_round gomap_get_def)
  show ?thesis
    by (simp add: evaluateShareableCapacity_def validateShareableCapacityInput_def entry
        validateCapacityRequirements_def gomap_put_def)
qed

theorem evaluateShareableCapacity_sound_witness:
  "quantity_laws exact_quantity (\<lambda>a. a) \<and> gomap_wf [(''m'', exampleCapacity)] \<and>
   gomap_keys [(''m'', 6 :: rat)] = gomap_keys [(''m'', exampleCapacity)] \<and>
   coversRequest (\<lambda>a. a) (Some [(''m'', 3)]) ''m'' exampleCapacity 6 \<and>
   gomap_get 0 [(''m'', 4 :: rat)] ''m'' + 6 \<le> capValue exampleCapacity"
  using evaluateShareableCapacity_sound [OF exact_quantity_laws _ example_evaluate] exact_quantity_laws
  by (simp add: exact_quantity_def gomap_get_def)

text \<open>
  C9. Rounding to a range is exact in 64-bit arithmetic: for a request between the minimum and the
  largest \<^verbatim>\<open>int64\<close>, \<^verbatim>\<open>roundCapacityToValidRange\<close> returns the least value that is the minimum plus a
  number of steps and covers the request; it returns nothing exactly when every such value is above
  the maximum or above the \<^verbatim>\<open>int64\<close> range, although the sum may wrap around.
\<close>

theorem roundCapacityToValidRange_least:
  assumes "quantity_laws Q den" and "rangeMin r = Some mn" and "rangeStep r = Some st"
    and "0 \<le> den mn" and "den mn \<le> den req" and "den req \<le> of_int max_int64"
    and "0 < den st" and "den st \<le> of_int max_int64"
  shows "case roundCapacityToValidRange Q req r of
      Some q \<Rightarrow> \<exists>v. den q = of_int v \<and> rangeAligned \<lceil>den mn\<rceil> \<lceil>den st\<rceil> v \<and> den req \<le> of_int v
        \<and> belowMax den r v
        \<and> (\<forall>w. rangeAligned \<lceil>den mn\<rceil> \<lceil>den st\<rceil> w \<and> den req \<le> of_int w \<longrightarrow> v \<le> w)
    | None \<Rightarrow> \<forall>w. rangeAligned \<lceil>den mn\<rceil> \<lceil>den st\<rceil> w \<and> den req \<le> of_int w
        \<longrightarrow> \<not> (w \<le> max_int64 \<and> belowMax den r w)"
proof -
  let ?m = "\<lceil>den mn\<rceil>" and ?s = "\<lceil>den st\<rceil>" and ?v = "ceilAligned \<lceil>den mn\<rceil> \<lceil>den st\<rceil> \<lceil>den req\<rceil>"
  have quantity: "quantity Q den" by (rule quantity.intro) (rule assms(1))
  have s: "0 < ?s" using assms(7) by linarith
  have m: "?m \<le> \<lceil>den req\<rceil>" using assms(5) by (rule ceiling_mono)
  have least: "?v \<le> w" if "rangeAligned ?m ?s w" "den req \<le> of_int w" for w
    using that by (intro ceilAligned_least [OF s]) (simp_all add: ceiling_le_iff)
  have v: "rangeAligned ?m ?s ?v" "den req \<le> of_int ?v" "0 \<le> ?v"
    using ceilAligned_aligned [OF s m] ceilAligned_ge [OF s, of "\<lceil>den req\<rceil>" ?m] assms(4,5)
    by (simp, linarith, linarith)
  show ?thesis
  proof (cases "?v \<le> max_int64 \<and> belowMax den r ?v")
    case True
    have "sint (word_of_int ?v :: int64) = ?v"
      using True v(3) by (simp add: sint_word_of_int64 sint_wrap_id max_int64_def)
    then have "den (q_new Q (word_of_int ?v)) = of_int ?v"
      by (simp only: quantity.den_new [OF quantity])
    then show ?thesis
      using quantity.round_eq [OF quantity assms(2-8)] True v least by auto
  next
    case False
    have below: "belowMax den r ?v" if "belowMax den r w" "?v \<le> w" for w
    proof -
      have "(of_int ?v :: rat) \<le> of_int w" using that(2) by (simp only: of_int_le_iff)
      with that(1) show ?thesis
        unfolding belowMax_def by (cases "rangeMax r") (auto intro: order_trans)
    qed
    have "roundCapacityToValidRange Q req r = None"
      using quantity.round_eq [OF quantity assms(2-8)] False by (simp add: Let_def)
    moreover have "\<not> (w \<le> max_int64 \<and> belowMax den r w)"
      if "rangeAligned ?m ?s w" "den req \<le> of_int w" for w
      using least [OF that] below [of w] False by auto
    ultimately show ?thesis by simp
  qed
qed

theorem roundCapacityToValidRange_least_witness:
  "\<exists>v. (6::rat) = of_int v \<and> rangeAligned 2 4 v \<and> (3::rat) \<le> of_int v"
proof -
  have "rangeMin exampleRange = Some 2" "rangeStep exampleRange = Some 4"
    by (simp_all add: exampleRange_def)
  from roundCapacityToValidRange_least [OF exact_quantity_laws this, of 3] show ?thesis
    unfolding example_round by (simp add: max_int64_def)
qed

text \<open>
  A request against a policy of valid values consumes the least valid value that covers it, and
  is refused only when it is above every valid value.
\<close>

theorem consumedCapacityForRequest_validValues:
  assumes "quantity_laws Q den" and "validateDeviceCapacityPolicy Q name capacity = None"
    and "requestPolicy capacity = Some policy" and "validValues policy \<noteq> []"
  shows "case consumedCapacityForRequest Q capacity (Some requested) of
      Some amount \<Rightarrow> amount \<in> set (validValues policy) \<and> den requested \<le> den amount
        \<and> (\<forall>v \<in> set (validValues policy). den requested \<le> den v \<longrightarrow> den amount \<le> den v)
    | None \<Rightarrow> \<forall>v \<in> set (validValues policy). den v < den requested"
proof -
  have quantity: "quantity Q den" by (rule quantity.intro) (rule assms(1))
  show ?thesis
  proof (cases "consumedCapacityForRequest Q capacity (Some requested)")
    case None
    then have "find (\<lambda>v. q_cmp Q requested v \<le> 0) (validValues policy) = None"
      using assms(3,4) by (simp add: consumedCapacityForRequest_def)
    then have "\<forall>v \<in> set (validValues policy). den v < den requested"
      by (auto simp: find_None_iff quantity.cmp_le [OF quantity] not_le)
    then show ?thesis using None by simp
  next
    case (Some amount)
    with quantity.consumed_values_least [OF quantity assms(2-4) Some] show ?thesis by auto
  qed
qed

definition exampleValues :: "rat DeviceCapacity" where
  "exampleValues =
     \<lparr>capValue = 8,
      requestPolicy = Some \<lparr>policyDefault = Some 2, validValues = [2, 4, 8], validRange = None\<rparr>\<rparr>"

theorem consumedCapacityForRequest_validValues_witness:
  "validateDeviceCapacityPolicy exact_quantity ''m'' exampleValues = None \<and>
   consumedCapacityForRequest exact_quantity exampleValues (Some 3) = Some 4"
proof -
  have valid: "validateDeviceCapacityPolicy exact_quantity ''m'' exampleValues = None"
    by (simp add: validateDeviceCapacityPolicy_def validateCapacityValidValues_def exampleValues_def
        maxCapacityPolicyValidValues_def)
  have "\<exists>a. consumedCapacityForRequest exact_quantity exampleValues (Some 3) = Some a \<and> a \<in> {2, 4, 8} \<and>
      (3::rat) \<le> a \<and> (\<forall>v \<in> {2, 4, 8}. 3 \<le> v \<longrightarrow> a \<le> v)"
    using consumedCapacityForRequest_validValues [OF exact_quantity_laws valid, of _ 3]
    by (auto simp: exampleValues_def split: option.splits)
  then have "consumedCapacityForRequest exact_quantity exampleValues (Some 3) = Some 4" by force
  with valid show ?thesis by blast
qed

text \<open>
  Validation keeps the arithmetic from panicking: after \<^verbatim>\<open>validateDeviceCapacityPolicy\<close> accepts a
  capacity whose range is in use, the minimum that \<^verbatim>\<open>roundCapacityToValidRange\<close> and
  \<^verbatim>\<open>quantityAlignedToRange\<close> dereference is set, and the step they divide by is a positive \<^verbatim>\<open>int64\<close>
  (for capacities within the \<^verbatim>\<open>int64\<close> range).
\<close>

theorem validated_range_defined:
  assumes "quantity_laws Q den" and "validateDeviceCapacityPolicy Q name capacity = None"
    and "requestPolicy capacity = Some policy" and "validRange policy = Some r"
    and "den (capValue capacity) \<le> of_int max_int64"
  shows "(\<exists>mn. rangeMin r = Some mn) \<and> (\<forall>st. rangeStep r = Some st \<longrightarrow> 0 < sint (q_value Q st))"
proof -
  have quantity: "quantity Q den" by (rule quantity.intro) (rule assms(1))
  obtain mn where mn: "rangeMin r = Some mn" "0 \<le> den mn"
    and step: "\<And>st. rangeStep r = Some st \<Longrightarrow> 0 < den st \<and> den mn + den st \<le> den (capValue capacity)"
    using quantity.policy_range_wf [OF quantity assms(2-4)] by metis
  have "0 < sint (q_value Q st)" if "rangeStep r = Some st" for st
  proof -
    have "0 < den st" "den st \<le> of_int max_int64" using step [OF that] mn(2) assms(5) by linarith+
    then show ?thesis using quantity.value_eq [OF quantity, of st] by simp
  qed
  with mn show ?thesis by blast
qed

theorem validated_range_defined_witness:
  "validateDeviceCapacityPolicy exact_quantity ''m'' exampleCapacity = None \<and>
   (\<exists>mn. rangeMin exampleRange = Some mn)"
  using validated_range_defined [OF exact_quantity_laws example_validate, of _ exampleRange]
    example_validate
  by (simp add: exampleCapacity_def max_int64_def)

lemma validateCapacityUsage_cong:
  "map_of caps = map_of caps' \<Longrightarrow> validateCapacityUsage Q kind usage caps = validateCapacityUsage Q kind usage caps'"
  by (induction usage) auto

lemma checkCapacityRequests_cong:
  "map_of caps = map_of caps' \<Longrightarrow> checkCapacityRequests Q reqs caps = checkCapacityRequests Q reqs caps'"
  by (induction reqs) auto

lemma validateShareableCapacityInput_cong:
  "map_of caps = map_of caps' \<Longrightarrow>
     validateShareableCapacityInput Q req caps committed pending
       = validateShareableCapacityInput Q req caps' committed pending"
  by (simp add: validateShareableCapacityInput_def validateCapacityRequirements_def
      validateCapacityUsage_cong [of caps caps'] checkCapacityRequests_cong [of caps caps'] cong: option.case_cong)

definition sameOutcome ::
  "capacity_error + (string, 'q) gomap option \<Rightarrow> capacity_error + (string, 'q) gomap option \<Rightarrow> bool" where
  "sameOutcome r r' =
     (case (r, r') of
        (Inl err, Inl err') \<Rightarrow> err = err'
      | (Inr None, Inr None) \<Rightarrow> True
      | (Inr (Some consumed), Inr (Some consumed')) \<Rightarrow> gomap_equal consumed consumed'
      | _ \<Rightarrow> False)"

lemma evaluateShareableCapacityEntries_order:
  assumes "gomap_wf caps" and "gomap_wf caps'" and "set caps' = set caps"
    and "\<forall>(n, cap) \<in> set caps. validateDeviceCapacityPolicy Q n cap = None"
  shows "sameOutcome (evaluateShareableCapacityEntries Q req committed pending caps [])
    (evaluateShareableCapacityEntries Q req committed pending caps' [])"
proof -
  let ?run = "\<lambda>caps. evaluateShareableCapacityEntries Q req committed pending caps []"
  have maps: "map_of caps' = map_of caps" using assms(1-3) by (intro map_of_wf_cong)
  have valid: "\<forall>(n, cap) \<in> set caps'. validateDeviceCapacityPolicy Q n cap = None"
    using assms(3,4) by simp
  consider "?run caps = Inr None" "?run caps' = Inr None"
    | c c' where "?run caps = Inr (Some c)" "?run caps' = Inr (Some c')"
    using evaluateShareableCapacityEntries_valid [OF assms(4), of req committed pending "[]"]
      evaluateShareableCapacityEntries_valid [OF valid, of req committed pending "[]"]
    unfolding assms(3) by blast
  then show ?thesis
  proof cases
    case (2 c c')
    have "map_of c n = map_of c' n" for n
      using evaluateShareableCapacityEntries_Some [OF 2(1) assms(1), of n]
        evaluateShareableCapacityEntries_Some [OF 2(2) assms(2), of n]
      by (cases "map_of caps n") (auto simp: maps)
    then show ?thesis using 2 by (simp add: sameOutcome_def gomap_equal_iff fun_eq_iff)
  qed (simp add: sameOutcome_def)
qed

text \<open>
  With valid policies the outcome does not depend on Go's map iteration order: for two orders of
  the same capacities \<^verbatim>\<open>evaluateShareableCapacity\<close> reports the same input error, or refuses the device
  both times, or consumes the same amounts.
\<close>

theorem evaluateShareableCapacity_order:
  assumes "gomap_wf capacities" and "gomap_wf capacities'" and "set capacities' = set capacities"
    and "\<forall>(name, capacity) \<in> set capacities. validateDeviceCapacityPolicy Q name capacity = None"
  shows "sameOutcome (evaluateShareableCapacity Q requirements capacities committed pending)
    (evaluateShareableCapacity Q requirements capacities' committed pending)"
proof -
  have "map_of capacities' = map_of capacities" using assms(1-3) by (intro map_of_wf_cong)
  from validateShareableCapacityInput_cong [OF this]
    evaluateShareableCapacityEntries_order [OF assms, of requirements committed pending]
  show ?thesis
    unfolding evaluateShareableCapacity_def
    by (cases "validateShareableCapacityInput Q requirements capacities committed pending")
      (simp_all add: sameOutcome_def)
qed

theorem evaluateShareableCapacity_order_witness:
  "sameOutcome
     (evaluateShareableCapacity exact_quantity None
        [(''m'', exampleCapacity), (''n'', exampleValues)] [] [])
     (evaluateShareableCapacity exact_quantity None
        [(''n'', exampleValues), (''m'', exampleCapacity)] [] [])"
proof (rule evaluateShareableCapacity_order)
  have "validateDeviceCapacityPolicy exact_quantity ''n'' exampleValues = None"
    by (simp add: validateDeviceCapacityPolicy_def validateCapacityValidValues_def exampleValues_def
        maxCapacityPolicyValidValues_def)
  then show "\<forall>(name, capacity) \<in> set [(''m'', exampleCapacity), (''n'', exampleValues)].
      validateDeviceCapacityPolicy exact_quantity name capacity = None"
    by (simp add: example_validate)
qed auto

definition brokenCapacity :: "rat DeviceCapacity" where
  "brokenCapacity =
     \<lparr>capValue = 4,
      requestPolicy = Some \<lparr>policyDefault = Some 9, validValues = [], validRange = None\<rparr>\<rparr>"

definition fullCapacity :: "rat DeviceCapacity" where
  "fullCapacity = \<lparr>capValue = 4, requestPolicy = None\<rparr>"

text \<open>
  Without that assumption the order decides: of two capacities, one with an invalid policy and one
  that is used up, one order reports the invalid policy as an error and the other only refuses the
  device, so the planner stops or goes on depending on the order Go happens to choose.
\<close>

theorem evaluateShareableCapacity_order_matters:
  "evaluateShareableCapacity exact_quantity None
     [(''a'', brokenCapacity), (''b'', fullCapacity)] [(''b'', 1)] []
     = Inl (DefaultOutsideCapacity ''a'' '''') \<and>
   evaluateShareableCapacity exact_quantity None
     [(''b'', fullCapacity), (''a'', brokenCapacity)] [(''b'', 1)] [] = Inr None"
  by (simp add: evaluateShareableCapacity_def validateShareableCapacityInput_def
      validateCapacityRequirements_def evaluateShareableCapacityEntry_def validateDeviceCapacityPolicy_def
      brokenCapacity_def fullCapacity_def consumedCapacityForRequest_def requestedCapacity_def
      capacityWouldBeExceeded_def gomap_get_def) (simp add: exact_quantity_def)

end
