(* ===== verification/Allocation_Usage.thy ===== *)
theory Allocation_Usage
  imports Capacity_Policy "HOL-Library.Multiset"
begin

text \<open>
  Device usage, \<^verbatim>\<open>internal/simulator/allocation_usage.go\<close>: what the allocations already written to
  claims use (\<^verbatim>\<open>committedAllocationUsage\<close>) and what the plan under construction uses
  (\<^verbatim>\<open>allocationAttemptUsage\<close>). Both are keyed by \<^verbatim>\<open>deviceIdentityKey\<close>. A nil map of amounts is the
  empty list; \<^verbatim>\<open>clone\<close> is the identity on values.
\<close>

section \<open>Committed usage\<close>

record 'q committedDeviceUsage =
  comExclusive :: bool
  comShared :: bool
  comConsumed :: "(string, 'q) gomap"
  comShares :: "(string, 'q) gomap list"
  comShareIDs :: "string set"

type_synonym 'q committedAllocationUsage = "(string, 'q committedDeviceUsage) gomap"

definition noDeviceUsage :: "'q committedDeviceUsage" where
  "noDeviceUsage =
     \<lparr>comExclusive = False, comShared = False, comConsumed = [], comShares = [], comShareIDs = {}\<rparr>"

definition addQuantity ::
  "'q quantity_api \<Rightarrow> string \<Rightarrow> 'q \<Rightarrow> (string, 'q) gomap \<Rightarrow> (string, 'q) gomap" where
  "addQuantity Q name amount target =
     gomap_put name (q_add Q (gomap_get (q_zero Q) target name) amount) target"

text \<open>
  \<^verbatim>\<open>normalizedShareIDPattern\<close>: \<^verbatim>\<open>^[0-9a-f]{8}-[0-9a-f]{4}-[0-9a-f]{4}-[0-9a-f]{4}-[0-9a-f]{12}$\<close>.
\<close>

definition lowerHex :: "char \<Rightarrow> bool" where
  "lowerHex c \<longleftrightarrow> c \<in> set ''0123456789abcdef''"

definition normalizedShareID :: "string \<Rightarrow> bool" where
  "normalizedShareID s \<longleftrightarrow> length s = 36 \<and>
     list_all (\<lambda>i. if i \<in> {8, 13, 18, 23} then s ! i = CHR ''-'' else lowerHex (s ! i)) [0..<36]"

text \<open>The loop over \<^verbatim>\<open>result.ConsumedCapacity\<close>: a negative amount is a failure, others are added.\<close>

fun addConsumedCapacity ::
  "'q quantity_api \<Rightarrow> string \<Rightarrow> string \<Rightarrow> 'q DeviceRequestAllocationResult \<Rightarrow> (string, 'q) gomap \<Rightarrow>
   (string, 'q) gomap \<Rightarrow> allocationFailure + (string, 'q) gomap" where
  "addConsumedCapacity Q namespace cname result [] consumed = Inr consumed"
| "addConsumedCapacity Q namespace cname result ((name, amount) # rest) consumed =
     (if q_sign Q amount < 0
      then Inl (unsupportedFailure (NegativeConsumed namespace cname (resDriver result) (resPool result)
                  (resDevice result) (q_string Q amount) name))
      else addConsumedCapacity Q namespace cname result rest (addQuantity Q name amount consumed))"

definition addResult ::
  "'q quantity_api \<Rightarrow> string \<Rightarrow> string \<Rightarrow> 'q DeviceRequestAllocationResult \<Rightarrow>
   'q committedAllocationUsage \<Rightarrow> allocationFailure + 'q committedAllocationUsage" where
  "addResult Q namespace cname result usage =
     (let identity = resultKey result;
          current = gomap_get noDeviceUsage usage identity;
          d = resDriver result; p = resPool result; n = resDevice result
      in case (resShareID result, resConsumedCapacity result) of
           (Some _, None) \<Rightarrow> Inl (unsupportedFailure (ShareIDWithoutCapacity namespace cname d p n))
         | (None, Some _) \<Rightarrow> Inl (unsupportedFailure (ShareIDWithoutCapacity namespace cname d p n))
         | (None, None) \<Rightarrow>
             (if comExclusive current \<or> comShared current
              then Inl (unsupportedFailure (ConflictingState d p n))
              else Inr (gomap_put identity (current\<lparr>comExclusive := True\<rparr>) usage))
         | (Some shareID, Some amounts) \<Rightarrow>
             (if comExclusive current then Inl (unsupportedFailure (ConflictingState d p n))
              else if \<not> normalizedShareID shareID
              then Inl (unsupportedFailure (InvalidShareID namespace cname d p n shareID))
              else if shareID \<in> comShareIDs current
              then Inl (unsupportedFailure (DuplicateShareID shareID d p n))
              else case addConsumedCapacity Q namespace cname result amounts (comConsumed current) of
                     Inl failure \<Rightarrow> Inl failure
                   | Inr consumed \<Rightarrow>
                       Inr (gomap_put identity
                              \<lparr>comExclusive = comExclusive current, comShared = True,
                               comConsumed = consumed, comShares = comShares current @ [amounts],
                               comShareIDs = insert shareID (comShareIDs current)\<rparr> usage)))"

fun addResults ::
  "'q quantity_api \<Rightarrow> string \<Rightarrow> string \<Rightarrow> 'q DeviceRequestAllocationResult list \<Rightarrow>
   'q committedAllocationUsage \<Rightarrow> allocationFailure + 'q committedAllocationUsage" where
  "addResults Q namespace cname [] usage = Inr usage"
| "addResults Q namespace cname (result # results) usage =
     (case addResult Q namespace cname result usage of
        Inl failure \<Rightarrow> Inl failure
      | Inr usage' \<Rightarrow> addResults Q namespace cname results usage')"

fun collectUsageFrom ::
  "'q quantity_api \<Rightarrow> 'q ResourceClaim list \<Rightarrow> 'q committedAllocationUsage \<Rightarrow>
   allocationFailure + 'q committedAllocationUsage" where
  "collectUsageFrom Q [] usage = Inr usage"
| "collectUsageFrom Q (claim # claims) usage =
     (case claimAllocation claim of
        None \<Rightarrow> collectUsageFrom Q claims usage
      | Some allocation \<Rightarrow>
          (case addResults Q (claimNamespace claim) (claimName claim) (allocResults allocation) usage of
             Inl failure \<Rightarrow> Inl failure
           | Inr usage' \<Rightarrow> collectUsageFrom Q claims usage'))"

definition collectCommittedAllocationUsage ::
  "'q quantity_api \<Rightarrow> 'q ResourceClaim list \<Rightarrow> allocationFailure + 'q committedAllocationUsage" where
  "collectCommittedAllocationUsage Q claims = collectUsageFrom Q claims []"

definition hasShared :: "'q committedAllocationUsage \<Rightarrow> bool" where
  "hasShared usage = list_ex (\<lambda>(identity, deviceUsage). comShared deviceUsage) usage"

section \<open>Usage of the plan under construction\<close>

record 'q allocationAttemptUsage =
  attExclusive :: "string set"
  attShared :: "string set"
  attConsumed :: "string \<Rightarrow> (string, 'q) gomap"

definition newAllocationAttemptUsage :: "'q allocationAttemptUsage" where
  "newAllocationAttemptUsage = \<lparr>attExclusive = {}, attShared = {}, attConsumed = (\<lambda>_. [])\<rparr>"

definition addQuantities ::
  "'q quantity_api \<Rightarrow> (string, 'q) gomap \<Rightarrow> (string, 'q) gomap \<Rightarrow> (string, 'q) gomap" where
  "addQuantities Q amounts target = fold (\<lambda>(name, amount). addQuantity Q name amount) amounts target"

text \<open>\<^verbatim>\<open>range\<close> over a nil \<^verbatim>\<open>ConsumedCapacity\<close> is no iteration.\<close>

definition reserve ::
  "'q quantity_api \<Rightarrow> 'q DeviceRequestAllocationResult \<Rightarrow> 'q allocationAttemptUsage \<Rightarrow>
   'q allocationAttemptUsage" where
  "reserve Q result usage =
     (let identity = resultKey result
      in case resShareID result of
           None \<Rightarrow> usage\<lparr>attExclusive := insert identity (attExclusive usage)\<rparr>
         | Some _ \<Rightarrow>
             usage\<lparr>attShared := insert identity (attShared usage),
                   attConsumed := (attConsumed usage)(identity :=
                     addQuantities Q (case resConsumedCapacity result of None \<Rightarrow> [] | Some m \<Rightarrow> m)
                       (attConsumed usage identity))\<rparr>)"

section \<open>Shareable devices\<close>

text \<open>Label lookups: a missing label reads as the empty string.\<close>

definition sliceLabel :: "'q ResourceSlice \<Rightarrow> string \<Rightarrow> string" where
  "sliceLabel sl key = gomap_get '''' (sliceLabels sl) key"

definition managedSimulatorSlice :: "'q ResourceSlice \<Rightarrow> bool" where
  "managedSimulatorSlice sl \<longleftrightarrow> sliceLabel sl ''draforge.oaslananka/managed-by'' = ''simulator''"

definition unhealthySlice :: "'q ResourceSlice \<Rightarrow> bool" where
  "unhealthySlice sl \<longleftrightarrow> sliceLabel sl ''draforge.oaslananka/health'' = ''unhealthy''"

definition eligibleSimulatorSlice :: "'q ResourceSlice \<Rightarrow> bool" where
  "eligibleSimulatorSlice sl \<longleftrightarrow> managedSimulatorSlice sl \<and> \<not> unhealthySlice sl"

definition deviceAllowsMultipleAllocations :: "'q Device \<Rightarrow> bool" where
  "deviceAllowsMultipleAllocations device \<longleftrightarrow> allowMultipleAllocations device = Some True"

definition hasManagedShareableDevice :: "'q ResourceSlice list \<Rightarrow> bool" where
  "hasManagedShareableDevice slices =
     list_ex (\<lambda>sl. managedSimulatorSlice sl
       \<and> list_ex deviceAllowsMultipleAllocations (sliceDevices sl)) slices"

definition deviceKey :: "'q ResourceSlice \<Rightarrow> 'q Device \<Rightarrow> string" where
  "deviceKey sl device = deviceIdentityKey (sliceDriver sl) (poolName sl) (devName device)"

definition resultAt :: "'q ResourceSlice \<Rightarrow> 'q Device \<Rightarrow> 'q DeviceRequestAllocationResult \<Rightarrow> bool" where
  "resultAt sl device r \<longleftrightarrow>
     resDriver r = sliceDriver sl \<and> resPool r = poolName sl \<and> resDevice r = devName device"

lemma resultAt_key: "resultAt sl device r \<Longrightarrow> resultKey r = deviceKey sl device"
  by (simp add: resultAt_def resultKey_def deviceKey_def)

text \<open>
  \<^verbatim>\<open>validateCommittedShareUsage\<close>: each share reports exactly the capacities of the device, and the sums
  are within them. \<open>missingKey\<close> is the first key of a map, in its order, that another map lacks.
\<close>

definition missingKey :: "(string, 'a) gomap \<Rightarrow> (string, 'b) gomap \<Rightarrow> string option" where
  "missingKey m other = map_option fst (find (\<lambda>(name, _). map_of other name = None) m)"

fun checkShares ::
  "'q ResourceSlice \<Rightarrow> 'q Device \<Rightarrow> nat \<Rightarrow> (string, 'q) gomap list \<Rightarrow> allocationFailure option" where
  "checkShares sl device shareIndex [] = None"
| "checkShares sl device shareIndex (consumed # shares) =
     (let d = sliceDriver sl; p = poolName sl; n = devName device
      in case missingKey (devCapacity device) consumed of
           Some name \<Rightarrow> Some (unsupportedFailure (ShareMissingCapacity shareIndex d p n name))
         | None \<Rightarrow>
             (case missingKey consumed (devCapacity device) of
                Some name \<Rightarrow> Some (unsupportedFailure (ShareUnknownCapacity shareIndex d p n name))
              | None \<Rightarrow> checkShares sl device (Suc shareIndex) shares))"

fun checkCommittedTotals ::
  "'q quantity_api \<Rightarrow> 'q ResourceSlice \<Rightarrow> 'q Device \<Rightarrow> (string, 'q) gomap \<Rightarrow> allocationFailure option" where
  "checkCommittedTotals Q sl device [] = None"
| "checkCommittedTotals Q sl device ((name, amount) # rest) =
     (let capacity = (case map_of (devCapacity device) name of None \<Rightarrow> q_zero Q | Some c \<Rightarrow> capValue c)
      in if q_cmp Q amount capacity > 0
         then Some (unsupportedFailure (ConsumedExceedsCapacity (q_string Q amount) (sliceDriver sl)
                (poolName sl) (devName device) (q_string Q capacity) name))
         else checkCommittedTotals Q sl device rest)"

definition validateCommittedShareUsage ::
  "'q quantity_api \<Rightarrow> 'q ResourceSlice \<Rightarrow> 'q Device \<Rightarrow> 'q committedDeviceUsage \<Rightarrow> allocationFailure option" where
  "validateCommittedShareUsage Q sl device committed =
     (case checkShares sl device 0 (comShares committed) of
        Some failure \<Rightarrow> Some failure
      | None \<Rightarrow> checkCommittedTotals Q sl device (comConsumed committed))"

section \<open>Candidates of the backtracking planner\<close>

text \<open>
  The candidate builders return the result, and thread the set \<^verbatim>\<open>seen\<close> and the number of UUIDs drawn so
  far. \<open>newUUID k\<close> is the \<open>k\<close>-th UUID that \<^verbatim>\<open>uuid.NewUUID\<close> returns.
\<close>

definition buildShareableCandidate ::
  "'q quantity_api \<Rightarrow> (nat \<Rightarrow> string) \<Rightarrow> 'q committedAllocationUsage \<Rightarrow> string \<Rightarrow>
   'q CapacityRequirements option \<Rightarrow> 'q ResourceSlice \<Rightarrow> 'q Device \<Rightarrow> 'q allocationAttemptUsage \<Rightarrow>
   string set \<Rightarrow> nat \<Rightarrow>
   (allocationFailure + 'q DeviceRequestAllocationResult option) \<times> string set \<times> nat" where
  "buildShareableCandidate Q newUUID committedUsage requestName requirements sl device attempt seen uuids =
     (let identity = deviceKey sl device;
          d = sliceDriver sl; p = poolName sl; n = devName device;
          stop = (\<lambda>m. (Inl (unsupportedFailure m), seen, uuids))
      in if devCapacity device = [] then stop (ShareableWithoutCapacity d p n)
         else let committed = map_of committedUsage identity
         in if (case committed of None \<Rightarrow> False | Some c \<Rightarrow> comExclusive c)
         then stop (ShareableExclusive d p n)
         else case (case committed of
                      None \<Rightarrow> None
                    | Some c \<Rightarrow> if comShared c then validateCommittedShareUsage Q sl device c else None) of
           Some failure \<Rightarrow> (Inl failure, seen, uuids)
         | None \<Rightarrow>
             (if identity \<in> attExclusive attempt then stop (ExclusiveAndShared d p n)
              else let committedCapacity = (case committed of None \<Rightarrow> [] | Some c \<Rightarrow> comConsumed c)
              in case evaluateShareableCapacity Q requirements (devCapacity device) committedCapacity
                        (attConsumed attempt identity) of
                   Inl err \<Rightarrow> stop (InvalidCapacityState d p n err)
                 | Inr None \<Rightarrow> (Inr None, seen, uuids)
                 | Inr (Some consumed) \<Rightarrow>
                     (Inr (Some \<lparr>resRequest = requestName, resDriver = d, resPool = p, resDevice = n,
                                 resShareID = Some (newUUID uuids), resConsumedCapacity = Some consumed\<rparr>),
                      insert identity seen, Suc uuids)))"

definition buildExclusiveCandidate ::
  "'q quantity_api \<Rightarrow> 'q committedAllocationUsage \<Rightarrow> string \<Rightarrow> 'q CapacityRequirements option \<Rightarrow>
   'q ResourceSlice \<Rightarrow> 'q Device \<Rightarrow> 'q allocationAttemptUsage \<Rightarrow> string set \<Rightarrow>
   (allocationFailure + 'q DeviceRequestAllocationResult option) \<times> string set" where
  "buildExclusiveCandidate Q committedUsage requestName requirements sl device attempt seen =
     (let identity = deviceKey sl device;
          d = sliceDriver sl; p = poolName sl; n = devName device;
          committed = map_of committedUsage identity
      in if (case committed of None \<Rightarrow> False | Some c \<Rightarrow> comShared c)
         then (Inl (unsupportedFailure (ExclusiveWithShared d p n)), seen)
         else if (case committed of None \<Rightarrow> False | Some c \<Rightarrow> comExclusive c)
            \<or> identity \<in> attExclusive attempt \<or> identity \<in> attShared attempt
         then (Inr None, seen)
         else case exclusiveCapacityMatches Q device requirements of
           Inl failure \<Rightarrow> (Inl failure, seen)
         | Inr matches \<Rightarrow>
             (if \<not> matches then (Inr None, seen)
              else (Inr (Some \<lparr>resRequest = requestName, resDriver = d, resPool = p, resDevice = n,
                               resShareID = None, resConsumedCapacity = None\<rparr>),
                    insert identity seen)))"

definition buildBacktrackingCandidate ::
  "'q quantity_api \<Rightarrow> (nat \<Rightarrow> string) \<Rightarrow> 'q committedAllocationUsage \<Rightarrow> string \<Rightarrow>
   'q CapacityRequirements option \<Rightarrow> 'q ResourceSlice \<Rightarrow> 'q Device \<Rightarrow> 'q allocationAttemptUsage \<Rightarrow>
   string set \<Rightarrow> nat \<Rightarrow>
   (allocationFailure + 'q DeviceRequestAllocationResult option) \<times> string set \<times> nat" where
  "buildBacktrackingCandidate Q newUUID committedUsage requestName requirements sl device attempt seen uuids =
     (if deviceKey sl device \<in> seen then (Inr None, seen, uuids)
      else if deviceAllowsMultipleAllocations device
      then buildShareableCandidate Q newUUID committedUsage requestName requirements sl device
             attempt seen uuids
      else case buildExclusiveCandidate Q committedUsage requestName requirements sl device attempt seen of
             (r, seen') \<Rightarrow> (r, seen', uuids))"

section \<open>What usage stands for\<close>

text \<open>
  The allocation results that claims hold, and when a list of them is consistent: each result is
  exclusive, or a share with a normalized ID and non-negative amounts; two results for the same device
  are both shares and have different IDs. \<open>consumedTotal\<close> is the sum over the shares of a device.
\<close>

definition committedResults :: "'q ResourceClaim list \<Rightarrow> 'q DeviceRequestAllocationResult list" where
  "committedResults claims =
     concat (map (\<lambda>claim. case claimAllocation claim of None \<Rightarrow> [] | Some a \<Rightarrow> allocResults a) claims)"

definition resultAmounts :: "'q DeviceRequestAllocationResult \<Rightarrow> (string, 'q) gomap" where
  "resultAmounts r = (case resConsumedCapacity r of None \<Rightarrow> [] | Some m \<Rightarrow> m)"

definition validResult :: "('q \<Rightarrow> rat) \<Rightarrow> 'q DeviceRequestAllocationResult \<Rightarrow> bool" where
  "validResult den r =
     (case (resShareID r, resConsumedCapacity r) of
        (None, None) \<Rightarrow> True
      | (Some shareID, Some amounts) \<Rightarrow>
          normalizedShareID shareID \<and> list_all (\<lambda>(name, amount). 0 \<le> den amount) amounts
      | _ \<Rightarrow> False)"

definition compatibleResults ::
  "'q DeviceRequestAllocationResult \<Rightarrow> 'q DeviceRequestAllocationResult \<Rightarrow> bool" where
  "compatibleResults r r' \<longleftrightarrow>
     (resultKey r = resultKey r' \<longrightarrow>
        resShareID r \<noteq> None \<and> resShareID r' \<noteq> None \<and> resShareID r \<noteq> resShareID r')"

definition consistentResults :: "('q \<Rightarrow> rat) \<Rightarrow> 'q DeviceRequestAllocationResult list \<Rightarrow> bool" where
  "consistentResults den rs \<longleftrightarrow> list_all (validResult den) rs \<and> sorted_wrt compatibleResults rs"

definition amountIn :: "('q \<Rightarrow> rat) \<Rightarrow> (string, 'q) gomap \<Rightarrow> string \<Rightarrow> rat" where
  "amountIn den m name = (\<Sum>(n, amount) \<leftarrow> m. if n = name then den amount else 0)"

definition resultsFor ::
  "string \<Rightarrow> 'q DeviceRequestAllocationResult list \<Rightarrow> 'q DeviceRequestAllocationResult list" where
  "resultsFor key rs = filter (\<lambda>r. resultKey r = key) rs"

definition consumedTotal ::
  "('q \<Rightarrow> rat) \<Rightarrow> 'q DeviceRequestAllocationResult list \<Rightarrow> string \<Rightarrow> string \<Rightarrow> rat" where
  "consumedTotal den rs key name = (\<Sum>r \<leftarrow> resultsFor key rs. amountIn den (resultAmounts r) name)"

text \<open>The usage of one device, and the whole map, as a summary of a list of results.\<close>

definition describesDevice ::
  "'q quantity_api \<Rightarrow> ('q \<Rightarrow> rat) \<Rightarrow> 'q DeviceRequestAllocationResult list \<Rightarrow>
   'q committedDeviceUsage \<Rightarrow> bool" where
  "describesDevice Q den here u \<longleftrightarrow>
     comExclusive u = (\<exists>r \<in> set here. resShareID r = None) \<and>
     comShared u = (\<exists>r \<in> set here. resShareID r \<noteq> None) \<and>
     comShareIDs u = {shareID. \<exists>r \<in> set here. resShareID r = Some shareID} \<and>
     comShares u = map resultAmounts (filter (\<lambda>r. resShareID r \<noteq> None) here) \<and>
     (\<forall>name. den (gomap_get (q_zero Q) (comConsumed u) name)
        = (\<Sum>r \<leftarrow> here. amountIn den (resultAmounts r) name)) \<and>
     gomap_keys (comConsumed u) = (\<Union>r \<in> set here. gomap_keys (resultAmounts r)) \<and>
     gomap_wf (comConsumed u)"

definition describesUsage ::
  "'q quantity_api \<Rightarrow> ('q \<Rightarrow> rat) \<Rightarrow> 'q DeviceRequestAllocationResult list \<Rightarrow>
   'q committedAllocationUsage \<Rightarrow> bool" where
  "describesUsage Q den rs usage \<longleftrightarrow>
     gomap_wf usage \<and> gomap_keys usage = resultKey ` set rs \<and>
     (\<forall>key. describesDevice Q den (resultsFor key rs) (gomap_get noDeviceUsage usage key))"

subsection \<open>Sums and consistency\<close>

lemma amountIn_Nil [simp]: "amountIn den [] name = 0"
  by (simp add: amountIn_def)

lemma amountIn_Cons [simp]:
  "amountIn den ((n, a) # m) name = (if n = name then den a else 0) + amountIn den m name"
  by (simp add: amountIn_def)

lemma amountIn_missing [simp]: "name \<notin> gomap_keys m \<Longrightarrow> amountIn den m name = 0"
  by (induction m) auto

lemma amountIn_wf: "gomap_wf m \<Longrightarrow> map_of m name = Some a \<Longrightarrow> amountIn den m name = den a"
  by (induction m) (auto split: if_splits)

lemma amountIn_nonneg: "list_all (\<lambda>(n, a). 0 \<le> den a) m \<Longrightarrow> 0 \<le> amountIn den m name"
  by (induction m) auto

lemma resultsFor_append [simp]: "resultsFor key (rs @ rs') = resultsFor key rs @ resultsFor key rs'"
  by (simp add: resultsFor_def)

lemma resultsFor_Nil [simp]: "resultsFor key [] = []"
  by (simp add: resultsFor_def)

lemma resultsFor_Cons [simp]:
  "resultsFor key (r # rs) = (if resultKey r = key then r # resultsFor key rs else resultsFor key rs)"
  by (simp add: resultsFor_def)

lemma set_resultsFor [simp]: "set (resultsFor key rs) = {r \<in> set rs. resultKey r = key}"
  by (auto simp: resultsFor_def)

lemma consumedTotal_Nil [simp]: "consumedTotal den [] key name = 0"
  by (simp add: consumedTotal_def)

lemma consumedTotal_append [simp]:
  "consumedTotal den (rs @ rs') key name = consumedTotal den rs key name + consumedTotal den rs' key name"
  by (simp add: consumedTotal_def)

lemma consumedTotal_Cons [simp]:
  "consumedTotal den (r # rs) key name =
     (if resultKey r = key then amountIn den (resultAmounts r) name else 0) + consumedTotal den rs key name"
  by (simp add: consumedTotal_def)

lemma consistentResults_Nil [simp]: "consistentResults den []"
  by (simp add: consistentResults_def)

lemma consistentResults_snoc:
  "consistentResults den (rs @ [r]) \<longleftrightarrow>
     consistentResults den rs \<and> validResult den r \<and> (\<forall>r' \<in> set rs. compatibleResults r' r)"
  by (auto simp: consistentResults_def sorted_wrt_append)

lemma consistentResults_append:
  "consistentResults den (rs @ rs') \<longleftrightarrow>
     consistentResults den rs \<and> consistentResults den rs' \<and>
     (\<forall>r \<in> set rs. \<forall>r' \<in> set rs'. compatibleResults r r')"
  by (auto simp: consistentResults_def sorted_wrt_append)

lemma committedResults_Nil [simp]: "committedResults [] = []"
  by (simp add: committedResults_def)

lemma committedResults_Cons [simp]:
  "committedResults (claim # claims) =
     (case claimAllocation claim of None \<Rightarrow> [] | Some a \<Rightarrow> allocResults a) @ committedResults claims"
  by (simp add: committedResults_def)

lemma committedResults_append [simp]:
  "committedResults (claims @ claims') = committedResults claims @ committedResults claims'"
  by (simp add: committedResults_def)

subsection \<open>Collecting committed usage\<close>

lemma addQuantity_keys [simp]: "gomap_keys (addQuantity Q n a m) = insert n (gomap_keys m)"
  by (simp add: addQuantity_def)

lemma addQuantity_wf [simp]: "gomap_wf m \<Longrightarrow> gomap_wf (addQuantity Q n a m)"
  by (simp add: addQuantity_def)

lemma describesDevice_none: "quantity Q den \<Longrightarrow> describesDevice Q den [] noDeviceUsage"
  by (simp add: describesDevice_def noDeviceUsage_def quantity.den_zero)

lemma describesUsage_none: "quantity Q den \<Longrightarrow> describesUsage Q den [] []"
  by (simp add: describesUsage_def describesDevice_none)

context quantity
begin

lemma addQuantity_den:
  "den (gomap_get (q_zero Q) (addQuantity Q n a m) name) =
     den (gomap_get (q_zero Q) m name) + (if n = name then den a else 0)"
  by (simp add: addQuantity_def)

lemma addConsumedCapacity_ok:
  "list_all (\<lambda>(n, a). 0 \<le> den a) amounts \<Longrightarrow>
     addConsumedCapacity Q ns cn r amounts m = Inr (addQuantities Q amounts m)"
  by (induction amounts arbitrary: m) (auto simp: addQuantities_def)

lemma addConsumedCapacity_error:
  "\<not> list_all (\<lambda>(n, a). 0 \<le> den a) amounts \<Longrightarrow> \<exists>f. addConsumedCapacity Q ns cn r amounts m = Inl f"
  by (induction amounts arbitrary: m) auto

lemma addQuantities_sum:
  "den (gomap_get (q_zero Q) (addQuantities Q amounts m) name) =
     den (gomap_get (q_zero Q) m name) + amountIn den amounts name"
  by (induction amounts arbitrary: m) (auto simp: addQuantities_def addQuantity_den)

end

lemma addQuantities_keys [simp]:
  "gomap_keys (addQuantities Q amounts m) = gomap_keys m \<union> gomap_keys amounts"
  by (induction amounts arbitrary: m) (auto simp: addQuantities_def)

lemma addQuantities_wf [simp]: "gomap_wf m \<Longrightarrow> gomap_wf (addQuantities Q amounts m)"
  by (induction amounts arbitrary: m) (auto simp: addQuantities_def)

lemma compatible_with_usage:
  assumes "describesDevice Q den (resultsFor (resultKey r) rs) u"
  shows "(\<forall>r' \<in> set rs. compatibleResults r' r) \<longleftrightarrow>
    \<not> comExclusive u \<and> (case resShareID r of None \<Rightarrow> \<not> comShared u | Some shareID \<Rightarrow> shareID \<notin> comShareIDs u)"
  using assms
  by (cases "resShareID r") (fastforce simp: describesDevice_def compatibleResults_def)+

lemma describesUsage_device:
  "describesUsage Q den rs usage \<Longrightarrow> describesDevice Q den (resultsFor key rs) (gomap_get noDeviceUsage usage key)"
  by (simp add: describesUsage_def)

lemma describesUsage_put:
  assumes "describesUsage Q den rs usage"
    and "describesDevice Q den (resultsFor (resultKey r) rs @ [r]) u"
  shows "describesUsage Q den (rs @ [r]) (gomap_put (resultKey r) u usage)"
  using assms by (auto simp: describesUsage_def)

context quantity
begin

lemma describesDevice_exclusive:
  assumes "describesDevice Q den here u" and "resShareID r = None" and "resConsumedCapacity r = None"
  shows "describesDevice Q den (here @ [r]) (u\<lparr>comExclusive := True\<rparr>)"
  using assms by (auto simp: describesDevice_def resultAmounts_def)

lemma describesDevice_shared:
  assumes "describesDevice Q den here u" and "resShareID r = Some shareID"
    and "resConsumedCapacity r = Some amounts"
  shows "describesDevice Q den (here @ [r])
    \<lparr>comExclusive = comExclusive u, comShared = True, comConsumed = addQuantities Q amounts (comConsumed u),
     comShares = comShares u @ [amounts], comShareIDs = insert shareID (comShareIDs u)\<rparr>"
  using assms by (auto simp: describesDevice_def resultAmounts_def addQuantities_sum)

lemma addResult_step:
  assumes "describesUsage Q den rs usage"
  shows "case addResult Q ns cn r usage of
      Inl f \<Rightarrow> \<not> (validResult den r \<and> (\<forall>r' \<in> set rs. compatibleResults r' r))
    | Inr usage' \<Rightarrow> validResult den r \<and> (\<forall>r' \<in> set rs. compatibleResults r' r)
        \<and> describesUsage Q den (rs @ [r]) usage'"
proof -
  define u where "u = gomap_get noDeviceUsage usage (resultKey r)"
  have u: "describesDevice Q den (resultsFor (resultKey r) rs) u"
    unfolding u_def by (rule describesUsage_device [OF assms])
  note compat = compatible_with_usage [OF u]
  consider (exclusive) "resShareID r = None" "resConsumedCapacity r = None"
    | (shared) shareID amounts where "resShareID r = Some shareID" "resConsumedCapacity r = Some amounts"
    | (mixed) "resShareID r = None \<longleftrightarrow> resConsumedCapacity r \<noteq> None"
    by (cases "resShareID r"; cases "resConsumedCapacity r") auto
  then show ?thesis
  proof cases
    case exclusive
    with describesUsage_put [OF assms describesDevice_exclusive [OF u exclusive]] show ?thesis
      by (auto simp: addResult_def compat validResult_def simp flip: u_def)
  next
    case (shared shareID amounts)
    note put = describesUsage_put [OF assms describesDevice_shared [OF u shared]]
    show ?thesis
    proof (cases "list_all (\<lambda>(n, a). 0 \<le> den a) amounts")
      case True
      then show ?thesis using shared put
        by (auto simp: addResult_def compat validResult_def addConsumedCapacity_ok Let_def simp flip: u_def)
    next
      case False
      then obtain f where "addConsumedCapacity Q ns cn r amounts (comConsumed u) = Inl f"
        using addConsumedCapacity_error by blast
      then show ?thesis using shared False
        by (simp add: addResult_def validResult_def Let_def flip: u_def)
    qed
  next
    case mixed
    then show ?thesis by (auto simp: addResult_def validResult_def Let_def split: option.splits)
  qed
qed

lemma addResults_step:
  assumes "describesUsage Q den rs usage" and "consistentResults den rs"
  shows "case addResults Q ns cn results usage of
      Inl f \<Rightarrow> \<not> consistentResults den (rs @ results)
    | Inr usage' \<Rightarrow> consistentResults den (rs @ results) \<and> describesUsage Q den (rs @ results) usage'"
  using assms
proof (induction results arbitrary: rs usage)
  case (Cons r results)
  note step = addResult_step [OF Cons.prems(1), where r = r and ns = ns and cn = cn]
  show ?case
  proof (cases "addResult Q ns cn r usage")
    case (Inl f)
    with step have "\<not> consistentResults den (rs @ [r])" by (simp add: consistentResults_snoc)
    then have "\<not> consistentResults den ((rs @ [r]) @ results)" unfolding consistentResults_append by blast
    then show ?thesis using Inl by simp
  next
    case (Inr usage')
    then show ?thesis using step Cons.IH [of "rs @ [r]" usage'] Cons.prems(2)
      by (simp add: consistentResults_snoc split: sum.splits)
  qed
qed simp

lemma collectUsageFrom_step:
  assumes "describesUsage Q den rs usage" and "consistentResults den rs"
  shows "case collectUsageFrom Q claims usage of
      Inl f \<Rightarrow> \<not> consistentResults den (rs @ committedResults claims)
    | Inr usage' \<Rightarrow> consistentResults den (rs @ committedResults claims)
        \<and> describesUsage Q den (rs @ committedResults claims) usage'"
  using assms
proof (induction claims arbitrary: rs usage)
  case (Cons claim claims)
  show ?case
  proof (cases "claimAllocation claim")
    case None
    then show ?thesis using Cons.IH [OF Cons.prems] by (simp split: sum.splits)
  next
    case (Some a)
    note step = addResults_step [OF Cons.prems, where results = "allocResults a"
        and ns = "claimNamespace claim" and cn = "claimName claim"]
    show ?thesis
    proof (cases "addResults Q (claimNamespace claim) (claimName claim) (allocResults a) usage")
      case (Inl f)
      with step have "\<not> consistentResults den (rs @ allocResults a)" by simp
      then have "\<not> consistentResults den ((rs @ allocResults a) @ committedResults claims)"
        unfolding consistentResults_append by blast
      then show ?thesis using Inl Some by simp
    next
      case (Inr usage')
      then show ?thesis using step Cons.IH [of "rs @ allocResults a" usage'] Some
        by (simp split: sum.splits)
    qed
  qed
qed simp

lemma collect_describes:
  "case collectCommittedAllocationUsage Q claims of
     Inl f \<Rightarrow> \<not> consistentResults den (committedResults claims)
   | Inr usage \<Rightarrow> consistentResults den (committedResults claims)
       \<and> describesUsage Q den (committedResults claims) usage"
proof -
  have "quantity Q den" by (rule quantity_axioms)
  from collectUsageFrom_step [OF describesUsage_none [OF this], of claims] show ?thesis
    by (simp add: collectCommittedAllocationUsage_def split: sum.splits)
qed

end

subsection \<open>Reserving results\<close>

definition describesAttempt ::
  "'q quantity_api \<Rightarrow> ('q \<Rightarrow> rat) \<Rightarrow> 'q DeviceRequestAllocationResult list \<Rightarrow>
   'q allocationAttemptUsage \<Rightarrow> bool" where
  "describesAttempt Q den rs attempt \<longleftrightarrow>
     attExclusive attempt = {resultKey r | r. r \<in> set rs \<and> resShareID r = None} \<and>
     attShared attempt = {resultKey r | r. r \<in> set rs \<and> resShareID r \<noteq> None} \<and>
     (\<forall>key name. den (gomap_get (q_zero Q) (attConsumed attempt key) name) = consumedTotal den rs key name)"

lemma describesAttempt_new: "quantity Q den \<Longrightarrow> describesAttempt Q den [] newAllocationAttemptUsage"
  by (simp add: describesAttempt_def newAllocationAttemptUsage_def quantity.den_zero)

lemma describesAttempt_exclusive:
  "describesAttempt Q den rs attempt \<Longrightarrow>
     key \<in> attExclusive attempt \<longleftrightarrow> (\<exists>r \<in> set (resultsFor key rs). resShareID r = None)"
  by (auto simp: describesAttempt_def)

lemma describesAttempt_shared:
  "describesAttempt Q den rs attempt \<Longrightarrow>
     key \<in> attShared attempt \<longleftrightarrow> (\<exists>r \<in> set (resultsFor key rs). resShareID r \<noteq> None)"
  by (auto simp: describesAttempt_def)

lemma describesUsage_lookup:
  assumes "describesUsage Q den rs usage"
  shows "describesDevice Q den (resultsFor key rs)
    (case map_of usage key of None \<Rightarrow> noDeviceUsage | Some u \<Rightarrow> u)"
  using describesUsage_device [OF assms, of key] by (simp add: gomap_get_def)

lemma describesDevice_none_iff:
  "describesDevice Q den here u \<Longrightarrow> \<not> comExclusive u \<Longrightarrow> \<not> comShared u \<Longrightarrow> here = []"
  by (cases here) (auto simp: describesDevice_def)


text \<open>
  What makes a result a sound choice of a device beside other results: alone on an exclusive device;
  on a shareable device only beside shares, with an amount for every capacity, the sums within them.
\<close>

definition admissibleResult ::
  "('q \<Rightarrow> rat) \<Rightarrow> 'q Device \<Rightarrow> 'q DeviceRequestAllocationResult list \<Rightarrow>
   'q DeviceRequestAllocationResult \<Rightarrow> bool" where
  "admissibleResult den device others r \<longleftrightarrow>
     (if deviceAllowsMultipleAllocations device
      then (\<exists>shareID amounts. resShareID r = Some shareID \<and> resConsumedCapacity r = Some amounts \<and>
          gomap_keys amounts = gomap_keys (devCapacity device) \<and>
          list_all (\<lambda>(name, amount). 0 \<le> den amount) amounts) \<and>
        list_all (\<lambda>r'. resShareID r' \<noteq> None) (resultsFor (resultKey r) others) \<and>
        list_all (\<lambda>(name, capacity). consumedTotal den (others @ [r]) (resultKey r) name
          \<le> den (capValue capacity)) (devCapacity device)
      else resShareID r = None \<and> resConsumedCapacity r = None \<and> resultsFor (resultKey r) others = [])"

text \<open>
  \<open>capacityServed\<close>: the result serves the request's capacity requirements: everything requested is a capacity of the device; an
  exclusive device has as much, and the consumption on a shareable device covers it.
\<close>

definition capacityServed ::
  "('q \<Rightarrow> rat) \<Rightarrow> 'q CapacityRequirements option \<Rightarrow> 'q Device \<Rightarrow> 'q DeviceRequestAllocationResult \<Rightarrow> bool" where
  "capacityServed den requirements device r \<longleftrightarrow>
     fst ` set (case requirements of None \<Rightarrow> [] | Some requests \<Rightarrow> requests) \<subseteq> gomap_keys (devCapacity device) \<and>
     (if deviceAllowsMultipleAllocations device
      then list_all (\<lambda>(name, capacity). \<exists>amounts amount. resConsumedCapacity r = Some amounts \<and> map_of amounts name = Some amount \<and>
             coversRequest den requirements name capacity amount) (devCapacity device)
      else requestFits den requirements (devCapacity device))"

lemma requestFits_keys:
  assumes "requestFits den requirements capacities"
  shows "fst ` set (case requirements of None \<Rightarrow> [] | Some requests \<Rightarrow> requests) \<subseteq> gomap_keys capacities"
proof -
  have "fst entry \<in> gomap_keys capacities" if "requirements = Some requests" "entry \<in> set requests" for requests entry
    using that assms by (cases entry) (auto simp: requestFits_def list_all_iff gomap_keys_dom)
  then show ?thesis by (auto split: option.splits)
qed

context quantity
begin

lemma reserve_describes:
  assumes "describesAttempt Q den rs attempt" and "resShareID r = None \<Longrightarrow> resConsumedCapacity r = None"
  shows "describesAttempt Q den (rs @ [r]) (reserve Q r attempt)"
proof (cases "resShareID r")
  case None
  with assms(2) [OF None] assms(1) show ?thesis
    by (auto simp: describesAttempt_def reserve_def resultAmounts_def)
next
  case (Some shareID)
  with assms(1) show ?thesis
    by (auto simp: describesAttempt_def reserve_def addQuantities_sum resultAmounts_def Let_def)
qed

lemma fold_reserve_describes:
  "describesAttempt Q den rs attempt \<Longrightarrow>
     \<forall>r \<in> set rs'. resShareID r = None \<longrightarrow> resConsumedCapacity r = None \<Longrightarrow>
     describesAttempt Q den (rs @ rs') (fold (reserve Q) rs' attempt)"
proof (induction rs' arbitrary: rs attempt)
  case (Cons r rs')
  then show ?case using reserve_describes [of rs attempt r] Cons.IH [of "rs @ [r]" "reserve Q r attempt"]
    by simp
qed simp

lemma shareable_within_capacity:
  assumes "gomap_wf (devCapacity device)"
    and "evaluateShareableCapacity Q requirements (devCapacity device) committed pending = Inr (Some consumed)"
  shows "gomap_keys consumed = gomap_keys (devCapacity device)"
    and "list_all (\<lambda>(name, amount). 0 \<le> den amount) consumed"
    and "(name, capacity) \<in> set (devCapacity device) \<Longrightarrow>
      den (gomap_get (q_zero Q) committed name) + den (gomap_get (q_zero Q) pending name)
        + amountIn den consumed name \<le> den (capValue capacity)"
proof -
  have wf: "gomap_wf consumed" by (rule evaluateShareableCapacity_SomeD(1) [OF assms(2,1)])
  have keys: "gomap_keys consumed = gomap_keys (devCapacity device)"
    by (rule evaluateShareableCapacity_SomeD(2) [OF assms(2,1)])
  have entry: "\<exists>amount. map_of consumed name = Some amount \<and> 0 \<le> den amount \<and>
      den (gomap_get (q_zero Q) committed name) + den (gomap_get (q_zero Q) pending name) + den amount
        \<le> den (capValue capacity)" if "(name, capacity) \<in> set (devCapacity device)" for name capacity
    using shareable_entry_bound [OF assms(1) assms(2) that] by blast
  show "gomap_keys consumed = gomap_keys (devCapacity device)" by (rule keys)
  show "list_all (\<lambda>(name, amount). 0 \<le> den amount) consumed"
  proof -
    have "0 \<le> den a" if "(n, a) \<in> set consumed" for n a
    proof -
      have "n \<in> gomap_keys (devCapacity device)" using that keys by (force simp: gomap_keys_def)
      then obtain cap where "(n, cap) \<in> set (devCapacity device)" by (force simp: gomap_keys_def)
      from entry [OF this] wf that show ?thesis by (auto simp: map_of_wf_iff gomap_wf_def eq_key_imp_eq_value)
    qed
    then show ?thesis by (auto simp: list_all_iff)
  qed
  assume "(name, capacity) \<in> set (devCapacity device)"
  from entry [OF this] wf show "den (gomap_get (q_zero Q) committed name)
      + den (gomap_get (q_zero Q) pending name) + amountIn den consumed name \<le> den (capValue capacity)"
    by (auto simp: amountIn_wf)
qed

lemma buildExclusiveCandidate_sound:
  assumes "describesUsage Q den rs usage" and "describesAttempt Q den rs' attempt"
    and "\<not> deviceAllowsMultipleAllocations device"
    and "buildExclusiveCandidate Q usage requestName requirements sl device attempt seen = (Inr (Some r), seen')"
  shows "resRequest r = requestName \<and> resultAt sl device r \<and>
    seen' = insert (deviceKey sl device) seen \<and> admissibleResult den device (rs @ rs') r \<and>
    capacityServed den requirements device r"
proof -
  let ?key = "deviceKey sl device"
  let ?u = "case map_of usage ?key of None \<Rightarrow> noDeviceUsage | Some u \<Rightarrow> u"
  have r: "r = \<lparr>resRequest = requestName, resDriver = sliceDriver sl, resPool = poolName sl,
      resDevice = devName device, resShareID = None, resConsumedCapacity = None\<rparr>"
    and seen': "seen' = insert ?key seen"
    and free: "\<not> comShared ?u" "\<not> comExclusive ?u" "?key \<notin> attExclusive attempt" "?key \<notin> attShared attempt"
    and matches: "exclusiveCapacityMatches Q device requirements = Inr True"
    using assms(4)
    by (auto simp: buildExclusiveCandidate_def Let_def noDeviceUsage_def split: if_splits sum.splits option.splits)
  have "resultsFor ?key rs = []"
    by (rule describesDevice_none_iff [OF describesUsage_lookup [OF assms(1)] free(2,1)])
  moreover have "resultsFor ?key rs' = []"
    using free(3,4) describesAttempt_exclusive [OF assms(2)] describesAttempt_shared [OF assms(2)]
    by (cases "resultsFor ?key rs'") (fastforce simp del: set_resultsFor)+
  moreover have "capacityServed den requirements device r"
    using exclusiveCapacityMatches_fits [OF matches] requestFits_keys [of den requirements "devCapacity device"] assms(3)
    unfolding capacityServed_def by presburger
  ultimately show ?thesis
    using r seen' assms(3) by (simp add: admissibleResult_def resultKey_def deviceKey_def resultAt_def)
qed

lemma buildShareableCandidate_sound:
  assumes "describesUsage Q den rs usage" and "describesAttempt Q den rs' attempt"
    and "deviceAllowsMultipleAllocations device" and "gomap_wf (devCapacity device)"
    and "buildShareableCandidate Q newUUID usage requestName requirements sl device attempt seen uuids
      = (Inr (Some r), seen', uuids')"
  shows "resRequest r = requestName \<and> resultAt sl device r \<and>
    resShareID r = Some (newUUID uuids) \<and> uuids' = Suc uuids \<and>
    seen' = insert (deviceKey sl device) seen \<and> admissibleResult den device (rs @ rs') r \<and>
    capacityServed den requirements device r"
proof -
  let ?key = "deviceKey sl device"
  define u where "u = (case map_of usage ?key of None \<Rightarrow> noDeviceUsage | Some u \<Rightarrow> u)"
  from assms(5) obtain consumed where
    r: "r = \<lparr>resRequest = requestName, resDriver = sliceDriver sl, resPool = poolName sl,
      resDevice = devName device, resShareID = Some (newUUID uuids), resConsumedCapacity = Some consumed\<rparr>"
    and seen': "seen' = insert ?key seen" and uuids': "uuids' = Suc uuids"
    and free: "\<not> comExclusive u" "?key \<notin> attExclusive attempt"
    and eval: "evaluateShareableCapacity Q requirements (devCapacity device) (comConsumed u)
      (attConsumed attempt ?key) = Inr (Some consumed)"
    by (auto simp: buildShareableCandidate_def Let_def u_def noDeviceUsage_def
        split: if_splits sum.splits option.splits)
  have dev: "describesDevice Q den (resultsFor ?key rs) u"
    unfolding u_def by (rule describesUsage_lookup [OF assms(1)])
  have key: "resultKey r = ?key" using r by (simp add: resultKey_def deviceKey_def)
  note bound = shareable_within_capacity [OF assms(4) eval]
  have shares: "list_all (\<lambda>r'. resShareID r' \<noteq> None) (resultsFor ?key (rs @ rs'))"
    using dev free describesAttempt_exclusive [OF assms(2), of ?key]
    by (auto simp: describesDevice_def list_all_iff)
  have "consumedTotal den ((rs @ rs') @ [r]) ?key name = den (gomap_get (q_zero Q) (comConsumed u) name)
      + den (gomap_get (q_zero Q) (attConsumed attempt ?key) name) + amountIn den consumed name" for name
    using dev assms(2) key r
    by (simp add: describesDevice_def describesAttempt_def resultAmounts_def consumedTotal_def)
  with bound(3) have "list_all (\<lambda>(name, capacity). consumedTotal den ((rs @ rs') @ [r]) ?key name
      \<le> den (capValue capacity)) (devCapacity device)"
    by (auto simp: list_all_iff)
  moreover have "capacityServed den requirements device r"
  proof -
    have "fst ` set (case requirements of None \<Rightarrow> [] | Some requests \<Rightarrow> requests) \<subseteq> gomap_keys (devCapacity device)"
      using evaluateShareableCapacity_SomeD(4) [OF eval assms(4)] checkCapacityRequests_keys by (cases requirements) (simp, simp, blast)
    moreover have "list_all (\<lambda>(name, capacity). \<exists>amounts amount. resConsumedCapacity r = Some amounts \<and> map_of amounts name = Some amount \<and>
        coversRequest den requirements name capacity amount) (devCapacity device)"
      using shareable_entry_bound [OF assms(4) eval] r by (fastforce simp: list_all_iff)
    ultimately show ?thesis using assms(3) by (simp add: capacityServed_def)
  qed
  ultimately show ?thesis using bound(1,2) shares r key seen' uuids' assms(3)
    by (simp add: admissibleResult_def resultAt_def)
qed

lemma buildBacktrackingCandidate_sound:
  assumes "describesUsage Q den rs usage" and "describesAttempt Q den rs' attempt"
    and "gomap_wf (devCapacity device)"
    and "buildBacktrackingCandidate Q newUUID usage requestName requirements sl device attempt seen uuids
      = (Inr (Some r), seen', uuids')"
  shows "resRequest r = requestName \<and> resultAt sl device r \<and>
    deviceKey sl device \<notin> seen \<and> seen' = insert (deviceKey sl device) seen \<and>
    admissibleResult den device (rs @ rs') r \<and> capacityServed den requirements device r \<and>
    (if deviceAllowsMultipleAllocations device
     then resShareID r = Some (newUUID uuids) \<and> uuids' = Suc uuids else resShareID r = None \<and> uuids' = uuids)"
proof (cases "deviceAllowsMultipleAllocations device")
  case True
  then have build: "buildShareableCandidate Q newUUID usage requestName requirements sl device attempt seen uuids
      = (Inr (Some r), seen', uuids')" and fresh: "deviceKey sl device \<notin> seen"
    using assms(4) by (auto simp: buildBacktrackingCandidate_def split: if_splits)
  from buildShareableCandidate_sound [OF assms(1,2) True assms(3) build] fresh True show ?thesis by simp
next
  case False
  then have build: "buildExclusiveCandidate Q usage requestName requirements sl device attempt seen
      = (Inr (Some r), seen')" and "deviceKey sl device \<notin> seen" "uuids' = uuids"
    using assms(4) by (auto simp: buildBacktrackingCandidate_def split: if_splits prod.splits)
  moreover note buildExclusiveCandidate_sound [OF assms(1,2) False build]
  moreover from this False have "resShareID r = None" by (simp add: admissibleResult_def)
  ultimately show ?thesis using False by simp
qed

end

lemma buildExclusiveCandidate_None:
  "buildExclusiveCandidate Q usage requestName requirements sl device attempt seen = (Inr None, seen') \<Longrightarrow>
     seen' = seen"
  by (auto simp: buildExclusiveCandidate_def Let_def split: if_splits sum.splits)

lemma buildShareableCandidate_frame:
  "buildShareableCandidate Q newUUID usage requestName requirements sl device attempt seen uuids
     = (res, seen', uuids') \<Longrightarrow>
   (\<exists>r. res = Inr (Some r) \<and> uuids' = Suc uuids) \<or> (\<forall>r. res \<noteq> Inr (Some r)) \<and> seen' = seen \<and> uuids' = uuids"
  unfolding buildShareableCandidate_def Let_def
  by (simp split: if_split_asm option.split_asm sum.split_asm) auto

lemma buildBacktrackingCandidate_None:
  assumes "buildBacktrackingCandidate Q newUUID usage requestName requirements sl device attempt seen uuids
     = (Inr None, seen', uuids')"
  shows "seen' = seen \<and> uuids' = uuids"
proof (cases "deviceKey sl device \<in> seen \<or> \<not> deviceAllowsMultipleAllocations device")
  case True
  with assms show ?thesis
    by (auto simp: buildBacktrackingCandidate_def split: if_splits prod.splits
        dest!: buildExclusiveCandidate_None)
next
  case False
  with assms have "buildShareableCandidate Q newUUID usage requestName requirements sl device attempt seen uuids
     = (Inr None, seen', uuids')" by (simp add: buildBacktrackingCandidate_def)
  from buildShareableCandidate_frame [OF this] show ?thesis by simp
qed

lemma buildBacktrackingCandidate_uuids:
  assumes "buildBacktrackingCandidate Q newUUID usage requestName requirements sl device attempt seen uuids
     = (res, seen', uuids')"
  shows "uuids \<le> uuids'"
proof (cases "deviceKey sl device \<in> seen \<or> \<not> deviceAllowsMultipleAllocations device")
  case True
  with assms show ?thesis
    by (auto simp: buildBacktrackingCandidate_def split: if_splits prod.splits)
next
  case False
  with assms have "buildShareableCandidate Q newUUID usage requestName requirements sl device attempt seen uuids
     = (res, seen', uuids')" by (simp add: buildBacktrackingCandidate_def)
  from buildShareableCandidate_frame [OF this] show ?thesis by auto
qed

section \<open>Order of the claims\<close>

lemma compatibleResults_sym: "compatibleResults r r' \<longleftrightarrow> compatibleResults r' r"
  by (auto simp: compatibleResults_def)

lemma sorted_wrt_move:
  assumes "\<And>x y. P x y \<longleftrightarrow> P y x"
  shows "sorted_wrt P (xs @ x # ys) \<longleftrightarrow> sorted_wrt P (x # xs @ ys)"
  using assms by (auto simp: sorted_wrt_append)

lemma sorted_wrt_mset:
  assumes "\<And>x y. P x y \<longleftrightarrow> P y x" and "mset xs = mset ys"
  shows "sorted_wrt P xs \<longleftrightarrow> sorted_wrt P ys"
  using assms(2)
proof (induction xs arbitrary: ys)
  case (Cons x xs)
  then have "x \<in> set ys" by (metis list.set_intros(1) mset_eq_setD)
  then obtain as bs where ys: "ys = as @ x # bs" by (auto simp: in_set_conv_decomp)
  with Cons.prems have eq: "mset xs = mset (as @ bs)" by simp
  then have "set xs = set (as @ bs)" by (rule mset_eq_setD)
  then show ?case unfolding ys sorted_wrt_move [of P, OF assms(1)] using Cons.IH [OF eq] by simp
qed simp

lemma consistentResults_mset:
  assumes "mset rs = mset rs'"
  shows "consistentResults den rs \<longleftrightarrow> consistentResults den rs'"
  using sorted_wrt_mset [of compatibleResults, OF compatibleResults_sym assms] mset_eq_setD [OF assms]
  by (simp add: consistentResults_def list_all_iff)

lemma mset_committedResults:
  fixes claims claims' :: "'q ResourceClaim list"
  assumes "mset claims = mset claims'"
  shows "mset (committedResults claims) = mset (committedResults claims')"
proof -
  let ?f = "\<lambda>claim :: 'q ResourceClaim.
    mset (case claimAllocation claim of None \<Rightarrow> [] | Some a \<Rightarrow> allocResults a)"
  have "mset (committedResults cs) = \<Sum>\<^sub># (image_mset ?f (mset cs))" for cs :: "'q ResourceClaim list"
    by (induction cs) auto
  then show ?thesis using assms by simp
qed

section \<open>Properties\<close>

text \<open>
  C5. The usage that \<^verbatim>\<open>collectCommittedAllocationUsage\<close> builds is exact: it fails exactly when the
  allocations written to the claims are inconsistent (a device allocated twice exclusively, or both
  exclusively and shared, a repeated or malformed share ID, a share ID without consumed capacity or the
  reverse, a negative amount); otherwise every device's entry says whether it is used exclusively or
  shared, lists its shares and their IDs, and holds the exact sums consumed.
\<close>

theorem collectCommittedAllocationUsage_exact:
  assumes "quantity_laws Q den"
  shows "case collectCommittedAllocationUsage Q claims of
      Inl failure \<Rightarrow> \<not> consistentResults den (committedResults claims)
    | Inr usage \<Rightarrow> consistentResults den (committedResults claims)
        \<and> describesUsage Q den (committedResults claims) usage"
  by (rule quantity.collect_describes) (rule quantity.intro [OF assms])

definition exampleShareID :: "char \<Rightarrow> string" where
  "exampleShareID c = c # ''0000000-0000-1000-8000-000000000000''"

definition exampleShare :: "char \<Rightarrow> rat \<Rightarrow> rat DeviceRequestAllocationResult" where
  "exampleShare c amount =
     \<lparr>resRequest = ''r'', resDriver = ''d'', resPool = ''p'', resDevice = ''gpu'',
      resShareID = Some (exampleShareID c), resConsumedCapacity = Some [(''m'', amount)]\<rparr>"

definition exampleExclusive :: "rat DeviceRequestAllocationResult" where
  "exampleExclusive =
     \<lparr>resRequest = ''r'', resDriver = ''d'', resPool = ''p'', resDevice = ''gpu'',
      resShareID = None, resConsumedCapacity = None\<rparr>"

definition exampleClaim :: "rat DeviceRequestAllocationResult list \<Rightarrow> rat ResourceClaim" where
  "exampleClaim rs =
     \<lparr>claimName = ''c'', claimNamespace = ''ns'', claimRequests = [], claimConstraints = [],
      claimAllocation = Some \<lparr>allocResults = rs, allocNodeSelector = None\<rparr>, claimReservedFor = []\<rparr>"

lemma exampleShare_simps [simp]:
  "resultKey (exampleShare c a) = deviceIdentityKey ''d'' ''p'' ''gpu''"
  "resShareID (exampleShare c a) = Some (exampleShareID c)"
  "resConsumedCapacity (exampleShare c a) = Some [(''m'', a)]"
  "resultKey exampleExclusive = deviceIdentityKey ''d'' ''p'' ''gpu''"
  "resShareID exampleExclusive = None" "resConsumedCapacity exampleExclusive = None"
  "claimAllocation (exampleClaim rs) = Some \<lparr>allocResults = rs, allocNodeSelector = None\<rparr>"
  "exampleShareID c = exampleShareID c' \<longleftrightarrow> c = c'"
  by (simp_all add: exampleShare_def exampleExclusive_def exampleClaim_def resultKey_def exampleShareID_def)

lemma exampleShareID_normalized:
  "normalizedShareID (exampleShareID CHR ''a'')" "normalizedShareID (exampleShareID CHR ''b'')"
  by (simp_all add: normalizedShareID_def exampleShareID_def lowerHex_def upt_rec)

lemma exampleShares_consistent:
  "consistentResults (\<lambda>a. a) [exampleShare CHR ''a'' 4, exampleShare CHR ''b'' 6]"
  by (simp add: consistentResults_def validResult_def compatibleResults_def exampleShareID_normalized)

theorem collectCommittedAllocationUsage_exact_witness:
  "(\<exists>usage. collectCommittedAllocationUsage exact_quantity
       [exampleClaim [exampleShare CHR ''a'' 4], exampleClaim [exampleShare CHR ''b'' 6]] = Inr usage
     \<and> gomap_get 0 (comConsumed (gomap_get noDeviceUsage usage (deviceIdentityKey ''d'' ''p'' ''gpu''))) ''m'' = 10) \<and>
   (\<exists>failure. collectCommittedAllocationUsage exact_quantity
       [exampleClaim [exampleShare CHR ''a'' 4], exampleClaim [exampleExclusive]] = Inl failure)"
proof (intro conjI)
  let ?cs = "[exampleClaim [exampleShare CHR ''a'' 4], exampleClaim [exampleShare CHR ''b'' 6]]"
  have "committedResults ?cs = [exampleShare CHR ''a'' 4, exampleShare CHR ''b'' 6]" by simp
  with collectCommittedAllocationUsage_exact [OF exact_quantity_laws, of ?cs] exampleShares_consistent
  obtain usage where u: "collectCommittedAllocationUsage exact_quantity ?cs = Inr usage"
    and d: "describesUsage exact_quantity (\<lambda>a. a) [exampleShare CHR ''a'' 4, exampleShare CHR ''b'' 6] usage"
    by (cases "collectCommittedAllocationUsage exact_quantity ?cs") auto
  from describesUsage_device [OF d, of "deviceIdentityKey ''d'' ''p'' ''gpu''"]
  have "gomap_get 0 (comConsumed (gomap_get noDeviceUsage usage (deviceIdentityKey ''d'' ''p'' ''gpu''))) ''m'' = 10"
    by (simp add: describesDevice_def resultAmounts_def exact_quantity_def)
  with u show "\<exists>usage. collectCommittedAllocationUsage exact_quantity ?cs = Inr usage
     \<and> gomap_get 0 (comConsumed (gomap_get noDeviceUsage usage (deviceIdentityKey ''d'' ''p'' ''gpu''))) ''m'' = 10"
    by blast
next
  let ?cs = "[exampleClaim [exampleShare CHR ''a'' 4], exampleClaim [exampleExclusive]]"
  have "\<not> consistentResults (\<lambda>a. a) (committedResults ?cs)"
    by (simp add: consistentResults_def compatibleResults_def)
  with collectCommittedAllocationUsage_exact [OF exact_quantity_laws, of ?cs]
  show "\<exists>failure. collectCommittedAllocationUsage exact_quantity ?cs = Inl failure"
    by (cases "collectCommittedAllocationUsage exact_quantity ?cs") auto
qed

text \<open>
  The order in which the claims are listed does not decide whether their allocations are accepted,
  nor what is recorded for a device: two runs over the same claims in different orders both fail, or
  agree for every device on the exclusive and shared flags, the share IDs and the sums consumed.
\<close>

theorem collectCommittedAllocationUsage_order:
  assumes "quantity_laws Q den" and "mset claims' = mset claims"
  shows "case (collectCommittedAllocationUsage Q claims, collectCommittedAllocationUsage Q claims') of
      (Inl _, Inl _) \<Rightarrow> True
    | (Inr usage, Inr usage') \<Rightarrow>
        (let u = gomap_get noDeviceUsage usage key; u' = gomap_get noDeviceUsage usage' key
         in comExclusive u = comExclusive u' \<and> comShared u = comShared u' \<and> comShareIDs u = comShareIDs u' \<and>
            den (gomap_get (q_zero Q) (comConsumed u) name) = den (gomap_get (q_zero Q) (comConsumed u') name))
    | _ \<Rightarrow> False"
proof -
  have "quantity Q den" by (rule quantity.intro) (rule assms(1))
  note run = quantity.collect_describes [OF this]
  note ms = mset_committedResults [OF assms(2)]
  have here: "mset (resultsFor key (committedResults claims')) = mset (resultsFor key (committedResults claims))"
    unfolding resultsFor_def mset_filter ms ..
  have sums: "(\<Sum>r \<leftarrow> resultsFor key (committedResults claims'). f r)
      = (\<Sum>r \<leftarrow> resultsFor key (committedResults claims). f r)" for f :: "_ \<Rightarrow> rat"
    using here by (metis mset_map sum_mset_sum_list)
  show ?thesis
    using run [of claims] run [of claims'] consistentResults_mset [OF ms] mset_eq_setD [OF here]
      describesUsage_device [of Q den "committedResults claims" _ key]
      describesUsage_device [of Q den "committedResults claims'" _ key]
    by (auto simp del: set_resultsFor simp: describesDevice_def Let_def sums split: sum.splits)
qed

theorem collectCommittedAllocationUsage_order_witness:
  "case (collectCommittedAllocationUsage exact_quantity
           [exampleClaim [exampleShare CHR ''a'' 4], exampleClaim [exampleExclusive]],
         collectCommittedAllocationUsage exact_quantity
           [exampleClaim [exampleExclusive], exampleClaim [exampleShare CHR ''a'' 4]]) of
     (Inl _, Inl _) \<Rightarrow> True | _ \<Rightarrow> False"
proof -
  let ?run = "collectCommittedAllocationUsage exact_quantity"
  let ?cs = "[exampleClaim [exampleShare CHR ''a'' 4], exampleClaim [exampleExclusive]]"
  let ?cs' = "[exampleClaim [exampleExclusive], exampleClaim [exampleShare CHR ''a'' 4]]"
  have "\<not> consistentResults (\<lambda>a. a) (committedResults ?cs)"
    by (simp add: consistentResults_def compatibleResults_def)
  with exact.collect_describes [of ?cs] have "isl (?run ?cs)" by (simp split: sum.splits)
  moreover have "mset ?cs' = mset ?cs" by simp
  ultimately show ?thesis
    using collectCommittedAllocationUsage_order [OF exact_quantity_laws \<open>mset ?cs' = mset ?cs\<close>]
    by (cases "?run ?cs"; cases "?run ?cs'") auto
qed

text \<open>
  C6. A candidate of the backtracking planner is sound beside the committed results and the results
  reserved in the attempt: an exclusive device is used by no other result; a shareable device is used by
  shares only, gets a new share ID and an amount for each of its capacities, and all amounts together stay
  within each capacity. The device was not offered before in the same enumeration.
\<close>

theorem buildBacktrackingCandidate_admissible:
  assumes "quantity_laws Q den" and "gomap_wf (devCapacity device)"
    and "describesUsage Q den committed usage" and "describesAttempt Q den reserved attempt"
    and "buildBacktrackingCandidate Q newUUID usage requestName requirements sl device attempt seen uuids
      = (Inr (Some r), seen', uuids')"
  shows "resRequest r = requestName \<and> resultKey r = deviceKey sl device \<and>
    deviceKey sl device \<notin> seen \<and> deviceKey sl device \<in> seen' \<and>
    admissibleResult den device (committed @ reserved) r \<and>
    (deviceAllowsMultipleAllocations device \<longrightarrow> resShareID r = Some (newUUID uuids) \<and> uuids' = Suc uuids)"
proof -
  have "quantity Q den" by (rule quantity.intro) (rule assms(1))
  from quantity.buildBacktrackingCandidate_sound [OF this assms(3,4,2,5)] show ?thesis
    by (simp add: resultAt_key split: if_splits)
qed

definition exampleDevice :: "rat Device" where
  "exampleDevice =
     \<lparr>devName = ''gpu'', devAttributes = [], devCapacity = [(''m'', exampleCapacity)],
      consumesCounters = [], devNodeName = None, devNodeSelector = None, devAllNodes = None, taints = [],
      bindsToNode = None, bindingConditions = [], bindingFailureConditions = [],
      allowMultipleAllocations = Some True, nodeAllocatableResourceMappings = []\<rparr>"

definition exampleSlice :: "rat ResourceSlice" where
  "exampleSlice =
     \<lparr>sliceName = ''s'', sliceLabels = [(''draforge.oaslananka/managed-by'', ''simulator'')],
      sliceDriver = ''d'', poolName = ''p'', poolGeneration = 1, resourceSliceCount = 1,
      sliceNodeName = Some ''node'', sliceNodeSelector = None, sliceAllNodes = None,
      perDeviceNodeSelection = None, sharedCounters = [], sliceDevices = [exampleDevice]\<rparr>"

definition exampleUsage :: "rat committedAllocationUsage" where
  "exampleUsage = [(deviceIdentityKey ''d'' ''p'' ''gpu'',
     \<lparr>comExclusive = False, comShared = True, comConsumed = [(''m'', 4)], comShares = [[(''m'', 4)]],
      comShareIDs = {exampleShareID CHR ''a''}\<rparr>)]"

lemma exampleUsage_describes:
  "describesUsage exact_quantity (\<lambda>a. a) [exampleShare CHR ''a'' 4] exampleUsage"
  by (auto simp: describesUsage_def describesDevice_def exampleUsage_def gomap_get_def resultAmounts_def
      noDeviceUsage_def)

lemma example_candidate:
  "buildBacktrackingCandidate exact_quantity (\<lambda>_. exampleShareID CHR ''b'') exampleUsage ''r''
     (Some [(''m'', 3)]) exampleSlice exampleDevice newAllocationAttemptUsage {} 0
   = (Inr (Some (exampleShare CHR ''b'' 6)), {deviceIdentityKey ''d'' ''p'' ''gpu''}, 1)"
proof -
  have key: "deviceKey exampleSlice exampleDevice = deviceIdentityKey ''d'' ''p'' ''gpu''"
    by (simp add: deviceKey_def exampleSlice_def exampleDevice_def)
  have cap: "devCapacity exampleDevice = [(''m'', exampleCapacity)]" by (simp add: exampleDevice_def)
  have "validateCommittedShareUsage exact_quantity exampleSlice exampleDevice u = None"
    if "comShares u = [[(''m'', 4)]]" "comConsumed u = [(''m'', 4)]" for u
    using that by (simp add: validateCommittedShareUsage_def missingKey_def exampleDevice_def
        exampleCapacity_def)
  then show ?thesis
    using example_evaluate
    by (simp add: buildBacktrackingCandidate_def buildShareableCandidate_def key exampleUsage_def cap
        newAllocationAttemptUsage_def exampleShare_def)
      (simp add: exampleDevice_def exampleSlice_def deviceAllowsMultipleAllocations_def)
qed

theorem buildBacktrackingCandidate_admissible_witness:
  "admissibleResult (\<lambda>a. a) exampleDevice [exampleShare CHR ''a'' 4] (exampleShare CHR ''b'' 6) \<and>
   consumedTotal (\<lambda>a. a) [exampleShare CHR ''a'' 4, exampleShare CHR ''b'' 6]
     (deviceIdentityKey ''d'' ''p'' ''gpu'') ''m'' = 10"
proof -
  have "gomap_wf (devCapacity exampleDevice)" by (simp add: exampleDevice_def)
  moreover have "describesAttempt exact_quantity (\<lambda>a. a) [] newAllocationAttemptUsage"
    using exact.quantity_axioms by (rule describesAttempt_new)
  ultimately have "admissibleResult (\<lambda>a. a) exampleDevice ([exampleShare CHR ''a'' 4] @ []) (exampleShare CHR ''b'' 6)"
    using buildBacktrackingCandidate_admissible
      [OF exact_quantity_laws _ exampleUsage_describes _ example_candidate] by blast
  then show ?thesis by (simp add: resultAmounts_def)
qed

end
