(* ===== verification/Allocation_Plan.thy ===== *)
theory Allocation_Plan
  imports Draeval Allocation_Usage
begin

text \<open>
  The first-fit planner, \<^verbatim>\<open>internal/simulator/allocation_plan.go\<close>, with \<^verbatim>\<open>isDeviceAllocated\<close> of
  \<^verbatim>\<open>allocation.go\<close>. A \<open>'q claimPlanner\<close> holds the fields of the Go struct and the two external
  packages; \<^verbatim>\<open>chosenDevices\<close> is threaded through the requests. A result \<^verbatim>\<open>(x, failure)\<close> is a sum, and a
  function that updates an accumulator in place returns it. Loops over slices and devices are
  recursive functions on the lists.
\<close>

section \<open>Planner state\<close>

record 'q claimPlanner =
  plQuantity :: "'q quantity_api"
  plEvaluator :: "'q cel_api"
  plClaims :: "'q ResourceClaim list"
  plSlices :: "'q ResourceSlice list"
  plClasses :: "string \<rightharpoonup> DeviceClass"
  plChosen :: "string set"
  plCommitted :: "'q committedAllocationUsage"

definition newClaimPlanner ::
  "'q quantity_api \<Rightarrow> 'q cel_api \<Rightarrow> 'q ResourceClaim list \<Rightarrow> 'q ResourceSlice list \<Rightarrow>
   (string \<rightharpoonup> DeviceClass) \<Rightarrow> 'q committedAllocationUsage \<Rightarrow> 'q claimPlanner" where
  "newClaimPlanner Q evaluator claims slices classes committedUsage =
     \<lparr>plQuantity = Q, plEvaluator = evaluator, plClaims = claims, plSlices = slices,
      plClasses = classes, plChosen = {}, plCommitted = committedUsage\<rparr>"

record 'q allocationPlan =
  planResults :: "'q DeviceRequestAllocationResult list"
  planNodeName :: string

record 'q requestAlternative =
  altRequestName :: string
  altDeviceClassName :: string
  altSelectors :: "DeviceSelector list"
  altMode :: DeviceAllocationMode
  altCount :: int
  altCapacity :: "'q CapacityRequirements option"

record 'q alternativeContract =
  conRequestName :: string
  conDeviceClassName :: string
  conSelectors :: "DeviceSelector list"
  conMode :: DeviceAllocationMode
  conCount :: int
  conAdminAccess :: "bool option"
  conTolerations :: "string list"
  conCapacity :: "'q CapacityRequirements option"

record 'q requestSelection =
  selResults :: "'q DeviceRequestAllocationResult list"
  selNodeName :: string
  selMatched :: bool
  selLimitExceeded :: bool

definition noSelection :: "'q requestSelection" where
  "noSelection = \<lparr>selResults = [], selNodeName = '''', selMatched = False, selLimitExceeded = False\<rparr>"

record 'q selectionInput =
  inAlternative :: "'q requestAlternative"
  inDeviceClass :: DeviceClass
  inAllocatedNodeName :: string
  inMaxResults :: int

record 'q candidateAccumulator =
  accCount :: int
  accByNode :: "string \<Rightarrow> 'q DeviceRequestAllocationResult list"
  accSeen :: "string set"

definition newCandidateAccumulator :: "int \<Rightarrow> 'q candidateAccumulator" where
  "newCandidateAccumulator cnt = \<lparr>accCount = cnt, accByNode = (\<lambda>_. []), accSeen = {}\<rparr>"

record 'q poolGenerationState =
  pgDriver :: string
  pgPool :: string
  pgGeneration :: int
  pgExpectedCount :: int
  pgSlices :: "'q ResourceSlice list"

section \<open>Supported requests\<close>

definition supportedAllocationMode ::
  "'q alternativeContract \<Rightarrow> allocationFailure + DeviceAllocationMode" where
  "supportedAllocationMode contract =
     (let mode = (if conMode contract = ModeUnset then ModeExactCount else conMode contract)
      in case mode of
           ModeExactCount \<Rightarrow>
             (if conCount contract < 0
              then Inl (unsupportedFailure (NegativeCount (conRequestName contract) (conCount contract)))
              else if conCount contract > AllocationResultsMaxSize
              then Inl (unsupportedFailure (CountExceedsLimit (conRequestName contract) (conCount contract)))
              else Inr mode)
         | ModeAll \<Rightarrow>
             (if conCount contract \<noteq> 0
              then Inl (unsupportedFailure (AllWithCount (conRequestName contract) (conCount contract)))
              else Inr mode)
         | _ \<Rightarrow> Inl (unsupportedFailure (UnsupportedMode (conRequestName contract) mode)))"

definition normalizedCount :: "int \<Rightarrow> int" where
  "normalizedCount cnt = (if cnt = 0 then 1 else cnt)"

definition normalizedAlternativeCount :: "DeviceAllocationMode \<Rightarrow> int \<Rightarrow> int" where
  "normalizedAlternativeCount mode cnt = (if mode = ModeAll then 0 else normalizedCount cnt)"

definition supportedAlternative ::
  "'q quantity_api \<Rightarrow> 'q alternativeContract \<Rightarrow> allocationFailure + 'q requestAlternative" where
  "supportedAlternative Q contract =
     (if conDeviceClassName contract = ''''
      then Inl (unsupportedFailure (NoDeviceClassName (conRequestName contract)))
      else case supportedAllocationMode contract of
        Inl failure \<Rightarrow> Inl failure
      | Inr mode \<Rightarrow>
          (if conAdminAccess contract = Some True
           then Inl (unsupportedFailure (UsesAdminAccess (conRequestName contract)))
           else if conTolerations contract \<noteq> []
           then Inl (unsupportedFailure (UsesTolerations (conRequestName contract)))
           else case validateExclusiveCapacityRequirements Q (conRequestName contract) (conCapacity contract) of
             Some failure \<Rightarrow> Inl failure
           | None \<Rightarrow>
               Inr \<lparr>altRequestName = conRequestName contract,
                    altDeviceClassName = conDeviceClassName contract,
                    altSelectors = conSelectors contract,
                    altMode = mode,
                    altCount = normalizedAlternativeCount mode (conCount contract),
                    altCapacity = conCapacity contract\<rparr>))"

definition exactAlternativeContract ::
  "string \<Rightarrow> 'q ExactDeviceRequest \<Rightarrow> 'q alternativeContract" where
  "exactAlternativeContract requestName exact =
     \<lparr>conRequestName = requestName,
      conDeviceClassName = exDeviceClassName exact,
      conSelectors = exSelectors exact,
      conMode = exAllocationMode exact,
      conCount = exCount exact,
      conAdminAccess = exAdminAccess exact,
      conTolerations = exTolerations exact,
      conCapacity = exCapacity exact\<rparr>"

definition subrequestContract ::
  "string \<Rightarrow> 'q DeviceSubRequest \<Rightarrow> 'q alternativeContract" where
  "subrequestContract parentName subrequest =
     \<lparr>conRequestName = parentName @ ''/'' @ subName subrequest,
      conDeviceClassName = subDeviceClassName subrequest,
      conSelectors = subSelectors subrequest,
      conMode = subAllocationMode subrequest,
      conCount = subCount subrequest,
      conAdminAccess = None,
      conTolerations = subTolerations subrequest,
      conCapacity = subCapacity subrequest\<rparr>"

fun supportedSubrequests ::
  "'q quantity_api \<Rightarrow> string \<Rightarrow> 'q DeviceSubRequest list \<Rightarrow> allocationFailure + 'q requestAlternative list" where
  "supportedSubrequests Q requestName [] = Inr []"
| "supportedSubrequests Q requestName (subrequest # rest) =
     (case supportedAlternative Q (subrequestContract requestName subrequest) of
        Inl failure \<Rightarrow> Inl failure
      | Inr alternative \<Rightarrow>
          (case supportedSubrequests Q requestName rest of
             Inl failure \<Rightarrow> Inl failure
           | Inr alternatives \<Rightarrow> Inr (alternative # alternatives)))"

definition supportedAlternatives ::
  "'q quantity_api \<Rightarrow> 'q DeviceRequest \<Rightarrow> allocationFailure + 'q requestAlternative list" where
  "supportedAlternatives Q request =
     (case (drExactly request, drFirstAvailable request) of
        (Some exact, []) \<Rightarrow>
          (case supportedAlternative Q (exactAlternativeContract (drName request) exact) of
             Inl failure \<Rightarrow> Inl failure
           | Inr alternative \<Rightarrow> Inr [alternative])
      | (None, _ # _) \<Rightarrow> supportedSubrequests Q (drName request) (drFirstAvailable request)
      | _ \<Rightarrow> Inl (unsupportedFailure (ExactlyOneOf (drName request))))"

section \<open>Candidates\<close>

definition compatibleNodeName :: "'q ResourceSlice \<Rightarrow> string \<Rightarrow> string option" where
  "compatibleNodeName sl allocatedNodeName =
     (let nodeName = (case sliceNodeName sl of None \<Rightarrow> '''' | Some n \<Rightarrow> n)
      in if allocatedNodeName \<noteq> '''' \<and> nodeName \<noteq> '''' \<and> nodeName \<noteq> allocatedNodeName then None
         else if nodeName = '''' \<and> allocatedNodeName \<noteq> '''' then Some allocatedNodeName
         else Some nodeName)"

definition unsupportedSliceFailure :: "'q ResourceSlice \<Rightarrow> allocationFailure option" where
  "unsupportedSliceFailure sl =
     (if sliceNodeName sl = None \<or> sliceNodeSelector sl \<noteq> None \<or> sliceAllNodes sl \<noteq> None
        \<or> perDeviceNodeSelection sl \<noteq> None \<or> sharedCounters sl \<noteq> []
      then Some (unsupportedFailure (SliceNodeSelection (sliceName sl))) else None)"

definition unsupportedDeviceFailure :: "'q Device \<Rightarrow> allocationFailure option" where
  "unsupportedDeviceFailure device =
     (if consumesCounters device \<noteq> [] \<or> devNodeName device \<noteq> None \<or> devNodeSelector device \<noteq> None
        \<or> devAllNodes device \<noteq> None
      then Some (unsupportedFailure (PartitionableDevice (devName device)))
      else if taints device \<noteq> [] then Some (unsupportedFailure (DeviceTaints (devName device)))
      else if bindsToNode device \<noteq> None \<or> bindingConditions device \<noteq> []
        \<or> bindingFailureConditions device \<noteq> []
      then Some (unsupportedFailure (DeviceBindingConditions (devName device)))
      else if nodeAllocatableResourceMappings device \<noteq> []
      then Some (unsupportedFailure (DeviceResourceMappings (devName device)))
      else None)"

definition selectorFailure :: "string \<Rightarrow> selector_error \<Rightarrow> allocationFailure" where
  "selectorFailure requestName err =
     \<lparr>failReason = SelectorError, failMessage = SelectorEvaluation requestName err\<rparr>"

definition isDeviceAllocated ::
  "'q ResourceClaim list \<Rightarrow> string \<Rightarrow> string \<Rightarrow> string \<Rightarrow> bool" where
  "isDeviceAllocated claims driverName pool deviceName =
     list_ex (\<lambda>claim. case claimAllocation claim of
        None \<Rightarrow> False
      | Some allocation \<Rightarrow>
          list_ex (\<lambda>result. resDriver result = driverName \<and> resPool result = pool
            \<and> resDevice result = deviceName) (allocResults allocation)) claims"

definition candidateUnavailable ::
  "'q claimPlanner \<Rightarrow> string \<Rightarrow> 'q ResourceSlice \<Rightarrow> 'q Device \<Rightarrow> 'q candidateAccumulator \<Rightarrow>
   bool \<times> 'q candidateAccumulator" where
  "candidateUnavailable planner identity sl device candidates =
     (if identity \<in> accSeen candidates \<or> identity \<in> plChosen planner then (True, candidates)
      else if isDeviceAllocated (plClaims planner) (sliceDriver sl) (poolName sl) (devName device)
      then (True, candidates)
      else (False, candidates\<lparr>accSeen := insert identity (accSeen candidates)\<rparr>))"

definition evaluateCandidate ::
  "'q claimPlanner \<Rightarrow> 'q selectionInput \<Rightarrow> 'q ResourceSlice \<Rightarrow> 'q Device \<Rightarrow> 'q candidateAccumulator \<Rightarrow>
   (allocationFailure + 'q DeviceRequestAllocationResult option) \<times> 'q candidateAccumulator" where
  "evaluateCandidate planner input sl device candidates =
     (case Matches (plEvaluator planner) (sliceDriver sl) device
             [classSelectors (inDeviceClass input), altSelectors (inAlternative input)] of
        Inl err \<Rightarrow> (Inl (selectorFailure (altRequestName (inAlternative input)) err), candidates)
      | Inr matched \<Rightarrow>
          (if \<not> matched then (Inr None, candidates)
           else case unsupportedSliceFailure sl of
             Some failure \<Rightarrow> (Inl failure, candidates)
           | None \<Rightarrow>
               (case unsupportedDeviceFailure device of
                  Some failure \<Rightarrow> (Inl failure, candidates)
                | None \<Rightarrow>
                    (case exclusiveCapacityMatches (plQuantity planner) device
                            (altCapacity (inAlternative input)) of
                       Inl failure \<Rightarrow> (Inl failure, candidates)
                     | Inr capacityMatches \<Rightarrow>
                         (if \<not> capacityMatches then (Inr None, candidates)
                          else case candidateUnavailable planner (deviceKey sl device) sl device candidates of
                            (unavailable, candidates') \<Rightarrow>
                              (if unavailable then (Inr None, candidates')
                               else (Inr (Some \<lparr>resRequest = altRequestName (inAlternative input),
                                               resDriver = sliceDriver sl, resPool = poolName sl,
                                               resDevice = devName device, resShareID = None,
                                               resConsumedCapacity = None\<rparr>), candidates')))))))"

definition addCandidate ::
  "string \<Rightarrow> 'q DeviceRequestAllocationResult \<Rightarrow> 'q candidateAccumulator \<Rightarrow> 'q candidateAccumulator" where
  "addCandidate nodeName result candidates =
     candidates\<lparr>accByNode := (accByNode candidates)(nodeName := accByNode candidates nodeName @ [result])\<rparr>"

section \<open>Exact counts\<close>

fun selectFromDevices ::
  "'q claimPlanner \<Rightarrow> 'q selectionInput \<Rightarrow> 'q ResourceSlice \<Rightarrow> string \<Rightarrow> 'q Device list \<Rightarrow>
   'q candidateAccumulator \<Rightarrow> (allocationFailure + 'q requestSelection) \<times> 'q candidateAccumulator" where
  "selectFromDevices planner input sl nodeName [] candidates = (Inr noSelection, candidates)"
| "selectFromDevices planner input sl nodeName (device # devices) candidates =
     (case evaluateCandidate planner input sl device candidates of
        (Inl failure, candidates') \<Rightarrow> (Inl failure, candidates')
      | (Inr None, candidates') \<Rightarrow> selectFromDevices planner input sl nodeName devices candidates'
      | (Inr (Some result), candidates') \<Rightarrow>
          (let candidates'' = addCandidate nodeName result candidates';
               results = accByNode candidates'' nodeName
           in if int (length results) = accCount candidates''
              then (Inr \<lparr>selResults = results, selNodeName = nodeName, selMatched = True,
                         selLimitExceeded = False\<rparr>, candidates'')
              else selectFromDevices planner input sl nodeName devices candidates''))"

definition selectFromSlice ::
  "'q claimPlanner \<Rightarrow> 'q selectionInput \<Rightarrow> 'q ResourceSlice \<Rightarrow> 'q candidateAccumulator \<Rightarrow>
   (allocationFailure + 'q requestSelection) \<times> 'q candidateAccumulator" where
  "selectFromSlice planner input sl candidates =
     (if \<not> eligibleSimulatorSlice sl then (Inr noSelection, candidates)
      else case compatibleNodeName sl (inAllocatedNodeName input) of
        None \<Rightarrow> (Inr noSelection, candidates)
      | Some nodeName \<Rightarrow> selectFromDevices planner input sl nodeName (sliceDevices sl) candidates)"

fun selectFromSlices ::
  "'q claimPlanner \<Rightarrow> 'q selectionInput \<Rightarrow> 'q ResourceSlice list \<Rightarrow> 'q candidateAccumulator \<Rightarrow>
   allocationFailure + 'q requestSelection" where
  "selectFromSlices planner input [] candidates = Inr noSelection"
| "selectFromSlices planner input (sl # slices) candidates =
     (case selectFromSlice planner input sl candidates of
        (Inl failure, _) \<Rightarrow> Inl failure
      | (Inr selection, candidates') \<Rightarrow>
          (if selMatched selection then Inr selection
           else selectFromSlices planner input slices candidates'))"

definition selectExactCountAlternative ::
  "'q claimPlanner \<Rightarrow> 'q selectionInput \<Rightarrow> allocationFailure + 'q requestSelection" where
  "selectExactCountAlternative planner input =
     selectFromSlices planner input (plSlices planner)
       (newCandidateAccumulator (altCount (inAlternative input)))"

section \<open>All devices of a node\<close>

text \<open>
  \<^verbatim>\<open>managedSlicesByNode\<close>: the node order and the slices of each node; \<^verbatim>\<open>seenNodes\<close> is the set of nodes in
  the order so far.
\<close>

fun groupManagedSlices ::
  "string \<Rightarrow> 'q ResourceSlice list \<Rightarrow> string list \<Rightarrow> (string \<Rightarrow> 'q ResourceSlice list) \<Rightarrow>
   string list \<times> (string \<Rightarrow> 'q ResourceSlice list)" where
  "groupManagedSlices allocatedNodeName [] nodeOrder slicesByNode = (nodeOrder, slicesByNode)"
| "groupManagedSlices allocatedNodeName (sl # slices) nodeOrder slicesByNode =
     (if \<not> managedSimulatorSlice sl then groupManagedSlices allocatedNodeName slices nodeOrder slicesByNode
      else case compatibleNodeName sl allocatedNodeName of
        None \<Rightarrow> groupManagedSlices allocatedNodeName slices nodeOrder slicesByNode
      | Some nodeName \<Rightarrow>
          groupManagedSlices allocatedNodeName slices
            (if nodeName \<in> set nodeOrder then nodeOrder else nodeOrder @ [nodeName])
            (slicesByNode(nodeName := slicesByNode nodeName @ [sl])))"

definition managedSlicesByNode ::
  "'q claimPlanner \<Rightarrow> string \<Rightarrow> string list \<times> (string \<Rightarrow> 'q ResourceSlice list)" where
  "managedSlicesByNode planner allocatedNodeName =
     groupManagedSlices allocatedNodeName (plSlices planner) [] (\<lambda>_. [])"

definition poolKey :: "'q ResourceSlice \<Rightarrow> string" where
  "poolKey sl = sliceDriver sl @ [CHR 0x00] @ poolName sl"

text \<open>
  The loop of \<^verbatim>\<open>completeCurrentPoolSlices\<close>. The map of pools is an association list whose order is
  \<^verbatim>\<open>poolOrder\<close>, since a new key is put at the end.
\<close>

fun groupPools ::
  "'q ResourceSlice list \<Rightarrow> (string, 'q poolGenerationState) gomap \<Rightarrow>
   allocationFailure + (string, 'q poolGenerationState) gomap" where
  "groupPools [] pools = Inr pools"
| "groupPools (sl # slices) pools =
     (let key = poolKey sl;
          pool0 = (case map_of pools key of
                     None \<Rightarrow> \<lparr>pgDriver = sliceDriver sl, pgPool = poolName sl,
                              pgGeneration = poolGeneration sl, pgExpectedCount = 0, pgSlices = []\<rparr>
                   | Some pool \<Rightarrow> pool);
          pool1 = (if poolGeneration sl > pgGeneration pool0
                   then pool0\<lparr>pgGeneration := poolGeneration sl, pgExpectedCount := 0, pgSlices := []\<rparr>
                   else pool0)
      in if poolGeneration sl \<noteq> pgGeneration pool1 then groupPools slices (gomap_put key pool1 pools)
         else let pool2 = (if pgExpectedCount pool1 = 0
                           then pool1\<lparr>pgExpectedCount := resourceSliceCount sl\<rparr> else pool1)
         in if resourceSliceCount sl \<noteq> pgExpectedCount pool2
            then Inl (unsupportedFailure
                   (InconsistentSliceCounts (pgDriver pool2) (pgPool pool2) (pgGeneration pool2)))
            else groupPools slices (gomap_put key (pool2\<lparr>pgSlices := pgSlices pool2 @ [sl]\<rparr>) pools))"

fun currentSlices ::
  "(string, 'q poolGenerationState) gomap \<Rightarrow> allocationFailure + 'q ResourceSlice list" where
  "currentSlices [] = Inr []"
| "currentSlices ((key, pool) # pools) =
     (if pgExpectedCount pool \<le> 0 \<or> int (length (pgSlices pool)) \<noteq> pgExpectedCount pool
      then Inl (unsupportedFailure (IncompletePool (pgDriver pool) (pgPool pool) (pgGeneration pool)
                  (length (pgSlices pool)) (pgExpectedCount pool)))
      else case currentSlices pools of
        Inl failure \<Rightarrow> Inl failure
      | Inr current \<Rightarrow> Inr (pgSlices pool @ current))"

definition completeCurrentPoolSlices ::
  "'q ResourceSlice list \<Rightarrow> allocationFailure + 'q ResourceSlice list" where
  "completeCurrentPoolSlices slices =
     (case groupPools slices [] of
        Inl failure \<Rightarrow> Inl failure
      | Inr pools \<Rightarrow> currentSlices pools)"

fun selectAllFromDevices ::
  "'q claimPlanner \<Rightarrow> 'q selectionInput \<Rightarrow> 'q ResourceSlice \<Rightarrow> 'q Device list \<Rightarrow>
   'q DeviceRequestAllocationResult list \<Rightarrow> 'q candidateAccumulator \<Rightarrow>
   (allocationFailure + 'q DeviceRequestAllocationResult list) \<times> 'q candidateAccumulator" where
  "selectAllFromDevices planner input sl [] results candidates = (Inr results, candidates)"
| "selectAllFromDevices planner input sl (device # devices) results candidates =
     (case evaluateCandidate planner input sl device candidates of
        (Inl failure, candidates') \<Rightarrow> (Inl failure, candidates')
      | (Inr None, candidates') \<Rightarrow> selectAllFromDevices planner input sl devices results candidates'
      | (Inr (Some result), candidates') \<Rightarrow>
          selectAllFromDevices planner input sl devices (results @ [result]) candidates')"

fun selectAllFromSlices ::
  "'q claimPlanner \<Rightarrow> 'q selectionInput \<Rightarrow> 'q ResourceSlice list \<Rightarrow>
   'q DeviceRequestAllocationResult list \<Rightarrow> 'q candidateAccumulator \<Rightarrow>
   allocationFailure + 'q DeviceRequestAllocationResult list" where
  "selectAllFromSlices planner input [] results candidates = Inr results"
| "selectAllFromSlices planner input (sl # slices) results candidates =
     (if unhealthySlice sl then selectAllFromSlices planner input slices results candidates
      else case selectAllFromDevices planner input sl (sliceDevices sl) results candidates of
        (Inl failure, _) \<Rightarrow> Inl failure
      | (Inr results', candidates') \<Rightarrow> selectAllFromSlices planner input slices results' candidates')"

definition selectAllFromNode ::
  "'q claimPlanner \<Rightarrow> 'q selectionInput \<Rightarrow> string \<Rightarrow> 'q ResourceSlice list \<Rightarrow>
   allocationFailure + 'q requestSelection" where
  "selectAllFromNode planner input nodeName slices =
     (case selectAllFromSlices planner input slices [] (newCandidateAccumulator 0) of
        Inl failure \<Rightarrow> Inl failure
      | Inr results \<Rightarrow>
          (if results = [] then Inr noSelection
           else Inr \<lparr>selResults = results, selNodeName = nodeName, selMatched = True,
                     selLimitExceeded = False\<rparr>))"

fun selectAllFromNodes ::
  "'q claimPlanner \<Rightarrow> 'q selectionInput \<Rightarrow> (string \<Rightarrow> 'q ResourceSlice list) \<Rightarrow> string list \<Rightarrow>
   allocationFailure option \<Rightarrow> bool \<Rightarrow> allocationFailure + 'q requestSelection" where
  "selectAllFromNodes planner input slicesByNode [] deferredFailure limitExceeded =
     (if limitExceeded then Inr (noSelection\<lparr>selLimitExceeded := True\<rparr>)
      else case deferredFailure of Some failure \<Rightarrow> Inl failure | None \<Rightarrow> Inr noSelection)"
| "selectAllFromNodes planner input slicesByNode (nodeName # nodes) deferredFailure limitExceeded =
     (case completeCurrentPoolSlices (slicesByNode nodeName) of
        Inl failure \<Rightarrow> selectAllFromNodes planner input slicesByNode nodes (Some failure) limitExceeded
      | Inr current \<Rightarrow>
          (case selectAllFromNode planner input nodeName current of
             Inl failure \<Rightarrow> Inl failure
           | Inr selection \<Rightarrow>
               (if selMatched selection \<and> int (length (selResults selection)) \<le> inMaxResults input
                then Inr selection
                else selectAllFromNodes planner input slicesByNode nodes deferredFailure
                       (limitExceeded \<or> selMatched selection))))"

definition selectAllAlternative ::
  "'q claimPlanner \<Rightarrow> 'q selectionInput \<Rightarrow> allocationFailure + 'q requestSelection" where
  "selectAllAlternative planner input =
     (case managedSlicesByNode planner (inAllocatedNodeName input) of
        (nodeOrder, slicesByNode) \<Rightarrow> selectAllFromNodes planner input slicesByNode nodeOrder None False)"

definition selectAlternative ::
  "'q claimPlanner \<Rightarrow> 'q selectionInput \<Rightarrow> allocationFailure + 'q requestSelection" where
  "selectAlternative planner input =
     (if altMode (inAlternative input) = ModeAll then selectAllAlternative planner input
      else selectExactCountAlternative planner input)"

section \<open>Requests and claims\<close>

definition unmatchedRequestFailure ::
  "string \<Rightarrow> 'q requestAlternative list \<Rightarrow> string list \<Rightarrow> allocationFailure" where
  "unmatchedRequestFailure requestName alternatives missingClasses =
     (if length missingClasses = length alternatives \<and> missingClasses \<noteq> []
      then \<lparr>failReason = DeviceClassNotFound, failMessage = UnavailableClasses requestName missingClasses\<rparr>
      else \<lparr>failReason = NoMatch, failMessage = NoDeviceSet requestName\<rparr>)"

text \<open>The loop over the alternatives; \<open>Inr None\<close> is leaving the loop without a match.\<close>

fun selectFromAlternatives ::
  "'q claimPlanner \<Rightarrow> string \<Rightarrow> int \<Rightarrow> 'q requestAlternative list \<Rightarrow> string list \<Rightarrow> bool \<Rightarrow>
   allocationFailure + 'q requestSelection option \<times> string list \<times> bool" where
  "selectFromAlternatives planner allocatedNodeName maxResults [] missingClasses limitExceeded =
     Inr (None, missingClasses, limitExceeded)"
| "selectFromAlternatives planner allocatedNodeName maxResults (alternative # rest) missingClasses limitExceeded =
     (case plClasses planner (altDeviceClassName alternative) of
        None \<Rightarrow> selectFromAlternatives planner allocatedNodeName maxResults rest
                  (missingClasses @ [altDeviceClassName alternative]) limitExceeded
      | Some deviceClass \<Rightarrow>
          (if altMode alternative = ModeExactCount \<and> altCount alternative > maxResults
           then selectFromAlternatives planner allocatedNodeName maxResults rest missingClasses True
           else case selectAlternative planner
                       \<lparr>inAlternative = alternative, inDeviceClass = deviceClass,
                        inAllocatedNodeName = allocatedNodeName, inMaxResults = maxResults\<rparr> of
             Inl failure \<Rightarrow> Inl failure
           | Inr selection \<Rightarrow>
               (if selLimitExceeded selection
                then selectFromAlternatives planner allocatedNodeName maxResults rest missingClasses True
                else if selMatched selection then Inr (Some selection, missingClasses, limitExceeded)
                else selectFromAlternatives planner allocatedNodeName maxResults rest
                       missingClasses limitExceeded)))"

definition selectRequest ::
  "'q claimPlanner \<Rightarrow> 'q DeviceRequest \<Rightarrow> string \<Rightarrow> int \<Rightarrow> allocationFailure + 'q requestSelection" where
  "selectRequest planner request allocatedNodeName maxResults =
     (case supportedAlternatives (plQuantity planner) request of
        Inl failure \<Rightarrow> Inl failure
      | Inr alternatives \<Rightarrow>
          (case selectFromAlternatives planner allocatedNodeName maxResults alternatives [] False of
             Inl failure \<Rightarrow> Inl failure
           | Inr (Some selection, _, _) \<Rightarrow> Inr selection
           | Inr (None, missingClasses, limitExceeded) \<Rightarrow>
               (if limitExceeded \<and> length alternatives = 1
                then Inl (unsupportedFailure (ResultBudget (drName request) maxResults))
                else Inl (unmatchedRequestFailure (drName request) alternatives missingClasses))))"

definition validateClaimResultLimit :: "int \<Rightarrow> int \<Rightarrow> allocationFailure option" where
  "validateClaimResultLimit existing additional =
     (let t = existing + additional
      in if t \<le> AllocationResultsMaxSize then None else Some (unsupportedFailure (ClaimResultLimit t)))"

definition appendSelection :: "'q requestSelection \<Rightarrow> 'q allocationPlan \<Rightarrow> 'q allocationPlan" where
  "appendSelection selection plan =
     \<lparr>planResults = planResults plan @ selResults selection,
      planNodeName = (if planNodeName plan = '''' then selNodeName selection else planNodeName plan)\<rparr>"

definition reserveChosen ::
  "'q DeviceRequestAllocationResult list \<Rightarrow> 'q claimPlanner \<Rightarrow> 'q claimPlanner" where
  "reserveChosen results planner =
     planner\<lparr>plChosen := plChosen planner \<union> resultKey ` set results\<rparr>"

fun planRequests ::
  "'q claimPlanner \<Rightarrow> 'q DeviceRequest list \<Rightarrow> 'q allocationPlan \<Rightarrow> allocationFailure + 'q allocationPlan" where
  "planRequests planner [] plan = Inr plan"
| "planRequests planner (request # requests) plan =
     (let remainingResults = AllocationResultsMaxSize - int (length (planResults plan))
      in case selectRequest planner request (planNodeName plan) remainingResults of
           Inl failure \<Rightarrow> Inl failure
         | Inr selection \<Rightarrow>
             (case validateClaimResultLimit (int (length (planResults plan)))
                     (int (length (selResults selection))) of
                Some failure \<Rightarrow> Inl failure
              | None \<Rightarrow>
                  planRequests (reserveChosen (selResults selection) planner) requests
                    (appendSelection selection plan)))"

definition planUnconstrainedClaimAllocation ::
  "'q claimPlanner \<Rightarrow> 'q ResourceClaim \<Rightarrow> allocationFailure + 'q allocationPlan" where
  "planUnconstrainedClaimAllocation planner claim =
     planRequests planner (claimRequests claim) \<lparr>planResults = [], planNodeName = ''''\<rparr>"

section \<open>What a selection has to satisfy\<close>

text \<open>
  The declarative side: when a device qualifies for an alternative, when it is free, and when a list of
  results meets an alternative on a node.
\<close>

definition deviceQualifies ::
  "'q claimPlanner \<Rightarrow> 'q requestAlternative \<Rightarrow> DeviceClass \<Rightarrow> 'q ResourceSlice \<Rightarrow> 'q Device \<Rightarrow> bool" where
  "deviceQualifies planner alternative deviceClass sl device \<longleftrightarrow>
     (\<forall>sel \<in> set (classSelectors deviceClass @ altSelectors alternative).
        selectorHolds (plEvaluator planner) (celInput (sliceDriver sl) device) sel) \<and>
     unsupportedSliceFailure sl = None \<and> unsupportedDeviceFailure device = None \<and>
     exclusiveCapacityMatches (plQuantity planner) device (altCapacity alternative) = Inr True"

definition deviceFree :: "'q claimPlanner \<Rightarrow> 'q ResourceSlice \<Rightarrow> 'q Device \<Rightarrow> bool" where
  "deviceFree planner sl device \<longleftrightarrow>
     deviceKey sl device \<notin> plChosen planner \<and>
     \<not> isDeviceAllocated (plClaims planner) (sliceDriver sl) (poolName sl) (devName device)"

definition exclusiveResult ::
  "string \<Rightarrow> 'q ResourceSlice \<Rightarrow> 'q Device \<Rightarrow> 'q DeviceRequestAllocationResult" where
  "exclusiveResult requestName sl device =
     \<lparr>resRequest = requestName, resDriver = sliceDriver sl, resPool = poolName sl,
      resDevice = devName device, resShareID = None, resConsumedCapacity = None\<rparr>"

definition sliceOnNode :: "'q ResourceSlice \<Rightarrow> string \<Rightarrow> bool" where
  "sliceOnNode sl nodeName \<longleftrightarrow> sliceNodeName sl = Some '''' \<or> sliceNodeName sl = Some nodeName"

definition justified ::
  "'q claimPlanner \<Rightarrow> 'q requestAlternative \<Rightarrow> DeviceClass \<Rightarrow> string \<Rightarrow>
   'q DeviceRequestAllocationResult \<Rightarrow> bool" where
  "justified planner alternative deviceClass nodeName r \<longleftrightarrow>
     (\<exists>sl \<in> set (plSlices planner). \<exists>device \<in> set (sliceDevices sl).
        eligibleSimulatorSlice sl \<and> sliceOnNode sl nodeName \<and>
        deviceQualifies planner alternative deviceClass sl device \<and> deviceFree planner sl device \<and>
        r = exclusiveResult (altRequestName alternative) sl device)"

definition selectionMeets :: "'q claimPlanner \<Rightarrow> 'q selectionInput \<Rightarrow> 'q requestSelection \<Rightarrow> bool" where
  "selectionMeets planner input selection \<longleftrightarrow>
     (\<forall>r \<in> set (selResults selection).
        justified planner (inAlternative input) (inDeviceClass input) (selNodeName selection) r) \<and>
     distinct (map resultKey (selResults selection)) \<and>
     (inAllocatedNodeName input \<noteq> '''' \<longrightarrow> selNodeName selection = inAllocatedNodeName input) \<and>
     (if altMode (inAlternative input) = ModeAll
      then selResults selection \<noteq> [] \<and> int (length (selResults selection)) \<le> inMaxResults input
      else int (length (selResults selection)) = altCount (inAlternative input))"

lemma resultKey_exclusiveResult [simp]: "resultKey (exclusiveResult n sl device) = deviceKey sl device"
  by (simp add: exclusiveResult_def resultKey_def deviceKey_def)

lemma noSelection_simps [simp]:
  "selMatched noSelection = False" "selLimitExceeded noSelection = False" "selResults noSelection = []"
  by (simp_all add: noSelection_def)

lemma deviceQualifies_node: "deviceQualifies planner alt cls sl device \<Longrightarrow> sliceNodeName sl \<noteq> None"
  by (auto simp: deviceQualifies_def unsupportedSliceFailure_def split: if_splits)

lemma compatibleNodeName_Some:
  assumes "compatibleNodeName sl allocated = Some nodeName" and "sliceNodeName sl \<noteq> None"
  shows "sliceOnNode sl nodeName" and "allocated \<noteq> '''' \<Longrightarrow> nodeName = allocated"
  using assms by (auto simp: compatibleNodeName_def sliceOnNode_def Let_def split: option.splits if_splits)

lemma evaluateCandidate_cases:
  "evaluateCandidate planner input sl device c =
     (case Matches (plEvaluator planner) (sliceDriver sl) device
             [classSelectors (inDeviceClass input), altSelectors (inAlternative input)] of
        Inl err \<Rightarrow> (Inl (selectorFailure (altRequestName (inAlternative input)) err), c)
      | Inr matched \<Rightarrow>
          (if \<not> matched then (Inr None, c)
           else case unsupportedSliceFailure sl of
             Some failure \<Rightarrow> (Inl failure, c)
           | None \<Rightarrow>
               (case unsupportedDeviceFailure device of
                  Some failure \<Rightarrow> (Inl failure, c)
                | None \<Rightarrow>
                    (case exclusiveCapacityMatches (plQuantity planner) device
                            (altCapacity (inAlternative input)) of
                       Inl failure \<Rightarrow> (Inl failure, c)
                     | Inr capacityMatches \<Rightarrow>
                         (if \<not> capacityMatches \<or> \<not> deviceFree planner sl device
                            \<or> deviceKey sl device \<in> accSeen c then (Inr None, c)
                          else (Inr (Some (exclusiveResult (altRequestName (inAlternative input)) sl device)),
                            c\<lparr>accSeen := insert (deviceKey sl device) (accSeen c)\<rparr>))))))"
  by (simp add: evaluateCandidate_def candidateUnavailable_def deviceFree_def exclusiveResult_def
      split: sum.splits option.splits)

lemma evaluateCandidate_Some_iff:
  "evaluateCandidate planner input sl device c = (Inr (Some r), c') \<longleftrightarrow>
     deviceQualifies planner (inAlternative input) (inDeviceClass input) sl device \<and>
     deviceFree planner sl device \<and> deviceKey sl device \<notin> accSeen c \<and>
     r = exclusiveResult (altRequestName (inAlternative input)) sl device \<and>
     c' = c\<lparr>accSeen := insert (deviceKey sl device) (accSeen c)\<rparr>"
  using Matches_True_iff [of "plEvaluator planner" "sliceDriver sl" device
      "[classSelectors (inDeviceClass input), altSelectors (inAlternative input)]"]
  unfolding evaluateCandidate_cases
  by (auto simp: deviceQualifies_def ball_Un split: sum.splits option.splits if_splits)

lemma evaluateCandidate_None:
  assumes "evaluateCandidate planner input sl device c = (Inr None, c')"
  shows "c' = c" and "deviceQualifies planner (inAlternative input) (inDeviceClass input) sl device \<Longrightarrow>
    deviceFree planner sl device \<Longrightarrow> deviceKey sl device \<in> accSeen c"
  using assms Matches_True_iff [of "plEvaluator planner" "sliceDriver sl" device
      "[classSelectors (inDeviceClass input), altSelectors (inAlternative input)]"]
  unfolding evaluateCandidate_cases
  by (auto simp: deviceQualifies_def ball_Un split: sum.splits option.splits if_splits)

subsection \<open>Exact counts\<close>

text \<open>The accumulator of the first-fit search: what it holds per node, and that it is below the count.\<close>

definition accumulatorInv :: "'q claimPlanner \<Rightarrow> 'q selectionInput \<Rightarrow> 'q candidateAccumulator \<Rightarrow> bool" where
  "accumulatorInv planner input c \<longleftrightarrow>
     accCount c = altCount (inAlternative input) \<and>
     (\<forall>nodeName. distinct (map resultKey (accByNode c nodeName)) \<and>
        (\<forall>r \<in> set (accByNode c nodeName). resultKey r \<in> accSeen c \<and>
          justified planner (inAlternative input) (inDeviceClass input) nodeName r \<and>
          (inAllocatedNodeName input \<noteq> '''' \<longrightarrow> nodeName = inAllocatedNodeName input)))"

lemma accumulatorInv_new:
  "accumulatorInv planner input (newCandidateAccumulator (altCount (inAlternative input)))"
  by (simp add: accumulatorInv_def newCandidateAccumulator_def)

lemma accumulatorInv_add:
  assumes "accumulatorInv planner input c" and "resultKey r \<notin> accSeen c"
    and "justified planner (inAlternative input) (inDeviceClass input) nodeName r"
    and "inAllocatedNodeName input \<noteq> '''' \<Longrightarrow> nodeName = inAllocatedNodeName input"
  shows "accumulatorInv planner input
    (addCandidate nodeName r (c\<lparr>accSeen := insert (resultKey r) (accSeen c)\<rparr>))"
  using assms by (auto simp: accumulatorInv_def addCandidate_def)

lemma selectFromDevices_sound:
  assumes "accumulatorInv planner input c" and "sl \<in> set (plSlices planner)"
    and "eligibleSimulatorSlice sl" and "compatibleNodeName sl (inAllocatedNodeName input) = Some nodeName"
    and "set devices \<subseteq> set (sliceDevices sl)" and "altMode (inAlternative input) \<noteq> ModeAll"
    and "selectFromDevices planner input sl nodeName devices c = (Inr selection, c')"
  shows "if selMatched selection then selectionMeets planner input selection
    else accumulatorInv planner input c'"
  using assms(1,5,7)
proof (induction devices arbitrary: c)
  case (Cons device devices)
  consider (none) c1 where "evaluateCandidate planner input sl device c = (Inr None, c1)"
    | (some) r c1 where "evaluateCandidate planner input sl device c = (Inr (Some r), c1)"
    using Cons.prems(3) by (auto split: prod.splits sum.splits option.splits)
  then show ?case
  proof cases
    case none
    then show ?thesis using Cons evaluateCandidate_None(1) [OF none] by simp
  next
    case (some r c1)
    note parts = some [unfolded evaluateCandidate_Some_iff]
    let ?c = "addCandidate nodeName r c1"
    have key: "resultKey r = deviceKey sl device" using parts by simp
    have node: "sliceNodeName sl \<noteq> None" using parts deviceQualifies_node by blast
    have "justified planner (inAlternative input) (inDeviceClass input) nodeName r"
      unfolding justified_def using parts assms(2,3) Cons.prems(2) compatibleNodeName_Some(1) [OF assms(4) node]
      by auto
    moreover have "resultKey r \<notin> accSeen c" using parts key by simp
    ultimately have "accumulatorInv planner input
        (addCandidate nodeName r (c\<lparr>accSeen := insert (resultKey r) (accSeen c)\<rparr>))"
      by (intro accumulatorInv_add [OF Cons.prems(1)] compatibleNodeName_Some(2) [OF assms(4) node])
    then have inv: "accumulatorInv planner input ?c" using parts key by simp
    show ?thesis
    proof (cases "int (length (accByNode ?c nodeName)) = accCount ?c")
      case True
      then have "selection = \<lparr>selResults = accByNode ?c nodeName, selNodeName = nodeName,
          selMatched = True, selLimitExceeded = False\<rparr>"
        using Cons.prems(3) some by (auto simp: Let_def)
      then show ?thesis using inv True assms(6) compatibleNodeName_Some(2) [OF assms(4) node]
        by (auto simp: selectionMeets_def accumulatorInv_def)
    next
      case False
      then show ?thesis using Cons.IH [OF inv] Cons.prems(2,3) some by (simp add: Let_def)
    qed
  qed
qed simp

lemma selectFromSlices_sound:
  assumes "accumulatorInv planner input c" and "set slices \<subseteq> set (plSlices planner)"
    and "altMode (inAlternative input) \<noteq> ModeAll"
    and "selectFromSlices planner input slices c = Inr selection" and "selMatched selection"
  shows "selectionMeets planner input selection"
  using assms(1,2,4)
proof (induction slices arbitrary: c)
  case Nil
  then show ?case using assms(5) by auto
next
  case (Cons sl slices)
  from Cons.prems(3) obtain sel1 c1 where sel1: "selectFromSlice planner input sl c = (Inr sel1, c1)"
    by (auto split: prod.splits sum.splits)
  have step: "if selMatched sel1 then selectionMeets planner input sel1 else accumulatorInv planner input c1"
  proof (cases "eligibleSimulatorSlice sl")
    case False
    with sel1 have "sel1 = noSelection" "c1 = c" by (simp_all add: selectFromSlice_def)
    then show ?thesis using Cons.prems(1) by simp
  next
    case True
    show ?thesis
    proof (cases "compatibleNodeName sl (inAllocatedNodeName input)")
      case None
      with True sel1 have "sel1 = noSelection" "c1 = c" by (simp_all add: selectFromSlice_def)
      then show ?thesis using Cons.prems(1) by simp
    next
      case (Some nodeName)
      with True sel1 Cons.prems(2) show ?thesis
        by (intro selectFromDevices_sound [OF Cons.prems(1) _ True Some _ assms(3)])
          (simp_all add: selectFromSlice_def)
    qed
  qed
  show ?case
  proof (cases "selMatched sel1")
    case True
    then have "selection = sel1" using Cons.prems(3) sel1 by simp
    then show ?thesis using step True by simp
  next
    case False
    then show ?thesis using step Cons.IH [of c1] Cons.prems(2,3) sel1 by simp
  qed
qed

subsection \<open>All devices\<close>

text \<open>The results collected for a list of devices or slices are those that qualify and are free, once each.\<close>

definition collected ::
  "'q claimPlanner \<Rightarrow> 'q selectionInput \<Rightarrow> ('q ResourceSlice \<times> 'q Device) set \<Rightarrow>
   'q DeviceRequestAllocationResult list \<Rightarrow> bool" where
  "collected planner input offered results \<longleftrightarrow>
     distinct (map resultKey results) \<and>
     resultKey ` set results = {deviceKey sl device | sl device. (sl, device) \<in> offered \<and>
        deviceQualifies planner (inAlternative input) (inDeviceClass input) sl device \<and>
        deviceFree planner sl device} \<and>
     (\<forall>r \<in> set results. \<exists>(sl, device) \<in> offered.
        deviceQualifies planner (inAlternative input) (inDeviceClass input) sl device \<and>
        deviceFree planner sl device \<and> r = exclusiveResult (altRequestName (inAlternative input)) sl device)"

lemma collected_step_None:
  assumes "evaluateCandidate planner input sl device c = (Inr None, c')"
    and "collected planner input offered results" and "accSeen c = resultKey ` set results"
  shows "collected planner input (insert (sl, device) offered) results \<and> c' = c"
  using evaluateCandidate_None [OF assms(1)] assms(2,3) unfolding collected_def by fastforce

lemma collected_step_Some:
  assumes "evaluateCandidate planner input sl device c = (Inr (Some r), c')"
    and "collected planner input offered results" and "accSeen c = resultKey ` set results"
  shows "collected planner input (insert (sl, device) offered) (results @ [r]) \<and>
    accSeen c' = resultKey ` set (results @ [r])"
proof -
  note parts = assms(1) [unfolded evaluateCandidate_Some_iff]
  then have key: "resultKey r = deviceKey sl device" by simp
  have "distinct (map resultKey (results @ [r]))"
    using assms(2,3) parts key by (auto simp: collected_def)
  moreover have "resultKey ` set (results @ [r]) = {deviceKey s d | s d. (s, d) \<in> insert (sl, device) offered \<and>
        deviceQualifies planner (inAlternative input) (inDeviceClass input) s d \<and> deviceFree planner s d}"
    using assms(2) parts key unfolding collected_def by auto
  ultimately show ?thesis using assms(2,3) parts by (auto simp: collected_def)
qed

lemma selectAllFromDevices_collected:
  assumes "collected planner input offered results" and "accSeen c = resultKey ` set results"
    and "selectAllFromDevices planner input sl devices results c = (Inr results', c')"
  shows "collected planner input (offered \<union> Pair sl ` set devices) results' \<and>
    accSeen c' = resultKey ` set results'"
  using assms
proof (induction devices arbitrary: offered results c)
  case (Cons device devices)
  have sets: "insert (sl, device) offered \<union> Pair sl ` set devices = offered \<union> Pair sl ` set (device # devices)"
    by auto
  consider (none) c1 where "evaluateCandidate planner input sl device c = (Inr None, c1)"
    | (some) r c1 where "evaluateCandidate planner input sl device c = (Inr (Some r), c1)"
    using Cons.prems(3) by (auto split: prod.splits sum.splits option.splits)
  then show ?case
  proof cases
    case none
    note step = collected_step_None [OF none Cons.prems(1,2)]
    with Cons.IH [OF conjunct1 [OF step] Cons.prems(2)] Cons.prems(3) none sets show ?thesis by simp
  next
    case (some r c1)
    note step = collected_step_Some [OF some Cons.prems(1,2)]
    with Cons.IH [OF conjunct1 [OF step] conjunct2 [OF step]] Cons.prems(3) some sets show ?thesis by simp
  qed
qed simp

definition healthyDevices :: "'q ResourceSlice list \<Rightarrow> ('q ResourceSlice \<times> 'q Device) set" where
  "healthyDevices slices =
     {(sl, device). sl \<in> set slices \<and> \<not> unhealthySlice sl \<and> device \<in> set (sliceDevices sl)}"

lemma selectAllFromSlices_collected:
  assumes "collected planner input offered results" and "accSeen c = resultKey ` set results"
    and "selectAllFromSlices planner input slices results c = Inr results'"
  shows "collected planner input (offered \<union> healthyDevices slices) results'"
  using assms
proof (induction slices arbitrary: offered results c)
  case Nil
  then show ?case by (simp add: healthyDevices_def)
next
  case (Cons sl slices)
  show ?case
  proof (cases "unhealthySlice sl")
    case True
    then have "healthyDevices (sl # slices) = healthyDevices slices" by (auto simp: healthyDevices_def)
    then show ?thesis using True Cons by simp
  next
    case False
    then obtain results1 c1 where
      run: "selectAllFromDevices planner input sl (sliceDevices sl) results c = (Inr results1, c1)"
      using Cons.prems(3) by (auto split: prod.splits sum.splits)
    have "(offered \<union> Pair sl ` set (sliceDevices sl)) \<union> healthyDevices slices
        = offered \<union> healthyDevices (sl # slices)"
      using False by (auto simp: healthyDevices_def)
    with selectAllFromDevices_collected [OF Cons.prems(1,2) run]
      Cons.IH [of "offered \<union> Pair sl ` set (sliceDevices sl)" results1 c1] Cons.prems(3) False run
    show ?thesis by simp
  qed
qed

lemma selectAllFromNode_collected:
  assumes "selectAllFromNode planner input nodeName slices = Inr selection"
  shows "collected planner input (healthyDevices slices) (selResults selection)"
    and "selMatched selection \<longleftrightarrow> selResults selection \<noteq> []"
    and "selMatched selection \<Longrightarrow> selNodeName selection = nodeName"
    and "\<not> selLimitExceeded selection"
proof -
  from assms obtain results where
    run: "selectAllFromSlices planner input slices [] (newCandidateAccumulator 0) = Inr results"
    and sel: "selection = (if results = [] then noSelection
      else \<lparr>selResults = results, selNodeName = nodeName, selMatched = True, selLimitExceeded = False\<rparr>)"
    by (auto simp: selectAllFromNode_def split: sum.splits if_splits)
  have "collected planner input {} []" by (simp add: collected_def)
  from selectAllFromSlices_collected [OF this _ run]
  have "collected planner input (healthyDevices slices) results" by (simp add: newCandidateAccumulator_def)
  moreover have "selResults selection = results" using sel by simp
  ultimately show "collected planner input (healthyDevices slices) (selResults selection)" by simp
  show "selMatched selection \<longleftrightarrow> selResults selection \<noteq> []" using sel by simp
  show "selMatched selection \<Longrightarrow> selNodeName selection = nodeName" using sel by (simp split: if_splits)
  show "\<not> selLimitExceeded selection" using sel by simp
qed

subsection \<open>Slices of a node and current pools\<close>

lemma groupManagedSlices_eq:
  assumes "groupManagedSlices allocated slices order0 by0 = (nodeOrder, slicesByNode)"
  shows "slicesByNode nodeName = by0 nodeName @
      filter (\<lambda>sl. managedSimulatorSlice sl \<and> compatibleNodeName sl allocated = Some nodeName) slices"
    and "set nodeOrder = set order0 \<union>
      {n. \<exists>sl \<in> set slices. managedSimulatorSlice sl \<and> compatibleNodeName sl allocated = Some n}"
    and "distinct order0 \<Longrightarrow> distinct nodeOrder"
  using assms
  by (induction allocated slices order0 by0 rule: groupManagedSlices.induct)
    (auto split: if_splits option.splits)

lemma managedSlicesByNode_slices:
  assumes "managedSlicesByNode planner allocated = (nodeOrder, slicesByNode)"
  shows "slicesByNode nodeName =
    filter (\<lambda>sl. managedSimulatorSlice sl \<and> compatibleNodeName sl allocated = Some nodeName) (plSlices planner)"
  using groupManagedSlices_eq(1) [OF assms [unfolded managedSlicesByNode_def]] by simp

definition latestInPool :: "'q ResourceSlice list \<Rightarrow> 'q ResourceSlice \<Rightarrow> bool" where
  "latestInPool slices sl \<longleftrightarrow>
     (\<forall>sl' \<in> set slices. poolKey sl' = poolKey sl \<longrightarrow> poolGeneration sl' \<le> poolGeneration sl)"

definition currentInPool :: "'q ResourceSlice list \<Rightarrow> string \<Rightarrow> 'q ResourceSlice list" where
  "currentInPool slices key = filter (\<lambda>sl. poolKey sl = key \<and> latestInPool slices sl) slices"

text \<open>The state of the grouping loop, in terms of the slices processed so far.\<close>

definition describesPool :: "'q ResourceSlice list \<Rightarrow> string \<Rightarrow> 'q poolGenerationState \<Rightarrow> bool" where
  "describesPool processed key pool \<longleftrightarrow>
     (\<exists>sl \<in> set processed. poolKey sl = key \<and> poolGeneration sl = pgGeneration pool) \<and>
     (\<forall>sl \<in> set processed. poolKey sl = key \<longrightarrow> poolGeneration sl \<le> pgGeneration pool) \<and>
     pgSlices pool = filter (\<lambda>sl. poolKey sl = key \<and> poolGeneration sl = pgGeneration pool) processed \<and>
     (\<forall>sl \<in> set (pgSlices pool). resourceSliceCount sl = 0 \<or> resourceSliceCount sl = pgExpectedCount pool)"

definition describesPools ::
  "'q ResourceSlice list \<Rightarrow> (string, 'q poolGenerationState) gomap \<Rightarrow> bool" where
  "describesPools processed pools \<longleftrightarrow>
     gomap_wf pools \<and> gomap_keys pools = poolKey ` set processed \<and>
     (\<forall>key pool. map_of pools key = Some pool \<longrightarrow> describesPool processed key pool)"

lemma describesPool_slices:
  assumes "describesPool slices key pool"
  shows "pgSlices pool = currentInPool slices key"
proof -
  have "poolGeneration sl = pgGeneration pool \<longleftrightarrow> latestInPool slices sl"
    if "sl \<in> set slices" "poolKey sl = key" for sl
    using assms that unfolding describesPool_def latestInPool_def by (metis order_antisym)
  then show ?thesis using assms unfolding describesPool_def currentInPool_def by (auto intro: filter_cong)
qed

lemma describesPool_other:
  "describesPool processed key pool \<Longrightarrow> poolKey sl \<noteq> key \<Longrightarrow> describesPool (processed @ [sl]) key pool"
  unfolding describesPool_def by auto

text \<open>One step of the loop; \<open>nextPool\<close> is its effect on the pool of the slice.\<close>

definition nextPool :: "'q ResourceSlice \<Rightarrow> 'q poolGenerationState option \<Rightarrow> 'q poolGenerationState option" where
  "nextPool sl found =
     (let pool0 = (case found of
                     None \<Rightarrow> \<lparr>pgDriver = sliceDriver sl, pgPool = poolName sl,
                              pgGeneration = poolGeneration sl, pgExpectedCount = 0, pgSlices = []\<rparr>
                   | Some pool \<Rightarrow> pool);
          pool1 = (if poolGeneration sl > pgGeneration pool0
                   then pool0\<lparr>pgGeneration := poolGeneration sl, pgExpectedCount := 0, pgSlices := []\<rparr>
                   else pool0)
      in if poolGeneration sl \<noteq> pgGeneration pool1 then Some pool1
         else let pool2 = (if pgExpectedCount pool1 = 0
                           then pool1\<lparr>pgExpectedCount := resourceSliceCount sl\<rparr> else pool1)
         in if resourceSliceCount sl \<noteq> pgExpectedCount pool2 then None
            else Some (pool2\<lparr>pgSlices := pgSlices pool2 @ [sl]\<rparr>))"

lemma groupPools_Cons_Inr:
  "groupPools (sl # slices) pools = Inr pools' \<longleftrightarrow>
     (\<exists>pool. nextPool sl (map_of pools (poolKey sl)) = Some pool \<and>
        groupPools slices (gomap_put (poolKey sl) pool pools) = Inr pools')"
  by (simp add: nextPool_def Let_def)

lemma nextPool_describes:
  assumes "nextPool sl found = Some pool"
    and "case found of None \<Rightarrow> poolKey sl \<notin> poolKey ` set processed
      | Some pool0 \<Rightarrow> describesPool processed (poolKey sl) pool0"
  shows "describesPool (processed @ [sl]) (poolKey sl) pool"
proof (cases found)
  case None
  then have "filter (\<lambda>s. poolKey s = poolKey sl \<and> poolGeneration s = poolGeneration sl) processed = []"
    using assms(2) by (auto simp: filter_empty_conv image_iff)
  then show ?thesis using None assms
    by (auto simp: nextPool_def describesPool_def Let_def image_iff split: if_splits)
next
  case (Some pool0)
  have newer: "filter (\<lambda>s. poolKey s = poolKey sl \<and> poolGeneration s = poolGeneration sl) processed = []"
    if "pgGeneration pool0 < poolGeneration sl"
    using that assms(2) Some by (auto simp: filter_empty_conv describesPool_def)
  have pool0: "describesPool processed (poolKey sl) pool0" using assms(2) Some by simp
  show ?thesis
  proof (cases "pgGeneration pool0 < poolGeneration sl")
    case True
    then show ?thesis using newer [OF True] pool0 assms(1) Some
      by (auto simp: nextPool_def describesPool_def Let_def split: if_splits)
  next
    case False
    then show ?thesis using pool0 assms(1) Some
      by (auto simp: nextPool_def describesPool_def Let_def split: if_splits)
  qed
qed

lemma groupPools_describes:
  assumes "describesPools processed pools" and "groupPools slices pools = Inr pools'"
  shows "describesPools (processed @ slices) pools'"
  using assms
proof (induction slices arbitrary: processed pools)
  case (Cons sl slices)
  then obtain pool where pool: "nextPool sl (map_of pools (poolKey sl)) = Some pool"
    and rest: "groupPools slices (gomap_put (poolKey sl) pool pools) = Inr pools'"
    by (auto simp only: groupPools_Cons_Inr)
  have "case map_of pools (poolKey sl) of None \<Rightarrow> poolKey sl \<notin> poolKey ` set processed
      | Some pool0 \<Rightarrow> describesPool processed (poolKey sl) pool0"
    using Cons.prems(1) by (auto simp: describesPools_def gomap_keys_dom domIff split: option.splits)
  from nextPool_describes [OF pool this] Cons.prems(1)
  have "describesPools (processed @ [sl]) (gomap_put (poolKey sl) pool pools)"
    by (auto simp: describesPools_def describesPool_other)
  from Cons.IH [OF this rest] show ?case by simp
qed simp

lemma currentSlices_Inr_iff:
  "currentSlices pools = Inr current \<longleftrightarrow>
     (\<forall>(key, pool) \<in> set pools. 0 < pgExpectedCount pool \<and> int (length (pgSlices pool)) = pgExpectedCount pool) \<and>
     current = concat (map (\<lambda>(key, pool). pgSlices pool) pools)"
proof (induction pools arbitrary: current)
  case (Cons entry pools)
  obtain key pool where entry: "entry = (key, pool)" by (cases entry)
  show ?case unfolding entry currentSlices.simps if_Inl_Inr_iff case_sum_Inr_iff Cons.IH by auto
qed auto

lemma filter_concat_pools:
  assumes "gomap_wf pools" and "\<And>k pool. (k, pool) \<in> set pools \<Longrightarrow> \<forall>sl \<in> set (pgSlices pool). poolKey sl = k"
  shows "filter (\<lambda>sl. poolKey sl = key) (concat (map (\<lambda>(k, pool). pgSlices pool) pools))
    = (case map_of pools key of None \<Rightarrow> [] | Some pool \<Rightarrow> pgSlices pool)"
  using assms
proof (induction pools)
  case (Cons entry pools)
  obtain k pool where entry: "entry = (k, pool)" by (cases entry)
  have "filter (\<lambda>sl. poolKey sl = key) (pgSlices pool) = (if k = key then pgSlices pool else [])"
    using Cons.prems(2) [of k pool] entry by (auto simp: filter_empty_conv)
  moreover have "k \<notin> gomap_keys pools" "gomap_wf pools" using Cons.prems(1) entry by simp_all
  moreover have "filter (\<lambda>sl. poolKey sl = key) (concat (map (\<lambda>(k, pool). pgSlices pool) pools))
      = (case map_of pools key of None \<Rightarrow> [] | Some pool \<Rightarrow> pgSlices pool)"
    using \<open>gomap_wf pools\<close> Cons.prems(2) by (intro Cons.IH) auto
  ultimately show ?case using entry by (auto simp: gomap_keys_dom domIff)
qed simp

lemma completeCurrentPoolSlices_pools:
  assumes "completeCurrentPoolSlices slices = Inr current"
  obtains pools where "describesPools slices pools"
    and "\<forall>(key, pool) \<in> set pools. 0 < pgExpectedCount pool \<and> int (length (pgSlices pool)) = pgExpectedCount pool"
    and "current = concat (map (\<lambda>(key, pool). pgSlices pool) pools)"
proof -
  from assms obtain pools where run: "groupPools slices [] = Inr pools" and "currentSlices pools = Inr current"
    by (auto simp: completeCurrentPoolSlices_def split: sum.splits)
  moreover have "describesPools [] []" by (simp add: describesPools_def)
  from groupPools_describes [OF this run] have "describesPools slices pools" by simp
  ultimately show ?thesis using that by (auto simp: currentSlices_Inr_iff)
qed

lemma completeCurrentPoolSlices_current:
  assumes "completeCurrentPoolSlices slices = Inr current"
  shows "filter (\<lambda>sl. poolKey sl = key) current = currentInPool slices key"
proof -
  from assms obtain pools where pools: "describesPools slices pools"
    and current: "current = concat (map (\<lambda>(key, pool). pgSlices pool) pools)"
    by (rule completeCurrentPoolSlices_pools)
  have wf: "gomap_wf pools" using pools by (simp add: describesPools_def)
  have pool: "pgSlices pool = currentInPool slices k" if "map_of pools k = Some pool" for k pool
    using that pools by (auto simp: describesPools_def intro: describesPool_slices)
  have "\<forall>sl \<in> set (pgSlices pool). poolKey sl = k" if "(k, pool) \<in> set pools" for k pool
    using pool that wf by (auto simp: map_of_wf_iff currentInPool_def)
  from filter_concat_pools [OF wf this, of key] current
  have "filter (\<lambda>sl. poolKey sl = key) current
      = (case map_of pools key of None \<Rightarrow> [] | Some pool \<Rightarrow> pgSlices pool)" by simp
  moreover have "currentInPool slices key = []" if "map_of pools key = None"
    using that pools unfolding describesPools_def currentInPool_def gomap_keys_dom
    by (auto simp: filter_empty_conv domIff image_iff)
  ultimately show ?thesis using pool by (auto split: option.splits)
qed

lemma completeCurrentPoolSlices_set:
  assumes "completeCurrentPoolSlices slices = Inr current"
  shows "set current = {sl \<in> set slices. latestInPool slices sl}"
proof -
  have "sl \<in> set current \<longleftrightarrow> sl \<in> set (currentInPool slices (poolKey sl))" for sl
    unfolding completeCurrentPoolSlices_current [OF assms, symmetric] by simp
  then show ?thesis by (auto simp: currentInPool_def)
qed

text \<open>
  C10. For an \<^verbatim>\<open>All\<close> request only complete current pools count: when
  \<^verbatim>\<open>completeCurrentPoolSlices\<close> succeeds, what it returns for each pool is exactly the slices of the newest
  generation of that pool, in their order; there is at least one, and their number is the one the slices
  declare.
\<close>

theorem completeCurrentPoolSlices_exact:
  assumes "completeCurrentPoolSlices slices = Inr current"
  shows "(\<forall>key. filter (\<lambda>sl. poolKey sl = key) current = currentInPool slices key) \<and>
    (\<forall>sl \<in> set slices. currentInPool slices (poolKey sl) \<noteq> [] \<and>
       (\<forall>sl' \<in> set (currentInPool slices (poolKey sl)). resourceSliceCount sl' \<noteq> 0 \<longrightarrow>
          int (length (currentInPool slices (poolKey sl))) = resourceSliceCount sl'))"
proof -
  have "currentInPool slices (poolKey sl) \<noteq> [] \<and>
       (\<forall>sl' \<in> set (currentInPool slices (poolKey sl)). resourceSliceCount sl' \<noteq> 0 \<longrightarrow>
          int (length (currentInPool slices (poolKey sl))) = resourceSliceCount sl')"
    if "sl \<in> set slices" for sl
  proof -
    from assms obtain pools where pools: "describesPools slices pools"
      and complete: "\<forall>(key, pool) \<in> set pools. 0 < pgExpectedCount pool \<and>
        int (length (pgSlices pool)) = pgExpectedCount pool"
      by (rule completeCurrentPoolSlices_pools)
    have "poolKey sl \<in> gomap_keys pools" using that pools by (auto simp: describesPools_def)
    then obtain pool where found: "map_of pools (poolKey sl) = Some pool"
      by (auto simp: gomap_keys_dom)
    then have d: "describesPool slices (poolKey sl) pool" using pools by (simp add: describesPools_def)
    have len: "0 < pgExpectedCount pool" "int (length (pgSlices pool)) = pgExpectedCount pool"
      using complete map_of_SomeD [OF found] by auto
    have counts: "\<forall>sl' \<in> set (pgSlices pool). resourceSliceCount sl' = 0 \<or> resourceSliceCount sl' = pgExpectedCount pool"
      using d by (simp add: describesPool_def)
    show ?thesis unfolding describesPool_slices [OF d, symmetric] using len counts by auto
  qed
  then show ?thesis using completeCurrentPoolSlices_current [OF assms] by blast
qed

definition consistentCounts :: "'q ResourceSlice list \<Rightarrow> bool" where
  "consistentCounts slices \<longleftrightarrow>
     (\<forall>sl \<in> set slices. 0 < resourceSliceCount sl \<and>
        (\<forall>sl' \<in> set slices. poolKey sl' = poolKey sl \<and> poolGeneration sl' = poolGeneration sl \<longrightarrow>
           resourceSliceCount sl' = resourceSliceCount sl))"

lemma consistentCountsD:
  "consistentCounts slices \<Longrightarrow> sl \<in> set slices \<Longrightarrow> sl' \<in> set slices \<Longrightarrow> poolKey sl' = poolKey sl \<Longrightarrow>
     poolGeneration sl' = poolGeneration sl \<Longrightarrow>
     0 < resourceSliceCount sl \<and> resourceSliceCount sl' = resourceSliceCount sl"
  unfolding consistentCounts_def by blast

lemma nextPool_defined:
  assumes "consistentCounts (processed @ [sl])"
    and "case found of None \<Rightarrow> True | Some pool0 \<Rightarrow> describesPool processed (poolKey sl) pool0"
  shows "nextPool sl found \<noteq> None"
proof (cases found)
  case None
  then show ?thesis by (simp add: nextPool_def)
next
  case (Some pool0)
  have "pgExpectedCount pool0 = resourceSliceCount sl" if gen: "poolGeneration sl = pgGeneration pool0"
  proof -
    have d: "describesPool processed (poolKey sl) pool0" using assms(2) Some by simp
    then obtain s where s: "s \<in> set processed" "poolKey s = poolKey sl" "poolGeneration s = pgGeneration pool0"
      unfolding describesPool_def by blast
    moreover from this d have "s \<in> set (pgSlices pool0)" by (simp add: describesPool_def)
    with d have "resourceSliceCount s = 0 \<or> resourceSliceCount s = pgExpectedCount pool0"
      unfolding describesPool_def by blast
    moreover have "0 < resourceSliceCount s \<and> resourceSliceCount sl = resourceSliceCount s"
      using s gen by (intro consistentCountsD [OF assms(1)]) simp_all
    ultimately show ?thesis by linarith
  qed
  note same = this
  consider "pgGeneration pool0 < poolGeneration sl" | "poolGeneration sl < pgGeneration pool0"
    | "poolGeneration sl = pgGeneration pool0" by linarith
  then show ?thesis
  proof cases
    case 3
    with same have "pgExpectedCount pool0 = resourceSliceCount sl" by blast
    with Some 3 show ?thesis by (simp add: nextPool_def)
  qed (use Some in \<open>simp_all add: nextPool_def\<close>)
qed

lemma consistentCounts_append: "consistentCounts (xs @ ys) \<Longrightarrow> consistentCounts xs"
  by (auto simp: consistentCounts_def)

lemma groupPools_defined:
  assumes "describesPools processed pools" and "consistentCounts (processed @ slices)"
  shows "\<exists>pools'. groupPools slices pools = Inr pools'"
  using assms
proof (induction slices arbitrary: processed pools)
  case (Cons sl slices)
  have found: "case map_of pools (poolKey sl) of None \<Rightarrow> True
      | Some pool0 \<Rightarrow> describesPool processed (poolKey sl) pool0"
    using Cons.prems(1) by (auto simp: describesPools_def split: option.splits)
  have "consistentCounts (processed @ [sl])" using consistentCounts_append [of "processed @ [sl]" slices] Cons.prems(2) by simp
  with found obtain pool where pool: "nextPool sl (map_of pools (poolKey sl)) = Some pool"
    using nextPool_defined by blast
  then have "groupPools [sl] pools = Inr (gomap_put (poolKey sl) pool pools)"
    unfolding groupPools_Cons_Inr groupPools.simps(1) by blast
  from groupPools_describes [OF Cons.prems(1) this] Cons.IH [of "processed @ [sl]"] Cons.prems(2)
  obtain pools' where "groupPools slices (gomap_put (poolKey sl) pool pools) = Inr pools'" by auto
  then show ?case using pool by (auto simp only: groupPools_Cons_Inr)
qed simp

lemma currentInPool_nonempty: "sl \<in> set slices \<Longrightarrow> currentInPool slices (poolKey sl) \<noteq> []"
proof -
  assume sl: "sl \<in> set slices"
  let ?gens = "poolGeneration ` {s \<in> set slices. poolKey s = poolKey sl}"
  have "finite ?gens" "?gens \<noteq> {}" using sl by auto
  then have "Max ?gens \<in> ?gens" by (rule Max_in)
  then obtain s where "s \<in> set slices" "poolKey s = poolKey sl" "poolGeneration s = Max ?gens" by auto
  then have "s \<in> set (currentInPool slices (poolKey sl))"
    by (auto simp: currentInPool_def latestInPool_def)
  then show ?thesis by (cases "currentInPool slices (poolKey sl)") auto
qed

lemma describesPool_count:
  assumes "describesPool slices key pool" and "consistentCounts slices"
  shows "sl \<in> set (currentInPool slices key) \<Longrightarrow> resourceSliceCount sl = pgExpectedCount pool"
    and "0 < pgExpectedCount pool"
proof -
  have eq: "resourceSliceCount s = pgExpectedCount pool \<and> 0 < resourceSliceCount s"
    if "s \<in> set (currentInPool slices key)" for s
  proof -
    have "s \<in> set (pgSlices pool)" using that describesPool_slices [OF assms(1)] by simp
    then have "resourceSliceCount s = 0 \<or> resourceSliceCount s = pgExpectedCount pool"
      using assms(1) by (simp add: describesPool_def)
    moreover have "0 < resourceSliceCount s"
      using that assms(2) by (simp add: currentInPool_def consistentCounts_def)
    ultimately show ?thesis by simp
  qed
  then show "sl \<in> set (currentInPool slices key) \<Longrightarrow> resourceSliceCount sl = pgExpectedCount pool" by blast
  from assms(1) obtain s where "s \<in> set (pgSlices pool)" by (auto simp: describesPool_def)
  then show "0 < pgExpectedCount pool" using eq [of s] describesPool_slices [OF assms(1)] by simp
qed

text \<open>
  When the slices of every pool generation agree on their count, \<^verbatim>\<open>completeCurrentPoolSlices\<close> fails
  exactly when some pool's newest generation is incomplete: the number of its slices differs from the
  count they declare. Older generations then play no part.
\<close>

theorem completeCurrentPoolSlices_complete:
  assumes "consistentCounts slices"
  shows "(\<exists>current. completeCurrentPoolSlices slices = Inr current) \<longleftrightarrow>
    (\<forall>sl \<in> set slices. latestInPool slices sl \<longrightarrow>
       int (length (currentInPool slices (poolKey sl))) = resourceSliceCount sl)"
proof -
  have "describesPools [] []" by (simp add: describesPools_def)
  with groupPools_defined [of "[]" "[]" slices] assms obtain pools where
    run: "groupPools slices [] = Inr pools" by auto
  with groupPools_describes [OF \<open>describesPools [] []\<close> run]
  have pools: "describesPools slices pools" by simp
  have d: "describesPool slices key p" if "(key, p) \<in> set pools" for key p
    using that pools by (auto simp: describesPools_def map_of_wf_iff)
  have "(\<exists>current. completeCurrentPoolSlices slices = Inr current) \<longleftrightarrow>
      (\<forall>(key, p) \<in> set pools. 0 < pgExpectedCount p \<and> int (length (pgSlices p)) = pgExpectedCount p)"
    using run by (simp add: completeCurrentPoolSlices_def currentSlices_Inr_iff)
  also have "\<dots> \<longleftrightarrow> (\<forall>(key, p) \<in> set pools. int (length (currentInPool slices key)) = pgExpectedCount p)"
    using describesPool_slices [OF d] describesPool_count(2) [OF d assms] by (intro ball_cong refl) auto
  also have "\<dots> \<longleftrightarrow> (\<forall>sl \<in> set slices. latestInPool slices sl \<longrightarrow>
       int (length (currentInPool slices (poolKey sl))) = resourceSliceCount sl)"
  proof safe
    fix sl assume sl: "sl \<in> set slices" "latestInPool slices sl"
      and all: "\<forall>(key, pool) \<in> set pools. int (length (currentInPool slices key)) = pgExpectedCount pool"
    have "poolKey sl \<in> gomap_keys pools" using sl(1) pools by (auto simp: describesPools_def)
    then obtain p where p: "(poolKey sl, p) \<in> set pools" by (auto simp: gomap_keys_def)
    have "sl \<in> set (currentInPool slices (poolKey sl))" using sl by (simp add: currentInPool_def)
    from describesPool_count(1) [OF d [OF p] assms this] all p
    show "int (length (currentInPool slices (poolKey sl))) = resourceSliceCount sl" by auto
  next
    fix key p assume p: "(key, p) \<in> set pools"
      and all: "\<forall>sl \<in> set slices. latestInPool slices sl \<longrightarrow>
       int (length (currentInPool slices (poolKey sl))) = resourceSliceCount sl"
    have "key \<in> gomap_keys pools" using p by (force simp: gomap_keys_def)
    then obtain sl0 where "sl0 \<in> set slices" "key = poolKey sl0" using pools by (auto simp: describesPools_def)
    then obtain sl where sl: "sl \<in> set (currentInPool slices key)"
      using currentInPool_nonempty [of sl0 slices] by (cases "currentInPool slices key") auto
    with all describesPool_count(1) [OF d [OF p] assms sl]
    show "int (length (currentInPool slices key)) = pgExpectedCount p" by (auto simp: currentInPool_def)
  qed
  finally show ?thesis .
qed

text \<open>Slices of one pool by generation and declared count.\<close>

definition poolSlice :: "string \<Rightarrow> int \<Rightarrow> int \<Rightarrow> rat ResourceSlice" where
  "poolSlice name gen cnt =
     exampleSlice\<lparr>sliceName := name, poolGeneration := gen, resourceSliceCount := cnt\<rparr>"

lemma poolSlice_simps [simp]:
  "sliceDriver (poolSlice n g c) = ''d''" "poolName (poolSlice n g c) = ''p''"
  "sliceName (poolSlice n g c) = n"
  "poolGeneration (poolSlice n g c) = g" "resourceSliceCount (poolSlice n g c) = c"
  "poolKey (poolSlice n g c) = ''d'' @ [CHR 0x00] @ ''p''"
  "poolSlice n g c = poolSlice n' g' c' \<longleftrightarrow> n = n' \<and> g = g' \<and> c = c'"
proof -
  show simps: "sliceDriver (poolSlice n g c) = ''d''" "poolName (poolSlice n g c) = ''p''"
    "sliceName (poolSlice n g c) = n"
    "poolGeneration (poolSlice n g c) = g" "resourceSliceCount (poolSlice n g c) = c" for n g c
    by (simp_all add: poolSlice_def exampleSlice_def)
  show "poolKey (poolSlice n g c) = ''d'' @ [CHR 0x00] @ ''p''" by (simp add: poolKey_def simps)
  show "poolSlice n g c = poolSlice n' g' c' \<longleftrightarrow> n = n' \<and> g = g' \<and> c = c'" by (metis simps(3-5))
qed

lemma example_pools:
  "completeCurrentPoolSlices [poolSlice ''a'' 1 1, poolSlice ''b'' 2 2, poolSlice ''c'' 2 2]
     = Inr [poolSlice ''b'' 2 2, poolSlice ''c'' 2 2]"
  by (simp add: completeCurrentPoolSlices_def gomap_put_def)

theorem completeCurrentPoolSlices_exact_witness:
  "filter (\<lambda>sl. poolKey sl = ''d'' @ [CHR 0x00] @ ''p'') [poolSlice ''b'' 2 2, poolSlice ''c'' 2 2] =
     currentInPool [poolSlice ''a'' 1 1, poolSlice ''b'' 2 2, poolSlice ''c'' 2 2] (''d'' @ [CHR 0x00] @ ''p'')"
  using completeCurrentPoolSlices_exact [OF example_pools] by blast

theorem completeCurrentPoolSlices_complete_witness:
  "(\<exists>current. completeCurrentPoolSlices [poolSlice ''b'' 2 2, poolSlice ''c'' 2 2, poolSlice ''a'' 1 1] = Inr current) \<and>
   \<not> (\<exists>current. completeCurrentPoolSlices [poolSlice ''b'' 2 2, poolSlice ''a'' 1 1] = Inr current)"
proof -
  let ?full = "[poolSlice ''b'' 2 2, poolSlice ''c'' 2 2, poolSlice ''a'' 1 1]"
  let ?part = "[poolSlice ''b'' 2 2, poolSlice ''a'' 1 1]"
  have "consistentCounts ?full" "consistentCounts ?part" by (simp_all add: consistentCounts_def)
  note iff = this [THEN completeCurrentPoolSlices_complete]
  show ?thesis unfolding iff by (simp add: currentInPool_def latestInPool_def)
qed

text \<open>
  Without agreeing counts in the older generations the order of the slices decides: the same three
  slices, of which the newest generation is one complete slice, are refused when two older slices that
  disagree on their count come first, and accepted when they come last.
\<close>

theorem completeCurrentPoolSlices_order_matters:
  "completeCurrentPoolSlices [poolSlice ''a'' 1 2, poolSlice ''b'' 1 3, poolSlice ''c'' 2 1]
     = Inl (unsupportedFailure (InconsistentSliceCounts ''d'' ''p'' 1)) \<and>
   completeCurrentPoolSlices [poolSlice ''c'' 2 1, poolSlice ''a'' 1 2, poolSlice ''b'' 1 3]
     = Inr [poolSlice ''c'' 2 1]"
  by (simp add: completeCurrentPoolSlices_def gomap_put_def)

subsection \<open>Alternatives and requests\<close>

lemma selectAllFromNodes_sound:
  assumes "selectAllFromNodes planner input slicesByNode nodes deferred limit = Inr selection"
    and "selMatched selection"
  shows "\<exists>nodeName current. completeCurrentPoolSlices (slicesByNode nodeName) = Inr current \<and>
      selectAllFromNode planner input nodeName current = Inr selection \<and>
      int (length (selResults selection)) \<le> inMaxResults input"
  using assms(1)
proof (induction nodes arbitrary: deferred limit)
  case Nil
  then show ?case using assms(2) by (auto split: if_splits option.splits)
next
  case (Cons nodeName nodes)
  then show ?case by (fastforce split: sum.splits if_splits)
qed

lemma selectAllAlternative_sound:
  assumes "selectAllAlternative planner input = Inr selection" and "selMatched selection"
    and "altMode (inAlternative input) = ModeAll"
  shows "selectionMeets planner input selection"
proof -
  obtain nodeOrder slicesByNode where
    nodes: "managedSlicesByNode planner (inAllocatedNodeName input) = (nodeOrder, slicesByNode)"
    by (cases "managedSlicesByNode planner (inAllocatedNodeName input)")
  with assms(1) have "selectAllFromNodes planner input slicesByNode nodeOrder None False = Inr selection"
    by (simp add: selectAllAlternative_def)
  from selectAllFromNodes_sound [OF this assms(2)] obtain nodeName current where
    current: "completeCurrentPoolSlices (slicesByNode nodeName) = Inr current"
    and run: "selectAllFromNode planner input nodeName current = Inr selection"
    and len: "int (length (selResults selection)) \<le> inMaxResults input" by blast
  note sel = selectAllFromNode_collected [OF run]
  have slices: "sl \<in> set (plSlices planner)" "managedSimulatorSlice sl"
    "compatibleNodeName sl (inAllocatedNodeName input) = Some nodeName" if "sl \<in> set current" for sl
    using that completeCurrentPoolSlices_set [OF current] managedSlicesByNode_slices [OF nodes, of nodeName] by auto
  have results: "justified planner (inAlternative input) (inDeviceClass input) nodeName r \<and>
      (inAllocatedNodeName input \<noteq> '''' \<longrightarrow> nodeName = inAllocatedNodeName input)"
    if "r \<in> set (selResults selection)" for r
  proof -
    from sel(1) that obtain sl device where "(sl, device) \<in> healthyDevices current"
      and q: "deviceQualifies planner (inAlternative input) (inDeviceClass input) sl device"
      and f: "deviceFree planner sl device"
      and r: "r = exclusiveResult (altRequestName (inAlternative input)) sl device"
      unfolding collected_def by blast
    then have sl: "sl \<in> set current" "\<not> unhealthySlice sl" "device \<in> set (sliceDevices sl)"
      by (auto simp: healthyDevices_def)
    note node = compatibleNodeName_Some [OF slices(3) [OF sl(1)] deviceQualifies_node [OF q]]
    show ?thesis unfolding justified_def eligibleSimulatorSlice_def
      using slices(1,2) [OF sl(1)] sl q f r node by blast
  qed
  moreover have "distinct (map resultKey (selResults selection))" using sel(1) by (simp add: collected_def)
  moreover have nonempty: "selResults selection \<noteq> []" using sel(2) assms(2) by simp
  ultimately show ?thesis
    unfolding selectionMeets_def sel(3) [OF assms(2)] using len assms(3) results [OF hd_in_set [OF nonempty]] by auto
qed

lemma selectAlternative_sound:
  assumes "selectAlternative planner input = Inr selection" and "selMatched selection"
  shows "selectionMeets planner input selection"
proof (cases "altMode (inAlternative input) = ModeAll")
  case True
  then show ?thesis using assms selectAllAlternative_sound by (simp add: selectAlternative_def)
next
  case False
  then have "selectFromSlices planner input (plSlices planner)
      (newCandidateAccumulator (altCount (inAlternative input))) = Inr selection"
    using assms(1) by (simp add: selectAlternative_def selectExactCountAlternative_def)
  from selectFromSlices_sound [OF accumulatorInv_new _ False this assms(2)] show ?thesis by simp
qed

lemma selectFromAlternatives_sound:
  assumes "selectFromAlternatives planner allocated maxResults alternatives missing limit
    = Inr (Some selection, missing', limit')"
  shows "\<exists>alternative \<in> set alternatives. \<exists>deviceClass.
    plClasses planner (altDeviceClassName alternative) = Some deviceClass \<and>
    selectionMeets planner \<lparr>inAlternative = alternative, inDeviceClass = deviceClass,
      inAllocatedNodeName = allocated, inMaxResults = maxResults\<rparr> selection \<and>
    (altMode alternative = ModeExactCount \<longrightarrow> altCount alternative \<le> maxResults)"
  using assms
proof (induction alternatives arbitrary: missing limit)
  case (Cons alternative rest)
  show ?case
  proof (cases "plClasses planner (altDeviceClassName alternative)")
    case None
    then show ?thesis using Cons by auto
  next
    case (Some cls)
    let ?input = "\<lparr>inAlternative = alternative, inDeviceClass = cls,
      inAllocatedNodeName = allocated, inMaxResults = maxResults\<rparr>"
    consider (here) "selectAlternative planner ?input = Inr selection" "selMatched selection"
        "\<not> (altMode alternative = ModeExactCount \<and> altCount alternative > maxResults)"
      | (later) missing1 limit1 where "selectFromAlternatives planner allocated maxResults rest missing1 limit1
          = Inr (Some selection, missing', limit')"
      using Cons.prems Some by (auto split: if_splits sum.splits)
    then show ?thesis
    proof cases
      case here
      from selectAlternative_sound [OF here(1,2)] Some here(3) show ?thesis by auto
    next
      case later
      from Cons.IH [OF later] show ?thesis by auto
    qed
  qed
qed simp

definition requestMet ::
  "'q claimPlanner \<Rightarrow> string \<Rightarrow> 'q DeviceRequest \<Rightarrow> 'q DeviceRequestAllocationResult list \<Rightarrow> bool" where
  "requestMet planner nodeName request part \<longleftrightarrow>
     (\<exists>alternatives alternative deviceClass.
        supportedAlternatives (plQuantity planner) request = Inr alternatives \<and>
        alternative \<in> set alternatives \<and>
        plClasses planner (altDeviceClassName alternative) = Some deviceClass \<and>
        (\<forall>r \<in> set part. justified planner alternative deviceClass nodeName r) \<and>
        (if altMode alternative = ModeAll then part \<noteq> [] else int (length part) = altCount alternative))"

lemma selectRequest_sound:
  assumes "selectRequest planner request allocated maxResults = Inr selection"
  shows "requestMet planner (selNodeName selection) request (selResults selection) \<and>
    distinct (map resultKey (selResults selection)) \<and>
    (allocated \<noteq> '''' \<longrightarrow> selNodeName selection = allocated)"
proof -
  from assms obtain alternatives missing limit where
    alts: "supportedAlternatives (plQuantity planner) request = Inr alternatives"
    and run: "selectFromAlternatives planner allocated maxResults alternatives [] False
      = Inr (Some selection, missing, limit)"
    by (auto simp: selectRequest_def split: sum.splits option.splits prod.splits if_splits)
  from selectFromAlternatives_sound [OF run] obtain alternative deviceClass where
    "alternative \<in> set alternatives" "plClasses planner (altDeviceClassName alternative) = Some deviceClass"
    "selectionMeets planner \<lparr>inAlternative = alternative, inDeviceClass = deviceClass,
      inAllocatedNodeName = allocated, inMaxResults = maxResults\<rparr> selection" by blast
  with alts show ?thesis unfolding requestMet_def selectionMeets_def by (auto split: if_splits)
qed

lemma justified_free:
  assumes "justified planner alternative deviceClass nodeName r"
  shows "resultKey r \<notin> plChosen planner" and "resShareID r = None" and "resConsumedCapacity r = None"
    and "\<not> isDeviceAllocated (plClaims planner) (resDriver r) (resPool r) (resDevice r)"
  using assms by (auto simp: justified_def deviceFree_def exclusiveResult_def resultKey_def deviceKey_def)

lemma reserveChosen_chosen [simp]:
  "plChosen (reserveChosen rs planner) = plChosen planner \<union> resultKey ` set rs"
  by (simp add: reserveChosen_def)

lemma justified_reserveChosen:
  "justified (reserveChosen rs planner) alternative deviceClass nodeName r \<Longrightarrow>
     justified planner alternative deviceClass nodeName r"
  by (fastforce simp: justified_def deviceFree_def deviceQualifies_def reserveChosen_def)

lemma justified_node:
  "justified planner alternative deviceClass nodeName r \<Longrightarrow> nodeName = '''' \<or> nodeName = nodeName' \<Longrightarrow>
     justified planner alternative deviceClass nodeName' r"
  by (fastforce simp: justified_def sliceOnNode_def)

lemma requestMet_reserveChosen:
  "requestMet (reserveChosen rs planner) nodeName request part \<Longrightarrow> requestMet planner nodeName request part"
  unfolding requestMet_def by (auto simp: reserveChosen_def [of rs planner] dest: justified_reserveChosen)
    (metis justified_reserveChosen reserveChosen_def)+

lemma requestMet_node:
  "requestMet planner nodeName request part \<Longrightarrow> nodeName = '''' \<or> nodeName = nodeName' \<Longrightarrow>
     requestMet planner nodeName' request part"
  unfolding requestMet_def using justified_node by metis

lemma requestMet_free:
  assumes "requestMet planner nodeName request part" and "r \<in> set part"
  shows "resultKey r \<notin> plChosen planner" "resShareID r = None" "resConsumedCapacity r = None"
    "\<not> isDeviceAllocated (plClaims planner) (resDriver r) (resPool r) (resDevice r)"
proof -
  from assms obtain alternative deviceClass where "justified planner alternative deviceClass nodeName r"
    unfolding requestMet_def by blast
  from justified_free [OF this] show "resultKey r \<notin> plChosen planner" "resShareID r = None"
    "resConsumedCapacity r = None"
    "\<not> isDeviceAllocated (plClaims planner) (resDriver r) (resPool r) (resDevice r)" by simp_all
qed

lemma planRequests_sound:
  assumes "planRequests planner requests plan = Inr plan'"
    and "int (length (planResults plan)) \<le> AllocationResultsMaxSize"
  shows "\<exists>parts. planResults plan' = planResults plan @ concat parts \<and>
    list_all2 (requestMet planner (planNodeName plan')) requests parts \<and>
    distinct (map resultKey (concat parts)) \<and>
    (\<forall>r \<in> set (concat parts). resultKey r \<notin> plChosen planner) \<and>
    int (length (planResults plan')) \<le> AllocationResultsMaxSize \<and>
    (planNodeName plan \<noteq> '''' \<longrightarrow> planNodeName plan' = planNodeName plan)"
  using assms
proof (induction requests arbitrary: planner plan)
  case Nil
  then show ?case by (intro exI [of _ "[]"]) simp
next
  case (Cons request requests)
  from Cons.prems(1) obtain selection where
    sel: "selectRequest planner request (planNodeName plan)
      (AllocationResultsMaxSize - int (length (planResults plan))) = Inr selection"
    and limit: "validateClaimResultLimit (int (length (planResults plan))) (int (length (selResults selection))) = None"
    and rest: "planRequests (reserveChosen (selResults selection) planner) requests
      (appendSelection selection plan) = Inr plan'"
    by (auto simp: Let_def split: sum.splits option.splits)
  let ?part = "selResults selection" and ?planner = "reserveChosen (selResults selection) planner"
  note met = selectRequest_sound [OF sel]
  have "int (length (planResults (appendSelection selection plan))) \<le> AllocationResultsMaxSize"
    using limit by (auto simp: validateClaimResultLimit_def appendSelection_def Let_def split: if_splits)
  from Cons.IH [OF rest this] obtain parts where
    parts: "planResults plan' = planResults (appendSelection selection plan) @ concat parts"
    and all: "list_all2 (requestMet ?planner (planNodeName plan')) requests parts"
    and dist: "distinct (map resultKey (concat parts))"
    and fresh: "\<forall>r \<in> set (concat parts). resultKey r \<notin> plChosen ?planner"
    and bound: "int (length (planResults plan')) \<le> AllocationResultsMaxSize"
    and node: "planNodeName (appendSelection selection plan) \<noteq> '''' \<longrightarrow>
      planNodeName plan' = planNodeName (appendSelection selection plan)"
    by blast
  have sel_node: "selNodeName selection = '''' \<or> selNodeName selection = planNodeName plan'"
    using node met by (cases "planNodeName plan = ''''") (auto simp: appendSelection_def)
  have fresh': "\<forall>r \<in> set (concat parts). resultKey r \<notin> plChosen planner \<union> resultKey ` set ?part"
    using fresh by (simp only: reserveChosen_chosen)
  show ?case
  proof (intro exI conjI)
    show "planResults plan' = planResults plan @ concat (?part # parts)"
      using parts by (simp add: appendSelection_def)
    have "list_all2 (requestMet planner (planNodeName plan')) requests parts"
      using all by (rule list_all2_mono) (rule requestMet_reserveChosen)
    moreover have "requestMet planner (planNodeName plan') request ?part"
      by (rule requestMet_node [OF conjunct1 [OF met] sel_node])
    ultimately show "list_all2 (requestMet planner (planNodeName plan')) (request # requests) (?part # parts)"
      by simp
    have "resultKey ` set ?part \<inter> resultKey ` set (concat parts) = {}"
      unfolding disjoint_iff image_iff using fresh' by (metis Un_iff image_eqI)
    then show "distinct (map resultKey (concat (?part # parts)))"
      unfolding concat.simps map_append distinct_append set_map using met dist by blast
    show "\<forall>r \<in> set (concat (?part # parts)). resultKey r \<notin> plChosen planner"
      unfolding concat.simps set_append using met requestMet_free(1) fresh' by blast
    show "int (length (planResults plan')) \<le> AllocationResultsMaxSize" by (rule bound)
    show "planNodeName plan \<noteq> '''' \<longrightarrow> planNodeName plan' = planNodeName plan"
      using node by (auto simp: appendSelection_def)
  qed
qed

lemma planUnconstrained_parts:
  assumes "planUnconstrainedClaimAllocation planner claim = Inr plan"
  shows "int (length (planResults plan)) \<le> AllocationResultsMaxSize \<and>
    distinct (map resultKey (planResults plan)) \<and>
    (\<exists>parts. planResults plan = concat parts \<and>
       list_all2 (requestMet planner (planNodeName plan)) (claimRequests claim) parts)"
proof -
  have "planRequests planner (claimRequests claim) \<lparr>planResults = [], planNodeName = ''''\<rparr> = Inr plan"
    using assms by (simp add: planUnconstrainedClaimAllocation_def)
  from planRequests_sound [OF this] show ?thesis
    by (auto simp: AllocationResultsMaxSize_def)
qed

lemma planUnconstrained_free:
  assumes "planUnconstrainedClaimAllocation planner claim = Inr plan" and "r \<in> set (planResults plan)"
  shows "resultKey r \<notin> plChosen planner" "resShareID r = None" "resConsumedCapacity r = None"
    "\<not> isDeviceAllocated (plClaims planner) (resDriver r) (resPool r) (resDevice r)"
proof -
  from planUnconstrained_parts [OF assms(1)] assms(2) obtain parts part where
    all: "list_all2 (requestMet planner (planNodeName plan)) (claimRequests claim) parts"
    and part: "part \<in> set parts" "r \<in> set part" by auto
  then obtain request where "requestMet planner (planNodeName plan) request part"
    by (auto simp: list_all2_conv_all_nth in_set_conv_nth)
  from requestMet_free [OF this part(2)] show "resultKey r \<notin> plChosen planner" "resShareID r = None"
    "resConsumedCapacity r = None"
    "\<not> isDeviceAllocated (plClaims planner) (resDriver r) (resPool r) (resDevice r)" by blast+
qed

text \<open>
  C3. A plan of the first-fit planner is sound: it has at most 32 results; no device appears twice, none
  is allocated in a claim; the results split into one part per request, in order, and each part meets its
  request on the plan's node: every device is in an eligible simulator slice that is on that node or has an
  empty node name, satisfies the selectors of the class and of the alternative and its capacity
  requirements, and the number of devices is the requested count, or at least one for \<^verbatim>\<open>All\<close>.
\<close>

theorem planUnconstrainedClaimAllocation_sound:
  assumes "planUnconstrainedClaimAllocation planner claim = Inr plan"
  shows "int (length (planResults plan)) \<le> 32 \<and>
    distinct (map resultKey (planResults plan)) \<and>
    (\<forall>r \<in> set (planResults plan). resShareID r = None \<and> resConsumedCapacity r = None \<and>
       \<not> isDeviceAllocated (plClaims planner) (resDriver r) (resPool r) (resDevice r)) \<and>
    (\<exists>parts. planResults plan = concat parts \<and>
       list_all2 (requestMet planner (planNodeName plan)) (claimRequests claim) parts)"
  using planUnconstrained_parts [OF assms] planUnconstrained_free [OF assms]
  by (simp add: AllocationResultsMaxSize_def)

text \<open>
  A claim for one exclusive device: the class accepts every device, the node has a free device \<open>gpu\<close>
  after a device \<open>tpu\<close> that another claim holds.
\<close>

definition exclusiveDevice :: "string \<Rightarrow> rat Device" where
  "exclusiveDevice name =
     exampleDevice\<lparr>devName := name, devCapacity := [], allowMultipleAllocations := None\<rparr>"

definition acceptingCEL :: "rat cel_api" where
  "acceptingCEL = \<lparr>celCompileError = (\<lambda>_. None), celDeviceMatches = (\<lambda>_ _. Inr True)\<rparr>"

definition examplePlanner :: "rat claimPlanner" where
  "examplePlanner =
     newClaimPlanner exact_quantity acceptingCEL
       [exampleClaim [exampleExclusive\<lparr>resDevice := ''tpu''\<rparr>]]
       [exampleSlice\<lparr>sliceDevices := [exclusiveDevice ''tpu'', exclusiveDevice ''gpu'']\<rparr>]
       [''class'' \<mapsto> \<lparr>className = ''class'', classSelectors = [\<lparr>selCEL = Some ''true''\<rparr>]\<rparr>] []"

definition exampleRequest :: "rat DeviceRequest" where
  "exampleRequest =
     \<lparr>drName = ''r'',
      drExactly = Some \<lparr>exDeviceClassName = ''class'', exSelectors = [], exAllocationMode = ModeUnset,
                        exCount = 0, exAdminAccess = None, exTolerations = [], exCapacity = None\<rparr>,
      drFirstAvailable = []\<rparr>"

definition pendingClaim :: "rat DeviceRequest list \<Rightarrow> DeviceConstraint list \<Rightarrow> rat ResourceClaim" where
  "pendingClaim requests constraints =
     \<lparr>claimName = ''c'', claimNamespace = ''ns'', claimRequests = requests, claimConstraints = constraints,
      claimAllocation = None, claimReservedFor = []\<rparr>"

lemmas example_request_defs = supportedAlternatives_def supportedAlternative_def exactAlternativeContract_def
  supportedAllocationMode_def validateExclusiveCapacityRequirements_def exampleRequest_def
  AllocationResultsMaxSize_def normalizedAlternativeCount_def normalizedCount_def

lemmas example_plan_defs = selectAlternative_def selectExactCountAlternative_def selectFromSlice_def
  newCandidateAccumulator_def eligibleSimulatorSlice_def managedSimulatorSlice_def unhealthySlice_def
  sliceLabel_def exampleSlice_def compatibleNodeName_def evaluateCandidate_def Matches_def
  unsupportedSliceFailure_def unsupportedDeviceFailure_def exclusiveDevice_def exampleDevice_def
  exclusiveCapacityMatches_def deviceAllowsMultipleAllocations_def candidateUnavailable_def
  isDeviceAllocated_def exampleClaim_def exampleExclusive_def addCandidate_def acceptingCEL_def
  newClaimPlanner_def gomap_get_def noSelection_def

lemma example_plan:
  "planUnconstrainedClaimAllocation examplePlanner (pendingClaim [exampleRequest] []) =
     Inr \<lparr>planResults = [exampleExclusive], planNodeName = ''node''\<rparr>"
proof -
  have alts: "supportedAlternatives exact_quantity exampleRequest =
     Inr [\<lparr>altRequestName = ''r'', altDeviceClassName = ''class'', altSelectors = [],
       altMode = ModeExactCount, altCount = 1, altCapacity = None\<rparr>]"
    by (simp add: example_request_defs)
  have "selectRequest examplePlanner exampleRequest '''' 32 =
      Inr \<lparr>selResults = [exampleExclusive], selNodeName = ''node'', selMatched = True, selLimitExceeded = False\<rparr>"
    unfolding selectRequest_def examplePlanner_def
    by (simp add: example_plan_defs alts Let_def)
  then show ?thesis
    by (simp add: planUnconstrainedClaimAllocation_def pendingClaim_def AllocationResultsMaxSize_def
        validateClaimResultLimit_def appendSelection_def)
qed

theorem planUnconstrainedClaimAllocation_sound_witness:
  "planUnconstrainedClaimAllocation examplePlanner (pendingClaim [exampleRequest] []) =
     Inr \<lparr>planResults = [exampleExclusive], planNodeName = ''node''\<rparr> \<and>
   \<not> isDeviceAllocated (plClaims examplePlanner) ''d'' ''p'' ''gpu''"
  using planUnconstrainedClaimAllocation_sound [OF example_plan] example_plan
  by (simp add: exampleExclusive_def)

section \<open>Further properties\<close>

lemma supportedAlternative_bounds:
  assumes "supportedAlternative Q contract = Inr alternative"
  shows "(altMode alternative = ModeExactCount \<and> 1 \<le> altCount alternative \<and> altCount alternative \<le> 32
      \<or> altMode alternative = ModeAll \<and> altCount alternative = 0) \<and>
    altDeviceClassName alternative \<noteq> '''' \<and> altRequestName alternative = conRequestName contract \<and>
    validateExclusiveCapacityRequirements Q (altRequestName alternative) (altCapacity alternative) = None"
  using assms
  by (auto simp: supportedAlternative_def supportedAllocationMode_def normalizedAlternativeCount_def
      normalizedCount_def AllocationResultsMaxSize_def Let_def
      split: if_splits sum.splits option.splits DeviceAllocationMode.splits)

lemma supportedSubrequests_set:
  "supportedSubrequests Q name subs = Inr alternatives \<Longrightarrow> alternative \<in> set alternatives \<Longrightarrow>
     \<exists>sub \<in> set subs. supportedAlternative Q (subrequestContract name sub) = Inr alternative"
  by (induction subs arbitrary: alternatives) (auto split: sum.splits)

text \<open>
  What \<^verbatim>\<open>supportedAlternatives\<close> lets through: every alternative of a supported request names a device
  class and asks for between 1 and 32 devices in mode \<^verbatim>\<open>ExactCount\<close> or for \<^verbatim>\<open>All\<close> without a count; its
  request name is the request's, or the request's and the subrequest's joined by a slash.
\<close>

theorem supportedAlternatives_bounds:
  assumes "supportedAlternatives Q request = Inr alternatives" and "alternative \<in> set alternatives"
  shows "(altMode alternative = ModeExactCount \<and> 1 \<le> altCount alternative \<and> altCount alternative \<le> 32
      \<or> altMode alternative = ModeAll \<and> altCount alternative = 0) \<and>
    altDeviceClassName alternative \<noteq> '''' \<and>
    (if drExactly request \<noteq> None then altRequestName alternative = drName request
     else \<exists>sub \<in> set (drFirstAvailable request). altRequestName alternative = drName request @ ''/'' @ subName sub)"
proof (cases "drExactly request")
  case (Some exact)
  with assms have "supportedAlternative Q (exactAlternativeContract (drName request) exact) = Inr alternative"
    by (auto simp: supportedAlternatives_def split: list.splits sum.splits)
  from supportedAlternative_bounds [OF this] Some show ?thesis by (simp add: exactAlternativeContract_def)
next
  case None
  with assms have "supportedSubrequests Q (drName request) (drFirstAvailable request) = Inr alternatives"
    by (auto simp: supportedAlternatives_def split: list.splits)
  from supportedSubrequests_set [OF this assms(2)] obtain sub where
    sub: "sub \<in> set (drFirstAvailable request)"
      "supportedAlternative Q (subrequestContract (drName request) sub) = Inr alternative" by blast
  from supportedAlternative_bounds [OF sub(2)] None sub(1) show ?thesis
    by (auto simp: subrequestContract_def)
qed

theorem supportedAlternatives_bounds_witness:
  "\<exists>alternative. supportedAlternatives exact_quantity exampleRequest = Inr [alternative] \<and>
     altRequestName alternative = ''r'' \<and> altDeviceClassName alternative \<noteq> '''' \<and> altCount alternative \<le> 32"
proof -
  obtain alternative where alt: "supportedAlternatives exact_quantity exampleRequest = Inr [alternative]"
    by (simp add: example_request_defs)
  from supportedAlternatives_bounds [OF alt, of alternative] alt show ?thesis
    by (auto simp: exampleRequest_def)
qed

text \<open>
  \<^verbatim>\<open>All\<close> takes all: when \<^verbatim>\<open>selectAllFromNode\<close> succeeds, its results are, once each, exactly the
  devices of the healthy slices given to it that satisfy the selectors and capacity requirements and are
  neither chosen earlier in the plan nor allocated in a claim; there is a match exactly when there is at
  least one such device.
\<close>

theorem selectAllFromNode_exact:
  assumes "selectAllFromNode planner input nodeName slices = Inr selection"
  shows "distinct (map resultKey (selResults selection)) \<and>
    resultKey ` set (selResults selection) =
      {deviceKey sl device | sl device. sl \<in> set slices \<and> \<not> unhealthySlice sl \<and> device \<in> set (sliceDevices sl) \<and>
         deviceQualifies planner (inAlternative input) (inDeviceClass input) sl device \<and>
         deviceFree planner sl device} \<and>
    (selMatched selection \<longleftrightarrow> selResults selection \<noteq> [])"
  using selectAllFromNode_collected(1,2) [OF assms]
  by (simp add: collected_def healthyDevices_def)

definition exampleInput :: "rat selectionInput" where
  "exampleInput =
     \<lparr>inAlternative = \<lparr>altRequestName = ''r'', altDeviceClassName = ''class'', altSelectors = [],
        altMode = ModeAll, altCount = 0, altCapacity = None\<rparr>,
      inDeviceClass = \<lparr>className = ''class'', classSelectors = [\<lparr>selCEL = Some ''true''\<rparr>]\<rparr>,
      inAllocatedNodeName = '''', inMaxResults = 32\<rparr>"

lemma example_all:
  "selectAllFromNode examplePlanner exampleInput ''node'' (plSlices examplePlanner) =
     Inr \<lparr>selResults = [exampleExclusive], selNodeName = ''node'', selMatched = True, selLimitExceeded = False\<rparr>"
  by (simp add: selectAllFromNode_def examplePlanner_def exampleInput_def example_plan_defs Let_def)

theorem selectAllFromNode_exact_witness:
  "{deviceKey sl device | sl device. sl \<in> set (plSlices examplePlanner) \<and> \<not> unhealthySlice sl \<and>
      device \<in> set (sliceDevices sl) \<and>
      deviceQualifies examplePlanner (inAlternative exampleInput) (inDeviceClass exampleInput) sl device \<and>
      deviceFree examplePlanner sl device} = {deviceIdentityKey ''d'' ''p'' ''gpu''}"
  using selectAllFromNode_exact [OF example_all] by simp

end
