(* ===== verification/Allocation_Constraints.thy ===== *)
theory Allocation_Constraints
  imports Allocation_Plan "HOL-Library.Sublist"
begin

text \<open>
  The backtracking planner, \<^verbatim>\<open>internal/simulator/allocation_constraints.go\<close>. It runs when a claim has
  constraints or when shareable devices are around.

  The Go code enumerates selections by calling a closure \<^verbatim>\<open>yield\<close> that writes variables of its caller. Here
  an enumerator takes \<open>yield\<close> and a state: a pair of what the closure writes (\<open>searchOutcome\<close>) and of what
  every function of the search changes (\<open>search_env\<close>: the branch budget, the number of UUIDs drawn, the
  number of times the context was asked for its error). The context and the UUID generator are outside
  the repository: \<open>search_context\<close> gives the answers of \<^verbatim>\<open>ctx.Err()\<close> and \<^verbatim>\<open>uuid.NewUUID()\<close> in order.
\<close>

section \<open>Search state\<close>

record search_context =
  ctxErr :: "nat \<Rightarrow> string option"
  newUUID :: "nat \<Rightarrow> string"

record constraintSearchBudget =
  budLimit :: int
  budRemaining :: int

record search_env =
  envBudget :: constraintSearchBudget
  envUUIDs :: nat
  envPolls :: nat

record matchAttributeConstraint =
  attributeName :: string
  requestNames :: "string set"

record 'q constrainedDevice =
  cdResult :: "'q DeviceRequestAllocationResult"
  cdDevice :: "'q Device"

record 'q constrainedSelection =
  csDevices :: "'q constrainedDevice list"
  csNodeName :: string

record 'q constrainedSearchState =
  ssDevices :: "'q constrainedDevice list"
  ssNodeName :: string
  ssUsage :: "'q allocationAttemptUsage"

record 'q constrainedCandidateSet =
  ccNodeOrder :: "string list"
  ccByNode :: "string \<Rightarrow> 'q constrainedDevice list"

datatype scalarConstraintValue =
    ScalarString string | ScalarInt int | ScalarBool bool | ScalarVersion string

record 'q searchOutcome =
  outSolution :: "'q allocationPlan option"
  outFailure :: "allocationFailure option"

definition maxConstraintSearchBranches :: int where
  "maxConstraintSearchBranches = 100000"

definition newConstraintSearchBudget :: "int \<Rightarrow> constraintSearchBudget" where
  "newConstraintSearchBudget limit = \<lparr>budLimit = limit, budRemaining = limit\<rparr>"

definition consume :: "constraintSearchBudget \<Rightarrow> allocationFailure + constraintSearchBudget" where
  "consume budget =
     (if budRemaining budget \<le> 0 then Inl (unsupportedFailure (BranchLimit (budLimit budget)))
      else Inr (budget\<lparr>budRemaining := budRemaining budget - 1\<rparr>))"

definition pollContext :: "search_context \<Rightarrow> search_env \<Rightarrow> string option \<times> search_env" where
  "pollContext X env = (ctxErr X (envPolls env), env\<lparr>envPolls := Suc (envPolls env)\<rparr>)"

section \<open>Constraints\<close>

text \<open>\<^verbatim>\<open>strings.Cut(s, "/")\<close>: the parts before and after the first slash, or nothing.\<close>

definition cutSlash :: "string \<Rightarrow> (string \<times> string) option" where
  "cutSlash s =
     (case dropWhile (\<lambda>c. c \<noteq> CHR ''/'') s of
        [] \<Rightarrow> None
      | _ # after \<Rightarrow> Some (takeWhile (\<lambda>c. c \<noteq> CHR ''/'') s, after))"

definition isFullyQualifiedAttributeName :: "string \<Rightarrow> bool" where
  "isFullyQualifiedAttributeName name =
     (case cutSlash name of
        None \<Rightarrow> False
      | Some (domain, identifier) \<Rightarrow> domain \<noteq> '''' \<and> identifier \<noteq> '''' \<and> CHR ''/'' \<notin> set identifier)"

definition constraintRequestReferences :: "'q ResourceClaim \<Rightarrow> string set" where
  "constraintRequestReferences claim =
     set (concat (map (\<lambda>request. drName request #
       map (\<lambda>subrequest. drName request @ ''/'' @ subName subrequest) (drFirstAvailable request))
       (claimRequests claim)))"

fun supportedConstraints ::
  "string set \<Rightarrow> nat \<Rightarrow> DeviceConstraint list \<Rightarrow> allocationFailure + matchAttributeConstraint list" where
  "supportedConstraints validReferences index [] = Inr []"
| "supportedConstraints validReferences index (constraint # rest) =
     (if dcDistinctAttribute constraint \<noteq> None
      then Inl (unsupportedFailure (UnsupportedDistinctAttribute index))
      else case dcMatchAttribute constraint of
        None \<Rightarrow> Inl (unsupportedFailure (NoConstraintType index))
      | Some attribute \<Rightarrow>
          (if \<not> isFullyQualifiedAttributeName attribute
           then Inl (unsupportedFailure (InvalidMatchAttribute index attribute))
           else case find (\<lambda>name. name \<notin> validReferences) (dcRequests constraint) of
             Some name \<Rightarrow> Inl (unsupportedFailure (UnknownConstraintRequest index name))
           | None \<Rightarrow>
               (case supportedConstraints validReferences (Suc index) rest of
                  Inl failure \<Rightarrow> Inl failure
                | Inr constraints \<Rightarrow>
                    Inr (\<lparr>attributeName = attribute, requestNames = set (dcRequests constraint)\<rparr>
                         # constraints))))"

definition supportedMatchAttributeConstraints ::
  "'q ResourceClaim \<Rightarrow> allocationFailure + matchAttributeConstraint list" where
  "supportedMatchAttributeConstraints claim =
     supportedConstraints (constraintRequestReferences claim) 0 (claimConstraints claim)"

definition appliesTo :: "matchAttributeConstraint \<Rightarrow> string \<Rightarrow> bool" where
  "appliesTo constraint resultRequest =
     (if requestNames constraint = {} then True
      else if resultRequest \<in> requestNames constraint then True
      else case cutSlash resultRequest of
        None \<Rightarrow> False
      | Some (parent, _) \<Rightarrow> parent \<in> requestNames constraint)"

definition lookupConstraintAttribute :: "'q constrainedDevice \<Rightarrow> string \<Rightarrow> DeviceAttribute option" where
  "lookupConstraintAttribute device name =
     (case map_of (devAttributes (cdDevice device)) name of
        Some attribute \<Rightarrow> Some attribute
      | None \<Rightarrow>
          (case cutSlash name of
             None \<Rightarrow> None
           | Some (domain, identifier) \<Rightarrow>
               (if domain \<noteq> resDriver (cdResult device) then None
                else map_of (devAttributes (cdDevice device)) identifier)))"

text \<open>The value of a scalar attribute; \<open>Inr None\<close> when no field is set. The last field set wins.\<close>

definition scalarConstraintAttribute ::
  "DeviceAttribute \<Rightarrow> allocationFailure + scalarConstraintValue option" where
  "scalarConstraintAttribute attribute =
     (if intValues attribute \<noteq> [] \<or> boolValues attribute \<noteq> [] \<or> stringValues attribute \<noteq> []
        \<or> versionValues attribute \<noteq> []
      then Inl (unsupportedFailure ListAttribute)
      else let setFields =
             (case stringValue attribute of None \<Rightarrow> [] | Some v \<Rightarrow> [ScalarString v]) @
             (case intValue attribute of None \<Rightarrow> [] | Some v \<Rightarrow> [ScalarInt v]) @
             (case boolValue attribute of None \<Rightarrow> [] | Some v \<Rightarrow> [ScalarBool v]) @
             (case versionValue attribute of None \<Rightarrow> [] | Some v \<Rightarrow> [ScalarVersion v])
      in if length setFields > 1 then Inl (unsupportedFailure MultiValuedScalar)
         else case setFields of [] \<Rightarrow> Inr None | v # _ \<Rightarrow> Inr (Some v))"

definition constrainedDeviceAttributeValue ::
  "'q constrainedDevice \<Rightarrow> string \<Rightarrow> allocationFailure + scalarConstraintValue option" where
  "constrainedDeviceAttributeValue device name =
     (case lookupConstraintAttribute device name of
        None \<Rightarrow> Inr None
      | Some attribute \<Rightarrow> scalarConstraintAttribute attribute)"

fun matchConstraintFrom ::
  "matchAttributeConstraint \<Rightarrow> scalarConstraintValue option \<Rightarrow> 'q constrainedDevice list \<Rightarrow>
   allocationFailure + bool" where
  "matchConstraintFrom constraint expected [] = Inr True"
| "matchConstraintFrom constraint expected (device # devices) =
     (if \<not> appliesTo constraint (resRequest (cdResult device))
      then matchConstraintFrom constraint expected devices
      else case constrainedDeviceAttributeValue device (attributeName constraint) of
        Inl failure \<Rightarrow> Inl failure
      | Inr None \<Rightarrow> Inr False
      | Inr (Some v) \<Rightarrow>
          (case expected of
             None \<Rightarrow> matchConstraintFrom constraint (Some v) devices
           | Some e \<Rightarrow> if v \<noteq> e then Inr False else matchConstraintFrom constraint expected devices))"

definition matchConstraintSatisfied ::
  "matchAttributeConstraint \<Rightarrow> 'q constrainedDevice list \<Rightarrow> allocationFailure + bool" where
  "matchConstraintSatisfied constraint devices = matchConstraintFrom constraint None devices"

fun matchConstraintsSatisfied ::
  "matchAttributeConstraint list \<Rightarrow> 'q constrainedDevice list \<Rightarrow> allocationFailure + bool" where
  "matchConstraintsSatisfied [] devices = Inr True"
| "matchConstraintsSatisfied (constraint # constraints) devices =
     (case matchConstraintSatisfied constraint devices of
        Inl failure \<Rightarrow> Inl failure
      | Inr matches \<Rightarrow> if \<not> matches then Inr False else matchConstraintsSatisfied constraints devices)"

section \<open>Candidates\<close>

definition evaluateConstrainedCandidate ::
  "search_context \<Rightarrow> 'q claimPlanner \<Rightarrow> 'q selectionInput \<Rightarrow> 'q ResourceSlice \<Rightarrow> 'q Device \<Rightarrow>
   'q allocationAttemptUsage \<Rightarrow> string set \<Rightarrow> nat \<Rightarrow>
   (allocationFailure + 'q constrainedDevice option) \<times> string set \<times> nat" where
  "evaluateConstrainedCandidate X planner input sl device usage seen uuids =
     (case Matches (plEvaluator planner) (sliceDriver sl) device
             [classSelectors (inDeviceClass input), altSelectors (inAlternative input)] of
        Inl err \<Rightarrow> (Inl (selectorFailure (altRequestName (inAlternative input)) err), seen, uuids)
      | Inr matched \<Rightarrow>
          (if \<not> matched then (Inr None, seen, uuids)
           else case unsupportedSliceFailure sl of
             Some failure \<Rightarrow> (Inl failure, seen, uuids)
           | None \<Rightarrow>
               (case unsupportedDeviceFailure device of
                  Some failure \<Rightarrow> (Inl failure, seen, uuids)
                | None \<Rightarrow>
                    (case buildBacktrackingCandidate (plQuantity planner) (newUUID X) (plCommitted planner)
                            (altRequestName (inAlternative input)) (altCapacity (inAlternative input))
                            sl device usage seen uuids of
                       (Inl failure, rest) \<Rightarrow> (Inl failure, rest)
                     | (Inr None, rest) \<Rightarrow> (Inr None, rest)
                     | (Inr (Some result), rest) \<Rightarrow>
                         (Inr (Some \<lparr>cdResult = result, cdDevice = device\<rparr>), rest)))))"

fun collectConstrainedDevices ::
  "search_context \<Rightarrow> 'q claimPlanner \<Rightarrow> 'q selectionInput \<Rightarrow> 'q ResourceSlice \<Rightarrow>
   'q allocationAttemptUsage \<Rightarrow> 'q Device list \<Rightarrow> 'q constrainedDevice list \<Rightarrow> string set \<Rightarrow> nat \<Rightarrow>
   (allocationFailure + 'q constrainedDevice list) \<times> string set \<times> nat" where
  "collectConstrainedDevices X planner input sl usage [] found seen uuids = (Inr found, seen, uuids)"
| "collectConstrainedDevices X planner input sl usage (device # devices) found seen uuids =
     (case evaluateConstrainedCandidate X planner input sl device usage seen uuids of
        (Inl failure, rest) \<Rightarrow> (Inl failure, rest)
      | (Inr None, seen', uuids') \<Rightarrow>
          collectConstrainedDevices X planner input sl usage devices found seen' uuids'
      | (Inr (Some candidate), seen', uuids') \<Rightarrow>
          collectConstrainedDevices X planner input sl usage devices (found @ [candidate]) seen' uuids')"

definition collectConstrainedSliceDevices ::
  "search_context \<Rightarrow> 'q claimPlanner \<Rightarrow> 'q selectionInput \<Rightarrow> 'q ResourceSlice \<Rightarrow>
   'q allocationAttemptUsage \<Rightarrow> string set \<Rightarrow> nat \<Rightarrow>
   (allocationFailure + 'q constrainedDevice list) \<times> string set \<times> nat" where
  "collectConstrainedSliceDevices X planner input sl usage seen uuids =
     collectConstrainedDevices X planner input sl usage (sliceDevices sl) [] seen uuids"

definition constrainedSliceNode :: "'q ResourceSlice \<Rightarrow> string \<Rightarrow> string option" where
  "constrainedSliceNode sl allocatedNodeName =
     (if \<not> eligibleSimulatorSlice sl then None else compatibleNodeName sl allocatedNodeName)"

fun collectExactFromSlices ::
  "search_context \<Rightarrow> 'q claimPlanner \<Rightarrow> 'q selectionInput \<Rightarrow> 'q allocationAttemptUsage \<Rightarrow>
   'q ResourceSlice list \<Rightarrow> 'q constrainedCandidateSet \<Rightarrow> string set \<Rightarrow> nat \<Rightarrow>
   (allocationFailure + 'q constrainedCandidateSet) \<times> nat" where
  "collectExactFromSlices X planner input usage [] cands seen uuids = (Inr cands, uuids)"
| "collectExactFromSlices X planner input usage (sl # slices) cands seen uuids =
     (case constrainedSliceNode sl (inAllocatedNodeName input) of
        None \<Rightarrow> collectExactFromSlices X planner input usage slices cands seen uuids
      | Some nodeName \<Rightarrow>
          (case collectConstrainedSliceDevices X planner input sl usage seen uuids of
             (Inl failure, _, uuids') \<Rightarrow> (Inl failure, uuids')
           | (Inr devices, seen', uuids') \<Rightarrow>
               (if devices = [] then collectExactFromSlices X planner input usage slices cands seen' uuids'
                else collectExactFromSlices X planner input usage slices
                       \<lparr>ccNodeOrder = (if nodeName \<in> set (ccNodeOrder cands) then ccNodeOrder cands
                                       else ccNodeOrder cands @ [nodeName]),
                        ccByNode = (ccByNode cands)(nodeName := ccByNode cands nodeName @ devices)\<rparr>
                       seen' uuids')))"

definition collectConstrainedExactCandidates ::
  "search_context \<Rightarrow> 'q claimPlanner \<Rightarrow> 'q selectionInput \<Rightarrow> 'q allocationAttemptUsage \<Rightarrow> nat \<Rightarrow>
   (allocationFailure + 'q constrainedCandidateSet) \<times> nat" where
  "collectConstrainedExactCandidates X planner input usage uuids =
     collectExactFromSlices X planner input usage (plSlices planner)
       \<lparr>ccNodeOrder = [], ccByNode = (\<lambda>_. [])\<rparr> {} uuids"

fun collectAllFromSlices ::
  "search_context \<Rightarrow> 'q claimPlanner \<Rightarrow> 'q selectionInput \<Rightarrow> 'q allocationAttemptUsage \<Rightarrow>
   'q ResourceSlice list \<Rightarrow> 'q constrainedDevice list \<Rightarrow> string set \<Rightarrow> nat \<Rightarrow>
   (allocationFailure + 'q constrainedDevice list) \<times> nat" where
  "collectAllFromSlices X planner input usage [] devices seen uuids = (Inr devices, uuids)"
| "collectAllFromSlices X planner input usage (sl # slices) devices seen uuids =
     (if unhealthySlice sl then collectAllFromSlices X planner input usage slices devices seen uuids
      else case collectConstrainedSliceDevices X planner input sl usage seen uuids of
        (Inl failure, _, uuids') \<Rightarrow> (Inl failure, uuids')
      | (Inr found, seen', uuids') \<Rightarrow>
          collectAllFromSlices X planner input usage slices (devices @ found) seen' uuids')"

definition collectConstrainedAllDevicesForNode ::
  "search_context \<Rightarrow> 'q claimPlanner \<Rightarrow> 'q selectionInput \<Rightarrow> 'q allocationAttemptUsage \<Rightarrow>
   'q ResourceSlice list \<Rightarrow> nat \<Rightarrow> (allocationFailure + 'q constrainedDevice list) \<times> nat" where
  "collectConstrainedAllDevicesForNode X planner input usage slices uuids =
     (case completeCurrentPoolSlices slices of
        Inl failure \<Rightarrow> (Inl failure, uuids)
      | Inr current \<Rightarrow> collectAllFromSlices X planner input usage current [] {} uuids)"

section \<open>Enumeration\<close>

type_synonym ('sel, 'a) yield_fun = "'sel \<Rightarrow> 'a \<times> search_env \<Rightarrow> bool \<times> 'a \<times> search_env"
type_synonym 'a iteration = "(allocationFailure + bool) \<times> 'a \<times> search_env"

text \<open>
  \<^verbatim>\<open>forEachDeviceCombination\<close>: \<open>visitCombination\<close> is the closure \<^verbatim>\<open>visit(start)\<close> with the candidates from
  \<^verbatim>\<open>start\<close> on, \<open>combinationLoop\<close> its loop. The loop goes on while at least \<^verbatim>\<open>remaining\<close> candidates are left.
\<close>

fun visitCombination ::
  "search_context \<Rightarrow> int \<Rightarrow> ('c list, 'a) yield_fun \<Rightarrow> 'c list \<Rightarrow> 'c list \<Rightarrow> 'a \<times> search_env \<Rightarrow> 'a iteration"
and combinationLoop ::
  "search_context \<Rightarrow> int \<Rightarrow> ('c list, 'a) yield_fun \<Rightarrow> 'c list \<Rightarrow> 'c list \<Rightarrow> 'a \<times> search_env \<Rightarrow> 'a iteration"
where
  "visitCombination X cnt yield candidates selected (acc, env) =
     (case pollContext X env of
        (Some err, env') \<Rightarrow> (Inl (unsupportedFailure (SearchCanceled err)), acc, env')
      | (None, env') \<Rightarrow>
          (if int (length selected) = cnt
           then (case yield selected (acc, env') of (stopped, st) \<Rightarrow> (Inr stopped, st))
           else combinationLoop X cnt yield candidates selected (acc, env')))"
| "combinationLoop X cnt yield [] selected st = (Inr False, st)"
| "combinationLoop X cnt yield (c # candidates) selected st =
     (if int (length (c # candidates)) < cnt - int (length selected) then (Inr False, st)
      else case visitCombination X cnt yield candidates (selected @ [c]) st of
        (Inl failure, st') \<Rightarrow> (Inl failure, st')
      | (Inr stopped, st') \<Rightarrow>
          (if stopped then (Inr True, st')
           else combinationLoop X cnt yield candidates selected st'))"

definition forEachDeviceCombination ::
  "search_context \<Rightarrow> 'c list \<Rightarrow> int \<Rightarrow> ('c list, 'a) yield_fun \<Rightarrow> 'a \<times> search_env \<Rightarrow> 'a iteration" where
  "forEachDeviceCombination X candidates cnt yield st = visitCombination X cnt yield candidates [] st"

fun exactFromNodes ::
  "search_context \<Rightarrow> int \<Rightarrow> (string \<Rightarrow> 'q constrainedDevice list) \<Rightarrow> string list \<Rightarrow>
   ('q constrainedSelection, 'a) yield_fun \<Rightarrow> 'a \<times> search_env \<Rightarrow> 'a iteration" where
  "exactFromNodes X cnt byNode [] yield st = (Inr False, st)"
| "exactFromNodes X cnt byNode (nodeName # nodes) yield st =
     (let devices = byNode nodeName
      in if int (length devices) < cnt then exactFromNodes X cnt byNode nodes yield st
         else case forEachDeviceCombination X devices cnt
                     (\<lambda>selected. yield \<lparr>csDevices = selected, csNodeName = nodeName\<rparr>) st of
           (Inl failure, st') \<Rightarrow> (Inl failure, st')
         | (Inr stopped, st') \<Rightarrow>
             (if stopped then (Inr True, st') else exactFromNodes X cnt byNode nodes yield st'))"

definition forEachConstrainedExactSelection ::
  "search_context \<Rightarrow> 'q claimPlanner \<Rightarrow> 'q selectionInput \<Rightarrow> 'q allocationAttemptUsage \<Rightarrow>
   ('q constrainedSelection, 'a) yield_fun \<Rightarrow> 'a \<times> search_env \<Rightarrow> 'a iteration" where
  "forEachConstrainedExactSelection X planner input usage yield st =
     (case st of (acc, env) \<Rightarrow>
      case collectConstrainedExactCandidates X planner input usage (envUUIDs env) of
        (Inl failure, uuids) \<Rightarrow> (Inl failure, acc, env\<lparr>envUUIDs := uuids\<rparr>)
      | (Inr cands, uuids) \<Rightarrow>
          exactFromNodes X (altCount (inAlternative input)) (ccByNode cands) (ccNodeOrder cands) yield
            (acc, env\<lparr>envUUIDs := uuids\<rparr>))"

text \<open>The result of \<^verbatim>\<open>forEachConstrainedAllSelection\<close> is \<^verbatim>\<open>(stopped, resultLimitExceeded, failure)\<close>.\<close>

definition constrainedAllIterationResult ::
  "bool \<Rightarrow> allocationFailure option \<Rightarrow> allocationFailure + bool \<times> bool" where
  "constrainedAllIterationResult resultLimitExceeded deferredFailure =
     (case deferredFailure of
        Some failure \<Rightarrow> if \<not> resultLimitExceeded then Inl failure else Inr (False, resultLimitExceeded)
      | None \<Rightarrow> Inr (False, resultLimitExceeded))"

fun allFromNodes ::
  "search_context \<Rightarrow> 'q claimPlanner \<Rightarrow> 'q selectionInput \<Rightarrow> 'q allocationAttemptUsage \<Rightarrow>
   (string \<Rightarrow> 'q ResourceSlice list) \<Rightarrow> string list \<Rightarrow> allocationFailure option \<Rightarrow> bool \<Rightarrow>
   ('q constrainedSelection, 'a) yield_fun \<Rightarrow> 'a \<times> search_env \<Rightarrow>
   (allocationFailure + bool \<times> bool) \<times> 'a \<times> search_env" where
  "allFromNodes X planner input usage slicesByNode [] deferred limit yield st =
     (constrainedAllIterationResult limit deferred, st)"
| "allFromNodes X planner input usage slicesByNode (nodeName # nodes) deferred limit yield (acc, env) =
     (case collectConstrainedAllDevicesForNode X planner input usage (slicesByNode nodeName) (envUUIDs env) of
        (Inl failure, uuids) \<Rightarrow>
          allFromNodes X planner input usage slicesByNode nodes (Some failure) limit yield
            (acc, env\<lparr>envUUIDs := uuids\<rparr>)
      | (Inr devices, uuids) \<Rightarrow>
          (if devices = []
           then allFromNodes X planner input usage slicesByNode nodes deferred limit yield
                  (acc, env\<lparr>envUUIDs := uuids\<rparr>)
           else if int (length devices) > inMaxResults input
           then allFromNodes X planner input usage slicesByNode nodes deferred True yield
                  (acc, env\<lparr>envUUIDs := uuids\<rparr>)
           else case yield \<lparr>csDevices = devices, csNodeName = nodeName\<rparr> (acc, env\<lparr>envUUIDs := uuids\<rparr>) of
             (stopped, st') \<Rightarrow>
               (if stopped then (Inr (True, limit), st')
                else allFromNodes X planner input usage slicesByNode nodes deferred limit yield st')))"

definition forEachConstrainedAllSelection ::
  "search_context \<Rightarrow> 'q claimPlanner \<Rightarrow> 'q selectionInput \<Rightarrow> 'q allocationAttemptUsage \<Rightarrow>
   ('q constrainedSelection, 'a) yield_fun \<Rightarrow> 'a \<times> search_env \<Rightarrow>
   (allocationFailure + bool \<times> bool) \<times> 'a \<times> search_env" where
  "forEachConstrainedAllSelection X planner input usage yield st =
     (case managedSlicesByNode planner (inAllocatedNodeName input) of
        (nodeOrder, slicesByNode) \<Rightarrow>
          allFromNodes X planner input usage slicesByNode nodeOrder None False yield st)"

record constrainedAlternativeOutcome =
  missingClass :: string
  resultLimitExceeded :: bool

definition forEachConstrainedAlternative ::
  "search_context \<Rightarrow> 'q claimPlanner \<Rightarrow> 'q requestAlternative \<Rightarrow> string \<Rightarrow> int \<Rightarrow>
   'q allocationAttemptUsage \<Rightarrow> ('q constrainedSelection, 'a) yield_fun \<Rightarrow> 'a \<times> search_env \<Rightarrow>
   (allocationFailure + bool \<times> constrainedAlternativeOutcome) \<times> 'a \<times> search_env" where
  "forEachConstrainedAlternative X planner alternative allocatedNodeName maxResults usage yield st =
     (case plClasses planner (altDeviceClassName alternative) of
        None \<Rightarrow> (Inr (False, \<lparr>missingClass = altDeviceClassName alternative, resultLimitExceeded = False\<rparr>), st)
      | Some deviceClass \<Rightarrow>
          (if altMode alternative = ModeExactCount \<and> altCount alternative > maxResults
           then (Inr (False, \<lparr>missingClass = '''', resultLimitExceeded = True\<rparr>), st)
           else let input = \<lparr>inAlternative = alternative, inDeviceClass = deviceClass,
                             inAllocatedNodeName = allocatedNodeName, inMaxResults = maxResults\<rparr>
           in if altMode alternative = ModeAll
              then (case forEachConstrainedAllSelection X planner input usage yield st of
                      (Inl failure, st') \<Rightarrow> (Inl failure, st')
                    | (Inr (stopped, limitExceeded), st') \<Rightarrow>
                        (Inr (stopped, \<lparr>missingClass = '''', resultLimitExceeded = limitExceeded\<rparr>), st'))
              else (case forEachConstrainedExactSelection X planner input usage yield st of
                      (Inl failure, st') \<Rightarrow> (Inl failure, st')
                    | (Inr stopped, st') \<Rightarrow>
                        (Inr (stopped, \<lparr>missingClass = '''', resultLimitExceeded = False\<rparr>), st'))))"

definition constrainedRequestIterationFailure ::
  "string \<Rightarrow> nat \<Rightarrow> string list \<Rightarrow> bool \<Rightarrow> int \<Rightarrow> allocationFailure option" where
  "constrainedRequestIterationFailure requestName alternativeCount missingClasses limitExceeded maxResults =
     (if length missingClasses = alternativeCount \<and> missingClasses \<noteq> []
      then Some \<lparr>failReason = DeviceClassNotFound, failMessage = UnavailableClasses requestName missingClasses\<rparr>
      else if limitExceeded \<and> alternativeCount = 1
      then Some (unsupportedFailure (ResultBudget requestName maxResults))
      else None)"

text \<open>The loop of \<^verbatim>\<open>forEachConstrainedRequestSelection\<close> over the alternatives.\<close>

fun fromAlternatives ::
  "search_context \<Rightarrow> 'q claimPlanner \<Rightarrow> string \<Rightarrow> nat \<Rightarrow> string \<Rightarrow> int \<Rightarrow> 'q allocationAttemptUsage \<Rightarrow>
   'q requestAlternative list \<Rightarrow> string list \<Rightarrow> bool \<Rightarrow> ('q constrainedSelection, 'a) yield_fun \<Rightarrow>
   'a \<times> search_env \<Rightarrow> 'a iteration" where
  "fromAlternatives X planner requestName n allocatedNodeName maxResults usage [] missing limit yield st =
     (case constrainedRequestIterationFailure requestName n missing limit maxResults of
        Some failure \<Rightarrow> (Inl failure, st)
      | None \<Rightarrow> (Inr False, st))"
| "fromAlternatives X planner requestName n allocatedNodeName maxResults usage (alternative # rest) missing limit yield st =
     (case forEachConstrainedAlternative X planner alternative allocatedNodeName maxResults usage yield st of
        (Inl failure, st') \<Rightarrow> (Inl failure, st')
      | (Inr (stopped, outc), st') \<Rightarrow>
          (if stopped then (Inr True, st')
           else fromAlternatives X planner requestName n allocatedNodeName maxResults usage rest
                  (if missingClass outc \<noteq> '''' then missing @ [missingClass outc] else missing)
                  (limit \<or> resultLimitExceeded outc) yield st'))"

definition forEachConstrainedRequestSelection ::
  "search_context \<Rightarrow> 'q claimPlanner \<Rightarrow> 'q DeviceRequest \<Rightarrow> string \<Rightarrow> int \<Rightarrow> 'q allocationAttemptUsage \<Rightarrow>
   ('q constrainedSelection, 'a) yield_fun \<Rightarrow> 'a \<times> search_env \<Rightarrow> 'a iteration" where
  "forEachConstrainedRequestSelection X planner request allocatedNodeName maxResults usage yield st =
     (case supportedAlternatives (plQuantity planner) request of
        Inl failure \<Rightarrow> (Inl failure, st)
      | Inr alternatives \<Rightarrow>
          fromAlternatives X planner (drName request) (length alternatives) allocatedNodeName maxResults
            usage alternatives [] False yield st)"

section \<open>Search\<close>

definition withSelection ::
  "'q quantity_api \<Rightarrow> 'q constrainedSelection \<Rightarrow> 'q constrainedSearchState \<Rightarrow> 'q constrainedSearchState" where
  "withSelection Q selection state =
     \<lparr>ssDevices = ssDevices state @ csDevices selection,
      ssNodeName = (if ssNodeName state = '''' then csNodeName selection else ssNodeName state),
      ssUsage = fold (reserve Q) (map cdResult (csDevices selection)) (ssUsage state)\<rparr>"

definition statePlan :: "'q constrainedSearchState \<Rightarrow> 'q allocationPlan" where
  "statePlan state = \<lparr>planResults = map cdResult (ssDevices state), planNodeName = ssNodeName state\<rparr>"

text \<open>
  \<^verbatim>\<open>searchConstrainedRequests\<close> recurses on the requests that are left. The closure it passes down is
  \<open>searchYield\<close>, with the recursive call as its argument \<open>search\<close>.
\<close>

definition searchYield ::
  "'q quantity_api \<Rightarrow> matchAttributeConstraint list \<Rightarrow> 'q constrainedSearchState \<Rightarrow>
   ('q constrainedSearchState \<Rightarrow> search_env \<Rightarrow> (allocationFailure + 'q allocationPlan option) \<times> search_env) \<Rightarrow>
   ('q constrainedSelection, 'q searchOutcome) yield_fun" where
  "searchYield Q constraints state search selection st =
     (case st of (out, env) \<Rightarrow>
      case consume (envBudget env) of
        Inl failure \<Rightarrow> (True, out\<lparr>outFailure := Some failure\<rparr>, env)
      | Inr budget \<Rightarrow>
          (let env1 = env\<lparr>envBudget := budget\<rparr>;
               nextState = withSelection Q selection state
           in case matchConstraintsSatisfied constraints (ssDevices nextState) of
                Inl failure \<Rightarrow> (True, out\<lparr>outFailure := Some failure\<rparr>, env1)
              | Inr matches \<Rightarrow>
                  (if \<not> matches then (False, out, env1)
                   else case search nextState env1 of
                     (Inl failure, env2) \<Rightarrow> (True, out\<lparr>outFailure := Some failure\<rparr>, env2)
                   | (Inr None, env2) \<Rightarrow> (False, out, env2)
                   | (Inr (Some plan), env2) \<Rightarrow> (True, out\<lparr>outSolution := Some plan\<rparr>, env2))))"

fun searchConstrainedRequests ::
  "search_context \<Rightarrow> 'q claimPlanner \<Rightarrow> matchAttributeConstraint list \<Rightarrow> 'q DeviceRequest list \<Rightarrow>
   'q constrainedSearchState \<Rightarrow> search_env \<Rightarrow>
   (allocationFailure + 'q allocationPlan option) \<times> search_env" where
  "searchConstrainedRequests X planner constraints requests state env =
     (case pollContext X env of
        (Some err, env') \<Rightarrow> (Inl (unsupportedFailure (SearchCanceled err)), env')
      | (None, env') \<Rightarrow>
          (case requests of
             [] \<Rightarrow> (Inr (Some (statePlan state)), env')
           | request # rest \<Rightarrow>
               (case forEachConstrainedRequestSelection X planner request (ssNodeName state)
                       (AllocationResultsMaxSize - int (length (ssDevices state))) (ssUsage state)
                       (searchYield (plQuantity planner) constraints state
                          (\<lambda>nextState env1. searchConstrainedRequests X planner constraints rest nextState env1))
                       (\<lparr>outSolution = None, outFailure = None\<rparr>, env') of
                  (Inl failure, _, env2) \<Rightarrow> (Inl failure, env2)
                | (Inr _, out, env2) \<Rightarrow>
                    (case outFailure out of
                       Some failure \<Rightarrow> (Inl failure, env2)
                     | None \<Rightarrow> (Inr (outSolution out), env2)))))"

definition planConstrainedClaimAllocation ::
  "search_context \<Rightarrow> nat \<Rightarrow> nat \<Rightarrow> 'q claimPlanner \<Rightarrow> 'q ResourceClaim \<Rightarrow> matchAttributeConstraint list \<Rightarrow>
   (allocationFailure + 'q allocationPlan) \<times> search_env" where
  "planConstrainedClaimAllocation X uuids polls planner claim constraints =
     (case searchConstrainedRequests X planner constraints (claimRequests claim)
             \<lparr>ssDevices = [], ssNodeName = '''', ssUsage = newAllocationAttemptUsage\<rparr>
             \<lparr>envBudget = newConstraintSearchBudget maxConstraintSearchBranches, envUUIDs = uuids, envPolls = polls\<rparr> of
        (Inl failure, env) \<Rightarrow> (Inl failure, env)
      | (Inr None, env) \<Rightarrow>
          (Inl \<lparr>failReason = NoMatch, failMessage = ClaimUnsatisfied (claimName claim) (constraints \<noteq> [])\<rparr>, env)
      | (Inr (Some plan), env) \<Rightarrow> (Inr plan, env))"

declare searchConstrainedRequests.simps [simp del]

section \<open>Enumerators\<close>

text \<open>
  The contract between an enumerator and the closure it calls: apart from drawing UUIDs and asking the
  context, the enumerator changes the state only through \<open>yield\<close>, and it calls \<open>yield\<close> only on selections
  it may offer. So an invariant that the enumerator's own steps and the closure keep holds at the end.
\<close>

definition envStep :: "search_env \<Rightarrow> search_env \<Rightarrow> bool" where
  "envStep env env' \<longleftrightarrow> envBudget env' = envBudget env \<and> envUUIDs env \<le> envUUIDs env' \<and> envPolls env \<le> envPolls env'"

definition stableInv :: "('a \<times> search_env \<Rightarrow> bool) \<Rightarrow> bool" where
  "stableInv I \<longleftrightarrow> (\<forall>acc env env'. I (acc, env) \<longrightarrow> envStep env env' \<longrightarrow> I (acc, env'))"

definition yieldKeeps ::
  "('a \<times> search_env \<Rightarrow> bool) \<Rightarrow> ('sel \<Rightarrow> search_env \<Rightarrow> bool) \<Rightarrow> ('sel, 'a) yield_fun \<Rightarrow> bool" where
  "yieldKeeps I offered yield \<longleftrightarrow>
     (\<forall>sel st. I st \<longrightarrow> offered sel (snd st) \<longrightarrow>
        I (snd (yield sel st)) \<and> envUUIDs (snd st) \<le> envUUIDs (snd (snd (yield sel st))))"

locale enumerator =
  fixes iter :: "('sel, 'a) yield_fun \<Rightarrow> 'a \<times> search_env \<Rightarrow> 'r \<times> 'a \<times> search_env"
    and offered :: "nat \<Rightarrow> 'sel \<Rightarrow> search_env \<Rightarrow> bool"
  assumes keeps: "stableInv I \<Longrightarrow> yieldKeeps I (offered (envUUIDs (snd st))) yield \<Longrightarrow> I st \<Longrightarrow>
    I (snd (iter yield st))"
begin

lemma uuids_mono:
  assumes "yieldKeeps (\<lambda>_. True) (offered (envUUIDs (snd st))) yield"
  shows "envUUIDs (snd st) \<le> envUUIDs (snd (snd (iter yield st)))"
proof -
  let ?I = "\<lambda>s :: 'a \<times> search_env. envUUIDs (snd st) \<le> envUUIDs (snd s)"
  have "stableInv ?I" by (auto simp: stableInv_def envStep_def)
  moreover have "yieldKeeps ?I (offered (envUUIDs (snd st))) yield"
    using assms unfolding yieldKeeps_def by (meson order_trans)
  ultimately show ?thesis by (rule keeps) simp
qed

lemma weaken:
  assumes "\<And>u sel env. offered u sel env \<Longrightarrow> offered' u sel env"
  shows "enumerator iter offered'"
proof (rule enumerator.intro)
  fix I and st :: "'a \<times> search_env" and yield :: "('sel, 'a) yield_fun"
  assume st: "stableInv I" "yieldKeeps I (offered' (envUUIDs (snd st))) yield" "I st"
  have "yieldKeeps I (offered (envUUIDs (snd st))) yield"
    using st(2) assms unfolding yieldKeeps_def by blast
  from keeps [OF st(1) this st(3)] show "I (snd (iter yield st))" .
qed

end

lemma envStep_refl [simp]: "envStep env env"
  by (simp add: envStep_def)

lemma envStep_poll [simp]: "envStep env (env\<lparr>envPolls := Suc (envPolls env)\<rparr>)"
  by (simp add: envStep_def)

lemma envStep_uuids [simp]: "envStep env (env\<lparr>envUUIDs := n\<rparr>) \<longleftrightarrow> envUUIDs env \<le> n"
  by (simp add: envStep_def)

lemma stableInvD: "stableInv I \<Longrightarrow> I (acc, env) \<Longrightarrow> envStep env env' \<Longrightarrow> I (acc, env')"
  by (simp add: stableInv_def)

lemma pollContext_eq [simp]:
  "pollContext X env = (ctxErr X (envPolls env), env\<lparr>envPolls := Suc (envPolls env)\<rparr>)"
  by (simp add: pollContext_def)

text \<open>Combinations: every list offered has the requested length and keeps the order of the candidates.\<close>

lemma visitCombination_keeps:
  assumes "stableInv I"
  shows "yieldKeeps I (\<lambda>sel _. int (length sel) = cnt \<and> (\<exists>s. sel = selected @ s \<and> subseq s candidates)) yield \<Longrightarrow>
      I st \<Longrightarrow> I (snd (visitCombination X cnt yield candidates selected st))"
    and "yieldKeeps I (\<lambda>sel _. int (length sel) = cnt \<and> (\<exists>s. sel = selected @ s \<and> subseq s candidates)) yield \<Longrightarrow>
      I st \<Longrightarrow> I (snd (combinationLoop X cnt yield candidates selected st))"
proof (induction X cnt yield candidates selected st and X cnt yield candidates selected st
    rule: visitCombination_combinationLoop.induct)
  case (1 X cnt yield candidates selected acc env)
  let ?env = "env\<lparr>envPolls := Suc (envPolls env)\<rparr>"
  have inv: "I (acc, ?env)" using stableInvD [OF assms 1(3)] by simp
  have poll: "pollContext X env = (ctxErr X (envPolls env), ?env)" by simp
  show ?case
  proof (cases "ctxErr X (envPolls env)")
    case (Some err)
    then show ?thesis using inv by simp
  next
    case None
    show ?thesis
    proof (cases "int (length selected) = cnt")
      case True
      moreover have "\<exists>s. selected = selected @ s \<and> subseq s candidates" by (intro exI [of _ "[]"]) simp
      ultimately have "I (snd (yield selected (acc, ?env)))" using 1(2) inv unfolding yieldKeeps_def by blast
      then show ?thesis using True None by (auto split: prod.splits)
    next
      case False
      then show ?thesis using 1(1) [OF poll [unfolded None, symmetric] refl False 1(2) inv] None by simp
    qed
  qed
next
  case (3 X cnt yield c candidates selected st)
  have sub: "yieldKeeps I (\<lambda>sel _. int (length sel) = cnt \<and> (\<exists>s. sel = (selected @ [c]) @ s \<and> subseq s candidates)) yield"
    using 3(3) unfolding yieldKeeps_def by (metis append.assoc append_Cons append_Nil subseq_Cons2)
  have rest: "yieldKeeps I (\<lambda>sel _. int (length sel) = cnt \<and> (\<exists>s. sel = selected @ s \<and> subseq s candidates)) yield"
    using 3(3) unfolding yieldKeeps_def by (metis list_emb_Cons)
  show ?case
  proof (cases "int (length (c # candidates)) < cnt - int (length selected)")
    case True
    then show ?thesis using 3(4) by simp
  next
    case False
    obtain res st' where visit: "visitCombination X cnt yield candidates (selected @ [c]) st = (res, st')"
      by (rule prod.exhaust)
    have inv: "I st'" using 3(1) [OF False sub 3(4)] visit by simp
    then show ?thesis using 3(2) [OF False visit [symmetric] _ _ rest] False visit
      by (cases res) auto
  qed
qed simp

interpretation combinations: enumerator "forEachDeviceCombination X candidates cnt"
  "\<lambda>_ selected _. int (length selected) = cnt \<and> subseq selected candidates"
  for X :: search_context and candidates :: "'c list" and cnt :: int
proof
  fix I :: "'b \<times> search_env \<Rightarrow> bool" and st yield
  assume "stableInv I" "yieldKeeps I (\<lambda>selected _. int (length selected) = cnt \<and> subseq selected candidates) yield" "I st"
  then show "I (snd (forEachDeviceCombination X candidates cnt yield st))"
    unfolding forEachDeviceCombination_def by (simp add: visitCombination_keeps(1) [of I])
qed

lemma subseq_set: "subseq xs ys \<Longrightarrow> set xs \<subseteq> set ys"
  by (induction rule: list_emb.induct) auto

lemma subseq_distinct_list: "subseq xs ys \<Longrightarrow> distinct ys \<Longrightarrow> distinct xs"
  by (induction rule: list_emb.induct) (auto dest: subseq_set)

text \<open>What an exact-count enumeration offers from candidates grouped by node.\<close>

definition offersFromNodes ::
  "int \<Rightarrow> (string \<Rightarrow> 'q constrainedDevice list) \<Rightarrow> 'q constrainedSelection \<Rightarrow> bool" where
  "offersFromNodes cnt byNode selection \<longleftrightarrow>
     int (length (csDevices selection)) = cnt \<and> subseq (csDevices selection) (byNode (csNodeName selection))"

lemma exactFromNodes_keeps:
  assumes "stableInv I" and "yieldKeeps I (\<lambda>sel _. offersFromNodes cnt byNode sel) yield" and "I st"
  shows "I (snd (exactFromNodes X cnt byNode nodes yield st))"
  using assms(3)
proof (induction nodes arbitrary: st)
  case (Cons nodeName nodes)
  let ?yield = "\<lambda>selected. yield \<lparr>csDevices = selected, csNodeName = nodeName\<rparr>"
  have "yieldKeeps I (\<lambda>selected _. int (length selected) = cnt \<and> subseq selected (byNode nodeName)) ?yield"
    using assms(2) unfolding yieldKeeps_def offersFromNodes_def by simp
  from combinations.keeps [OF assms(1), of cnt "byNode nodeName" ?yield st X] this Cons.prems
  have "I (snd (forEachDeviceCombination X (byNode nodeName) cnt ?yield st))" by blast
  then show ?case
    using Cons by (cases "forEachDeviceCombination X (byNode nodeName) cnt ?yield st")
      (auto simp: Let_def split: sum.splits)
qed simp

subsection \<open>Candidates\<close>

text \<open>
  A candidate that fits beside given results: it comes from an eligible slice of the node, satisfies the
  selectors, is admissible, and a share ID is one of the UUIDs drawn from the \<open>u\<close>-th to before the \<open>v\<close>-th.
\<close>

definition offersDevice ::
  "search_context \<Rightarrow> 'q claimPlanner \<Rightarrow> ('q \<Rightarrow> rat) \<Rightarrow> 'q DeviceRequestAllocationResult list \<Rightarrow>
   'q requestAlternative \<Rightarrow> DeviceClass \<Rightarrow> nat \<Rightarrow> nat \<Rightarrow> 'q ResourceSlice \<Rightarrow> 'q constrainedDevice \<Rightarrow> bool" where
  "offersDevice X planner den others alternative deviceClass u v sl cd \<longleftrightarrow>
     cdDevice cd \<in> set (sliceDevices sl) \<and>
     (\<forall>sel \<in> set (classSelectors deviceClass @ altSelectors alternative).
        selectorHolds (plEvaluator planner) (celInput (sliceDriver sl) (cdDevice cd)) sel) \<and>
     unsupportedSliceFailure sl = None \<and> unsupportedDeviceFailure (cdDevice cd) = None \<and>
     resRequest (cdResult cd) = altRequestName alternative \<and>
     resultAt sl (cdDevice cd) (cdResult cd) \<and>
     admissibleResult den (cdDevice cd) others (cdResult cd) \<and>
     capacityServed den (altCapacity alternative) (cdDevice cd) (cdResult cd) \<and>
     (case resShareID (cdResult cd) of None \<Rightarrow> True
      | Some shareID \<Rightarrow> \<exists>k \<in> {u..<v}. shareID = newUUID X k)"

lemma offersDevice_mono:
  "offersDevice X planner den others alt cls u v sl cd \<Longrightarrow> u' \<le> u \<Longrightarrow> v \<le> v' \<Longrightarrow>
     offersDevice X planner den others alt cls u' v' sl cd"
  unfolding offersDevice_def by (auto split: option.splits)

definition capacitiesWf :: "'q ResourceSlice list \<Rightarrow> bool" where
  "capacitiesWf slices \<longleftrightarrow> (\<forall>sl \<in> set slices. \<forall>device \<in> set (sliceDevices sl). gomap_wf (devCapacity device))"

context quantity
begin

lemma evaluateConstrainedCandidate_sound:
  assumes "describesUsage Q den committed (plCommitted planner)" and "describesAttempt Q den reserved usage"
    and "plQuantity planner = Q" and "gomap_wf (devCapacity device)" and "device \<in> set (sliceDevices sl)"
    and "evaluateConstrainedCandidate X planner input sl device usage seen uuids = (res, seen', uuids')"
  shows "uuids \<le> uuids' \<and>
    (res = Inr None \<longrightarrow> seen' = seen) \<and>
    (\<forall>cd. res = Inr (Some cd) \<longrightarrow> deviceKey sl device \<notin> seen \<and> seen' = insert (deviceKey sl device) seen \<and>
       cdDevice cd = device \<and>
       offersDevice X planner den (committed @ reserved) (inAlternative input) (inDeviceClass input)
         uuids uuids' sl cd)"
proof -
  let ?build = "buildBacktrackingCandidate Q (newUUID X) (plCommitted planner)
    (altRequestName (inAlternative input)) (altCapacity (inAlternative input)) sl device usage seen uuids"
  consider (skip) "seen' = seen" "uuids' = uuids" "\<And>cd. res \<noteq> Inr (Some cd)"
    | (build) "Matches (plEvaluator planner) (sliceDriver sl) device
          [classSelectors (inDeviceClass input), altSelectors (inAlternative input)] = Inr True"
        "unsupportedSliceFailure sl = None" "unsupportedDeviceFailure device = None"
        "?build = (map_sum id (map_option cdResult) res, seen', uuids')"
        "\<And>cd. res = Inr (Some cd) \<Longrightarrow> cdDevice cd = device"
    using assms(3,6) unfolding evaluateConstrainedCandidate_def
    by (auto split: sum.splits if_splits option.splits prod.splits)
  then show ?thesis
  proof cases
    case build
    have uuids: "uuids \<le> uuids'" by (rule buildBacktrackingCandidate_uuids [OF build(4)])
    have "seen' = seen" if "res = Inr None"
      using build(4) that buildBacktrackingCandidate_None by fastforce
    moreover have "deviceKey sl device \<notin> seen \<and> seen' = insert (deviceKey sl device) seen \<and> cdDevice cd = device \<and>
       offersDevice X planner den (committed @ reserved) (inAlternative input) (inDeviceClass input)
         uuids uuids' sl cd" if cd: "res = Inr (Some cd)" for cd
    proof -
      have run: "?build = (Inr (Some (cdResult cd)), seen', uuids')" using build(4) cd by simp
      note sound = buildBacktrackingCandidate_sound [OF assms(1,2,4) run]
      have "\<forall>sel \<in> set (classSelectors (inDeviceClass input) @ altSelectors (inAlternative input)).
          selectorHolds (plEvaluator planner) (celInput (sliceDriver sl) device) sel"
        using build(1) by (auto simp: Matches_True_iff)
      then show ?thesis using sound build(2,3) build(5) [OF cd] assms(5)
        by (auto simp: offersDevice_def split: if_splits)
    qed
    ultimately show ?thesis using uuids by blast
  qed simp
qed

end

abbreviation cdKey :: "'q constrainedDevice \<Rightarrow> string" where
  "cdKey cd \<equiv> resultKey (cdResult cd)"

text \<open>
  What the candidate loops collect: new devices, each offered, with keys that differ from each other and
  from the keys seen before.
\<close>

definition collects ::
  "('q constrainedDevice \<Rightarrow> bool) \<Rightarrow> string set \<Rightarrow> 'q constrainedDevice list \<Rightarrow> string set \<Rightarrow> bool" where
  "collects P seen new seen' \<longleftrightarrow>
     (\<forall>cd \<in> set new. P cd) \<and> distinct (map cdKey new) \<and> cdKey ` set new \<inter> seen = {} \<and>
     seen' = seen \<union> cdKey ` set new"

lemma collects_Nil [simp]: "collects P seen [] seen' \<longleftrightarrow> seen' = seen"
  by (auto simp: collects_def)

lemma collects_append:
  "collects P seen xs seen1 \<Longrightarrow> collects P seen1 ys seen2 \<Longrightarrow> collects P seen (xs @ ys) seen2"
  unfolding collects_def by (auto simp: disjoint_iff)

lemma collects_mono:
  "collects P seen xs seen' \<Longrightarrow> (\<And>cd. P cd \<Longrightarrow> P' cd) \<Longrightarrow> collects P' seen xs seen'"
  by (auto simp: collects_def)

lemma collects_offers_mono:
  assumes "collects (offersDevice X planner den others alt cls u1 v1 sl) seen new seen'"
    and "u \<le> u1" and "v1 \<le> v"
  shows "collects (offersDevice X planner den others alt cls u v sl) seen new seen'"
  using assms(1) by (rule collects_mono) (erule offersDevice_mono [OF _ assms(2,3)])

definition plannerFor ::
  "'q quantity_api \<Rightarrow> ('q \<Rightarrow> rat) \<Rightarrow> 'q claimPlanner \<Rightarrow> 'q DeviceRequestAllocationResult list \<Rightarrow> bool" where
  "plannerFor Q den planner committed \<longleftrightarrow>
     plQuantity planner = Q \<and> describesUsage Q den committed (plCommitted planner) \<and>
     capacitiesWf (plSlices planner)"

context quantity
begin

lemma collectConstrainedDevices_sound:
  assumes "plannerFor Q den planner committed" and "describesAttempt Q den reserved usage"
    and "sl \<in> set (plSlices planner)" and "set devices \<subseteq> set (sliceDevices sl)"
    and "collectConstrainedDevices X planner input sl usage devices found seen uuids = (res, seen', uuids')"
  shows "uuids \<le> uuids' \<and> (\<forall>found'. res = Inr found' \<longrightarrow> (\<exists>new. found' = found @ new \<and>
    collects (offersDevice X planner den (committed @ reserved) (inAlternative input) (inDeviceClass input)
      uuids uuids' sl) seen new seen'))"
  using assms(4,5)
proof (induction devices arbitrary: found seen uuids)
  case (Cons device devices)
  let ?P = "\<lambda>u v. offersDevice X planner den (committed @ reserved) (inAlternative input) (inDeviceClass input) u v sl"
  obtain r seen1 uuids1 where
    run: "evaluateConstrainedCandidate X planner input sl device usage seen uuids = (r, seen1, uuids1)"
    by (rule prod_cases3)
  have wf: "gomap_wf (devCapacity device)"
    using assms(1,3) Cons.prems(1) by (auto simp: plannerFor_def capacitiesWf_def)
  have dev: "device \<in> set (sliceDevices sl)" "set devices \<subseteq> set (sliceDevices sl)" using Cons.prems(1) by auto
  have "describesUsage Q den committed (plCommitted planner)" "plQuantity planner = Q"
    using assms(1) by (simp_all add: plannerFor_def)
  note step = evaluateConstrainedCandidate_sound [OF this(1) assms(2) this(2) wf dev(1) run]
  consider (fail) f where "r = Inl f" | (none) "r = Inr None" | (some) cd where "r = Inr (Some cd)"
    by (cases r) (auto split: option.splits)
  then show ?case
  proof cases
    case fail
    then show ?thesis using Cons.prems(2) run step by auto
  next
    case none
    then have "collectConstrainedDevices X planner input sl usage devices found seen uuids1 = (res, seen', uuids')"
      using Cons.prems(2) run step by simp
    note IH = Cons.IH [OF dev(2) this]
    show ?thesis
    proof (intro conjI allI impI)
      show "uuids \<le> uuids'" using IH step by linarith
      fix found' assume "res = Inr found'"
      with IH obtain new where new: "found' = found @ new" "collects (?P uuids1 uuids') seen new seen'" by blast
      from collects_offers_mono [OF new(2), of uuids uuids'] step new(1)
      show "\<exists>new. found' = found @ new \<and> collects (?P uuids uuids') seen new seen'" by auto
    qed
  next
    case (some cd)
    then have rest: "collectConstrainedDevices X planner input sl usage devices (found @ [cd]) seen1 uuids1 = (res, seen', uuids')"
      using Cons.prems(2) run by simp
    note IH = Cons.IH [OF dev(2) rest]
    have cd: "?P uuids uuids1 cd" "cdKey cd = deviceKey sl device" "deviceKey sl device \<notin> seen"
      "seen1 = insert (deviceKey sl device) seen" "uuids \<le> uuids1"
      using step some by (auto simp: offersDevice_def resultAt_key)
    have one: "collects (?P uuids uuids') seen [cd] seen1"
      using cd IH offersDevice_mono [OF cd(1), of uuids uuids'] by (simp add: collects_def)
    show ?thesis
    proof (intro conjI allI impI)
      show "uuids \<le> uuids'" using IH cd(5) by simp
      fix found' assume "res = Inr found'"
      with IH obtain new where new: "found' = (found @ [cd]) @ new" "collects (?P uuids1 uuids') seen1 new seen'"
        by blast
      from collects_append [OF one collects_offers_mono [OF new(2) cd(5) order_refl]] new(1)
      show "\<exists>new. found' = found @ new \<and> collects (?P uuids uuids') seen new seen'"
        by (intro exI [of _ "[cd] @ new"]) simp
    qed
  qed
qed auto

end

definition offersAt ::
  "search_context \<Rightarrow> 'q claimPlanner \<Rightarrow> ('q \<Rightarrow> rat) \<Rightarrow> 'q DeviceRequestAllocationResult list \<Rightarrow>
   'q requestAlternative \<Rightarrow> DeviceClass \<Rightarrow> nat \<Rightarrow> nat \<Rightarrow> string \<Rightarrow> 'q constrainedDevice \<Rightarrow> bool" where
  "offersAt X planner den others alternative deviceClass u v nodeName cd \<longleftrightarrow>
     (\<exists>sl \<in> set (plSlices planner). eligibleSimulatorSlice sl \<and> sliceOnNode sl nodeName \<and>
        offersDevice X planner den others alternative deviceClass u v sl cd)"

lemma offersAt_mono:
  "offersAt X planner den others alt cls u v nodeName cd \<Longrightarrow> u' \<le> u \<Longrightarrow> v \<le> v' \<Longrightarrow>
     offersAt X planner den others alt cls u' v' nodeName cd"
  unfolding offersAt_def using offersDevice_mono by blast

lemma offersDevice_node: "offersDevice X planner den others alt cls u v sl cd \<Longrightarrow> sliceNodeName sl \<noteq> None"
  by (auto simp: offersDevice_def unsupportedSliceFailure_def split: if_splits)

lemma offersDevice_at:
  assumes "offersDevice X planner den others alt cls u v sl cd"
    and "sl \<in> set (plSlices planner)" and "eligibleSimulatorSlice sl"
    and "compatibleNodeName sl allocated = Some nodeName"
  shows "offersAt X planner den others alt cls u v nodeName cd"
    and "allocated \<noteq> '''' \<Longrightarrow> nodeName = allocated"
  using assms compatibleNodeName_Some [OF assms(4) offersDevice_node [OF assms(1)]]
  unfolding offersAt_def by blast+

text \<open>The candidates of an exact-count request by node.\<close>

definition candidatesInv ::
  "(nat \<Rightarrow> string \<Rightarrow> 'q constrainedDevice \<Rightarrow> bool) \<Rightarrow> string \<Rightarrow> nat \<Rightarrow> string set \<Rightarrow>
   (string \<Rightarrow> 'q constrainedDevice list) \<Rightarrow> bool" where
  "candidatesInv P allocated v seen byNode \<longleftrightarrow>
     (\<forall>nodeName. distinct (map cdKey (byNode nodeName)) \<and>
        (\<forall>cd \<in> set (byNode nodeName). cdKey cd \<in> seen \<and> P v nodeName cd \<and>
           (allocated \<noteq> '''' \<longrightarrow> nodeName = allocated)))"

lemma candidatesInv_mono:
  "candidatesInv P allocated v seen byNode \<Longrightarrow> (\<And>nodeName cd. P v nodeName cd \<Longrightarrow> P v' nodeName cd) \<Longrightarrow>
     seen \<subseteq> seen' \<Longrightarrow> candidatesInv P allocated v' seen' byNode"
  unfolding candidatesInv_def by blast

lemma candidatesInv_add:
  assumes "candidatesInv P allocated v seen byNode" and "collects (P v nodeName) seen new seen'"
    and "\<And>cd. cd \<in> set new \<Longrightarrow> allocated \<noteq> '''' \<Longrightarrow> nodeName = allocated"
  shows "candidatesInv P allocated v seen' (byNode(nodeName := byNode nodeName @ new))"
proof -
  have "cdKey ` set (byNode nodeName) \<inter> cdKey ` set new = {}"
    using assms(1,2) unfolding candidatesInv_def collects_def by blast
  then have "distinct (map cdKey (byNode nodeName @ new))"
    using assms(1,2) by (simp add: candidatesInv_def collects_def)
  then show ?thesis using assms unfolding candidatesInv_def collects_def by auto
qed

context quantity
begin

lemma collectConstrainedSliceDevices_at:
  assumes "plannerFor Q den planner committed" and "describesAttempt Q den reserved usage"
    and "sl \<in> set (plSlices planner)" and "eligibleSimulatorSlice sl"
    and "compatibleNodeName sl allocated = Some nodeName"
    and "collectConstrainedSliceDevices X planner input sl usage seen uuids = (res, seen', uuids')"
    and "u \<le> uuids"
  shows "uuids \<le> uuids'" and "res = Inr new \<Longrightarrow>
      collects (\<lambda>cd. offersAt X planner den (committed @ reserved) (inAlternative input) (inDeviceClass input)
        u uuids' nodeName cd \<and> (allocated \<noteq> '''' \<longrightarrow> nodeName = allocated)) seen new seen'"
proof -
  note step = collectConstrainedDevices_sound [OF assms(1-3) order_refl
      assms(6) [unfolded collectConstrainedSliceDevices_def]]
  show "uuids \<le> uuids'" using step by simp
  assume "res = Inr new"
  with step have "collects (offersDevice X planner den (committed @ reserved) (inAlternative input)
      (inDeviceClass input) uuids uuids' sl) seen new seen'" by auto
  then show "collects (\<lambda>cd. offersAt X planner den (committed @ reserved) (inAlternative input) (inDeviceClass input)
        u uuids' nodeName cd \<and> (allocated \<noteq> '''' \<longrightarrow> nodeName = allocated)) seen new seen'"
  proof (rule collects_mono)
    fix cd assume "offersDevice X planner den (committed @ reserved) (inAlternative input)
      (inDeviceClass input) uuids uuids' sl cd"
    from offersDevice_at [OF this assms(3-5)] offersAt_mono [OF _ assms(7) order_refl]
    show "offersAt X planner den (committed @ reserved) (inAlternative input) (inDeviceClass input)
        u uuids' nodeName cd \<and> (allocated \<noteq> '''' \<longrightarrow> nodeName = allocated)" by blast
  qed
qed

lemma collectExactFromSlices_sound:
  fixes X planner committed reserved input u
  defines "P \<equiv> \<lambda>v nodeName cd. offersAt X planner den (committed @ reserved)
    (inAlternative input) (inDeviceClass input) u v nodeName cd"
  assumes "plannerFor Q den planner committed" and "describesAttempt Q den reserved usage"
    and "set slices \<subseteq> set (plSlices planner)" and "u \<le> uuids"
    and "candidatesInv P (inAllocatedNodeName input) uuids seen (ccByNode cands)"
    and "collectExactFromSlices X planner input usage slices cands seen uuids = (res, uuids')"
  shows "uuids \<le> uuids' \<and> (\<forall>cands'. res = Inr cands' \<longrightarrow>
    (\<exists>seen'. candidatesInv P (inAllocatedNodeName input) uuids' seen' (ccByNode cands')))"
  using assms(4-7)
proof (induction slices arbitrary: cands seen uuids)
  case (Cons sl slices)
  have mono: "P v nodeName cd \<Longrightarrow> v \<le> v' \<Longrightarrow> P v' nodeName cd" for v v' nodeName cd
    unfolding P_def by (rule offersAt_mono) auto
  have slices: "sl \<in> set (plSlices planner)" "set slices \<subseteq> set (plSlices planner)" using Cons.prems(1) by auto
  show ?case
  proof (cases "constrainedSliceNode sl (inAllocatedNodeName input)")
    case None
    then show ?thesis using Cons.IH [OF slices(2) Cons.prems(2,3)] Cons.prems(4) by simp
  next
    case (Some nodeName)
    then have sl: "eligibleSimulatorSlice sl" "compatibleNodeName sl (inAllocatedNodeName input) = Some nodeName"
      by (auto simp: constrainedSliceNode_def split: if_splits)
    obtain r seen1 uuids1 where
      run: "collectConstrainedSliceDevices X planner input sl usage seen uuids = (r, seen1, uuids1)"
      by (rule prod_cases3)
    note step = collectConstrainedSliceDevices_at [OF assms(2,3) slices(1) sl run Cons.prems(2), folded P_def]
    show ?thesis
    proof (cases r)
      case (Inl f)
      then show ?thesis using Cons.prems(4) Some run step(1) by auto
    next
      case (Inr new)
      note new = step(2) [OF this]
      have u1: "u \<le> uuids1" using Cons.prems(2) step(1) by simp
      have inv1: "candidatesInv P (inAllocatedNodeName input) uuids1 seen (ccByNode cands)"
        using candidatesInv_mono [OF Cons.prems(3)] mono step(1) by blast
      have inv2: "candidatesInv P (inAllocatedNodeName input) uuids1 seen1
          ((ccByNode cands)(nodeName := ccByNode cands nodeName @ new))"
        using new by (intro candidatesInv_add [OF inv1 collects_mono [OF new]]) (auto simp: collects_def)
      define cands1 where "cands1 = (if new = [] then cands
        else \<lparr>ccNodeOrder = (if nodeName \<in> set (ccNodeOrder cands) then ccNodeOrder cands
                            else ccNodeOrder cands @ [nodeName]),
              ccByNode = (ccByNode cands)(nodeName := ccByNode cands nodeName @ new)\<rparr>)"
      have "collectExactFromSlices X planner input usage slices cands1 seen1 uuids1 = (res, uuids')"
        using Cons.prems(4) Some run Inr by (auto simp: cands1_def)
      moreover have "ccByNode cands1 = (ccByNode cands)(nodeName := ccByNode cands nodeName @ new)"
        by (simp add: cands1_def)
      with inv2 have "candidatesInv P (inAllocatedNodeName input) uuids1 seen1 (ccByNode cands1)" by simp
      ultimately show ?thesis using Cons.IH [OF slices(2) u1, of seen1 cands1] step(1) by force
    qed
  qed
qed auto

end

context quantity
begin

lemma collectAllFromSlices_sound:
  fixes X planner committed reserved input u nodeName
  defines "P \<equiv> \<lambda>v cd. offersAt X planner den (committed @ reserved)
    (inAlternative input) (inDeviceClass input) u v nodeName cd \<and>
    (inAllocatedNodeName input \<noteq> '''' \<longrightarrow> nodeName = inAllocatedNodeName input)"
  assumes "plannerFor Q den planner committed" and "describesAttempt Q den reserved usage"
    and "\<forall>sl \<in> set slices. sl \<in> set (plSlices planner) \<and> managedSimulatorSlice sl \<and>
      compatibleNodeName sl (inAllocatedNodeName input) = Some nodeName"
    and "u \<le> uuids" and "collects (P uuids) {} devices seen"
    and "collectAllFromSlices X planner input usage slices devices seen uuids = (res, uuids')"
  shows "uuids \<le> uuids' \<and> (\<forall>devices'. res = Inr devices' \<longrightarrow> (\<exists>seen'. collects (P uuids') {} devices' seen'))"
  using assms(4-7)
proof (induction slices arbitrary: devices seen uuids)
  case (Cons sl slices)
  have sl: "sl \<in> set (plSlices planner)" "managedSimulatorSlice sl"
    "compatibleNodeName sl (inAllocatedNodeName input) = Some nodeName" using Cons.prems(1) by auto
  show ?case
  proof (cases "unhealthySlice sl")
    case True
    then show ?thesis using Cons by simp
  next
    case False
    then have el: "eligibleSimulatorSlice sl" using sl(2) by (simp add: eligibleSimulatorSlice_def)
    obtain r seen1 uuids1 where
      run: "collectConstrainedSliceDevices X planner input sl usage seen uuids = (r, seen1, uuids1)"
      by (rule prod_cases3)
    note step = collectConstrainedSliceDevices_at [OF assms(2,3) sl(1) el sl(3) run Cons.prems(2)]
    show ?thesis
    proof (cases r)
      case (Inl f)
      then show ?thesis using Cons.prems(4) False run step(1) by auto
    next
      case (Inr new)
      have "collects (P uuids1) {} devices seen"
        using Cons.prems(3) unfolding P_def by (rule collects_mono) (use offersAt_mono step(1) in blast)
      then have "collects (P uuids1) {} (devices @ new) seen1"
        using step(2) [OF Inr] unfolding P_def by (rule collects_append)
      moreover have "collectAllFromSlices X planner input usage slices (devices @ new) seen1 uuids1 = (res, uuids')"
        using Cons.prems(4) False run Inr by simp
      ultimately show ?thesis
        using Cons.IH [of uuids1 "devices @ new" seen1] Cons.prems(1,2) step(1) by force
    qed
  qed
qed auto

end

text \<open>
  What \<^verbatim>\<open>All\<close> asks for, of the devices that are allocated as a whole. The slices it looks at are the managed ones whose node name is one
  of given names, of the newest generation of their pool among these and not unhealthy; it wants every device of theirs that the selectors
  accept and that has the capacities requested. \<open>takesAll\<close>: the devices come from such slices, and what is wanted is among
  them or already held.
\<close>

definition nodeSlices :: "string set \<Rightarrow> 'q ResourceSlice list \<Rightarrow> 'q ResourceSlice list" where
  "nodeSlices names slices =
     filter (\<lambda>sl. managedSimulatorSlice sl \<and> (case sliceNodeName sl of None \<Rightarrow> '''' | Some n \<Rightarrow> n) \<in> names) slices"

definition wantedDevice ::
  "('q \<Rightarrow> rat) \<Rightarrow> 'q claimPlanner \<Rightarrow> 'q requestAlternative \<Rightarrow> DeviceClass \<Rightarrow> 'q ResourceSlice \<Rightarrow> 'q Device \<Rightarrow> bool" where
  "wantedDevice den planner alternative deviceClass sl device \<longleftrightarrow>
     \<not> deviceAllowsMultipleAllocations device \<and>
     (\<forall>sel \<in> set (classSelectors deviceClass @ altSelectors alternative).
        selectorHolds (plEvaluator planner) (celInput (sliceDriver sl) device) sel) \<and>
     requestFits den (altCapacity alternative) (devCapacity device)"

definition takesAll ::
  "('q \<Rightarrow> rat) \<Rightarrow> 'q claimPlanner \<Rightarrow> 'q requestAlternative \<Rightarrow> DeviceClass \<Rightarrow> string set \<Rightarrow> string set \<Rightarrow>
   'q constrainedDevice list \<Rightarrow> bool" where
  "takesAll den planner alternative deviceClass names held part \<longleftrightarrow>
     (let slices = nodeSlices names (plSlices planner);
          current = {sl \<in> set slices. latestInPool slices sl \<and> \<not> unhealthySlice sl}
      in (\<forall>cd \<in> set part. \<exists>sl \<in> current. cdDevice cd \<in> set (sliceDevices sl) \<and> cdKey cd = deviceKey sl (cdDevice cd)) \<and>
         (\<forall>sl \<in> current. \<forall>device \<in> set (sliceDevices sl). wantedDevice den planner alternative deviceClass sl device \<longrightarrow>
            deviceKey sl device \<in> held \<union> cdKey ` set part))"

lemma takesAll_mono:
  "takesAll den planner alternative deviceClass names held part \<Longrightarrow> held \<subseteq> held' \<Longrightarrow>
     takesAll den planner alternative deviceClass names held' part"
  unfolding takesAll_def Let_def by blast

lemma compatible_nodeSlices:
  "filter (\<lambda>sl. managedSimulatorSlice sl \<and> compatibleNodeName sl allocated = Some nodeName) slices =
     (if allocated = '''' then nodeSlices {nodeName} slices
      else if nodeName = allocated then nodeSlices {'''', allocated} slices else [])"
  unfolding nodeSlices_def by (auto simp: compatibleNodeName_def Let_def filter_empty_conv intro!: filter_cong split: option.splits if_splits)

context quantity
begin

lemma fits_exclusiveCapacityMatches:
  assumes "requestFits den requirements (devCapacity device)" and "exclusiveCapacityMatches Q device requirements = Inr matches"
  shows matches
proof -
  have "exclusiveRequestsFit Q capacities requests"
    if "list_all (\<lambda>(name, requested). \<exists>capacity. map_of capacities name = Some capacity \<and> den requested \<le> den (capValue capacity)) requests"
    for capacities requests
    using that by (induction requests) (auto split: option.splits)
  with assms show ?thesis by (auto simp: exclusiveCapacityMatches_def requestFits_def split: if_splits option.splits)
qed

lemma buildBacktrackingCandidate_taken:
  assumes "describesUsage Q den committed usage" and "describesAttempt Q den reserved attempt"
    and "\<not> deviceAllowsMultipleAllocations device" and "requestFits den requirements (devCapacity device)"
    and "buildBacktrackingCandidate Q uuid usage requestName requirements sl device attempt seen uuids = (Inr r, seen', uuids')"
  shows "deviceKey sl device \<in> resultKey ` set (committed @ reserved) \<union> seen'"
proof -
  have "deviceKey sl device \<in> resultKey ` set committed" if "map_of usage (deviceKey sl device) = Some c" for c
    using assms(1) that by (auto simp: describesUsage_def gomap_keys_dom)
  moreover have "attExclusive attempt \<union> attShared attempt \<subseteq> resultKey ` set reserved"
    using assms(2) by (auto simp: describesAttempt_def)
  ultimately show ?thesis
    using assms(3,5) fits_exclusiveCapacityMatches [OF assms(4)]
    by (auto simp: buildBacktrackingCandidate_def buildExclusiveCandidate_def Let_def split: if_splits sum.splits option.splits)
qed

lemma evaluateConstrainedCandidate_taken:
  assumes "plannerFor Q den planner committed" and "describesAttempt Q den reserved usage"
    and "wantedDevice den planner (inAlternative input) (inDeviceClass input) sl device"
    and "evaluateConstrainedCandidate X planner input sl device usage seen uuids = (Inr r, seen', uuids')"
  shows "deviceKey sl device \<in> resultKey ` set (committed @ reserved) \<union> seen'"
proof -
  have matched: "Matches (plEvaluator planner) (sliceDriver sl) device
      [classSelectors (inDeviceClass input), altSelectors (inAlternative input)] = Inr True"
    using assms(3) by (auto simp: Matches_True_iff wantedDevice_def)
  obtain r' where "buildBacktrackingCandidate Q (newUUID X) (plCommitted planner) (altRequestName (inAlternative input))
      (altCapacity (inAlternative input)) sl device usage seen uuids = (Inr r', seen', uuids')"
    using assms(1,4) by (auto simp: evaluateConstrainedCandidate_def matched plannerFor_def split: sum.splits option.splits prod.splits)
  from buildBacktrackingCandidate_taken [OF _ assms(2) _ _ this] assms(1,3) show ?thesis
    by (auto simp: plannerFor_def wantedDevice_def)
qed

lemma collectConstrainedDevices_taken:
  assumes "plannerFor Q den planner committed" and "describesAttempt Q den reserved usage"
    and "sl \<in> set (plSlices planner)" and "set devices \<subseteq> set (sliceDevices sl)"
    and "collectConstrainedDevices X planner input sl usage devices found seen uuids = (Inr found', seen', uuids')"
  shows "seen \<subseteq> seen' \<and> (\<forall>device \<in> set devices. wantedDevice den planner (inAlternative input) (inDeviceClass input) sl device \<longrightarrow>
    deviceKey sl device \<in> resultKey ` set (committed @ reserved) \<union> seen')"
  using assms(4,5)
proof (induction devices arbitrary: found seen uuids)
  case (Cons device devices)
  have dev: "device \<in> set (sliceDevices sl)" "set devices \<subseteq> set (sliceDevices sl)" using Cons.prems(1) by auto
  have planner: "describesUsage Q den committed (plCommitted planner)" "plQuantity planner = Q" "gomap_wf (devCapacity device)"
    using assms(1,3) dev(1) by (auto simp: plannerFor_def capacitiesWf_def)
  from Cons.prems(2) obtain r seen1 uuids1 found1 where
    run: "evaluateConstrainedCandidate X planner input sl device usage seen uuids = (Inr r, seen1, uuids1)"
    and rest: "collectConstrainedDevices X planner input sl usage devices found1 seen1 uuids1 = (Inr found', seen', uuids')"
    by (auto split: prod.splits sum.splits option.splits)
  have "seen \<subseteq> seen1"
    using evaluateConstrainedCandidate_sound [OF planner(1) assms(2) planner(2,3) dev(1) run] by (cases r) auto
  then show ?case using Cons.IH [OF dev(2) rest] evaluateConstrainedCandidate_taken [OF assms(1,2) _ run] by auto
qed simp

lemma collectAllFromSlices_taken:
  assumes "plannerFor Q den planner committed" and "describesAttempt Q den reserved usage"
    and "set slices \<subseteq> set (plSlices planner)" and "seen = cdKey ` set devices"
    and "collectAllFromSlices X planner input usage slices devices seen uuids = (Inr devices', uuids')"
  shows "set devices \<subseteq> set devices' \<and>
    (\<forall>cd \<in> set devices' - set devices. \<exists>sl \<in> set slices. \<not> unhealthySlice sl \<and> cdDevice cd \<in> set (sliceDevices sl) \<and>
       cdKey cd = deviceKey sl (cdDevice cd)) \<and>
    (\<forall>sl \<in> set slices. \<not> unhealthySlice sl \<longrightarrow> (\<forall>device \<in> set (sliceDevices sl).
       wantedDevice den planner (inAlternative input) (inDeviceClass input) sl device \<longrightarrow>
         deviceKey sl device \<in> resultKey ` set (committed @ reserved) \<union> cdKey ` set devices'))"
  using assms(3-5)
proof (induction slices arbitrary: devices seen uuids)
  case (Cons sl slices)
  have sl: "sl \<in> set (plSlices planner)" "set slices \<subseteq> set (plSlices planner)" using Cons.prems(1) by auto
  show ?case
  proof (cases "unhealthySlice sl")
    case True
    then show ?thesis using Cons.IH [OF sl(2) Cons.prems(2)] Cons.prems(3) by auto
  next
    case False
    with Cons.prems(3) obtain new seen1 uuids1 where
      run: "collectConstrainedDevices X planner input sl usage (sliceDevices sl) [] seen uuids = (Inr new, seen1, uuids1)"
      and rest: "collectAllFromSlices X planner input usage slices (devices @ new) seen1 uuids1 = (Inr devices', uuids')"
      by (auto simp: collectConstrainedSliceDevices_def split: sum.splits prod.splits)
    have new: "collects (offersDevice X planner den (committed @ reserved) (inAlternative input) (inDeviceClass input)
        uuids uuids1 sl) seen new seen1"
      using collectConstrainedDevices_sound [OF assms(1,2) sl(1) order_refl run] by auto
    then have seen1: "seen1 = cdKey ` set (devices @ new)" using Cons.prems(2) by (auto simp: collects_def)
    have origin: "cdDevice cd \<in> set (sliceDevices sl) \<and> cdKey cd = deviceKey sl (cdDevice cd)" if "cd \<in> set new" for cd
      using new that by (auto simp: collects_def offersDevice_def resultAt_key)
    note IH = Cons.IH [OF sl(2) seen1 rest]
    have taken: "\<forall>device \<in> set (sliceDevices sl). wantedDevice den planner (inAlternative input) (inDeviceClass input) sl device \<longrightarrow>
        deviceKey sl device \<in> resultKey ` set (committed @ reserved) \<union> seen1"
      using collectConstrainedDevices_taken [OF assms(1,2) sl(1) order_refl run] by blast
    have grown: "seen1 \<subseteq> cdKey ` set devices'" unfolding seen1 by (rule image_mono) (use IH in blast)
    show ?thesis
    proof (intro conjI)
      show "set devices \<subseteq> set devices'" using IH by simp
      show "\<forall>cd \<in> set devices' - set devices. \<exists>sl' \<in> set (sl # slices). \<not> unhealthySlice sl' \<and> cdDevice cd \<in> set (sliceDevices sl') \<and>
          cdKey cd = deviceKey sl' (cdDevice cd)"
        using IH origin False by (auto simp del: ex_simps)
      show "\<forall>sl' \<in> set (sl # slices). \<not> unhealthySlice sl' \<longrightarrow> (\<forall>device \<in> set (sliceDevices sl').
          wantedDevice den planner (inAlternative input) (inDeviceClass input) sl' device \<longrightarrow>
          deviceKey sl' device \<in> resultKey ` set (committed @ reserved) \<union> cdKey ` set devices')"
        using IH taken grown by (simp only: set_simps ball_simps) blast
    qed
  qed
qed simp

lemma collectConstrainedAllDevicesForNode_taken:
  assumes "plannerFor Q den planner committed" and "describesAttempt Q den reserved usage"
    and "managedSlicesByNode planner (inAllocatedNodeName input) = (nodeOrder, slicesByNode)"
    and "collectConstrainedAllDevicesForNode X planner input usage (slicesByNode nodeName) uuids = (Inr devices, uuids')"
    and "devices \<noteq> []"
  shows "takesAll den planner (inAlternative input) (inDeviceClass input)
    (if inAllocatedNodeName input = '''' then {nodeName} else {'''', nodeName}) (resultKey ` set (committed @ reserved)) devices"
proof -
  from assms(4) obtain current where current: "completeCurrentPoolSlices (slicesByNode nodeName) = Inr current"
    and run: "collectAllFromSlices X planner input usage current [] {} uuids = (Inr devices, uuids')"
    by (auto simp: collectConstrainedAllDevicesForNode_def split: sum.splits)
  note set = completeCurrentPoolSlices_set [OF current]
  have node: "slicesByNode nodeName = (if inAllocatedNodeName input = '''' then nodeSlices {nodeName} (plSlices planner)
      else if nodeName = inAllocatedNodeName input then nodeSlices {'''', inAllocatedNodeName input} (plSlices planner) else [])"
    unfolding managedSlicesByNode_slices [OF assms(3)] by (rule compatible_nodeSlices)
  have "set current \<subseteq> set (plSlices planner)" using set by (auto simp: node nodeSlices_def split: if_splits)
  note taken = collectAllFromSlices_taken [OF assms(1,2) this _ run]
  then have "current \<noteq> []" using assms(5) by (cases devices) auto
  then have "slicesByNode nodeName \<noteq> []" using set by auto
  then have "slicesByNode nodeName =
      nodeSlices (if inAllocatedNodeName input = '''' then {nodeName} else {'''', nodeName}) (plSlices planner)"
    using node by (auto split: if_splits)
  with taken show ?thesis unfolding takesAll_def Let_def by (simp add: set)
qed

end

definition offersSelection ::
  "search_context \<Rightarrow> 'q claimPlanner \<Rightarrow> ('q \<Rightarrow> rat) \<Rightarrow> 'q DeviceRequestAllocationResult list \<Rightarrow>
   'q selectionInput \<Rightarrow> nat \<Rightarrow> 'q constrainedSelection \<Rightarrow> search_env \<Rightarrow> bool" where
  "offersSelection X planner den others input u selection env \<longleftrightarrow>
     (\<forall>cd \<in> set (csDevices selection). offersAt X planner den others (inAlternative input)
        (inDeviceClass input) u (envUUIDs env) (csNodeName selection) cd \<and>
        (inAllocatedNodeName input \<noteq> '''' \<longrightarrow> csNodeName selection = inAllocatedNodeName input)) \<and>
     distinct (map cdKey (csDevices selection)) \<and>
     (if altMode (inAlternative input) = ModeAll
      then csDevices selection \<noteq> [] \<and> int (length (csDevices selection)) \<le> inMaxResults input \<and>
           takesAll den planner (inAlternative input) (inDeviceClass input)
             (if inAllocatedNodeName input = '''' then {csNodeName selection} else {'''', csNodeName selection})
             (resultKey ` set others) (csDevices selection)
      else int (length (csDevices selection)) = altCount (inAlternative input))"

text \<open>
  Drawing UUIDs raises a lower bound on their number, which the closure keeps too: the enumerators run
  under an invariant strengthened by such a bound.
\<close>

lemma stableInv_bound: "stableInv I \<Longrightarrow> stableInv (\<lambda>s. I s \<and> n \<le> envUUIDs (snd s))"
  by (auto simp: stableInv_def envStep_def intro: order_trans)

lemma yieldKeeps_bound:
  assumes "yieldKeeps I offered yield"
    and "\<And>sel env. n \<le> envUUIDs env \<Longrightarrow> offered' sel env \<Longrightarrow> offered sel env"
  shows "yieldKeeps (\<lambda>s. I s \<and> n \<le> envUUIDs (snd s)) offered' yield"
  using assms unfolding yieldKeeps_def by (meson order_trans)

context quantity
begin

lemma exact_enumerator:
  assumes "plannerFor Q den planner committed" and "describesAttempt Q den reserved usage"
    and "altMode (inAlternative input) \<noteq> ModeAll"
  shows "enumerator (forEachConstrainedExactSelection X planner input usage)
    (offersSelection X planner den (committed @ reserved) input)"
proof
  fix I :: "'a \<times> search_env \<Rightarrow> bool" and st yield
  let ?offers = "offersSelection X planner den (committed @ reserved) input"
  assume I: "stableInv I" "yieldKeeps I (?offers (envUUIDs (snd st))) yield" "I st"
  obtain acc env where st: "st = (acc, env)" by (rule prod.exhaust)
  let ?P = "\<lambda>v nodeName cd. offersAt X planner den (committed @ reserved)
    (inAlternative input) (inDeviceClass input) (envUUIDs env) v nodeName cd"
  obtain r n where run: "collectConstrainedExactCandidates X planner input usage (envUUIDs env) = (r, n)"
    by (rule prod.exhaust)
  have base: "candidatesInv ?P (inAllocatedNodeName input) (envUUIDs env) {}
      (ccByNode \<lparr>ccNodeOrder = [], ccByNode = (\<lambda>_. [])\<rparr>)" by (simp add: candidatesInv_def)
  note step = collectExactFromSlices_sound [OF assms(1,2) order_refl order_refl base
      run [unfolded collectConstrainedExactCandidates_def]]
  have inv: "I (acc, env\<lparr>envUUIDs := n\<rparr>)" using stableInvD [OF I(1)] I(3) st step by simp
  show "I (snd (forEachConstrainedExactSelection X planner input usage yield st))"
  proof (cases r)
    case (Inl f)
    then show ?thesis using run inv st by (simp add: forEachConstrainedExactSelection_def)
  next
    case (Inr cands)
    then obtain seen where cands: "candidatesInv ?P (inAllocatedNodeName input) n seen (ccByNode cands)"
      using step by blast
    have offers: "?offers (envUUIDs env) sel env'"
      if "n \<le> envUUIDs env'" "offersFromNodes (altCount (inAlternative input)) (ccByNode cands) sel" for sel env'
    proof -
      have sub: "subseq (csDevices sel) (ccByNode cands (csNodeName sel))"
        using that(2) by (simp add: offersFromNodes_def)
      have "set (csDevices sel) \<subseteq> set (ccByNode cands (csNodeName sel))" by (rule subseq_set [OF sub])
      moreover have "distinct (map cdKey (csDevices sel))"
        using cands subseq_map [OF sub, of cdKey] subseq_distinct_list unfolding candidatesInv_def by blast
      moreover have "?P (envUUIDs env') (csNodeName sel) cd" if "?P n (csNodeName sel) cd" for cd
        using that \<open>n \<le> envUUIDs env'\<close> offersAt_mono by blast
      ultimately show ?thesis
        using cands that(2) assms(3) unfolding offersSelection_def candidatesInv_def offersFromNodes_def by auto
    qed
    have "yieldKeeps (\<lambda>s. I s \<and> n \<le> envUUIDs (snd s))
        (\<lambda>sel _. offersFromNodes (altCount (inAlternative input)) (ccByNode cands) sel) yield"
      using I(2) st offers by (intro yieldKeeps_bound [of I "?offers (envUUIDs env)"]) simp_all
    from exactFromNodes_keeps [OF stableInv_bound [OF I(1)] this, of "(acc, env\<lparr>envUUIDs := n\<rparr>)" X] inv
    show ?thesis using run Inr st by (simp add: forEachConstrainedExactSelection_def)
  qed
qed

end

context quantity
begin

lemma collectConstrainedAllDevicesForNode_sound:
  assumes "plannerFor Q den planner committed" and "describesAttempt Q den reserved usage"
    and "managedSlicesByNode planner (inAllocatedNodeName input) = (nodeOrder, slicesByNode)"
    and "collectConstrainedAllDevicesForNode X planner input usage (slicesByNode nodeName) uuids = (res, uuids')"
    and "u \<le> uuids"
  shows "uuids \<le> uuids' \<and> (\<forall>devices. res = Inr devices \<longrightarrow> (\<exists>seen. collects
    (\<lambda>cd. offersAt X planner den (committed @ reserved) (inAlternative input) (inDeviceClass input) u uuids' nodeName cd
      \<and> (inAllocatedNodeName input \<noteq> '''' \<longrightarrow> nodeName = inAllocatedNodeName input)) {} devices seen))"
proof (cases "completeCurrentPoolSlices (slicesByNode nodeName)")
  case (Inl f)
  then show ?thesis using assms(4) by (auto simp: collectConstrainedAllDevicesForNode_def)
next
  case (Inr current)
  have slices: "\<forall>sl \<in> set current. sl \<in> set (plSlices planner) \<and> managedSimulatorSlice sl \<and>
      compatibleNodeName sl (inAllocatedNodeName input) = Some nodeName"
    using completeCurrentPoolSlices_set [OF Inr] managedSlicesByNode_slices [OF assms(3), of nodeName] by auto
  have run: "collectAllFromSlices X planner input usage current [] {} uuids = (res, uuids')"
    using assms(4) Inr by (simp add: collectConstrainedAllDevicesForNode_def)
  from collectAllFromSlices_sound [OF assms(1,2) slices assms(5) _ run] show ?thesis by simp
qed

lemma allFromNodes_keeps:
  assumes "plannerFor Q den planner committed" and "describesAttempt Q den reserved usage"
    and "managedSlicesByNode planner (inAllocatedNodeName input) = (nodeOrder, slicesByNode)"
    and "altMode (inAlternative input) = ModeAll" and "stableInv I"
    and "yieldKeeps I (offersSelection X planner den (committed @ reserved) input u) yield"
    and "I st" and "u \<le> envUUIDs (snd st)"
  shows "I (snd (allFromNodes X planner input usage slicesByNode nodes deferred limit yield st))"
  using assms(7,8)
proof (induction nodes arbitrary: deferred limit st)
  case (Cons nodeName nodes)
  obtain acc env where st: "st = (acc, env)" by (rule prod.exhaust)
  obtain r n where run: "collectConstrainedAllDevicesForNode X planner input usage (slicesByNode nodeName)
      (envUUIDs env) = (r, n)" by (rule prod.exhaust)
  have u: "u \<le> envUUIDs env" using Cons.prems(2) st by simp
  note step = collectConstrainedAllDevicesForNode_sound [OF assms(1-3) run u]
  let ?st = "(acc, env\<lparr>envUUIDs := n\<rparr>)"
  have inv: "I ?st" "u \<le> envUUIDs (snd ?st)" using stableInvD [OF assms(5)] Cons.prems(1) st step u by auto
  show ?case
  proof (cases "\<exists>devices. r = Inr devices \<and> devices \<noteq> [] \<and> int (length devices) \<le> inMaxResults input")
    case False
    then show ?thesis using Cons.IH [OF inv] run st by (cases r) auto
  next
    case True
    then obtain devices where devices: "r = Inr devices" "devices \<noteq> []" "int (length devices) \<le> inMaxResults input"
      by blast
    let ?sel = "\<lparr>csDevices = devices, csNodeName = nodeName\<rparr>"
    obtain stopped st1 where y: "yield ?sel ?st = (stopped, st1)" by (rule prod.exhaust)
    have "offersSelection X planner den (committed @ reserved) input u ?sel (snd ?st)"
      using step devices assms(4) collectConstrainedAllDevicesForNode_taken [OF assms(1-3) run [unfolded devices(1)] devices(2)]
      by (auto simp: offersSelection_def collects_def)
    then have "I st1" "u \<le> envUUIDs (snd st1)"
      using assms(6) inv y unfolding yieldKeeps_def by (metis order_trans snd_conv)+
    then show ?thesis using Cons.IH [of st1] run st devices y by auto
  qed
qed simp

lemma all_enumerator:
  assumes "plannerFor Q den planner committed" and "describesAttempt Q den reserved usage"
    and "altMode (inAlternative input) = ModeAll"
  shows "enumerator (forEachConstrainedAllSelection X planner input usage)
    (offersSelection X planner den (committed @ reserved) input)"
proof
  fix I :: "'a \<times> search_env \<Rightarrow> bool" and st yield
  assume I: "stableInv I" "yieldKeeps I (offersSelection X planner den (committed @ reserved) input (envUUIDs (snd st))) yield" "I st"
  obtain nodeOrder slicesByNode where
    nodes: "managedSlicesByNode planner (inAllocatedNodeName input) = (nodeOrder, slicesByNode)" by (rule prod.exhaust)
  from allFromNodes_keeps [OF assms(1,2) nodes assms(3) I(1,2,3) order_refl]
  show "I (snd (forEachConstrainedAllSelection X planner input usage yield st))"
    by (simp add: forEachConstrainedAllSelection_def nodes)
qed

end

text \<open>What is offered for a request: a selection for one of its alternatives.\<close>

definition offersForRequest ::
  "search_context \<Rightarrow> 'q claimPlanner \<Rightarrow> ('q \<Rightarrow> rat) \<Rightarrow> 'q DeviceRequestAllocationResult list \<Rightarrow>
   'q requestAlternative list \<Rightarrow> string \<Rightarrow> int \<Rightarrow> nat \<Rightarrow> 'q constrainedSelection \<Rightarrow> search_env \<Rightarrow> bool" where
  "offersForRequest X planner den others alternatives allocated maxResults u selection env \<longleftrightarrow>
     (\<exists>alternative \<in> set alternatives. \<exists>deviceClass.
        plClasses planner (altDeviceClassName alternative) = Some deviceClass \<and>
        (altMode alternative = ModeExactCount \<longrightarrow> altCount alternative \<le> maxResults) \<and>
        offersSelection X planner den others
          \<lparr>inAlternative = alternative, inDeviceClass = deviceClass, inAllocatedNodeName = allocated,
           inMaxResults = maxResults\<rparr> u selection env)"

lemma offersSelection_mono:
  "offersSelection X planner den others input u selection env \<Longrightarrow> u' \<le> u \<Longrightarrow>
     offersSelection X planner den others input u' selection env"
  unfolding offersSelection_def using offersAt_mono by blast

context quantity
begin

lemma forEachConstrainedAlternative_keeps:
  assumes "plannerFor Q den planner committed" and "describesAttempt Q den reserved usage"
    and "alternative \<in> set alternatives" and "stableInv I" and "I st" and "u \<le> envUUIDs (snd st)"
    and "yieldKeeps I (offersForRequest X planner den (committed @ reserved) alternatives allocated maxResults u) yield"
  shows "I (snd (forEachConstrainedAlternative X planner alternative allocated maxResults usage yield st))"
proof (cases "plClasses planner (altDeviceClassName alternative)")
  case None
  then show ?thesis using assms(5) by (simp add: forEachConstrainedAlternative_def)
next
  case (Some cls)
  let ?input = "\<lparr>inAlternative = alternative, inDeviceClass = cls, inAllocatedNodeName = allocated,
    inMaxResults = maxResults\<rparr>"
  let ?offers = "offersSelection X planner den (committed @ reserved) ?input"
  have yield: "yieldKeeps I (?offers (envUUIDs (snd st))) yield"
    if "altMode alternative = ModeExactCount \<longrightarrow> altCount alternative \<le> maxResults"
  proof -
    have "offersForRequest X planner den (committed @ reserved) alternatives allocated maxResults u sel env"
      if "?offers (envUUIDs (snd st)) sel env" for sel env
      unfolding offersForRequest_def using Some assms(3) offersSelection_mono [OF that assms(6)]
        \<open>altMode alternative = ModeExactCount \<longrightarrow> altCount alternative \<le> maxResults\<close> by blast
    then show ?thesis using assms(7) unfolding yieldKeeps_def by blast
  qed
  consider (over) "altMode alternative = ModeExactCount \<and> altCount alternative > maxResults"
    | (all) "altMode alternative = ModeAll"
    | (exact) "altMode alternative \<noteq> ModeAll" "altMode alternative = ModeExactCount \<longrightarrow> altCount alternative \<le> maxResults"
    by fastforce
  then show ?thesis
  proof cases
    case over
    then show ?thesis using assms(5) Some by (simp add: forEachConstrainedAlternative_def)
  next
    case all
    then have "I (snd (forEachConstrainedAllSelection X planner ?input usage yield st))"
      using yield by (intro enumerator.keeps [OF all_enumerator [OF assms(1,2)] assms(4) _ assms(5)]) simp_all
    then show ?thesis using Some all
      by (auto simp: forEachConstrainedAlternative_def Let_def split: sum.splits prod.splits)
  next
    case exact
    then have "I (snd (forEachConstrainedExactSelection X planner ?input usage yield st))"
      using yield by (intro enumerator.keeps [OF exact_enumerator [OF assms(1,2)] assms(4) _ assms(5)]) simp_all
    then show ?thesis using Some exact
      by (auto simp: forEachConstrainedAlternative_def Let_def split: sum.splits prod.splits)
  qed
qed

lemma fromAlternatives_keeps:
  assumes "plannerFor Q den planner committed" and "describesAttempt Q den reserved usage"
    and "stableInv I"
    and "yieldKeeps I (offersForRequest X planner den (committed @ reserved) alternatives allocated maxResults u) yield"
    and "set rest \<subseteq> set alternatives" and "I st" and "u \<le> envUUIDs (snd st)"
  shows "I (snd (fromAlternatives X planner name n allocated maxResults usage rest missing limit yield st))"
  using assms(5-7)
proof (induction rest arbitrary: missing limit st)
  case Nil
  then show ?case by (simp split: option.splits)
next
  case (Cons alternative rest)
  obtain r st1 where run: "forEachConstrainedAlternative X planner alternative allocated maxResults usage yield st = (r, st1)"
    by (rule prod.exhaust)
  have alt: "alternative \<in> set alternatives" "set rest \<subseteq> set alternatives" using Cons.prems(1) by auto
  have "I st1 \<and> u \<le> envUUIDs (snd st1)"
    using forEachConstrainedAlternative_keeps [OF assms(1,2) alt(1) stableInv_bound [OF assms(3), of u], of st u
        X allocated maxResults yield] run Cons.prems(2,3)
      yieldKeeps_bound [OF assms(4), of u] by auto
  then show ?case using Cons.IH [OF alt(2)] run by (auto split: sum.splits)
qed

lemma request_enumerator:
  assumes "plannerFor Q den planner committed" and "describesAttempt Q den reserved usage"
    and "supportedAlternatives Q request = Inr alternatives"
  shows "enumerator (forEachConstrainedRequestSelection X planner request allocated maxResults usage)
    (offersForRequest X planner den (committed @ reserved) alternatives allocated maxResults)"
proof
  fix I :: "'a \<times> search_env \<Rightarrow> bool" and st yield
  assume "stableInv I" "yieldKeeps I (offersForRequest X planner den (committed @ reserved) alternatives
    allocated maxResults (envUUIDs (snd st))) yield" "I st"
  from fromAlternatives_keeps [OF assms(1,2) this(1,2) order_refl this(3) order_refl]
  show "I (snd (forEachConstrainedRequestSelection X planner request allocated maxResults usage yield st))"
    using assms(1,3) by (simp add: forEachConstrainedRequestSelection_def plannerFor_def)
qed

end

section \<open>Invariant of the search\<close>

definition shareShape ::
  "search_context \<Rightarrow> ('q \<Rightarrow> rat) \<Rightarrow> nat \<Rightarrow> nat \<Rightarrow> 'q DeviceRequestAllocationResult \<Rightarrow> bool" where
  "shareShape X den m n r \<longleftrightarrow>
     (case resShareID r of
        None \<Rightarrow> resConsumedCapacity r = None
      | Some shareID \<Rightarrow> (\<exists>k \<in> {m..<n}. shareID = newUUID X k) \<and>
          (\<exists>amounts. resConsumedCapacity r = Some amounts \<and> list_all (\<lambda>(name, amount). 0 \<le> den amount) amounts))"

text \<open>Two results on one device are shares whose IDs were drawn at different times.\<close>

definition separateShares ::
  "search_context \<Rightarrow> nat \<Rightarrow> nat \<Rightarrow> 'q DeviceRequestAllocationResult \<Rightarrow> 'q DeviceRequestAllocationResult \<Rightarrow> bool" where
  "separateShares X m n r r' \<longleftrightarrow>
     (resultKey r = resultKey r' \<longrightarrow>
        (\<exists>k \<in> {m..<n}. \<exists>k' \<in> {m..<n}. k \<noteq> k' \<and> resShareID r = Some (newUUID X k) \<and> resShareID r' = Some (newUUID X k')))"

definition bothShared :: "'q DeviceRequestAllocationResult \<Rightarrow> 'q DeviceRequestAllocationResult \<Rightarrow> bool" where
  "bothShared r r' \<longleftrightarrow> (resultKey r = resultKey r' \<longrightarrow> resShareID r \<noteq> None \<and> resShareID r' \<noteq> None)"

definition withinCapacity ::
  "('q \<Rightarrow> rat) \<Rightarrow> 'q DeviceRequestAllocationResult list \<Rightarrow> string \<Rightarrow> 'q Device \<Rightarrow> bool" where
  "withinCapacity den rs key device \<longleftrightarrow>
     (deviceAllowsMultipleAllocations device \<longrightarrow>
        (\<forall>(name, capacity) \<in> set (devCapacity device). consumedTotal den rs key name \<le> den (capValue capacity)))"

definition searchInv ::
  "search_context \<Rightarrow> 'q quantity_api \<Rightarrow> ('q \<Rightarrow> rat) \<Rightarrow> 'q claimPlanner \<Rightarrow>
   'q DeviceRequestAllocationResult list \<Rightarrow> nat \<Rightarrow> nat \<Rightarrow> 'q constrainedSearchState \<Rightarrow> bool" where
  "searchInv X Q den planner committed m n state \<longleftrightarrow>
     describesAttempt Q den (map cdResult (ssDevices state)) (ssUsage state) \<and>
     list_all (shareShape X den m n) (map cdResult (ssDevices state)) \<and>
     sorted_wrt (separateShares X m n) (map cdResult (ssDevices state)) \<and>
     (\<forall>r \<in> set committed. \<forall>r' \<in> set (map cdResult (ssDevices state)). bothShared r r') \<and>
     (\<forall>cd \<in> set (ssDevices state).
        withinCapacity den (committed @ map cdResult (ssDevices state)) (cdKey cd) (cdDevice cd) \<and>
        (\<exists>sl \<in> set (plSlices planner). cdDevice cd \<in> set (sliceDevices sl) \<and> resultAt sl (cdDevice cd) (cdResult cd))) \<and>
     int (length (ssDevices state)) \<le> AllocationResultsMaxSize"

definition coherentDevices :: "'q ResourceSlice list \<Rightarrow> bool" where
  "coherentDevices slices \<longleftrightarrow>
     (\<forall>sl \<in> set slices. \<forall>sl' \<in> set slices. \<forall>device \<in> set (sliceDevices sl). \<forall>device' \<in> set (sliceDevices sl').
        deviceKey sl device = deviceKey sl' device' \<longrightarrow>
        deviceAllowsMultipleAllocations device = deviceAllowsMultipleAllocations device' \<and>
        set (devCapacity device) = set (devCapacity device'))"

definition freshUUIDs ::
  "search_context \<Rightarrow> 'q DeviceRequestAllocationResult list \<Rightarrow> nat \<Rightarrow> nat \<Rightarrow> bool" where
  "freshUUIDs X committed m n \<longleftrightarrow>
     inj_on (newUUID X) {m..<n} \<and>
     (\<forall>k \<in> {m..<n}. normalizedShareID (newUUID X k) \<and> (\<forall>r \<in> set committed. resShareID r \<noteq> Some (newUUID X k)))"

lemma shareShape_exclusive: "shareShape X den m n r \<Longrightarrow> resShareID r = None \<Longrightarrow> resConsumedCapacity r = None"
  by (simp add: shareShape_def)

lemma shareShape_mono: "shareShape X den m n r \<Longrightarrow> n \<le> n' \<Longrightarrow> shareShape X den m n' r"
  by (auto simp: shareShape_def split: option.splits)

lemma separateShares_mono: "separateShares X m n r r' \<Longrightarrow> n \<le> n' \<Longrightarrow> separateShares X m n' r r'"
  unfolding separateShares_def by (auto 4 4)

lemma searchInv_mono:
  assumes "searchInv X Q den planner committed m n state" and "n \<le> n'"
  shows "searchInv X Q den planner committed m n' state"
proof -
  let ?rs = "map cdResult (ssDevices state)"
  have "list_all (shareShape X den m n') ?rs" "sorted_wrt (separateShares X m n') ?rs"
    using assms(1) unfolding searchInv_def
    by (auto simp: list_all_iff intro: shareShape_mono [OF _ assms(2)]
        elim: sorted_wrt_mono_rel [rotated] intro!: separateShares_mono [OF _ assms(2)])
  then show ?thesis using assms(1) unfolding searchInv_def by blast
qed

lemma searchInv_consistent:
  assumes "searchInv X Q den planner committed m n state" and "freshUUIDs X committed m n"
    and "consistentResults den committed"
  shows "consistentResults den (committed @ map cdResult (ssDevices state))"
proof -
  let ?rs = "map cdResult (ssDevices state)"
  have shape: "shareShape X den m n r" if "r \<in> set ?rs" for r
    using assms(1) that by (auto simp: searchInv_def list_all_iff)
  have "list_all (validResult den) ?rs"
    using shape assms(2)
    by (force simp: list_all_iff validResult_def shareShape_def freshUUIDs_def split: option.splits)
  moreover have "sorted_wrt compatibleResults ?rs"
  proof (rule sorted_wrt_mono_rel)
    show "sorted_wrt (separateShares X m n) ?rs" using assms(1) by (simp add: searchInv_def)
    fix r r' :: "'a DeviceRequestAllocationResult" assume "separateShares X m n r r'"
    then show "compatibleResults r r'" using assms(2)
      by (auto simp: separateShares_def compatibleResults_def freshUUIDs_def inj_on_def)
  qed
  moreover have "compatibleResults r r'" if "r \<in> set committed" "r' \<in> set ?rs" for r r'
  proof -
    have "bothShared r r'" using assms(1) that unfolding searchInv_def by blast
    with shape [OF that(2)] assms(2) that(1) show ?thesis
      by (auto simp: bothShared_def compatibleResults_def shareShape_def freshUUIDs_def)
  qed
  ultimately show ?thesis using assms(3) unfolding consistentResults_append unfolding consistentResults_def by blast
qed

subsection \<open>Adding a selection\<close>

lemma consumedTotal_absent: "key \<notin> resultKey ` set rs \<Longrightarrow> consumedTotal den rs key name = 0"
  by (induction rs) auto

lemma consumedTotal_distinct:
  "distinct (map resultKey rs) \<Longrightarrow> r \<in> set rs \<Longrightarrow>
     consumedTotal den rs (resultKey r) name = amountIn den (resultAmounts r) name"
  by (induction rs) (auto simp: consumedTotal_absent image_iff)

lemma admissible_bothShared:
  "admissibleResult den device others r' \<Longrightarrow> r \<in> set others \<Longrightarrow> bothShared r r'"
  by (auto simp: admissibleResult_def bothShared_def list_all_iff resultsFor_def filter_empty_conv split: if_splits)

lemma admissible_within:
  "admissibleResult den device others r \<Longrightarrow> withinCapacity den (others @ [r]) (resultKey r) device"
  by (auto simp: admissibleResult_def withinCapacity_def list_all_iff simp del: consumedTotal_append)

lemma offersAt_shape:
  "offersAt X planner den others alt cls u v nodeName cd \<Longrightarrow> shareShape X den u v (cdResult cd)"
  by (auto simp: offersAt_def offersDevice_def shareShape_def admissibleResult_def split: if_splits option.splits)

lemma offersAt_admissible:
  "offersAt X planner den others alt cls u v nodeName cd \<Longrightarrow> admissibleResult den (cdDevice cd) others (cdResult cd)"
  by (auto simp: offersAt_def offersDevice_def)

lemma offersAt_placed:
  "offersAt X planner den others alt cls u v nodeName cd \<Longrightarrow>
     \<exists>sl \<in> set (plSlices planner). cdDevice cd \<in> set (sliceDevices sl) \<and> resultAt sl (cdDevice cd) (cdResult cd)"
  by (auto simp: offersAt_def offersDevice_def)

lemma withinCapacity_coherent:
  assumes "coherentDevices slices" and "sl \<in> set slices" and "sl' \<in> set slices"
    and "device \<in> set (sliceDevices sl)" and "device' \<in> set (sliceDevices sl')"
    and "deviceKey sl device = deviceKey sl' device'" and "withinCapacity den rs key device'"
  shows "withinCapacity den rs key device"
proof -
  have "deviceAllowsMultipleAllocations device = deviceAllowsMultipleAllocations device' \<and>
      set (devCapacity device) = set (devCapacity device')"
    using assms(1-6) unfolding coherentDevices_def by blast
  with assms(7) show ?thesis unfolding withinCapacity_def by simp
qed

lemma withinCapacity_selection:
  assumes "coherentDevices (plSlices planner)"
    and new: "\<forall>cd \<in> set devices. offersAt X planner den others alt cls u v nodeName cd"
    and dist: "distinct (map cdKey devices)"
    and "sl \<in> set (plSlices planner)" and "device \<in> set (sliceDevices sl)" and "key = deviceKey sl device"
    and old: "key \<notin> cdKey ` set devices \<Longrightarrow> withinCapacity den others key device"
  shows "withinCapacity den (others @ map cdResult devices) key device"
proof (cases "key \<in> cdKey ` set devices")
  case False
  then have "consumedTotal den (map cdResult devices) key name = 0" for name
    by (intro consumedTotal_absent) auto
  then show ?thesis using old [OF False] by (simp add: withinCapacity_def)
next
  case True
  then obtain cd where cd: "cd \<in> set devices" "cdKey cd = key" by auto
  have offer: "offersAt X planner den others alt cls u v nodeName cd" using new cd(1) by blast
  obtain sl' where sl': "sl' \<in> set (plSlices planner)" "cdDevice cd \<in> set (sliceDevices sl')"
    "resultAt sl' (cdDevice cd) (cdResult cd)" using offersAt_placed [OF offer] by blast
  note key' = resultAt_key [OF sl'(3)]
  have "withinCapacity den (others @ [cdResult cd]) key (cdDevice cd)"
    using admissible_within [OF offersAt_admissible [OF offer]] cd(2) by simp
  from withinCapacity_coherent [OF assms(1,4) sl'(1) assms(5) sl'(2) _ this] key' cd(2) assms(6)
  have "withinCapacity den (others @ [cdResult cd]) key device" by simp
  moreover have "consumedTotal den (map cdResult devices) key name = consumedTotal den [cdResult cd] key name" for name
    using consumedTotal_distinct [of "map cdResult devices" "cdResult cd" den name] dist cd by (simp add: comp_def)
  ultimately show ?thesis by (simp add: withinCapacity_def)
qed

lemma separateShares_new:
  assumes "shareShape X den m n r" and "shareShape X den n v r'" and "bothShared r r'" and "m \<le> n" and "n \<le> v"
  shows "separateShares X m v r r'"
proof -
  have "\<exists>k \<in> {m..<v}. \<exists>k' \<in> {m..<v}. k \<noteq> k' \<and> resShareID r = Some (newUUID X k) \<and> resShareID r' = Some (newUUID X k')"
    if "resultKey r = resultKey r'"
  proof -
    from assms(1-3) that obtain k k' where "k \<in> {m..<n}" "k' \<in> {n..<v}"
      "resShareID r = Some (newUUID X k)" "resShareID r' = Some (newUUID X k')"
      by (auto simp: shareShape_def bothShared_def)
    then show ?thesis using assms(4,5) by (intro bexI [of _ k] bexI [of _ k']) auto
  qed
  then show ?thesis unfolding separateShares_def by blast
qed

context quantity
begin

lemma withSelection_inv:
  assumes inv: "searchInv X Q den planner committed m n state" and "m \<le> n" and "n \<le> v"
    and coherent: "coherentDevices (plSlices planner)"
    and new: "\<forall>cd \<in> set (csDevices selection).
      offersAt X planner den (committed @ map cdResult (ssDevices state)) alt cls n v nodeName cd"
    and dist: "distinct (map cdKey (csDevices selection))"
    and len: "int (length (csDevices selection)) \<le> AllocationResultsMaxSize - int (length (ssDevices state))"
  shows "searchInv X Q den planner committed m v (withSelection Q selection state)"
proof -
  let ?rs = "map cdResult (ssDevices state)" and ?new = "map cdResult (csDevices selection)"
  have devices: "ssDevices (withSelection Q selection state) = ssDevices state @ csDevices selection"
    by (simp add: withSelection_def)
  have old: "searchInv X Q den planner committed m v state" by (rule searchInv_mono [OF inv assms(3)])
  have shape: "shareShape X den n v r" if "r \<in> set ?new" for r using that new offersAt_shape by fastforce
  then have shape': "shareShape X den m v r" if "r \<in> set ?new" for r
    using that assms(2) by (fastforce simp: shareShape_def split: option.splits)
  have adm: "bothShared r r'" if "r \<in> set (committed @ ?rs)" "r' \<in> set ?new" for r r'
    using that new offersAt_admissible admissible_bothShared by fastforce
  have "describesAttempt Q den (?rs @ ?new) (fold (reserve Q) ?new (ssUsage state))"
  proof (rule fold_reserve_describes)
    show "describesAttempt Q den ?rs (ssUsage state)" using inv by (simp add: searchInv_def)
    show "\<forall>r \<in> set ?new. resShareID r = None \<longrightarrow> resConsumedCapacity r = None"
      using shape shareShape_exclusive by blast
  qed
  then have "describesAttempt Q den (map cdResult (ssDevices (withSelection Q selection state)))
      (ssUsage (withSelection Q selection state))" by (simp add: withSelection_def)
  moreover have "list_all (shareShape X den m v) (?rs @ ?new)"
    using old shape' by (auto simp: searchInv_def list_all_iff)
  moreover have "sorted_wrt (separateShares X m v) (?rs @ ?new)"
  proof -
    have "sorted_wrt (separateShares X m v) ?new"
      using dist by (simp add: sorted_wrt_iff_nth_less separateShares_def distinct_conv_nth)
    moreover have "separateShares X m v r r'" if "r \<in> set ?rs" "r' \<in> set ?new" for r r'
    proof (rule separateShares_new [OF _ shape [OF that(2)] adm [OF _ that(2)] assms(2,3)])
      show "shareShape X den m n r" using inv that(1) by (auto simp: searchInv_def list_all_iff)
    qed (use that in simp)
    moreover have "sorted_wrt (separateShares X m v) ?rs" using old by (simp add: searchInv_def)
    ultimately show ?thesis by (simp add: sorted_wrt_append)
  qed
  moreover have "\<forall>r \<in> set committed. \<forall>r' \<in> set (?rs @ ?new). bothShared r r'"
    using inv adm unfolding searchInv_def by auto
  moreover have "withinCapacity den (committed @ ?rs @ ?new) (cdKey cd) (cdDevice cd) \<and>
      (\<exists>sl \<in> set (plSlices planner). cdDevice cd \<in> set (sliceDevices sl) \<and> resultAt sl (cdDevice cd) (cdResult cd))"
    if cd: "cd \<in> set (ssDevices state @ csDevices selection)" for cd
  proof -
    obtain sl where sl: "sl \<in> set (plSlices planner)" "cdDevice cd \<in> set (sliceDevices sl)"
      "resultAt sl (cdDevice cd) (cdResult cd)"
      using cd inv new offersAt_placed unfolding searchInv_def set_append by blast
    have "withinCapacity den (committed @ ?rs) (cdKey cd) (cdDevice cd)" if "cdKey cd \<notin> cdKey ` set (csDevices selection)"
      using that inv cd unfolding searchInv_def by auto
    from withinCapacity_selection [OF coherent new dist sl(1,2) resultAt_key [OF sl(3)] this] sl show ?thesis by auto
  qed
  moreover have "int (length (ssDevices state @ csDevices selection)) \<le> AllocationResultsMaxSize" using len by simp
  ultimately show ?thesis unfolding searchInv_def devices map_append by blast
qed

end

subsection \<open>The search\<close>

definition placedAt ::
  "('q \<Rightarrow> rat) \<Rightarrow> 'q claimPlanner \<Rightarrow> 'q requestAlternative \<Rightarrow> DeviceClass \<Rightarrow> string \<Rightarrow> 'q constrainedDevice \<Rightarrow> bool" where
  "placedAt den planner alternative deviceClass nodeName cd \<longleftrightarrow>
     (\<exists>sl \<in> set (plSlices planner). eligibleSimulatorSlice sl \<and> sliceOnNode sl nodeName \<and>
        cdDevice cd \<in> set (sliceDevices sl) \<and> resultAt sl (cdDevice cd) (cdResult cd) \<and>
        (\<forall>sel \<in> set (classSelectors deviceClass @ altSelectors alternative).
           selectorHolds (plEvaluator planner) (celInput (sliceDriver sl) (cdDevice cd)) sel) \<and>
        unsupportedSliceFailure sl = None \<and> unsupportedDeviceFailure (cdDevice cd) = None \<and>
        resRequest (cdResult cd) = altRequestName alternative \<and>
        capacityServed den (altCapacity alternative) (cdDevice cd) (cdResult cd) \<and>
        (\<not> deviceAllowsMultipleAllocations (cdDevice cd) \<longrightarrow> resShareID (cdResult cd) = None))"

definition servesRequest ::
  "('q \<Rightarrow> rat) \<Rightarrow> 'q claimPlanner \<Rightarrow> string set \<Rightarrow> string \<Rightarrow> 'q DeviceRequest \<Rightarrow> 'q constrainedDevice list \<Rightarrow> bool" where
  "servesRequest den planner held nodeName request part \<longleftrightarrow>
     (\<exists>alternatives alternative deviceClass.
        supportedAlternatives (plQuantity planner) request = Inr alternatives \<and>
        alternative \<in> set alternatives \<and>
        plClasses planner (altDeviceClassName alternative) = Some deviceClass \<and>
        distinct (map cdKey part) \<and>
        (\<forall>cd \<in> set part. placedAt den planner alternative deviceClass nodeName cd) \<and>
        (if altMode alternative = ModeAll
         then part \<noteq> [] \<and> (\<exists>names \<subseteq> {'''', nodeName}. takesAll den planner alternative deviceClass names held part)
         else int (length part) = altCount alternative))"

definition goodPlan ::
  "search_context \<Rightarrow> 'q quantity_api \<Rightarrow> ('q \<Rightarrow> rat) \<Rightarrow> 'q claimPlanner \<Rightarrow>
   'q DeviceRequestAllocationResult list \<Rightarrow> matchAttributeConstraint list \<Rightarrow> nat \<Rightarrow> 'q DeviceRequest list \<Rightarrow>
   'q constrainedSearchState \<Rightarrow> nat \<Rightarrow> 'q allocationPlan \<Rightarrow> bool" where
  "goodPlan X Q den planner committed constraints m requests state n plan \<longleftrightarrow>
     (\<exists>state' parts. plan = statePlan state' \<and> ssDevices state' = ssDevices state @ concat parts \<and>
        list_all2 (servesRequest den planner (resultKey ` set (committed @ map cdResult (ssDevices state'))) (ssNodeName state')) requests parts \<and>
        searchInv X Q den planner committed m n state' \<and>
        matchConstraintsSatisfied constraints (ssDevices state') = Inr True \<and>
        (ssNodeName state \<noteq> '''' \<longrightarrow> ssNodeName state' = ssNodeName state))"

lemma goodPlan_mono:
  "goodPlan X Q den planner committed constraints m requests state n plan \<Longrightarrow> n \<le> n' \<Longrightarrow>
     goodPlan X Q den planner committed constraints m requests state n' plan"
  unfolding goodPlan_def using searchInv_mono by blast

lemma offersAt_placedAt:
  assumes "offersAt X planner den others alt cls u v nodeName cd" and "nodeName = '''' \<or> nodeName = nodeName'"
  shows "placedAt den planner alt cls nodeName' cd"
  using assms unfolding offersAt_def placedAt_def offersDevice_def sliceOnNode_def admissibleResult_def
  by (auto 0 4 split: if_splits)

lemma servesRequest_selection:
  assumes "supportedAlternatives (plQuantity planner) request = Inr alternatives"
    and "offersForRequest X planner den others alternatives allocated maxResults u selection env"
    and "allocated = '''' \<Longrightarrow> csNodeName selection = '''' \<or> csNodeName selection = nodeName'"
    and "allocated \<noteq> '''' \<Longrightarrow> allocated = nodeName'" and "resultKey ` set others \<subseteq> held"
  shows "servesRequest den planner held nodeName' request (csDevices selection)"
proof -
  from assms(2) obtain alternative deviceClass where
    alt: "alternative \<in> set alternatives" "plClasses planner (altDeviceClassName alternative) = Some deviceClass"
    and sel: "offersSelection X planner den others
      \<lparr>inAlternative = alternative, inDeviceClass = deviceClass, inAllocatedNodeName = allocated,
       inMaxResults = maxResults\<rparr> u selection env"
    unfolding offersForRequest_def by blast
  have "placedAt den planner alternative deviceClass nodeName' cd" if "cd \<in> set (csDevices selection)" for cd
    using sel that assms(3,4) by (intro offersAt_placedAt) (auto simp: offersSelection_def)
  moreover have "part \<noteq> [] \<and> (\<exists>names \<subseteq> {'''', nodeName'}. takesAll den planner alternative deviceClass names held part)"
    if "altMode alternative = ModeAll" "part = csDevices selection" for part
  proof -
    have part: "part \<noteq> []" "takesAll den planner alternative deviceClass
        (if allocated = '''' then {csNodeName selection} else {'''', csNodeName selection}) (resultKey ` set others) part"
      "\<forall>cd \<in> set part. allocated \<noteq> '''' \<longrightarrow> csNodeName selection = allocated"
      using sel that by (simp_all add: offersSelection_def)
    then have "(if allocated = '''' then {csNodeName selection} else {'''', csNodeName selection}) \<subseteq> {'''', nodeName'}"
      using assms(3,4) by (cases part) auto
    with part takesAll_mono [OF part(2) assms(5)] show ?thesis by blast
  qed
  ultimately show ?thesis using alt sel assms(1)
    unfolding servesRequest_def offersSelection_def by (auto split: if_splits)
qed

lemma supportedAlternatives_mode:
  assumes "supportedAlternatives Q request = Inr alternatives" and "alternative \<in> set alternatives"
  shows "altMode alternative = ModeExactCount \<or> altMode alternative = ModeAll"
proof -
  have "\<exists>contract. supportedAlternative Q contract = Inr alternative"
    using assms supportedSubrequests_set [of Q "drName request" "drFirstAvailable request" alternatives alternative]
    by (auto simp: supportedAlternatives_def split: option.splits list.splits sum.splits)
  then show ?thesis using supportedAlternative_bounds by blast
qed

context quantity
begin

lemma offersForRequest_inv:
  assumes "searchInv X Q den planner committed m n state" and "m \<le> n" and "n \<le> envUUIDs env"
    and "coherentDevices (plSlices planner)"
    and "supportedAlternatives Q request = Inr alternatives"
    and "offersForRequest X planner den (committed @ map cdResult (ssDevices state)) alternatives allocated
      (AllocationResultsMaxSize - int (length (ssDevices state))) n selection env"
  shows "searchInv X Q den planner committed m (envUUIDs env) (withSelection Q selection state)"
proof -
  from assms(6) obtain alternative deviceClass where
    alt: "alternative \<in> set alternatives"
    and count: "altMode alternative = ModeExactCount \<longrightarrow>
      altCount alternative \<le> AllocationResultsMaxSize - int (length (ssDevices state))"
    and sel: "offersSelection X planner den (committed @ map cdResult (ssDevices state))
      \<lparr>inAlternative = alternative, inDeviceClass = deviceClass, inAllocatedNodeName = allocated,
       inMaxResults = AllocationResultsMaxSize - int (length (ssDevices state))\<rparr> n selection env"
    unfolding offersForRequest_def by blast
  have "int (length (csDevices selection)) \<le> AllocationResultsMaxSize - int (length (ssDevices state))"
    using supportedAlternatives_mode [OF assms(5) alt] count sel by (auto simp: offersSelection_def)
  then show ?thesis
    using sel by (intro withSelection_inv [OF assms(1-4)]) (auto simp: offersSelection_def)
qed

lemma goodPlan_Cons:
  assumes "plQuantity planner = Q" and "supportedAlternatives Q request = Inr alternatives"
    and "offersForRequest X planner den (committed @ map cdResult (ssDevices state)) alternatives (ssNodeName state) maxResults u selection env"
    and "goodPlan X Q den planner committed constraints m rest (withSelection Q selection state) n plan"
  shows "goodPlan X Q den planner committed constraints m (request # rest) state n plan"
proof -
  from assms(4) obtain state' parts where
    plan: "plan = statePlan state'" "searchInv X Q den planner committed m n state'"
      "matchConstraintsSatisfied constraints (ssDevices state') = Inr True"
    and devices: "ssDevices state' = ssDevices (withSelection Q selection state) @ concat parts"
    and rest: "list_all2 (servesRequest den planner (resultKey ` set (committed @ map cdResult (ssDevices state'))) (ssNodeName state')) rest parts"
    and node: "ssNodeName (withSelection Q selection state) \<noteq> '''' \<longrightarrow>
      ssNodeName state' = ssNodeName (withSelection Q selection state)"
    unfolding goodPlan_def by blast
  let ?held = "resultKey ` set (committed @ map cdResult (ssDevices state'))"
  have "resultKey ` set (committed @ map cdResult (ssDevices state)) \<subseteq> ?held"
    using devices by (auto simp: withSelection_def)
  then have "servesRequest den planner ?held (ssNodeName state') request (csDevices selection)"
    using node assms(1,2)
    by (intro servesRequest_selection [OF _ assms(3)]) (auto simp: withSelection_def)
  then have "list_all2 (servesRequest den planner ?held (ssNodeName state')) (request # rest) (csDevices selection # parts)"
    using rest by simp
  moreover have "ssDevices state' = ssDevices state @ concat (csDevices selection # parts)"
    using devices by (simp add: withSelection_def)
  moreover have "ssNodeName state \<noteq> '''' \<longrightarrow> ssNodeName state' = ssNodeName state"
    using node by (simp add: withSelection_def)
  ultimately show ?thesis unfolding goodPlan_def using plan by blast
qed

end

lemma consume_Inr: "consume budget = Inr budget' \<longleftrightarrow>
    0 < budRemaining budget \<and> budget' = budget\<lparr>budRemaining := budRemaining budget - 1\<rparr>"
  by (auto simp: consume_def)

lemma searchYield_cases:
  assumes "searchYield Q constraints state search selection (out, env) = (stopped, out', env')"
  obtains (unchanged) "outSolution out' = outSolution out" "envUUIDs env' = envUUIDs env"
    | (searched) r env1 where "envUUIDs env1 = envUUIDs env"
      "search (withSelection Q selection state) env1 = (r, env')"
      "matchConstraintsSatisfied constraints (ssDevices (withSelection Q selection state)) = Inr True"
      "outSolution out' = outSolution out \<or> (\<exists>plan. r = Inr (Some plan) \<and> outSolution out' = Some plan)"
proof (cases "consume (envBudget env)")
  case (Inl f)
  then show ?thesis using assms unchanged by (auto simp: searchYield_def)
next
  case (Inr budget)
  let ?env = "env\<lparr>envBudget := budget\<rparr>"
  show ?thesis
  proof (cases "matchConstraintsSatisfied constraints (ssDevices (withSelection Q selection state)) = Inr True")
    case False
    then show ?thesis using assms unchanged Inr by (auto simp: searchYield_def Let_def split: sum.splits if_splits)
  next
    case True
    obtain r env1 where run: "search (withSelection Q selection state) ?env = (r, env1)" by (rule prod.exhaust)
    have "env1 = env'" "outSolution out' = outSolution out \<or> (\<exists>plan. r = Inr (Some plan) \<and> outSolution out' = Some plan)"
      using assms Inr True run by (auto simp: searchYield_def Let_def split: sum.splits option.splits)
    then show ?thesis using searched [of ?env r] run True by simp
  qed
qed

lemma matchConstraintsSatisfied_Nil [simp]: "matchConstraintsSatisfied constraints [] = Inr True"
  by (induction constraints) (auto simp: matchConstraintSatisfied_def)

text \<open>The invariant the closure of a search keeps: a plan found so far is good.\<close>

definition solutionInv ::
  "search_context \<Rightarrow> 'q quantity_api \<Rightarrow> ('q \<Rightarrow> rat) \<Rightarrow> 'q claimPlanner \<Rightarrow>
   'q DeviceRequestAllocationResult list \<Rightarrow> matchAttributeConstraint list \<Rightarrow> nat \<Rightarrow> 'q DeviceRequest list \<Rightarrow>
   'q constrainedSearchState \<Rightarrow> nat \<Rightarrow> 'q searchOutcome \<times> search_env \<Rightarrow> bool" where
  "solutionInv X Q den planner committed constraints m requests state u st \<longleftrightarrow>
     u \<le> envUUIDs (snd st) \<and>
     (\<forall>plan. outSolution (fst st) = Some plan \<longrightarrow>
        goodPlan X Q den planner committed constraints m requests state (envUUIDs (snd st)) plan)"

lemma solutionInv_stable: "stableInv (solutionInv X Q den planner committed constraints m requests state u)"
  using goodPlan_mono unfolding stableInv_def solutionInv_def envStep_def by (fastforce intro: order_trans)

definition searchSound ::
  "search_context \<Rightarrow> 'q quantity_api \<Rightarrow> ('q \<Rightarrow> rat) \<Rightarrow> 'q claimPlanner \<Rightarrow>
   'q DeviceRequestAllocationResult list \<Rightarrow> matchAttributeConstraint list \<Rightarrow> nat \<Rightarrow> 'q DeviceRequest list \<Rightarrow> bool" where
  "searchSound X Q den planner committed constraints m requests \<longleftrightarrow>
     (\<forall>state env res env'.
        searchInv X Q den planner committed m (envUUIDs env) state \<longrightarrow> m \<le> envUUIDs env \<longrightarrow>
        matchConstraintsSatisfied constraints (ssDevices state) = Inr True \<longrightarrow>
        searchConstrainedRequests X planner constraints requests state env = (res, env') \<longrightarrow>
        envUUIDs env \<le> envUUIDs env' \<and> (\<forall>plan. res = Inr (Some plan) \<longrightarrow>
          goodPlan X Q den planner committed constraints m requests state (envUUIDs env') plan))"

context quantity
begin

lemma searchYield_keeps:
  assumes "plQuantity planner = Q" and "coherentDevices (plSlices planner)"
    and "searchSound X Q den planner committed constraints m rest"
    and "searchInv X Q den planner committed m u state" and "m \<le> u"
    and "supportedAlternatives Q request = Inr alternatives"
  shows "yieldKeeps (solutionInv X Q den planner committed constraints m (request # rest) state u)
    (offersForRequest X planner den (committed @ map cdResult (ssDevices state)) alternatives (ssNodeName state)
      (AllocationResultsMaxSize - int (length (ssDevices state))) u)
    (searchYield Q constraints state (searchConstrainedRequests X planner constraints rest))"
  (is "yieldKeeps ?I ?offers ?yield")
  unfolding yieldKeeps_def
proof (intro allI impI)
  fix sel and st :: "'q searchOutcome \<times> search_env" assume I: "?I st" and offer: "?offers sel (snd st)"
  obtain out e where st: "st = (out, e)" by (rule prod.exhaust)
  obtain stopped out' e' where y: "?yield sel (out, e) = (stopped, out', e')" by (rule prod_cases3)
  have e: "u \<le> envUUIDs e" using I st by (simp add: solutionInv_def)
  have inv: "searchInv X Q den planner committed m (envUUIDs e) (withSelection Q sel state)"
    using offersForRequest_inv [OF assms(4,5) e assms(2,6)] offer st by simp
  from y have "?I (out', e') \<and> envUUIDs e \<le> envUUIDs e'"
  proof (cases rule: searchYield_cases)
    case unchanged
    then show ?thesis using I st by (simp add: solutionInv_def)
  next
    case (searched r env1)
    have "searchInv X Q den planner committed m (envUUIDs env1) (withSelection Q sel state)" "m \<le> envUUIDs env1"
      using inv searched(1) e assms(5) by simp_all
    note IH = assms(3) [unfolded searchSound_def, rule_format, OF this searched(3,2)]
    have le: "envUUIDs e \<le> envUUIDs e'" using IH searched(1) by simp
    have "goodPlan X Q den planner committed constraints m (request # rest) state (envUUIDs e') plan"
      if "outSolution out' = Some plan" for plan
    proof (cases "outSolution out = Some plan")
      case True
      then show ?thesis using I st le goodPlan_mono by (auto simp: solutionInv_def)
    next
      case False
      then have "goodPlan X Q den planner committed constraints m rest (withSelection Q sel state) (envUUIDs e') plan"
        using IH searched(4) that by auto
      then show ?thesis using goodPlan_Cons [OF assms(1,6)] offer st by blast
    qed
    then show ?thesis using le e by (simp add: solutionInv_def)
  qed
  then show "?I (snd (?yield sel st)) \<and> envUUIDs (snd st) \<le> envUUIDs (snd (snd (?yield sel st)))"
    using st y by simp
qed

lemma searchConstrainedRequests_sound:
  assumes "plannerFor Q den planner committed" and "coherentDevices (plSlices planner)"
  shows "searchSound X Q den planner committed constraints m requests"
proof (induction requests)
  case Nil
  have "goodPlan X Q den planner committed constraints m [] state n (statePlan state)"
    if "searchInv X Q den planner committed m n state"
      "matchConstraintsSatisfied constraints (ssDevices state) = Inr True" for n state
    unfolding goodPlan_def using that by (intro exI [of _ state] exI [of _ "[]"]) simp
  then show ?case
    by (auto simp: searchSound_def searchConstrainedRequests.simps [of X planner constraints "[]"] split: option.splits)
next
  case (Cons request rest)
  have Q: "plQuantity planner = Q" using assms(1) by (simp add: plannerFor_def)
  show ?case unfolding searchSound_def
  proof (intro allI impI)
    fix state env res env'
    assume inv: "searchInv X Q den planner committed m (envUUIDs env) state" and m: "m \<le> envUUIDs env"
      and run: "searchConstrainedRequests X planner constraints (request # rest) state env = (res, env')"
    let ?yield = "searchYield Q constraints state (searchConstrainedRequests X planner constraints rest)"
    let ?max = "AllocationResultsMaxSize - int (length (ssDevices state))"
    let ?iter = "forEachConstrainedRequestSelection X planner request (ssNodeName state) ?max (ssUsage state)"
    let ?st = "(\<lparr>outSolution = None, outFailure = None\<rparr>, env\<lparr>envPolls := Suc (envPolls env)\<rparr>)"
    let ?I = "solutionInv X Q den planner committed constraints m (request # rest) state (envUUIDs env)"
    have st: "?I ?st" by (simp add: solutionInv_def)
    have "?I (snd (?iter ?yield ?st))"
    proof (cases "supportedAlternatives Q request")
      case (Inl f)
      then show ?thesis using Q st by (simp add: forEachConstrainedRequestSelection_def)
    next
      case (Inr alternatives)
      have "describesAttempt Q den (map cdResult (ssDevices state)) (ssUsage state)"
        using inv by (simp add: searchInv_def)
      from enumerator.keeps [OF request_enumerator [OF assms(1) this Inr] solutionInv_stable _ st]
        searchYield_keeps [OF Q assms(2) Cons.IH inv m Inr]
      show ?thesis by simp
    qed
    then show "envUUIDs env \<le> envUUIDs env' \<and> (\<forall>plan. res = Inr (Some plan) \<longrightarrow>
          goodPlan X Q den planner committed constraints m (request # rest) state (envUUIDs env') plan)"
      using run Q
      by (auto simp: searchConstrainedRequests.simps [of X planner constraints "request # rest"] solutionInv_def
          split: option.splits sum.splits prod.splits)
  qed
qed

end

section \<open>Completeness of the combination loop\<close>

fun combos :: "nat \<Rightarrow> 'c list \<Rightarrow> 'c list list" where
  "combos 0 xs = [[]]"
| "combos (Suc n) [] = []"
| "combos (Suc n) (x # xs) = map (Cons x) (combos n xs) @ combos (Suc n) xs"

text \<open>Offering a list of selections one after the other until the closure stops.\<close>

fun runYield :: "('sel \<Rightarrow> 'a \<Rightarrow> bool \<times> 'a) \<Rightarrow> 'sel list \<Rightarrow> 'a \<Rightarrow> bool \<times> 'a" where
  "runYield y [] acc = (False, acc)"
| "runYield y (sel # sels) acc = (if fst (y sel acc) then (True, snd (y sel acc)) else runYield y sels (snd (y sel acc)))"

definition liftYield :: "('sel \<Rightarrow> 'a \<Rightarrow> bool \<times> 'a) \<Rightarrow> ('sel, 'a) yield_fun" where
  "liftYield y sel st = (fst (y sel (fst st)), snd (y sel (fst st)), snd st)"

lemma runYield_append:
  "runYield y (xs @ ys) acc =
     (if fst (runYield y xs acc) then runYield y xs acc else runYield y ys (snd (runYield y xs acc)))"
  by (induction xs arbitrary: acc) auto

lemma combos_short: "length xs < n \<Longrightarrow> combos n xs = []"
  by (induction n xs rule: combos.induct) auto

lemma set_combos: "set (combos n xs) = {s. subseq s xs \<and> length s = n}"
proof (induction n xs rule: combos.induct)
  case (3 n x xs)
  have "subseq s (x # xs) \<and> length s = Suc n \<longleftrightarrow>
      (\<exists>t. s = x # t \<and> subseq t xs \<and> length t = n) \<or> subseq s xs \<and> length s = Suc n" for s
    by (cases s) (auto dest: subseq_Cons')
  then show ?case using 3 by auto
qed auto

text \<open>What \<open>visitCombination\<close> and its loop compute when the context is never canceled.\<close>

definition yieldsAll ::
  "('sel \<Rightarrow> 'a \<Rightarrow> bool \<times> 'a) \<Rightarrow> 'sel list \<Rightarrow> 'a \<times> search_env \<Rightarrow> 'a iteration \<Rightarrow> bool" where
  "yieldsAll y sels st r \<longleftrightarrow>
     fst r = Inr (fst (runYield y sels (fst st))) \<and> fst (snd r) = snd (runYield y sels (fst st))"

lemma yieldsAll_append:
  assumes "yieldsAll y xs st (r, st')" and "\<not> fst (runYield y xs (fst st)) \<Longrightarrow> yieldsAll y ys st' r'"
  shows "yieldsAll y (xs @ ys) st (if r = Inr True then (Inr True, st') else r')"
  using assms by (auto simp: yieldsAll_def runYield_append)

lemma visitCombination_all:
  shows "\<forall>n. ctxErr X n = None \<Longrightarrow> yield = liftYield y \<Longrightarrow> int (length selected) \<le> cnt \<Longrightarrow>
      yieldsAll y (map ((@) selected) (combos (nat (cnt - int (length selected))) candidates)) st
        (visitCombination X cnt yield candidates selected st)"
    and "\<forall>n. ctxErr X n = None \<Longrightarrow> yield = liftYield y \<Longrightarrow> int (length selected) < cnt \<Longrightarrow>
      yieldsAll y (map ((@) selected) (combos (nat (cnt - int (length selected))) candidates)) st
        (combinationLoop X cnt yield candidates selected st)"
proof (induction X cnt yield candidates selected st and X cnt yield candidates selected st
    rule: visitCombination_combinationLoop.induct)
  case (1 X cnt yield candidates selected acc env)
  have poll: "(None, env\<lparr>envPolls := Suc (envPolls env)\<rparr>) = pollContext X env" using 1(2) by simp
  show ?case
  proof (cases "int (length selected) = cnt")
    case True
    then have "nat (cnt - int (length selected)) = 0" by simp
    then show ?thesis using True 1(2,3) by (simp add: yieldsAll_def liftYield_def)
  next
    case False
    then show ?thesis using 1(1) [OF poll refl False 1(2,3)] 1(2,4) by (simp add: yieldsAll_def)
  qed
next
  case (2 X cnt yield selected st)
  then obtain n where "nat (cnt - int (length selected)) = Suc n" by (cases "nat (cnt - int (length selected))") auto
  then show ?case by (simp add: yieldsAll_def)
next
  case (3 X cnt yield c candidates selected st)
  show ?case
  proof (cases "int (length (c # candidates)) < cnt - int (length selected)")
    case True
    then have "combos (nat (cnt - int (length selected))) (c # candidates) = []" by (intro combos_short) simp
    then show ?thesis using True by (simp add: yieldsAll_def)
  next
    case False
    obtain n where n: "nat (cnt - int (length selected)) = Suc n" "nat (cnt - int (length (selected @ [c]))) = n"
      using 3(5) by (cases "nat (cnt - int (length selected))") auto
    obtain r st' where visit: "visitCombination X cnt yield candidates (selected @ [c]) st = (r, st')" by (rule prod.exhaust)
    have first: "yieldsAll y (map (\<lambda>s. selected @ c # s) (combos n candidates)) st (r, st')"
      using 3(1) [OF False 3(3,4)] 3(5) visit n(2) by simp
    then obtain stopped where r: "r = Inr stopped" by (auto simp: yieldsAll_def)
    have "yieldsAll y (map ((@) selected) (combos (Suc n) candidates)) st'
        (combinationLoop X cnt yield candidates selected st')"
      if "\<not> fst (runYield y (map (\<lambda>s. selected @ c # s) (combos n candidates)) (fst st))"
      using 3(2) [OF False visit [symmetric] r _ 3(3-5)] that first r n(1) by (simp add: yieldsAll_def)
    from yieldsAll_append [OF first this] show ?thesis
      using False visit r n by (cases stopped) (simp_all add: comp_def)
  qed
qed

text \<open>
  C7. The combination loop is complete and in order: with a context that is not canceled,
  \<^verbatim>\<open>forEachDeviceCombination\<close> offers, in lexicographic order of positions, exactly the sublists of the
  candidates with the requested length, each once, and stops exactly when the closure says so. The
  pruning bound of the loop loses nothing.
\<close>

theorem forEachDeviceCombination_complete:
  fixes candidates :: "'c list"
  assumes "\<forall>n. ctxErr X n = None" and "0 \<le> cnt"
  shows "fst (forEachDeviceCombination X candidates cnt (liftYield y) (acc, env))
      = Inr (fst (runYield y (combos (nat cnt) candidates) acc)) \<and>
    fst (snd (forEachDeviceCombination X candidates cnt (liftYield y) (acc, env)))
      = snd (runYield y (combos (nat cnt) candidates) acc) \<and>
    set (combos (nat cnt) candidates) = {s. subseq s candidates \<and> int (length s) = cnt} \<and>
    length (combos (nat cnt) candidates) = length candidates choose nat cnt"
proof -
  have count: "length (combos n xs) = length xs choose n" for n and xs :: "'c list"
    by (induction n xs rule: combos.induct) auto
  have "map ((@) []) (combos (nat cnt) candidates) = combos (nat cnt) candidates" by (simp add: map_idI)
  with visitCombination_all(1) [OF assms(1) refl, of "[]" cnt y candidates "(acc, env)"] assms(2) count
  show ?thesis
    by (auto simp: forEachDeviceCombination_def yieldsAll_def set_combos simp del: visitCombination.simps)
qed

theorem forEachDeviceCombination_complete_witness:
  "fst (snd (forEachDeviceCombination \<lparr>ctxErr = (\<lambda>_. None), newUUID = (\<lambda>_. '''')\<rparr> [1, 2, 3::nat] 2
     (liftYield (\<lambda>sel acc. (False, acc @ [sel])))
     ([], \<lparr>envBudget = newConstraintSearchBudget 5, envUUIDs = 0, envPolls = 0\<rparr>)))
   = [[1, 2], [1, 3], [2, 3]]"
  using forEachDeviceCombination_complete [of "\<lparr>ctxErr = (\<lambda>_. None), newUUID = (\<lambda>_. '''')\<rparr>" 2 "[1, 2, 3::nat]"
      "\<lambda>sel acc. (False, acc @ [sel])" "[]"]
  by (simp add: numeral_2_eq_2)

context quantity
begin

lemma planConstrained_good:
  assumes "plannerFor Q den planner committed" and "coherentDevices (plSlices planner)"
    and "planConstrainedClaimAllocation X uuids polls planner claim constraints = (Inr plan, env)"
  shows "\<exists>state parts. plan = statePlan state \<and> ssDevices state = concat parts \<and>
    list_all2 (servesRequest den planner (resultKey ` set (committed @ map cdResult (ssDevices state))) (ssNodeName state)) (claimRequests claim) parts \<and>
    searchInv X Q den planner committed uuids (envUUIDs env) state \<and>
    matchConstraintsSatisfied constraints (ssDevices state) = Inr True \<and> uuids \<le> envUUIDs env"
proof -
  let ?state = "\<lparr>ssDevices = [], ssNodeName = '''', ssUsage = newAllocationAttemptUsage\<rparr>"
  let ?env = "\<lparr>envBudget = newConstraintSearchBudget maxConstraintSearchBranches, envUUIDs = uuids, envPolls = polls\<rparr>"
  have run: "searchConstrainedRequests X planner constraints (claimRequests claim) ?state ?env = (Inr (Some plan), env)"
    using assms(3) by (auto simp: planConstrainedClaimAllocation_def split: prod.splits sum.splits option.splits)
  have "searchInv X Q den planner committed uuids (envUUIDs ?env) ?state"
    using describesAttempt_new [OF quantity_axioms] by (simp add: searchInv_def AllocationResultsMaxSize_def)
  from searchConstrainedRequests_sound [OF assms(1,2), unfolded searchSound_def, rule_format, OF this _ _ run]
  show ?thesis by (auto simp: goodPlan_def)
qed

end

section \<open>Properties\<close>

lemma matchConstraintFrom_iff:
  "matchConstraintFrom constraint expected devices = Inr True \<longleftrightarrow>
     (\<exists>v. (\<forall>e. expected = Some e \<longrightarrow> v = e) \<and>
        (\<forall>device \<in> set devices. appliesTo constraint (resRequest (cdResult device)) \<longrightarrow>
           constrainedDeviceAttributeValue device (attributeName constraint) = Inr (Some v)))"
proof (induction devices arbitrary: expected)
  case Nil
  show ?case by (cases expected) auto
next
  case (Cons device devices)
  consider (skip) "\<not> appliesTo constraint (resRequest (cdResult device))"
    | (fail) f where "appliesTo constraint (resRequest (cdResult device))"
        "constrainedDeviceAttributeValue device (attributeName constraint) = Inl f"
    | (missing) "appliesTo constraint (resRequest (cdResult device))"
        "constrainedDeviceAttributeValue device (attributeName constraint) = Inr None"
    | (val) v where "appliesTo constraint (resRequest (cdResult device))"
        "constrainedDeviceAttributeValue device (attributeName constraint) = Inr (Some v)"
    by (metis old.sum.exhaust option.exhaust)
  then show ?case
  proof cases
    case (val v)
    then show ?thesis using Cons.IH [of "Some v"] by (cases expected) auto
  qed (use Cons.IH in auto)
qed

text \<open>
  C8. A \<^verbatim>\<open>MatchAttribute\<close> constraint is accepted exactly when the devices it applies to (all, or those of
  the named requests and of their subrequests) share one value of the attribute; a device that lacks the
  attribute, or has it only as a list, makes it fail.
\<close>

theorem matchConstraintsSatisfied_iff:
  "matchConstraintsSatisfied constraints devices = Inr True \<longleftrightarrow>
     (\<forall>constraint \<in> set constraints. \<exists>v. \<forall>device \<in> set devices.
        appliesTo constraint (resRequest (cdResult device)) \<longrightarrow>
        constrainedDeviceAttributeValue device (attributeName constraint) = Inr (Some v))"
proof (induction constraints)
  case (Cons constraint constraints)
  have "matchConstraintSatisfied constraint devices = Inr True \<longleftrightarrow> (\<exists>v. \<forall>device \<in> set devices.
        appliesTo constraint (resRequest (cdResult device)) \<longrightarrow>
        constrainedDeviceAttributeValue device (attributeName constraint) = Inr (Some v))"
    by (simp add: matchConstraintSatisfied_def matchConstraintFrom_iff)
  with Cons.IH show ?case by (cases "matchConstraintSatisfied constraint devices") auto
qed simp

theorem matchConstraintsSatisfied_iff_witness:
  "matchConstraintsSatisfied [\<lparr>attributeName = ''d/model'', requestNames = {''r''}\<rparr>]
     [\<lparr>cdResult = exampleExclusive,
       cdDevice = exampleDevice\<lparr>devAttributes := [(''model'', \<lparr>intValue = None, boolValue = None,
         stringValue = Some ''a100'', versionValue = None, intValues = [], boolValues = [], stringValues = [],
         versionValues = []\<rparr>)]\<rparr>\<rparr>] = Inr True"
  unfolding matchConstraintsSatisfied_iff
  by (simp add: constrainedDeviceAttributeValue_def lookupConstraintAttribute_def cutSlash_def
      scalarConstraintAttribute_def exampleExclusive_def)

text \<open>
  C2. A plan of the backtracking planner is sound. Let the committed results be consistent, the UUIDs
  drawn be new and well formed, and slices that describe the same device agree on its capacities. Then the
  plan has at most 32 results; together with the committed results it is consistent, so that no exclusive
  device is used twice and share IDs do not collide; the results split into one part per request, each on
  eligible slices of the plan's node, with the selectors and the capacity requirements of the request
  satisfied and the requested count; for \<^verbatim>\<open>All\<close> the part is not empty, comes from the current slices of the node, and every device
  of these that is allocated as a whole and matches is then in use, by the plan or by a claim that held it before; the claim's
  constraints hold; and on every device used as a share the sums stay within its capacities.
\<close>

theorem planConstrainedClaimAllocation_sound:
  assumes "quantity_laws Q den" and "plannerFor Q den planner committed"
    and "consistentResults den committed" and "coherentDevices (plSlices planner)"
    and "planConstrainedClaimAllocation X uuids polls planner claim constraints = (Inr plan, env)"
    and "freshUUIDs X committed uuids (envUUIDs env)"
  shows "int (length (planResults plan)) \<le> 32 \<and> consistentResults den (committed @ planResults plan) \<and>
    (\<exists>parts. planResults plan = map cdResult (concat parts) \<and>
       list_all2 (servesRequest den planner (resultKey ` set (committed @ planResults plan)) (planNodeName plan)) (claimRequests claim) parts \<and>
       matchConstraintsSatisfied constraints (concat parts) = Inr True \<and>
       (\<forall>cd \<in> set (concat parts). withinCapacity den (committed @ planResults plan) (cdKey cd) (cdDevice cd)))"
proof -
  have quantity: "quantity Q den" by (rule quantity.intro) (rule assms(1))
  from quantity.planConstrained_good [OF quantity assms(2,4,5)] obtain state parts where
    plan: "plan = statePlan state" "ssDevices state = concat parts"
      "list_all2 (servesRequest den planner (resultKey ` set (committed @ map cdResult (ssDevices state))) (ssNodeName state)) (claimRequests claim) parts"
      "matchConstraintsSatisfied constraints (ssDevices state) = Inr True"
    and inv: "searchInv X Q den planner committed uuids (envUUIDs env) state" by blast
  from searchInv_consistent [OF inv assms(6,3)] inv plan show ?thesis
    by (auto simp: statePlan_def searchInv_def AllocationResultsMaxSize_def simp del: set_concat)
qed

text \<open>
  A claim for 3 units of the shared device of which another claim holds 4: the plan is a share of 6.
\<close>

definition shareRequest :: "rat DeviceRequest" where
  "shareRequest =
     \<lparr>drName = ''r'',
      drExactly = Some \<lparr>exDeviceClassName = ''class'', exSelectors = [], exAllocationMode = ModeExactCount,
                        exCount = 1, exAdminAccess = None, exTolerations = [], exCapacity = Some [(''m'', 3)]\<rparr>,
      drFirstAvailable = []\<rparr>"

definition sharePlanner :: "rat claimPlanner" where
  "sharePlanner =
     newClaimPlanner exact_quantity acceptingCEL
       [exampleClaim [exampleShare CHR ''a'' 4], pendingClaim [shareRequest] []] [exampleSlice]
       [''class'' \<mapsto> \<lparr>className = ''class'', classSelectors = [\<lparr>selCEL = Some ''true''\<rparr>]\<rparr>] exampleUsage"

definition exampleContext :: search_context where
  "exampleContext = \<lparr>ctxErr = (\<lambda>_. None), newUUID = (\<lambda>_. exampleShareID CHR ''b'')\<rparr>"

definition shareInput :: "rat selectionInput" where
  "shareInput =
     \<lparr>inAlternative = \<lparr>altRequestName = ''r'', altDeviceClassName = ''class'', altSelectors = [],
        altMode = ModeExactCount, altCount = 1, altCapacity = Some [(''m'', 3)]\<rparr>,
      inDeviceClass = \<lparr>className = ''class'', classSelectors = [\<lparr>selCEL = Some ''true''\<rparr>]\<rparr>,
      inAllocatedNodeName = '''', inMaxResults = 32\<rparr>"

lemma example_constrained_candidate:
  "evaluateConstrainedCandidate exampleContext sharePlanner shareInput exampleSlice exampleDevice
     newAllocationAttemptUsage {} 0
   = (Inr (Some \<lparr>cdResult = exampleShare CHR ''b'' 6, cdDevice = exampleDevice\<rparr>),
      {deviceIdentityKey ''d'' ''p'' ''gpu''}, 1)"
proof -
  have "Matches acceptingCEL (sliceDriver exampleSlice) exampleDevice [[\<lparr>selCEL = Some ''true''\<rparr>], []] = Inr True"
    by (simp add: Matches_def acceptingCEL_def)
  moreover have "unsupportedSliceFailure exampleSlice = None" "unsupportedDeviceFailure exampleDevice = None"
    by (simp_all add: unsupportedSliceFailure_def unsupportedDeviceFailure_def exampleSlice_def exampleDevice_def)
  ultimately show ?thesis using example_candidate
    by (simp add: evaluateConstrainedCandidate_def sharePlanner_def shareInput_def newClaimPlanner_def exampleContext_def)
qed

lemma example_exact_candidates:
  "collectConstrainedExactCandidates exampleContext sharePlanner shareInput newAllocationAttemptUsage 0
   = (Inr \<lparr>ccNodeOrder = [''node''], ccByNode = (\<lambda>_. [])(''node'' := [\<lparr>cdResult = exampleShare CHR ''b'' 6,
      cdDevice = exampleDevice\<rparr>])\<rparr>, 1)"
proof -
  have "constrainedSliceNode exampleSlice '''' = Some ''node''"
    by (simp add: constrainedSliceNode_def eligibleSimulatorSlice_def managedSimulatorSlice_def unhealthySlice_def
        sliceLabel_def compatibleNodeName_def exampleSlice_def gomap_get_def)
  moreover have "collectConstrainedSliceDevices exampleContext sharePlanner shareInput exampleSlice
      newAllocationAttemptUsage {} 0 = (Inr [\<lparr>cdResult = exampleShare CHR ''b'' 6, cdDevice = exampleDevice\<rparr>],
      {deviceIdentityKey ''d'' ''p'' ''gpu''}, 1)"
    using example_constrained_candidate
    by (simp add: collectConstrainedSliceDevices_def exampleSlice_def)
  moreover have "plSlices sharePlanner = [exampleSlice]" "inAllocatedNodeName shareInput = ''''"
    by (simp_all add: sharePlanner_def newClaimPlanner_def shareInput_def)
  ultimately show ?thesis by (simp add: collectConstrainedExactCandidates_def)
qed

lemma example_share_plan:
  "planConstrainedClaimAllocation exampleContext 0 0 sharePlanner (pendingClaim [shareRequest] []) [] =
     (Inr \<lparr>planResults = [exampleShare CHR ''b'' 6], planNodeName = ''node''\<rparr>,
      \<lparr>envBudget = \<lparr>budLimit = 100000, budRemaining = 99999\<rparr>, envUUIDs = 1, envPolls = 4\<rparr>)"
proof -
  have alts: "supportedAlternatives exact_quantity shareRequest = Inr [inAlternative shareInput]"
    by (simp add: example_request_defs shareRequest_def shareInput_def)
  have cls: "plClasses sharePlanner (altDeviceClassName (inAlternative shareInput)) = Some (inDeviceClass shareInput)"
    "plQuantity sharePlanner = exact_quantity"
    by (simp_all add: sharePlanner_def newClaimPlanner_def shareInput_def)
  have input: "\<lparr>inAlternative = inAlternative shareInput, inDeviceClass = inDeviceClass shareInput,
      inAllocatedNodeName = '''', inMaxResults = 32\<rparr> = shareInput"
    "altMode (inAlternative shareInput) = ModeExactCount" "altCount (inAlternative shareInput) = 1"
    by (simp_all add: shareInput_def)
  have ctx: "ctxErr exampleContext n = None" for n by (simp add: exampleContext_def)
  show ?thesis
    by (simp add: planConstrainedClaimAllocation_def searchConstrainedRequests.simps pendingClaim_def ctx
        forEachConstrainedRequestSelection_def alts cls forEachConstrainedAlternative_def input
        AllocationResultsMaxSize_def forEachConstrainedExactSelection_def example_exact_candidates
        newConstraintSearchBudget_def maxConstraintSearchBranches_def Let_def forEachDeviceCombination_def
        searchYield_def consume_def withSelection_def statePlan_def)
qed

theorem planConstrainedClaimAllocation_sound_witness:
  "consistentResults (\<lambda>a. a) ([exampleShare CHR ''a'' 4] @ [exampleShare CHR ''b'' 6]) \<and>
   (\<exists>parts. [exampleShare CHR ''b'' 6] = map cdResult (concat parts) \<and>
     list_all2 (servesRequest (\<lambda>a. a) sharePlanner (resultKey ` set ([exampleShare CHR ''a'' 4] @ [exampleShare CHR ''b'' 6])) ''node'') [shareRequest] parts \<and>
     (\<forall>cd \<in> set (concat parts). withinCapacity (\<lambda>a. a) ([exampleShare CHR ''a'' 4] @ [exampleShare CHR ''b'' 6])
        (cdKey cd) (cdDevice cd)))"
proof -
  have planner: "plannerFor exact_quantity (\<lambda>a. a) sharePlanner [exampleShare CHR ''a'' 4]"
    using exampleUsage_describes
    by (simp add: plannerFor_def capacitiesWf_def sharePlanner_def newClaimPlanner_def exampleSlice_def exampleDevice_def)
  have "consistentResults (\<lambda>a. a) [exampleShare CHR ''a'' 4]"
    by (simp add: consistentResults_def validResult_def exampleShareID_normalized)
  moreover have "coherentDevices (plSlices sharePlanner)"
    by (simp add: coherentDevices_def sharePlanner_def newClaimPlanner_def exampleSlice_def)
  moreover have "freshUUIDs exampleContext [exampleShare CHR ''a'' 4] 0 1"
    by (simp add: freshUUIDs_def exampleContext_def exampleShareID_normalized inj_on_def)
  ultimately show ?thesis
    using planConstrainedClaimAllocation_sound [OF exact_quantity_laws planner _ _ example_share_plan]
    by (fastforce simp: pendingClaim_def)
qed

end
