(* ===== verification/Allocation.thy ===== *)
theory Allocation
  imports Allocation_Constraints
begin

text \<open>
  Allocation of the pending claims, \<^verbatim>\<open>internal/simulator/allocation.go\<close>, with \<^verbatim>\<open>planClaimAllocation\<close> of
  \<^verbatim>\<open>allocation_plan.go\<close>, which chooses the planner.

  The Kubernetes API server is outside the repository: an \<open>'q cluster_api\<close> holds what the list calls return
  and the answer to each status update, in order. The fields of the \<^verbatim>\<open>Reconciler\<close> that the functions change
  are in \<open>'q reconcilerState\<close>, with the UUIDs drawn and the context polls so far; \<^verbatim>\<open>fmt.Printf\<close> is left out.
\<close>

section \<open>State\<close>

record search_clock =
  clkUUIDs :: nat
  clkPolls :: nat

record 'q cluster_api =
  apiListClaims :: "string + 'q ResourceClaim list"
  apiListSlices :: "string + 'q ResourceSlice list"
  apiListClasses :: "string + DeviceClass list"
  apiUpdateStatus :: "nat \<Rightarrow> 'q ResourceClaim \<Rightarrow> string + 'q ResourceClaim"

record 'q allocationSyncState =
  syncClaims :: "'q ResourceClaim list"
  syncSlices :: "'q ResourceSlice list"
  syncClasses :: "string \<rightharpoonup> DeviceClass"

datatype allocation_error =
    ListClaimsError string
  | ListSlicesError string
  | ListClassesError string
  | UpdateClaimStatusError string string string

datatype allocation_event =
    AllocationFailed string string failure_reason failure_message
  | AllocationStatusUpdateFailed string string string

record reconcilerState =
  recClock :: search_clock
  recUpdates :: nat
  recAllocationsSimulated :: int64
  recEvents :: "allocation_event list"

section \<open>Planning\<close>

definition planClaimAllocation ::
  "'q quantity_api \<Rightarrow> 'q cel_api \<Rightarrow> search_context \<Rightarrow> 'q ResourceClaim \<Rightarrow> 'q ResourceClaim list \<Rightarrow>
   'q ResourceSlice list \<Rightarrow> (string \<rightharpoonup> DeviceClass) \<Rightarrow> search_clock \<Rightarrow>
   (allocationFailure + 'q allocationPlan) \<times> search_clock" where
  "planClaimAllocation Q evaluator X claim claims slices classes clock =
     (case supportedMatchAttributeConstraints claim of
        Inl failure \<Rightarrow> (Inl failure, clock)
      | Inr constraints \<Rightarrow>
          (case collectCommittedAllocationUsage Q claims of
             Inl failure \<Rightarrow> (Inl failure, clock)
           | Inr committedUsage \<Rightarrow>
               (let useBacktrackingPlanner =
                      constraints \<noteq> [] \<or> hasManagedShareableDevice slices \<or> hasShared committedUsage;
                    planner = newClaimPlanner Q evaluator claims slices classes committedUsage
                in if useBacktrackingPlanner
                   then (case planConstrainedClaimAllocation X (clkUUIDs clock) (clkPolls clock) planner claim constraints of
                           (result, env) \<Rightarrow> (result, \<lparr>clkUUIDs = envUUIDs env, clkPolls = envPolls env\<rparr>))
                   else (planUnconstrainedClaimAllocation planner claim, clock))))"

definition claimWithAllocationPlan ::
  "'q ResourceClaim \<Rightarrow> 'q allocationPlan \<Rightarrow> 'q ResourceClaim" where
  "claimWithAllocationPlan claim plan =
     claim\<lparr>claimAllocation := Some
       \<lparr>allocResults = planResults plan,
        allocNodeSelector =
          (if planNodeName plan = '''' then None
           else Some [\<lparr>matchFields = [\<lparr>req_key = ''metadata.name'', req_operator = ''In'',
                                       req_values = [planNodeName plan]\<rparr>],
                       matchExpressions = []\<rparr>])\<rparr>\<rparr>"

text \<open>\<^verbatim>\<open>recorder\<close> says whether \<^verbatim>\<open>r.eventRecorder\<close> is set.\<close>

definition recordAllocationFailure ::
  "bool \<Rightarrow> 'q ResourceClaim \<Rightarrow> allocationFailure \<Rightarrow> reconcilerState \<Rightarrow> reconcilerState" where
  "recordAllocationFailure recorder claim failure r =
     (if recorder
      then r\<lparr>recEvents := recEvents r @
             [AllocationFailed (claimNamespace claim) (claimName claim) (failReason failure) (failMessage failure)]\<rparr>
      else r)"

definition simulatePendingClaim ::
  "'q quantity_api \<Rightarrow> 'q cel_api \<Rightarrow> search_context \<Rightarrow> 'q cluster_api \<Rightarrow> bool \<Rightarrow>
   'q ResourceClaim \<Rightarrow> 'q allocationSyncState \<Rightarrow> reconcilerState \<Rightarrow>
   (allocation_error + 'q ResourceClaim option) \<times> reconcilerState" where
  "simulatePendingClaim Q evaluator X api recorder claim state r =
     (if claimAllocation claim \<noteq> None \<or> claimRequests claim = [] then (Inr None, r)
      else case planClaimAllocation Q evaluator X claim (syncClaims state) (syncSlices state)
                  (syncClasses state) (recClock r) of
        (Inl failure, clock) \<Rightarrow> (Inr None, recordAllocationFailure recorder claim failure (r\<lparr>recClock := clock\<rparr>))
      | (Inr plan, clock) \<Rightarrow>
          (let r1 = r\<lparr>recClock := clock\<rparr>
           in if planResults plan = [] then (Inr None, r1)
              else let r2 = r1\<lparr>recUpdates := Suc (recUpdates r1)\<rparr>
              in case apiUpdateStatus api (recUpdates r1) (claimWithAllocationPlan claim plan) of
                   Inl err \<Rightarrow>
                     (Inl (UpdateClaimStatusError (claimNamespace claim) (claimName claim) err),
                      if recorder
                      then r2\<lparr>recEvents := recEvents r2 @
                              [AllocationStatusUpdateFailed (claimNamespace claim) (claimName claim) err]\<rparr>
                      else r2)
                 | Inr updatedClaim \<Rightarrow>
                     (Inr (Some updatedClaim),
                      r2\<lparr>recAllocationsSimulated := recAllocationsSimulated r2 + 1\<rparr>)))"

text \<open>
  The loop of \<^verbatim>\<open>SimulateAllocation\<close>: \<open>processed\<close> are the claims before the index, the others follow.
\<close>

fun simulateClaims ::
  "'q quantity_api \<Rightarrow> 'q cel_api \<Rightarrow> search_context \<Rightarrow> 'q cluster_api \<Rightarrow> bool \<Rightarrow>
   'q ResourceClaim list \<Rightarrow> 'q ResourceClaim list \<Rightarrow> 'q allocationSyncState \<Rightarrow> reconcilerState \<Rightarrow>
   allocation_error option \<times> 'q allocationSyncState \<times> reconcilerState" where
  "simulateClaims Q evaluator X api recorder processed [] state r = (None, state, r)"
| "simulateClaims Q evaluator X api recorder processed (claim # rest) state r =
     (case simulatePendingClaim Q evaluator X api recorder claim state r of
        (Inl err, r') \<Rightarrow> (Some err, state, r')
      | (Inr None, r') \<Rightarrow> simulateClaims Q evaluator X api recorder (processed @ [claim]) rest state r'
      | (Inr (Some updated), r') \<Rightarrow>
          simulateClaims Q evaluator X api recorder (processed @ [updated]) rest
            (state\<lparr>syncClaims := processed @ updated # rest\<rparr>) r')"

definition classMap :: "DeviceClass list \<Rightarrow> string \<rightharpoonup> DeviceClass" where
  "classMap items = fold (\<lambda>deviceClass m. m(className deviceClass \<mapsto> deviceClass)) items Map.empty"

definition loadAllocationSyncState :: "'q cluster_api \<Rightarrow> allocation_error + 'q allocationSyncState" where
  "loadAllocationSyncState api =
     (case apiListClaims api of
        Inl err \<Rightarrow> Inl (ListClaimsError err)
      | Inr claims \<Rightarrow>
          (case apiListSlices api of
             Inl err \<Rightarrow> Inl (ListSlicesError err)
           | Inr slices \<Rightarrow>
               (case apiListClasses api of
                  Inl err \<Rightarrow> Inl (ListClassesError err)
                | Inr classes \<Rightarrow>
                    Inr \<lparr>syncClaims = claims, syncSlices = slices, syncClasses = classMap classes\<rparr>)))"

definition SimulateAllocation ::
  "'q quantity_api \<Rightarrow> 'q cel_api \<Rightarrow> search_context \<Rightarrow> 'q cluster_api \<Rightarrow> bool \<Rightarrow> reconcilerState \<Rightarrow>
   allocation_error option \<times> 'q allocationSyncState option \<times> reconcilerState" where
  "SimulateAllocation Q evaluator X api recorder r =
     (case loadAllocationSyncState api of
        Inl err \<Rightarrow> (Some err, None, r)
      | Inr state \<Rightarrow>
          (case simulateClaims Q evaluator X api recorder [] (syncClaims state) state r of
             (err, state', r') \<Rightarrow> (err, Some state', r')))"

section \<open>The allocation protocol\<close>

text \<open>
  The run of \<^verbatim>\<open>SimulateAllocation\<close> as a sequence of steps on the claims and the clock: a planning attempt
  that leaves the claims as they are, or one whose plan is written to a claim without an allocation.
\<close>

type_synonym 'q claim_planner_fun =
  "'q ResourceClaim \<Rightarrow> 'q ResourceClaim list \<Rightarrow> search_clock \<Rightarrow> (allocationFailure + 'q allocationPlan) \<times> search_clock"

inductive allocation_step ::
  "'q claim_planner_fun \<Rightarrow> 'q ResourceClaim list \<times> search_clock \<Rightarrow> 'q ResourceClaim list \<times> search_clock \<Rightarrow> bool"
  for planOf where
  attempt: "planOf claim claims clock = (res, clock') \<Longrightarrow>
    allocation_step planOf (claims, clock) (claims, clock')"
| allocate: "planOf claim (processed @ claim # rest) clock = (Inr plan, clock') \<Longrightarrow> claimAllocation claim = None \<Longrightarrow>
    claimAllocation updated = Some allocation \<Longrightarrow> allocResults allocation = planResults plan \<Longrightarrow>
    allocation_step planOf (processed @ claim # rest, clock) (processed @ updated # rest, clock')"


text \<open>
  The interface between the protocol and a planner: what the claims hold stays safe when a plan is added,
  and safety does not depend on the order of the results.
\<close>

locale safe_planner =
  fixes planOf :: "'q claim_planner_fun"
    and safe :: "'q DeviceRequestAllocationResult list \<Rightarrow> search_clock \<Rightarrow> bool"
  assumes safe_order: "mset rs = mset rs' \<Longrightarrow> safe rs clock \<Longrightarrow> safe rs' clock"
    and attempt_safe: "safe (committedResults claims) clock \<Longrightarrow> planOf claim claims clock = (res, clock') \<Longrightarrow>
      safe (committedResults claims) clock'"
    and plan_safe: "safe (committedResults claims) clock \<Longrightarrow> planOf claim claims clock = (Inr plan, clock') \<Longrightarrow>
      safe (committedResults claims @ planResults plan) clock'"
begin

lemma step_safe:
  assumes "allocation_step planOf (claims, clock) (claims', clock')" and "safe (committedResults claims) clock"
  shows "safe (committedResults claims') clock'"
  using assms(1)
proof (cases rule: allocation_step.cases)
  case (attempt claim res)
  then show ?thesis using attempt_safe assms(2) by blast
next
  case (allocate claim processed rest plan updated allocation)
  have "safe (committedResults claims @ planResults plan) clock'"
    using plan_safe [OF assms(2)] allocate by blast
  moreover have "mset (committedResults claims @ planResults plan) = mset (committedResults claims')"
    using allocate by simp
  ultimately show ?thesis using safe_order by blast
qed

lemma steps_safe:
  assumes "(allocation_step planOf)\<^sup>*\<^sup>* s s'" and "safe (committedResults (fst s)) (snd s)"
  shows "safe (committedResults (fst s')) (snd s')"
  using assms
proof (induction rule: rtranclp_induct)
  case (step s1 s2)
  then show ?case using step_safe [of "fst s1" "snd s1" "fst s2" "snd s2"] by simp
qed simp

end

text \<open>What the status update has to return: the claim with the allocation that was written.\<close>

definition statusLaw :: "'q cluster_api \<Rightarrow> bool" where
  "statusLaw api \<longleftrightarrow>
     (\<forall>n claim updated. apiUpdateStatus api n claim = Inr updated \<longrightarrow> claimAllocation updated = claimAllocation claim)"

lemma simulatePendingClaim_cases:
  assumes "simulatePendingClaim Q evaluator X api recorder claim state r = (res, r')"
  obtains (skip) "res = Inr None" "r' = r"
    | (tried) out where "planClaimAllocation Q evaluator X claim (syncClaims state) (syncSlices state)
        (syncClasses state) (recClock r) = (out, recClock r')" "\<And>updated. res \<noteq> Inr (Some updated)"
    | (written) plan n updated where "claimAllocation claim = None"
        "planClaimAllocation Q evaluator X claim (syncClaims state) (syncSlices state)
          (syncClasses state) (recClock r) = (Inr plan, recClock r')"
        "apiUpdateStatus api n (claimWithAllocationPlan claim plan) = Inr updated" "res = Inr (Some updated)"
proof (cases "claimAllocation claim \<noteq> None \<or> claimRequests claim = []")
  case True
  then show ?thesis using assms skip by (simp add: simulatePendingClaim_def)
next
  case False
  obtain out clock where run: "planClaimAllocation Q evaluator X claim (syncClaims state) (syncSlices state)
      (syncClasses state) (recClock r) = (out, clock)" by (rule prod.exhaust)
  have clock: "recClock r' = clock"
    using assms False run
    by (auto simp: simulatePendingClaim_def recordAllocationFailure_def Let_def split: sum.splits if_splits)
  show ?thesis
  proof (cases "\<exists>updated. res = Inr (Some updated)")
    case False
    then show ?thesis using tried [of out] run clock by simp
  next
    case True
    then obtain plan updated where "out = Inr plan" "res = Inr (Some updated)"
      "apiUpdateStatus api (recUpdates r) (claimWithAllocationPlan claim plan) = Inr updated"
      using assms False run by (auto simp: simulatePendingClaim_def Let_def split: sum.splits if_splits)
    then show ?thesis using written [of plan "recUpdates r" updated] run clock False by simp
  qed
qed

lemma simulateClaims_steps:
  assumes "statusLaw api" and "syncClaims state = processed @ todo"
    and "simulateClaims Q evaluator X api recorder processed todo state r = (err, state', r')"
  shows "(allocation_step (\<lambda>claim claims. planClaimAllocation Q evaluator X claim claims
      (syncSlices state) (syncClasses state)))\<^sup>*\<^sup>* (syncClaims state, recClock r) (syncClaims state', recClock r')
    \<and> syncSlices state' = syncSlices state"
  using assms(2,3)
proof (induction todo arbitrary: processed state r)
  case (Cons claim todo)
  let ?step = "allocation_step (\<lambda>claim claims. planClaimAllocation Q evaluator X claim claims
      (syncSlices state) (syncClasses state))"
  obtain res r1 where run: "simulatePendingClaim Q evaluator X api recorder claim state r = (res, r1)"
    by (rule prod.exhaust)
  from run show ?case
  proof (cases rule: simulatePendingClaim_cases)
    case skip
    then show ?thesis using Cons.IH [of state "processed @ [claim]" r] Cons.prems run by simp
  next
    case (tried out)
    have step: "?step (syncClaims state, recClock r) (syncClaims state, recClock r1)"
      using tried(1) by (rule allocation_step.attempt)
    show ?thesis
    proof (cases res)
      case (Inl e)
      then show ?thesis using Cons.prems(2) run step by auto
    next
      case (Inr opt)
      then have "opt = None" using tried(2) by (cases opt) auto
      then have "?step\<^sup>*\<^sup>* (syncClaims state, recClock r1) (syncClaims state', recClock r')
          \<and> syncSlices state' = syncSlices state"
        using Cons.IH [of state "processed @ [claim]" r1] Cons.prems run Inr by simp
      then show ?thesis using converse_rtranclp_into_rtranclp [of ?step, OF step] by blast
    qed
  next
    case (written plan n updated)
    let ?state = "state\<lparr>syncClaims := processed @ updated # todo\<rparr>"
    have "claimAllocation updated = claimAllocation (claimWithAllocationPlan claim plan)"
      using assms(1) written(3) unfolding statusLaw_def by blast
    then obtain a where "claimAllocation updated = Some a" "allocResults a = planResults plan"
      by (simp add: claimWithAllocationPlan_def)
    then have step: "?step (processed @ claim # todo, recClock r) (processed @ updated # todo, recClock r1)"
      using written(1,2) Cons.prems(1) by (intro allocation_step.allocate [of _ claim processed todo "recClock r" plan]) auto
    have "?step\<^sup>*\<^sup>* (processed @ updated # todo, recClock r1) (syncClaims state', recClock r')
        \<and> syncSlices state' = syncSlices state"
      using Cons.IH [of ?state "processed @ [updated]" r1] Cons.prems run written(4) by simp
    then show ?thesis using converse_rtranclp_into_rtranclp [of ?step, OF step] Cons.prems(1) by auto
  qed
qed simp

section \<open>Safety of the planners\<close>

definition plainResult :: "'q DeviceRequestAllocationResult \<Rightarrow> bool" where
  "plainResult r \<longleftrightarrow> CHR 0x00 \<notin> set (resDriver r) \<and> CHR 0x00 \<notin> set (resPool r)"

definition plainSlice :: "'q ResourceSlice \<Rightarrow> bool" where
  "plainSlice sl \<longleftrightarrow> CHR 0x00 \<notin> set (sliceDriver sl) \<and> CHR 0x00 \<notin> set (poolName sl)"

definition capacityRespected ::
  "('q \<Rightarrow> rat) \<Rightarrow> 'q ResourceSlice list \<Rightarrow> 'q DeviceRequestAllocationResult list \<Rightarrow> bool" where
  "capacityRespected den slices rs \<longleftrightarrow>
     (\<forall>sl \<in> set slices. \<forall>device \<in> set (sliceDevices sl). withinCapacity den rs (deviceKey sl device) device)"

text \<open>What is assumed of the slices, and what is safe about the results that claims hold.\<close>

definition slicesOk :: "'q quantity_api \<Rightarrow> ('q \<Rightarrow> rat) \<Rightarrow> 'q ResourceSlice list \<Rightarrow> bool" where
  "slicesOk Q den slices \<longleftrightarrow>
     quantity_laws Q den \<and> capacitiesWf slices \<and> coherentDevices slices \<and> list_all plainSlice slices"

definition resultsSafe ::
  "search_context \<Rightarrow> ('q \<Rightarrow> rat) \<Rightarrow> 'q ResourceSlice list \<Rightarrow> nat \<Rightarrow> nat \<Rightarrow>
   'q DeviceRequestAllocationResult list \<Rightarrow> bool" where
  "resultsSafe X den slices u n rs \<longleftrightarrow>
     list_all plainResult rs \<and> consistentResults den rs \<and> capacityRespected den slices rs \<and>
     freshUUIDs X rs u n"

definition safeAt ::
  "'q quantity_api \<Rightarrow> ('q \<Rightarrow> rat) \<Rightarrow> search_context \<Rightarrow> 'q ResourceSlice list \<Rightarrow> nat \<Rightarrow>
   'q DeviceRequestAllocationResult list \<Rightarrow> search_clock \<Rightarrow> bool" where
  "safeAt Q den X slices n rs clock \<longleftrightarrow>
     slicesOk Q den slices \<and> (clkUUIDs clock \<le> n \<longrightarrow> resultsSafe X den slices (clkUUIDs clock) n rs)"

lemma consumedTotal_mset:
  assumes "mset rs = mset rs'"
  shows "consumedTotal den rs key name = consumedTotal den rs' key name"
proof -
  let ?f = "\<lambda>r. if resultKey r = key then amountIn den (resultAmounts r) name else 0"
  have "consumedTotal den xs key name = (\<Sum>r \<in># mset xs. ?f r)" for xs by (induction xs) auto
  with assms show ?thesis by simp
qed

lemma resultsSafe_mset:
  assumes "mset rs = mset rs'" and "resultsSafe X den slices u n rs"
  shows "resultsSafe X den slices u n rs'"
  using assms(2) consistentResults_mset [OF assms(1)] mset_eq_setD [OF assms(1)] consumedTotal_mset [OF assms(1)]
  by (auto simp: resultsSafe_def capacityRespected_def withinCapacity_def freshUUIDs_def list_all_iff)

lemma freshUUIDs_sub: "freshUUIDs X rs u n \<Longrightarrow> u \<le> u' \<Longrightarrow> n' \<le> n \<Longrightarrow> freshUUIDs X rs u' n'"
  unfolding freshUUIDs_def by (auto intro: inj_on_subset)

lemma freshUUIDs_append:
  assumes "freshUUIDs X rs u n" and "list_all (shareShape X den u u') rs'" and "u \<le> u'" and "u' \<le> n"
  shows "freshUUIDs X (rs @ rs') u' n"
proof -
  have "resShareID r \<noteq> Some (newUUID X k)" if r: "r \<in> set rs'" and k: "k \<in> {u'..<n}" for r k
  proof
    assume "resShareID r = Some (newUUID X k)"
    with assms(2) r obtain j where "j \<in> {u..<u'}" "newUUID X j = newUUID X k"
      by (fastforce simp: list_all_iff shareShape_def)
    moreover have "inj_on (newUUID X) {u..<n}" using assms(1) by (simp add: freshUUIDs_def)
    ultimately show False using k assms(3,4) inj_onD [of "newUUID X" "{u..<n}" j k] by auto
  qed
  with freshUUIDs_sub [OF assms(1,3) order_refl] show ?thesis unfolding freshUUIDs_def by auto
qed

text \<open>Adding results that are safe beside the others.\<close>

lemma resultsSafe_append:
  assumes "resultsSafe X den slices u n rs" and "u \<le> u'" and "u' \<le> n"
    and "consistentResults den (rs @ rs')" and "list_all plainResult rs'"
    and "list_all (shareShape X den u u') rs'" and "capacityRespected den slices (rs @ rs')"
  shows "resultsSafe X den slices u' n (rs @ rs')"
  using assms freshUUIDs_append [OF _ assms(6,2,3)] by (simp add: resultsSafe_def)

subsection \<open>First-fit plans\<close>

lemma isDeviceAllocated_iff:
  "isDeviceAllocated claims d p n \<longleftrightarrow>
     (\<exists>r \<in> set (committedResults claims). resDriver r = d \<and> resPool r = p \<and> resDevice r = n)"
  by (induction claims) (auto simp: isDeviceAllocated_def list_ex_iff split: option.splits)

lemma capacityRespected_exclusive:
  assumes "capacityRespected den slices rs" and "\<forall>r \<in> set rs'. resConsumedCapacity r = None"
  shows "capacityRespected den slices (rs @ rs')"
proof -
  have "consumedTotal den rs' key name = 0" for key name
    using assms(2) by (induction rs') (auto simp: resultAmounts_def)
  then show ?thesis using assms(1) by (simp add: capacityRespected_def withinCapacity_def)
qed

lemma planUnconstrained_placed:
  assumes "planUnconstrainedClaimAllocation planner claim = Inr plan" and "r \<in> set (planResults plan)"
  shows "\<exists>sl \<in> set (plSlices planner). resDriver r = sliceDriver sl \<and> resPool r = poolName sl"
proof -
  from planUnconstrained_parts [OF assms(1)] assms(2) obtain parts part where
    all: "list_all2 (requestMet planner (planNodeName plan)) (claimRequests claim) parts"
    and part: "part \<in> set parts" "r \<in> set part" by auto
  then obtain request where "requestMet planner (planNodeName plan) request part"
    by (auto simp: list_all2_conv_all_nth in_set_conv_nth)
  with part(2) obtain alternative deviceClass where
    "justified planner alternative deviceClass (planNodeName plan) r" unfolding requestMet_def by blast
  then show ?thesis by (auto simp: justified_def exclusiveResult_def)
qed

lemma planUnconstrained_safe:
  assumes "slicesOk Q den (plSlices planner)" and "u \<le> n"
    and "resultsSafe X den (plSlices planner) u n (committedResults (plClaims planner))"
    and "planUnconstrainedClaimAllocation planner claim = Inr plan"
  shows "resultsSafe X den (plSlices planner) u n (committedResults (plClaims planner) @ planResults plan)"
proof -
  let ?rs = "committedResults (plClaims planner)"
  note free = planUnconstrained_free [OF assms(4)]
  have plain: "plainResult r" if "r \<in> set (planResults plan)" for r
    using planUnconstrained_placed [OF assms(4) that] assms(1)
    by (auto simp: plainResult_def slicesOk_def list_all_iff plainSlice_def)
  have "resultKey r \<noteq> resultKey r'" if r: "r \<in> set ?rs" and r': "r' \<in> set (planResults plan)" for r r'
  proof
    assume "resultKey r = resultKey r'"
    moreover have "plainResult r" using assms(3) r by (simp add: resultsSafe_def list_all_iff)
    ultimately have "resDriver r = resDriver r' \<and> resPool r = resPool r' \<and> resDevice r = resDevice r'"
      using plain [OF r'] by (intro deviceIdentityKey_inject) (simp_all add: plainResult_def resultKey_def)
    with r have "isDeviceAllocated (plClaims planner) (resDriver r') (resPool r') (resDevice r')"
      by (auto simp: isDeviceAllocated_iff)
    with free(4) [OF r'] show False by simp
  qed
  moreover have "distinct (map resultKey (planResults plan))" using planUnconstrained_parts [OF assms(4)] by simp
  then have "sorted_wrt compatibleResults (planResults plan)"
    by (simp add: sorted_wrt_iff_nth_less compatibleResults_def distinct_conv_nth)
  moreover have "list_all (validResult den) (planResults plan)"
    using free(2,3) by (auto simp: list_all_iff validResult_def)
  ultimately have "consistentResults den (?rs @ planResults plan)"
    using assms(3) unfolding consistentResults_append resultsSafe_def
    by (auto simp: consistentResults_def compatibleResults_def)
  moreover have "capacityRespected den (plSlices planner) (?rs @ planResults plan)"
    using assms(3) free(3) by (intro capacityRespected_exclusive) (simp_all add: resultsSafe_def)
  ultimately show ?thesis
    using plain free(2,3)
    by (intro resultsSafe_append [OF assms(3) order_refl assms(2)]) (auto simp: list_all_iff shareShape_def)
qed

subsection \<open>Backtracking plans\<close>

lemma planConstrained_uuids:
  assumes "quantity Q den" and "plannerFor Q den planner committed" and "coherentDevices (plSlices planner)"
    and "planConstrainedClaimAllocation X uuids polls planner claim constraints = (res, env)"
  shows "uuids \<le> envUUIDs env"
proof -
  let ?state = "\<lparr>ssDevices = [], ssNodeName = '''', ssUsage = newAllocationAttemptUsage\<rparr>"
  let ?env = "\<lparr>envBudget = newConstraintSearchBudget maxConstraintSearchBranches, envUUIDs = uuids, envPolls = polls\<rparr>"
  obtain r where run: "searchConstrainedRequests X planner constraints (claimRequests claim) ?state ?env = (r, env)"
    using assms(4)
    by (cases "searchConstrainedRequests X planner constraints (claimRequests claim) ?state ?env")
      (auto simp: planConstrainedClaimAllocation_def split: sum.splits option.splits)
  have "searchInv X Q den planner committed uuids (envUUIDs ?env) ?state"
    using describesAttempt_new [OF assms(1)] by (simp add: searchInv_def AllocationResultsMaxSize_def)
  from quantity.searchConstrainedRequests_sound [OF assms(1-3), unfolded searchSound_def, rule_format, OF this _ _ run]
  show ?thesis by simp
qed

lemma searchInv_plain:
  assumes "searchInv X Q den planner committed m n state" and "list_all plainSlice (plSlices planner)"
  shows "list_all plainResult (map cdResult (ssDevices state))"
proof -
  have "plainResult (cdResult cd)" if cd: "cd \<in> set (ssDevices state)" for cd
  proof -
    obtain sl where "sl \<in> set (plSlices planner)" "resultAt sl (cdDevice cd) (cdResult cd)"
      using assms(1) cd unfolding searchInv_def by blast
    then show ?thesis using assms(2) by (auto simp: plainResult_def plainSlice_def resultAt_def list_all_iff)
  qed
  then show ?thesis by (auto simp: list_all_iff)
qed

lemma searchInv_capacity:
  assumes "searchInv X Q den planner committed m n state" and "coherentDevices (plSlices planner)"
    and "capacityRespected den (plSlices planner) committed"
  shows "capacityRespected den (plSlices planner) (committed @ map cdResult (ssDevices state))"
  unfolding capacityRespected_def
proof (intro ballI)
  fix sl device assume sl: "sl \<in> set (plSlices planner)" "device \<in> set (sliceDevices sl)"
  let ?rs = "map cdResult (ssDevices state)" and ?key = "deviceKey sl device"
  show "withinCapacity den (committed @ ?rs) ?key device"
  proof (cases "?key \<in> cdKey ` set (ssDevices state)")
    case False
    then have "consumedTotal den ?rs ?key name = 0" for name by (intro consumedTotal_absent) auto
    moreover have "withinCapacity den committed ?key device" using assms(3) sl by (simp add: capacityRespected_def)
    ultimately show ?thesis by (simp add: withinCapacity_def)
  next
    case True
    then obtain cd where cd: "cd \<in> set (ssDevices state)" "cdKey cd = ?key" by auto
    with assms(1) obtain sl' where sl': "sl' \<in> set (plSlices planner)" "cdDevice cd \<in> set (sliceDevices sl')"
      "resultAt sl' (cdDevice cd) (cdResult cd)"
      and within: "withinCapacity den (committed @ ?rs) (cdKey cd) (cdDevice cd)"
      unfolding searchInv_def by blast
    from withinCapacity_coherent [OF assms(2) sl(1) sl'(1) sl(2) sl'(2)] resultAt_key [OF sl'(3)] cd(2) within
    show ?thesis by simp
  qed
qed

lemma planConstrained_safe:
  assumes "slicesOk Q den (plSlices planner)" and "plannerFor Q den planner committed"
    and "planConstrainedClaimAllocation X u polls planner claim constraints = (Inr plan, env)"
    and "envUUIDs env \<le> n" and "resultsSafe X den (plSlices planner) u n committed"
  shows "resultsSafe X den (plSlices planner) (envUUIDs env) n (committed @ planResults plan)"
proof -
  have quantity: "quantity Q den" using assms(1) by (intro quantity.intro) (simp add: slicesOk_def)
  have coherent: "coherentDevices (plSlices planner)" and plain: "list_all plainSlice (plSlices planner)"
    using assms(1) by (simp_all add: slicesOk_def)
  from quantity.planConstrained_good [OF quantity assms(2) coherent assms(3)] obtain state where
    "plan = statePlan state" and u: "u \<le> envUUIDs env"
    and inv: "searchInv X Q den planner committed u (envUUIDs env) state" by blast
  then have plan: "planResults plan = map cdResult (ssDevices state)" by (simp add: statePlan_def)
  have safe: "consistentResults den committed" "capacityRespected den (plSlices planner) committed"
    "freshUUIDs X committed u (envUUIDs env)"
    using assms(4,5) freshUUIDs_sub [of X committed u n u "envUUIDs env"] by (simp_all add: resultsSafe_def)
  show ?thesis unfolding plan
  proof (rule resultsSafe_append [OF assms(5) u assms(4)])
    show "consistentResults den (committed @ map cdResult (ssDevices state))"
      by (rule searchInv_consistent [OF inv safe(3,1)])
    show "list_all plainResult (map cdResult (ssDevices state))" by (rule searchInv_plain [OF inv plain])
    show "list_all (shareShape X den u (envUUIDs env)) (map cdResult (ssDevices state))"
      using inv by (simp add: searchInv_def)
    show "capacityRespected den (plSlices planner) (committed @ map cdResult (ssDevices state))"
      by (rule searchInv_capacity [OF inv coherent safe(2)])
  qed
qed

subsection \<open>The planner keeps claims safe\<close>

lemma planClaimAllocation_cases:
  assumes "planClaimAllocation Q evaluator X claim claims slices classes clock = (res, clock')"
  obtains (early) failure where "res = Inl failure" "clock' = clock"
    | (backtracking) usage constraints env where "collectCommittedAllocationUsage Q claims = Inr usage"
        "planConstrainedClaimAllocation X (clkUUIDs clock) (clkPolls clock)
          (newClaimPlanner Q evaluator claims slices classes usage) claim constraints = (res, env)"
        "clock' = \<lparr>clkUUIDs = envUUIDs env, clkPolls = envPolls env\<rparr>"
    | (firstfit) usage where
        "planUnconstrainedClaimAllocation (newClaimPlanner Q evaluator claims slices classes usage) claim = res"
        "clock' = clock"
  using assms unfolding planClaimAllocation_def
  by (auto simp: Let_def split: sum.splits if_splits prod.splits)

lemma newClaimPlanner_plannerFor:
  assumes "slicesOk Q den slices" and "collectCommittedAllocationUsage Q claims = Inr usage"
  shows "plannerFor Q den (newClaimPlanner Q evaluator claims slices classes usage) (committedResults claims)"
proof -
  have "quantity Q den" using assms(1) by (intro quantity.intro) (simp add: slicesOk_def)
  from quantity.collect_describes [OF this, of claims] assms show ?thesis
    by (simp add: plannerFor_def newClaimPlanner_def slicesOk_def)
qed

lemma newClaimPlanner_simps [simp]:
  "plSlices (newClaimPlanner Q evaluator claims slices classes usage) = slices"
  "plClaims (newClaimPlanner Q evaluator claims slices classes usage) = claims"
  by (simp_all add: newClaimPlanner_def)

lemma planClaimAllocation_uuids:
  assumes "slicesOk Q den slices"
    and "planClaimAllocation Q evaluator X claim claims slices classes clock = (res, clock')"
  shows "clkUUIDs clock \<le> clkUUIDs clock'"
  using assms(2)
proof (cases rule: planClaimAllocation_cases)
  case (backtracking usage constraints env)
  have "quantity Q den" using assms(1) by (intro quantity.intro) (simp add: slicesOk_def)
  from planConstrained_uuids [OF this newClaimPlanner_plannerFor [OF assms(1) backtracking(1)] _ backtracking(2)]
    assms(1) backtracking(3) show ?thesis by (simp add: slicesOk_def)
qed simp_all

lemma resultsSafe_later:
  "resultsSafe X den slices u n rs \<Longrightarrow> u \<le> u' \<Longrightarrow> resultsSafe X den slices u' n rs"
  by (auto simp: resultsSafe_def intro: freshUUIDs_sub)

lemma safeAt_attempt:
  assumes "safeAt Q den X slices n (committedResults claims) clock"
    and "planClaimAllocation Q evaluator X claim claims slices classes clock = (res, clock')"
  shows "safeAt Q den X slices n (committedResults claims) clock'"
proof -
  have "slicesOk Q den slices" using assms(1) by (simp add: safeAt_def)
  from planClaimAllocation_uuids [OF this assms(2)] assms(1) resultsSafe_later show ?thesis
    by (auto simp: safeAt_def)
qed

lemma safeAt_plan:
  assumes "safeAt Q den X slices n (committedResults claims) clock"
    and "planClaimAllocation Q evaluator X claim claims slices classes clock = (Inr plan, clock')"
  shows "safeAt Q den X slices n (committedResults claims @ planResults plan) clock'"
proof -
  have ok: "slicesOk Q den slices" using assms(1) by (simp add: safeAt_def)
  have mono: "clkUUIDs clock \<le> clkUUIDs clock'" by (rule planClaimAllocation_uuids [OF ok assms(2)])
  have "resultsSafe X den slices (clkUUIDs clock') n (committedResults claims @ planResults plan)"
    if n: "clkUUIDs clock' \<le> n"
  proof -
    have safe: "resultsSafe X den slices (clkUUIDs clock) n (committedResults claims)"
      using assms(1) mono n by (simp add: safeAt_def)
    from assms(2) show ?thesis
    proof (cases rule: planClaimAllocation_cases)
      case (backtracking usage constraints env)
      let ?planner = "newClaimPlanner Q evaluator claims slices classes usage"
      from planConstrained_safe [of Q den ?planner, OF _ newClaimPlanner_plannerFor [OF ok backtracking(1)] backtracking(2)]
        ok safe n backtracking(3) show ?thesis by simp
    next
      case (firstfit usage)
      let ?planner = "newClaimPlanner Q evaluator claims slices classes usage"
      from planUnconstrained_safe [of Q den ?planner "clkUUIDs clock" n X claim plan] ok safe n firstfit
      show ?thesis by simp
    qed simp
  qed
  with ok show ?thesis by (simp add: safeAt_def)
qed

interpretation simulator: safe_planner
  "\<lambda>claim claims. planClaimAllocation Q evaluator X claim claims slices classes" "safeAt Q den X slices n"
  for Q :: "'q quantity_api" and den evaluator X slices classes n
proof
  show "safeAt Q den X slices n rs clock \<Longrightarrow> safeAt Q den X slices n rs' clock" if "mset rs = mset rs'" for rs rs' clock
    using resultsSafe_mset [OF that] by (auto simp: safeAt_def)
qed (rule safeAt_attempt safeAt_plan; assumption)+

section \<open>Where a plan's devices come from\<close>

text \<open>
  \<open>publishedOn\<close> says that an eligible slice (managed by the simulator and not unhealthy) on the node, or with an empty node name, publishes
  the device of a result, and that the result is exclusive unless the device is shareable. Both planners choose such devices only.
\<close>

definition publishedOn :: "'q ResourceSlice list \<Rightarrow> string \<Rightarrow> 'q DeviceRequestAllocationResult \<Rightarrow> bool" where
  "publishedOn slices nodeName r \<longleftrightarrow>
     (\<exists>sl \<in> set slices. \<exists>device \<in> set (sliceDevices sl). eligibleSimulatorSlice sl \<and> sliceOnNode sl nodeName \<and> resultAt sl device r \<and>
        (\<not> deviceAllowsMultipleAllocations device \<longrightarrow> resShareID r = None))"

lemma list_all2_parts:
  assumes "list_all2 P requests parts" and "x \<in> set (concat parts)"
  obtains request part where "P request part" and "x \<in> set part"
proof -
  from assms(2) obtain part where part: "part \<in> set parts" "x \<in> set part" by auto
  with assms(1) obtain request where "P request part" by (metis list_all2_conv_all_nth in_set_conv_nth)
  with part that show ?thesis by blast
qed

lemma planUnconstrained_published:
  assumes "planUnconstrainedClaimAllocation planner claim = Inr plan" and "r \<in> set (planResults plan)"
  shows "publishedOn (plSlices planner) (planNodeName plan) r"
proof -
  from planUnconstrained_parts [OF assms(1)] obtain parts where
    "planResults plan = concat parts" "list_all2 (requestMet planner (planNodeName plan)) (claimRequests claim) parts" by blast
  with assms(2) obtain request part where "requestMet planner (planNodeName plan) request part" "r \<in> set part"
    using list_all2_parts by metis
  then obtain sl device request where "sl \<in> set (plSlices planner)" "device \<in> set (sliceDevices sl)"
      "eligibleSimulatorSlice sl" "sliceOnNode sl (planNodeName plan)" "r = exclusiveResult request sl device"
    unfolding requestMet_def justified_def by blast
  then show ?thesis by (auto simp: exclusiveResult_def publishedOn_def resultAt_def)
qed

lemma planConstrained_published:
  assumes "quantity_laws Q den" and "plannerFor Q den planner committed" and "coherentDevices (plSlices planner)"
    and "planConstrainedClaimAllocation X uuids polls planner claim constraints = (Inr plan, env)"
    and "r \<in> set (planResults plan)"
  shows "publishedOn (plSlices planner) (planNodeName plan) r"
proof -
  have "quantity Q den" by (rule quantity.intro) (rule assms(1))
  from quantity.planConstrained_good [OF this assms(2-4)] obtain state parts where
    plan: "plan = statePlan state" "ssDevices state = concat parts"
      "list_all2 (servesRequest den planner (resultKey ` set (committed @ map cdResult (ssDevices state))) (ssNodeName state)) (claimRequests claim) parts" by blast
  then obtain cd where "cd \<in> set (concat parts)" "r = cdResult cd" using assms(5) by (auto simp: statePlan_def)
  with plan(3) obtain request part held where "servesRequest den planner held (ssNodeName state) request part" "cd \<in> set part"
    using list_all2_parts by metis
  then obtain sl where "sl \<in> set (plSlices planner)" "cdDevice cd \<in> set (sliceDevices sl)"
      "eligibleSimulatorSlice sl" "sliceOnNode sl (ssNodeName state)" "resultAt sl (cdDevice cd) (cdResult cd)"
      "\<not> deviceAllowsMultipleAllocations (cdDevice cd) \<longrightarrow> resShareID (cdResult cd) = None"
    unfolding servesRequest_def placedAt_def by blast
  with plan(1) \<open>r = cdResult cd\<close> show ?thesis by (auto simp: publishedOn_def statePlan_def)
qed

lemma planClaimAllocation_published:
  assumes "slicesOk Q den slices"
    and "planClaimAllocation Q evaluator X claim claims slices classes clock = (Inr plan, clock')"
    and "r \<in> set (planResults plan)"
  shows "publishedOn slices (planNodeName plan) r"
  using assms(2)
proof (cases rule: planClaimAllocation_cases)
  case (backtracking usage constraints env)
  from planConstrained_published [OF _ newClaimPlanner_plannerFor [OF assms(1) backtracking(1)] _ backtracking(2) assms(3)]
    assms(1) show ?thesis by (simp add: slicesOk_def)
next
  case (firstfit usage)
  from planUnconstrained_published [OF firstfit(1) assms(3)] show ?thesis by simp
qed simp

text \<open>A pass adds only devices that eligible slices publish: a second contract that the planners fulfil, for what has come to \<open>base\<close>.\<close>

definition offeredBy :: "'q ResourceSlice list \<Rightarrow> 'q DeviceRequestAllocationResult \<Rightarrow> bool" where
  "offeredBy slices r \<longleftrightarrow>
     list_ex (\<lambda>sl. eligibleSimulatorSlice sl \<and> list_ex (\<lambda>device. resultAt sl device r \<and>
        (deviceAllowsMultipleAllocations device \<or> resShareID r = None)) (sliceDevices sl)) slices"

lemma publishedOn_offered: "publishedOn slices nodeName r \<Longrightarrow> offeredBy slices r"
  by (auto simp: publishedOn_def offeredBy_def list_ex_iff)

definition grownBy ::
  "('q DeviceRequestAllocationResult \<Rightarrow> bool) \<Rightarrow> 'q DeviceRequestAllocationResult list \<Rightarrow> 'q DeviceRequestAllocationResult list \<Rightarrow> bool" where
  "grownBy P base rs \<longleftrightarrow> (\<exists>new. mset rs = mset base + mset new \<and> list_all P new)"

lemma grownBy_append: "grownBy P base rs \<Longrightarrow> list_all P rs' \<Longrightarrow> grownBy P base (rs @ rs')"
  unfolding grownBy_def by (metis list_all_append mset_append union_assoc)

interpretation offered: safe_planner
  "\<lambda>claim claims. planClaimAllocation Q evaluator X claim claims slices classes"
  "\<lambda>rs clock. slicesOk Q den slices \<and> grownBy (offeredBy slices) base rs"
  for Q :: "'q quantity_api" and den evaluator X slices classes base
proof
  show "slicesOk Q den slices \<and> grownBy (offeredBy slices) base rs'"
    if "mset rs = mset rs'" "slicesOk Q den slices \<and> grownBy (offeredBy slices) base rs" for rs rs'
    using that by (simp add: grownBy_def)
next
  show "slicesOk Q den slices \<and> grownBy (offeredBy slices) base (committedResults claims @ planResults plan)"
    if "slicesOk Q den slices \<and> grownBy (offeredBy slices) base (committedResults claims)"
      "planClaimAllocation Q evaluator X claim claims slices classes clock = (Inr plan, clock')" for claim claims clock plan clock'
    using that planClaimAllocation_published publishedOn_offered
    by (auto simp: list_all_iff intro!: grownBy_append) blast
qed

text \<open>Claims with inconsistent results get no plan, so a pass leaves them as they are.\<close>

lemma planClaimAllocation_consistent:
  assumes "quantity_laws Q den"
    and "planClaimAllocation Q evaluator X claim claims slices classes clock = (Inr plan, clock')"
  shows "consistentResults den (committedResults claims)"
proof -
  have "quantity Q den" by (rule quantity.intro) (rule assms(1))
  moreover from assms(2) obtain usage where "collectCommittedAllocationUsage Q claims = Inr usage"
    by (auto simp: planClaimAllocation_def split: sum.splits)
  ultimately show ?thesis using quantity.collect_describes [of Q den claims] by simp
qed

lemma steps_inconsistent:
  assumes "(allocation_step (\<lambda>claim claims. planClaimAllocation Q evaluator X claim claims slices classes))\<^sup>*\<^sup>* s s'"
    and "quantity_laws Q den" and "\<not> consistentResults den (committedResults (fst s))"
  shows "fst s' = fst s"
  using assms(1)
proof (induction rule: rtranclp_induct)
  case (step t u)
  from step.hyps(2) have "fst u = fst t"
  proof cases
    case (allocate claim processed rest clock plan clock' updated allocation)
    have "consistentResults den (committedResults (fst s))"
      using planClaimAllocation_consistent [OF assms(2) allocate(3)] unfolding step.IH [symmetric] allocate(1) fst_conv .
    with assms(3) show ?thesis by blast
  qed auto
  with step.IH show ?case by simp
qed simp

section \<open>Properties\<close>

lemma SimulateAllocation_run:
  assumes "statusLaw api" and "SimulateAllocation Q evaluator X api recorder r = (err, Some state', r')"
  obtains state where "loadAllocationSyncState api = Inr state" "syncSlices state' = syncSlices state"
    "(allocation_step (\<lambda>claim claims. planClaimAllocation Q evaluator X claim claims
      (syncSlices state) (syncClasses state)))\<^sup>*\<^sup>* (syncClaims state, recClock r) (syncClaims state', recClock r')"
proof -
  from assms(2) obtain state where load: "loadAllocationSyncState api = Inr state"
    and run: "simulateClaims Q evaluator X api recorder [] (syncClaims state) state r = (err, state', r')"
    by (auto simp: SimulateAllocation_def split: sum.splits prod.splits)
  from simulateClaims_steps [OF assms(1) _ run] that [OF load] show ?thesis by simp
qed

text \<open>
  C1. \<^verbatim>\<open>SimulateAllocation\<close> keeps allocations safe, also when it stops at an API error. Let the API return
  on a status update the allocation that was written, let the slices be well formed, and let the claims
  listed be safe: allocations consistent (no device twice unless as shares with different IDs) and within
  the capacities of the shareable devices, and the UUIDs to be drawn new. Then the claims are safe
  afterwards; they hold what they held before, and every result that has come to it is on a device that a
  published slice offers, one that is managed by the simulator and not unhealthy, as a share only if the
  device is shareable.
\<close>

theorem SimulateAllocation_safe:
  assumes "statusLaw api" and "slicesOk Q den slices"
    and "apiListClaims api = Inr claims" and "apiListSlices api = Inr slices"
    and "SimulateAllocation Q evaluator X api recorder r = (err, Some state, r')"
    and "resultsSafe X den slices (clkUUIDs (recClock r)) (clkUUIDs (recClock r')) (committedResults claims)"
  shows "consistentResults den (committedResults (syncClaims state)) \<and>
    capacityRespected den slices (committedResults (syncClaims state)) \<and>
    (\<exists>new. mset (committedResults (syncClaims state)) = mset (committedResults claims) + mset new \<and> list_all (offeredBy slices) new)"
proof -
  from assms(1,5) obtain state0 where load: "loadAllocationSyncState api = Inr state0"
    and steps: "(allocation_step (\<lambda>claim claims. planClaimAllocation Q evaluator X claim claims
      (syncSlices state0) (syncClasses state0)))\<^sup>*\<^sup>* (syncClaims state0, recClock r) (syncClaims state, recClock r')"
    by (rule SimulateAllocation_run)
  have start: "syncClaims state0 = claims" "syncSlices state0 = slices"
    using load assms(3,4) by (auto simp: loadAllocationSyncState_def split: sum.splits)
  let ?n = "clkUUIDs (recClock r')"
  have "safeAt Q den X slices ?n (committedResults claims) (recClock r)"
    using assms(2,6) by (simp add: safeAt_def)
  then have "safeAt Q den X slices ?n (committedResults (syncClaims state)) (recClock r')"
    using simulator.steps_safe [OF steps, of den ?n] start by simp
  moreover have "grownBy (offeredBy slices) (committedResults claims) (committedResults claims)"
    by (auto simp: grownBy_def intro: exI [of _ "[]"])
  then have "grownBy (offeredBy slices) (committedResults claims) (committedResults (syncClaims state))"
    using offered.steps_safe [OF steps, of den "committedResults claims"] start assms(2) by simp
  ultimately show ?thesis by (simp add: safeAt_def resultsSafe_def grownBy_def)
qed

text \<open>An API server that holds one claim with 4 units of the shared device and one that wants 3.\<close>

definition exampleApi :: "rat cluster_api" where
  "exampleApi =
     \<lparr>apiListClaims = Inr [exampleClaim [exampleShare CHR ''a'' 4], pendingClaim [shareRequest] []],
      apiListSlices = Inr [exampleSlice],
      apiListClasses = Inr [\<lparr>className = ''class'', classSelectors = [\<lparr>selCEL = Some ''true''\<rparr>]\<rparr>],
      apiUpdateStatus = (\<lambda>_ claim. Inr claim)\<rparr>"

definition exampleStart :: reconcilerState where
  "exampleStart =
     \<lparr>recClock = \<lparr>clkUUIDs = 0, clkPolls = 0\<rparr>, recUpdates = 0, recAllocationsSimulated = 0, recEvents = []\<rparr>"

lemma example_plan_claim:
  "planClaimAllocation exact_quantity acceptingCEL exampleContext (pendingClaim [shareRequest] [])
     [exampleClaim [exampleShare CHR ''a'' 4], pendingClaim [shareRequest] []] [exampleSlice]
     [''class'' \<mapsto> \<lparr>className = ''class'', classSelectors = [\<lparr>selCEL = Some ''true''\<rparr>]\<rparr>]
     \<lparr>clkUUIDs = 0, clkPolls = 0\<rparr>
   = (Inr \<lparr>planResults = [exampleShare CHR ''b'' 6], planNodeName = ''node''\<rparr>, \<lparr>clkUUIDs = 1, clkPolls = 4\<rparr>)"
proof -
  let ?claims = "[exampleClaim [exampleShare CHR ''a'' 4], pendingClaim [shareRequest] []]"
  have collect: "collectCommittedAllocationUsage exact_quantity ?claims = Inr exampleUsage"
    by (simp add: collectCommittedAllocationUsage_def addResult_def exampleUsage_def pendingClaim_def
        noDeviceUsage_def gomap_get_def gomap_put_def exampleShareID_normalized addQuantity_def Let_def)
  have "supportedMatchAttributeConstraints (pendingClaim [shareRequest] []) = Inr []"
    by (simp add: supportedMatchAttributeConstraints_def pendingClaim_def)
  moreover have "hasManagedShareableDevice [exampleSlice]"
    by (simp add: hasManagedShareableDevice_def managedSimulatorSlice_def sliceLabel_def gomap_get_def
        exampleSlice_def exampleDevice_def deviceAllowsMultipleAllocations_def)
  moreover have "planConstrainedClaimAllocation exampleContext 0 0
      (newClaimPlanner exact_quantity acceptingCEL ?claims [exampleSlice]
        [''class'' \<mapsto> \<lparr>className = ''class'', classSelectors = [\<lparr>selCEL = Some ''true''\<rparr>]\<rparr>] exampleUsage)
      (pendingClaim [shareRequest] []) [] =
     (Inr \<lparr>planResults = [exampleShare CHR ''b'' 6], planNodeName = ''node''\<rparr>,
      \<lparr>envBudget = \<lparr>budLimit = 100000, budRemaining = 99999\<rparr>, envUUIDs = 1, envPolls = 4\<rparr>)"
    using example_share_plan by (simp add: sharePlanner_def)
  ultimately show ?thesis using collect by (simp add: planClaimAllocation_def)
qed

lemma example_simulate:
  "SimulateAllocation exact_quantity acceptingCEL exampleContext exampleApi True exampleStart =
     (None, Some \<lparr>syncClaims = [exampleClaim [exampleShare CHR ''a'' 4],
         claimWithAllocationPlan (pendingClaim [shareRequest] [])
           \<lparr>planResults = [exampleShare CHR ''b'' 6], planNodeName = ''node''\<rparr>],
       syncSlices = [exampleSlice],
       syncClasses = [''class'' \<mapsto> \<lparr>className = ''class'', classSelectors = [\<lparr>selCEL = Some ''true''\<rparr>]\<rparr>]\<rparr>,
      \<lparr>recClock = \<lparr>clkUUIDs = 1, clkPolls = 4\<rparr>, recUpdates = 1, recAllocationsSimulated = 1, recEvents = []\<rparr>)"
proof -
  have "claimAllocation (pendingClaim [shareRequest] []) = None" "claimRequests (pendingClaim [shareRequest] []) \<noteq> []"
    by (simp_all add: pendingClaim_def)
  then show ?thesis
    using example_plan_claim
    by (simp add: SimulateAllocation_def loadAllocationSyncState_def exampleApi_def simulatePendingClaim_def
        classMap_def exampleStart_def Let_def)
qed

theorem SimulateAllocation_safe_witness:
  "\<exists>state r'. SimulateAllocation exact_quantity acceptingCEL exampleContext exampleApi True exampleStart
       = (None, Some state, r') \<and>
     committedResults (syncClaims state) = [exampleShare CHR ''a'' 4, exampleShare CHR ''b'' 6] \<and>
     consistentResults (\<lambda>a. a) (committedResults (syncClaims state)) \<and>
     capacityRespected (\<lambda>a. a) [exampleSlice] (committedResults (syncClaims state)) \<and>
     (\<exists>new. mset (committedResults (syncClaims state)) = {#exampleShare CHR ''a'' 4#} + mset new \<and> list_all (offeredBy [exampleSlice]) new)"
proof -
  have "slicesOk exact_quantity (\<lambda>a. a) [exampleSlice]"
    using exact_quantity_laws
    by (simp add: slicesOk_def capacitiesWf_def coherentDevices_def plainSlice_def exampleSlice_def exampleDevice_def)
  moreover have "statusLaw exampleApi" by (simp add: statusLaw_def exampleApi_def)
  moreover have "freshUUIDs exampleContext [exampleShare CHR ''a'' 4] 0 1"
    by (simp add: freshUUIDs_def exampleContext_def exampleShareID_normalized inj_on_def)
  then have "resultsSafe exampleContext (\<lambda>a. a) [exampleSlice] (clkUUIDs (recClock exampleStart)) 1
      (committedResults [exampleClaim [exampleShare CHR ''a'' 4], pendingClaim [shareRequest] []])"
    by (simp add: resultsSafe_def exampleStart_def pendingClaim_def plainResult_def consistentResults_def
        validResult_def exampleShareID_normalized capacityRespected_def withinCapacity_def resultAmounts_def
        exampleSlice_def exampleDevice_def exampleCapacity_def) (simp add: exampleShare_def)
  ultimately show ?thesis
    using SimulateAllocation_safe [OF _ _ _ _ example_simulate, of "\<lambda>a. a" "[exampleSlice]"] example_simulate
    by (simp add: exampleApi_def claimWithAllocationPlan_def pendingClaim_def)
qed

end
