(* ===== verification/API_Monad.thy ===== *)
theory API_Monad
  imports Prelude "HOL-Library.Sublist"
begin

text \<open>
  How the controllers call the Kubernetes API: a Go function that takes a context, calls the API and
  returns a value or an error is a function of the world's state, \<open>('s, 'a) api\<close>. The theory has the
  errors with what \<^verbatim>\<open>apierrors\<close> says of them, sequencing with Go's early return, the loop over a slice,
  and the rules for \<open>wp\<close>: what holds of result and state after a call. The rules make a property of a
  handler a computation over the properties of its calls.
\<close>

section \<open>Errors\<close>

text \<open>
  An error is its text and its classification by \<^verbatim>\<open>k8s.io/apimachinery/pkg/api/errors\<close>.
  \<^verbatim>\<open>fmt.Errorf\<close> with \<^verbatim>\<open>%w\<close> prefixes the text; the predicates of \<^verbatim>\<open>apierrors\<close> look through the wrapping
  (\<^verbatim>\<open>errors.As\<close>), so the classification stays.
\<close>

record api_error =
  errText :: string
  isNotFound :: bool
  isForbidden :: bool
  isUnauthorized :: bool
  isInvalid :: bool
  isBadRequest :: bool
  isMethodNotSupported :: bool
  isRequestEntityTooLarge :: bool

definition wrapError :: "string \<Rightarrow> api_error \<Rightarrow> api_error" where
  "wrapError what err = err\<lparr>errText := what @ '': '' @ errText err\<rparr>"

definition plainError :: "string \<Rightarrow> api_error" where
  "plainError t =
     \<lparr>errText = t, isNotFound = False, isForbidden = False, isUnauthorized = False, isInvalid = False,
      isBadRequest = False, isMethodNotSupported = False, isRequestEntityTooLarge = False\<rparr>"

text \<open>\<^verbatim>\<open>strings.Contains(s, sub)\<close>.\<close>

definition strings_Contains :: "string \<Rightarrow> string \<Rightarrow> bool" where
  "strings_Contains s sub = sublist sub s"

text \<open>
  \<^verbatim>\<open>%q\<close> of \<^verbatim>\<open>fmt\<close>: the text in double quotes with the escapes of Go. Bytes from 128 on are taken to be part of
  printable characters, which are not escaped.
\<close>

definition hexDigit :: "nat \<Rightarrow> char" where
  "hexDigit n = (if n < 10 then char_of (48 + n) else char_of (87 + n))"

definition quoteChar :: "char \<Rightarrow> string" where
  "quoteChar c =
     (let n = of_char c :: nat
      in if n = 34 \<or> n = 92 then [CHR 0x5C, c]
         else if n = 7 then [CHR 0x5C, CHR ''a''] else if n = 8 then [CHR 0x5C, CHR ''b'']
         else if n = 9 then [CHR 0x5C, CHR ''t''] else if n = 10 then [CHR 0x5C, CHR ''n'']
         else if n = 11 then [CHR 0x5C, CHR ''v''] else if n = 12 then [CHR 0x5C, CHR ''f'']
         else if n = 13 then [CHR 0x5C, CHR ''r'']
         else if n < 32 \<or> n = 127 then [CHR 0x5C, CHR ''x'', hexDigit (n div 16), hexDigit (n mod 16)]
         else [c])"

definition goQuote :: "string \<Rightarrow> string" where
  "goQuote s = [CHR 0x22] @ concat (map quoteChar s) @ [CHR 0x22]"

section \<open>Calls\<close>

type_synonym ('s, 'a) api = "'s \<Rightarrow> (api_error + 'a) \<times> 's"

definition api_return :: "'a \<Rightarrow> ('s, 'a) api" where
  "api_return x s = (Inr x, s)"

definition api_fail :: "api_error \<Rightarrow> ('s, 'a) api" where
  "api_fail err s = (Inl err, s)"

definition api_bind :: "('s, 'a) api \<Rightarrow> ('a \<Rightarrow> ('s, 'b) api) \<Rightarrow> ('s, 'b) api" where
  "api_bind m f s = (case m s of (Inl err, s') \<Rightarrow> (Inl err, s') | (Inr x, s') \<Rightarrow> f x s')"

text \<open>A call whose error the code inspects instead of returning it.\<close>

definition api_try :: "('s, 'a) api \<Rightarrow> ('s, api_error + 'a) api" where
  "api_try m s = (case m s of (r, s') \<Rightarrow> (Inr r, s'))"

definition api_wrap :: "string \<Rightarrow> ('s, 'a) api \<Rightarrow> ('s, 'a) api" where
  "api_wrap what m s =
     (case m s of (Inl err, s') \<Rightarrow> (Inl (wrapError what err), s') | (Inr x, s') \<Rightarrow> (Inr x, s'))"

definition api_modify :: "('s \<Rightarrow> 's) \<Rightarrow> ('s, unit) api" where
  "api_modify f s = (Inr (), f s)"

text \<open>\<^verbatim>\<open>for _, x := range xs\<close>, where the body updates \<open>acc\<close> and may return early with an error.\<close>

fun api_forEach :: "('x \<Rightarrow> 'b \<Rightarrow> ('s, 'b) api) \<Rightarrow> 'x list \<Rightarrow> 'b \<Rightarrow> ('s, 'b) api" where
  "api_forEach body [] acc = api_return acc"
| "api_forEach body (x # xs) acc = api_bind (body x acc) (api_forEach body xs)"

section \<open>What holds after a call\<close>

text \<open>\<open>wpr m Q E s\<close>: \<open>Q\<close> holds when \<open>m\<close> returns a value, \<open>E\<close> when it returns an error.\<close>

definition wpr :: "('s, 'a) api \<Rightarrow> ('a \<Rightarrow> 's \<Rightarrow> bool) \<Rightarrow> (api_error \<Rightarrow> 's \<Rightarrow> bool) \<Rightarrow> 's \<Rightarrow> bool" where
  "wpr m Q E s \<longleftrightarrow> (case m s of (Inl err, s') \<Rightarrow> E err s' | (Inr x, s') \<Rightarrow> Q x s')"

named_theorems wpr_rules \<open>the weakest preconditions of the calls\<close>

lemma wpr_return [wpr_rules]: "wpr (api_return x) Q E s \<longleftrightarrow> Q x s"
  by (simp add: wpr_def api_return_def)

lemma wpr_fail [wpr_rules]: "wpr (api_fail err) Q E s \<longleftrightarrow> E err s"
  by (simp add: wpr_def api_fail_def)

lemma wpr_bind [wpr_rules]: "wpr (api_bind m f) Q E s \<longleftrightarrow> wpr m (\<lambda>x. wpr (f x) Q E) E s"
  by (auto simp: wpr_def api_bind_def split: sum.splits prod.splits)

lemma wpr_try [wpr_rules]: "wpr (api_try m) Q E s \<longleftrightarrow> wpr m (\<lambda>x. Q (Inr x)) (\<lambda>err. Q (Inl err)) s"
  by (cases "m s"; cases "fst (m s)") (auto simp: wpr_def api_try_def)

lemma wpr_wrap [wpr_rules]: "wpr (api_wrap p m) Q E s \<longleftrightarrow> wpr m Q (\<lambda>err. E (wrapError p err)) s"
  by (auto simp: wpr_def api_wrap_def split: sum.splits prod.splits)

lemma wpr_modify [wpr_rules]: "wpr (api_modify f) Q E s \<longleftrightarrow> Q () (f s)"
  by (simp add: wpr_def api_modify_def)

lemma wpr_mono:
  assumes "wpr m Q E s" and "\<And>x s'. Q x s' \<Longrightarrow> Q' x s'" and "\<And>err s'. E err s' \<Longrightarrow> E' err s'"
  shows "wpr m Q' E' s"
  using assms by (auto simp: wpr_def split: sum.splits prod.splits)

lemma wpr_seq:
  assumes "wpr m Q' E' s" and "\<And>x s'. Q' x s' \<Longrightarrow> wpr (f x) Q E s'" and "\<And>err s'. E' err s' \<Longrightarrow> E err s'"
  shows "wpr (api_bind m f) Q E s"
  using assms unfolding wpr_bind by (rule wpr_mono)

lemma wprD:
  assumes "wpr m Q E s" and "m s = (r, s')"
  shows "case r of Inl err \<Rightarrow> E err s' | Inr x \<Rightarrow> Q x s'"
  using assms by (simp add: wpr_def)

lemma wprI:
  assumes "\<And>r s'. m s = (r, s') \<Longrightarrow> (case r of Inl err \<Rightarrow> E err s' | Inr x \<Rightarrow> Q x s')"
  shows "wpr m Q E s"
  using assms by (cases "m s") (auto simp: wpr_def split: sum.splits)

lemma wpr_no_error: "wpr m Q (\<lambda>_ _. False) s \<Longrightarrow> \<exists>x s'. m s = (Inr x, s') \<and> Q x s'"
  by (cases "m s"; cases "fst (m s)") (auto simp: wpr_def)

text \<open>The loop: \<open>I done acc s\<close> holds before each turn, \<open>done\<close> being the elements already processed.\<close>

lemma wpr_forEach:
  assumes body: "\<And>done x rest acc s. xs = done @ x # rest \<Longrightarrow> I done acc s \<Longrightarrow>
      wpr (body x acc) (\<lambda>acc'. I (done @ [x]) acc') E s"
    and start: "I [] acc s"
  shows "wpr (api_forEach body xs acc) (I xs) E s"
proof -
  have "wpr (api_forEach body rest acc) (I xs) E s" if "xs = done @ rest" and "I done acc s" for "done" rest acc s
    using that
  proof (induction rest arbitrary: "done" acc s)
    case Nil
    then show ?case by (simp add: wpr_return)
  next
    case (Cons x rest)
    have "wpr (body x acc) (\<lambda>acc'. I (done @ [x]) acc') E s"
      using body [OF Cons.prems] .
    then have "wpr (body x acc) (\<lambda>acc'. wpr (api_forEach body rest acc') (I xs) E) E s"
      by (rule wpr_mono) (use Cons.IH [of "done @ [x]"] Cons.prems(1) in auto)
    then show ?case by (simp add: wpr_bind)
  qed
  from this [of "[]" xs] show ?thesis using start by simp
qed

end
