(* ===== verification/Pool_Spec.thy ===== *)
theory Pool_Spec
  imports API_Monad DRA_Types
begin

text \<open>
  What a SimulatedDevicePool asks for: decoding its specification (\<^verbatim>\<open>internal/simulator/reconcile.go\<close>),
  the ownership labels and finalizer lists (\<^verbatim>\<open>internal/simulator/ownership.go\<close>), and the ResourceSlice
  that \<^verbatim>\<open>ensureResourceSlice\<close> of \<^verbatim>\<open>internal/simulator/controller.go\<close> builds.

  A pool is an \<^verbatim>\<open>unstructured.Unstructured\<close>: the metadata its accessors return and the object below it,
  a \<^verbatim>\<open>map[string]any\<close>. The accessors \<^verbatim>\<open>unstructured.Nested*\<close>, \<^verbatim>\<open>SetNestedMap\<close>,
  \<^verbatim>\<open>equality.Semantic.DeepEqual\<close> and \<^verbatim>\<open>resource.ParseQuantity\<close> are outside the repository and come in
  as a \<open>'q object_api\<close>.
\<close>

section \<open>Unstructured objects\<close>

text \<open>Go's \<^verbatim>\<open>any\<close> as JSON decoding fills it.\<close>

datatype go_any =
    AnyNil
  | AnyString string
  | AnyInt64 int
  | AnyFloat64 rat
  | AnyBool bool
  | AnyList "go_any list"
  | AnyMap "(string \<times> go_any) list"

type_synonym object = "(string, go_any) gomap"

record unstructured =
  uName :: string
  uNamespace :: string
  uUID :: string
  uFinalizers :: "string list"
  uDeletionTimestamp :: "string option"
  uObject :: object

text \<open>
  \<open>nestedMap\<close> returns the copied map and whether it was found; of the other accessors the code keeps only
  the value, which is the zero value when the field is missing or has another type.
\<close>

record 'q object_api =
  nestedMap :: "object \<Rightarrow> string \<Rightarrow> object \<times> bool"
  nestedString :: "object \<Rightarrow> string \<Rightarrow> string"
  nestedInt64 :: "object \<Rightarrow> string \<Rightarrow> int"
  nestedStringSlice :: "object \<Rightarrow> string \<Rightarrow> string list"
  setNestedMap :: "object \<Rightarrow> object \<Rightarrow> string \<Rightarrow> api_error + object"
  deepEqualObjects :: "object \<Rightarrow> object \<Rightarrow> bool"
  parseQuantity :: "string \<Rightarrow> api_error + 'q"

section \<open>The specification of a pool\<close>

record 'q simulatedDevicePoolSpec =
  spDriverName :: string
  spPoolName :: string
  spDeviceType :: string
  spDeviceCount :: int
  spTargetNodes :: "string list"
  spHealth :: string
  spAttributes :: "(string, string) gomap"
  spCapacities :: "(string, 'q) gomap"

fun stringEntries :: "object \<Rightarrow> (string, string) gomap \<Rightarrow> (string, string) gomap" where
  "stringEntries [] attributes = attributes"
| "stringEntries ((name, rawValue) # raw) attributes =
     (case rawValue of
        AnyString val \<Rightarrow> stringEntries raw (gomap_put name val attributes)
      | _ \<Rightarrow> stringEntries raw attributes)"

definition decodeStringAttributes ::
  "'q object_api \<Rightarrow> object \<Rightarrow> string \<Rightarrow> string \<Rightarrow> (string, string) gomap" where
  "decodeStringAttributes U rawSpec driverName deviceType =
     gomap_put ''type'' deviceType
       (gomap_put ''driver'' driverName (stringEntries (fst (nestedMap U rawSpec ''attributes'')) []))"

fun quantityEntries :: "'q object_api \<Rightarrow> object \<Rightarrow> (string, 'q) gomap \<Rightarrow> (string, 'q) gomap" where
  "quantityEntries U [] capacities = capacities"
| "quantityEntries U ((name, rawValue) # raw) capacities =
     (case rawValue of
        AnyString val \<Rightarrow>
          (case parseQuantity U val of
             Inl err \<Rightarrow> quantityEntries U raw capacities
           | Inr amount \<Rightarrow> quantityEntries U raw (gomap_put name amount capacities))
      | _ \<Rightarrow> quantityEntries U raw capacities)"

definition decodeCapacities :: "'q object_api \<Rightarrow> object \<Rightarrow> (string, 'q) gomap" where
  "decodeCapacities U rawSpec = quantityEntries U (fst (nestedMap U rawSpec ''capacities'')) []"

definition decodeSimulatedDevicePoolSpec ::
  "'q object_api \<Rightarrow> unstructured \<Rightarrow> 'q simulatedDevicePoolSpec option" where
  "decodeSimulatedDevicePoolSpec U sdp =
     (case nestedMap U (uObject sdp) ''spec'' of
        (rawSpec, found) \<Rightarrow>
          (if \<not> found then None
           else let driverName = nestedString U rawSpec ''driverName'';
                    poolName = nestedString U rawSpec ''poolName'';
                    deviceType = nestedString U rawSpec ''deviceType'';
                    health = nestedString U rawSpec ''health''
           in Some \<lparr>spDriverName = driverName,
                    spPoolName = (if poolName = '''' then uName sdp else poolName),
                    spDeviceType = deviceType,
                    spDeviceCount = nestedInt64 U rawSpec ''deviceCount'',
                    spTargetNodes = nestedStringSlice U rawSpec ''targetNodes'',
                    spHealth = (if health = '''' then ''healthy'' else health),
                    spAttributes = decodeStringAttributes U rawSpec driverName deviceType,
                    spCapacities = decodeCapacities U rawSpec\<rparr>))"

section \<open>Names, labels and finalizers\<close>

definition resourceSliceCleanupFinalizer :: string where
  "resourceSliceCleanupFinalizer = ''draforge.oaslananka/resourceslice-cleanup''"

definition resourceSliceManagedByLabel :: string where
  "resourceSliceManagedByLabel = ''draforge.oaslananka/managed-by''"

definition resourceSliceSDPNameLabel :: string where
  "resourceSliceSDPNameLabel = ''draforge.oaslananka/sdp-name''"

definition resourceSliceSDPNamespaceLabel :: string where
  "resourceSliceSDPNamespaceLabel = ''draforge.oaslananka/sdp-namespace''"

definition resourceSliceSDPUIDLabel :: string where
  "resourceSliceSDPUIDLabel = ''draforge.oaslananka/sdp-uid''"

definition resourceSliceOwnershipLabels :: "unstructured \<Rightarrow> (string, string) gomap" where
  "resourceSliceOwnershipLabels sdp =
     [(resourceSliceManagedByLabel, ''simulator''),
      (resourceSliceSDPNameLabel, uName sdp),
      (resourceSliceSDPNamespaceLabel, uNamespace sdp),
      (resourceSliceSDPUIDLabel, uUID sdp)]"

definition putAll :: "('k, 'v) gomap \<Rightarrow> ('k, 'v) gomap \<Rightarrow> ('k, 'v) gomap" where
  "putAll entries m = fold (\<lambda>(key, val). gomap_put key val) entries m"

definition mergeStringMaps ::
  "(string, string) gomap \<Rightarrow> (string, string) gomap \<Rightarrow> (string, string) gomap" where
  "mergeStringMaps base overlay = putAll overlay (putAll base [])"

fun containsString :: "string list \<Rightarrow> string \<Rightarrow> bool" where
  "containsString [] expected = False"
| "containsString (val # values) expected = (if val = expected then True else containsString values expected)"

fun removeString :: "string list \<Rightarrow> string \<Rightarrow> string list" where
  "removeString [] removed = []"
| "removeString (val # values) removed =
     (if val \<noteq> removed then val # removeString values removed else removeString values removed)"

definition simulatedResourceSliceName :: "unstructured \<Rightarrow> string \<Rightarrow> string" where
  "simulatedResourceSliceName sdp nodeName =
     map (\<lambda>c. if c = CHR ''.'' then CHR ''-'' else c)
       (''sim-slice-'' @ uName sdp @ ''-'' @ nodeName @ ''-'' @ uNamespace sdp)"

section \<open>The desired ResourceSlice\<close>

text \<open>A slice with the \<^verbatim>\<open>ResourceVersion\<close> of its metadata.\<close>

record 'q stored_slice = "'q ResourceSlice" +
  resourceVersion :: string

record 'q desiredResourceSlice =
  dsName :: string
  dsSDP :: unstructured
  dsDriverName :: string
  dsPoolName :: string
  dsNodeName :: string
  dsHealth :: string
  dsDeviceCount :: int
  dsAttributes :: "(string, string) gomap"
  dsCapacities :: "(string, 'q) gomap"
  dsSliceCount :: nat

definition simulatedDevice :: "(string, string) gomap \<Rightarrow> (string, 'q) gomap \<Rightarrow> nat \<Rightarrow> 'q Device" where
  "simulatedDevice attrs caps i =
     \<lparr>devName = ''dev-'' @ decimal i,
      devAttributes =
        map (\<lambda>(k, v). (k, \<lparr>intValue = None, boolValue = None, stringValue = Some v, versionValue = None,
                            intValues = [], boolValues = [], stringValues = [], versionValues = []\<rparr>)) attrs,
      devCapacity = map (\<lambda>(k, v). (k, \<lparr>capValue = v, requestPolicy = None\<rparr>)) caps,
      consumesCounters = [], devNodeName = None, devNodeSelector = None, devAllNodes = None, taints = [],
      bindsToNode = None, bindingConditions = [], bindingFailureConditions = [],
      allowMultipleAllocations = None, nodeAllocatableResourceMappings = []\<rparr>"

definition simulatedDevices ::
  "(string, string) gomap \<Rightarrow> (string, 'q) gomap \<Rightarrow> int \<Rightarrow> 'q Device list" where
  "simulatedDevices attrs caps devCount = map (simulatedDevice attrs caps) [0..<nat devCount]"

definition buildResourceSlice :: "'q desiredResourceSlice \<Rightarrow> 'q stored_slice" where
  "buildResourceSlice desired =
     \<lparr>sliceName = dsName desired,
      sliceLabels = mergeStringMaps (resourceSliceOwnershipLabels (dsSDP desired))
        [(''draforge.oaslananka/health'', dsHealth desired), (''project'', ''draforge'')],
      sliceDriver = dsDriverName desired,
      poolName = dsPoolName desired,
      poolGeneration = 1,
      resourceSliceCount = int (dsSliceCount desired),
      sliceNodeName = Some (dsNodeName desired),
      sliceNodeSelector = None, sliceAllNodes = None, perDeviceNodeSelection = None, sharedCounters = [],
      sliceDevices = simulatedDevices (dsAttributes desired) (dsCapacities desired) (dsDeviceCount desired),
      resourceVersion = ''''\<rparr>"

section \<open>Device names\<close>

text \<open>
  The devices of a simulated slice can be told apart: \<^verbatim>\<open>ensureResourceSlice\<close> builds as many devices as
  the pool asks for, none for a negative count, and their names are different.
\<close>

theorem simulatedDevices_names:
  "length (simulatedDevices attrs caps devCount) = nat devCount \<and>
   distinct (map devName (simulatedDevices attrs caps devCount))"
proof -
  have "inj_on (\<lambda>i. ''dev-'' @ decimal i) A" for A
    by (rule inj_onI) (simp add: decimal_inject)
  then have "distinct (map (\<lambda>i. ''dev-'' @ decimal i) [0..<nat devCount])"
    by (simp only: distinct_map distinct_upt simp_thms)
  then show ?thesis
    by (simp add: simulatedDevices_def simulatedDevice_def comp_def)
qed

end
