(* ===== verification/Pool_Reconcile.thy ===== *)
theory Pool_Reconcile
  imports Pool_Spec
begin

text \<open>
  Pool synchronization: \<^verbatim>\<open>internal/simulator/reconcile.go\<close>, the finalizer and ownership operations of
  \<^verbatim>\<open>ownership.go\<close> and the slice and status writes of \<^verbatim>\<open>controller.go\<close>.

  The API server is outside the repository. A \<open>('s, 'q) pool_api\<close> holds its operations on a server state
  of any type; the laws a theorem needs of them are in \<open>server_laws\<close>. Events and the fault gauge of the
  \<^verbatim>\<open>Reconciler\<close> are kept beside the server state; log lines are left out.
\<close>

section \<open>The world\<close>

record ('s, 'q) pool_api =
  listPools :: "('s, unstructured list) api"
  updatePool :: "unstructured \<Rightarrow> ('s, unstructured) api"
  updatePoolStatus :: "unstructured \<Rightarrow> ('s, unit) api"
  listNodes :: "('s, string list) api"
  listSlices :: "('s, 'q stored_slice list) api"
  getSlice :: "string \<Rightarrow> ('s, 'q stored_slice) api"
  createSlice :: "'q stored_slice \<Rightarrow> ('s, unit) api"
  updateSlice :: "'q stored_slice \<Rightarrow> ('s, unit) api"
  deleteSlice :: "string \<Rightarrow> ('s, unit) api"
  specsDeepEqual :: "'q stored_slice \<Rightarrow> 'q stored_slice \<Rightarrow> bool"
  labelsDeepEqual :: "(string, string) gomap \<Rightarrow> (string, string) gomap \<Rightarrow> bool"

record pool_event =
  evPool :: "string \<times> string"
  evType :: string
  evReason :: string
  evMessage :: string

record 's world =
  server :: 's
  events :: "pool_event list"
  activeFaultsCount :: int64

definition call :: "('s, 'a) api \<Rightarrow> ('s world, 'a) api" where
  "call m w = (case m (server w) of (r, s') \<Rightarrow> (r, w\<lparr>server := s'\<rparr>))"

definition eventf :: "unstructured \<Rightarrow> string \<Rightarrow> string \<Rightarrow> string \<Rightarrow> ('s world, unit) api" where
  "eventf sdp ty reason message =
     api_modify (\<lambda>w. w\<lparr>events := events w @
       [\<lparr>evPool = (uNamespace sdp, uName sdp), evType = ty, evReason = reason, evMessage = message\<rparr>]\<rparr>)"

definition poolRef :: "unstructured \<Rightarrow> string" where
  "poolRef sdp = uNamespace sdp @ ''/'' @ uName sdp"

section \<open>Slices\<close>

definition deleteResourceSlice :: "('s, 'q) pool_api \<Rightarrow> string \<Rightarrow> ('s world, unit) api" where
  "deleteResourceSlice K name =
     api_bind (api_try (call (deleteSlice K name))) (\<lambda>r.
       case r of
         Inl err \<Rightarrow> if isNotFound err then api_return () else api_fail err
       | Inr _ \<Rightarrow> api_return ())"

definition ensureResourceSlice ::
  "('s, 'q) pool_api \<Rightarrow> 'q desiredResourceSlice \<Rightarrow> ('s world, unit) api" where
  "ensureResourceSlice K desired =
     (let name = dsName desired; sl = buildResourceSlice desired
      in api_bind (api_try (call (getSlice K name))) (\<lambda>r.
           case r of
             Inr existing \<Rightarrow>
               (let sl' = sl\<lparr>resourceVersion := resourceVersion existing\<rparr>
                in if specsDeepEqual K existing sl' \<and> labelsDeepEqual K (sliceLabels existing) (sliceLabels sl')
                   then api_return ()
                   else api_wrap (''update ResourceSlice '' @ name) (call (updateSlice K sl')))
           | Inl err \<Rightarrow>
               (if \<not> isNotFound err then api_fail (wrapError (''get ResourceSlice '' @ name) err)
                else api_wrap (''create ResourceSlice '' @ name) (call (createSlice K sl)))))"

section \<open>Status\<close>

definition updateSDPStatus ::
  "'q object_api \<Rightarrow> ('s, 'q) pool_api \<Rightarrow> unstructured \<Rightarrow> string list \<Rightarrow> string list \<Rightarrow> ('s world, unit) api" where
  "updateSDPStatus U K sdp publishedSlices activeFaults =
     (let status = [(''publishedSlices'', AnyList (map AnyString publishedSlices)),
                    (''activeFaults'', AnyList (map AnyString activeFaults))];
          existingStatus = fst (nestedMap U (uObject sdp) ''status'')
      in if deepEqualObjects U existingStatus status then api_return ()
         else case setNestedMap U (uObject sdp) status ''status'' of
                Inl err \<Rightarrow> api_fail (wrapError ''failed to set status'' err)
              | Inr object \<Rightarrow> call (updatePoolStatus K (sdp\<lparr>uObject := object\<rparr>)))"

section \<open>Target nodes and expected names\<close>

definition resolveTargetNodes ::
  "('s, 'q) pool_api \<Rightarrow> string list \<Rightarrow> ('s world, string list) api" where
  "resolveTargetNodes K configured =
     (if configured \<noteq> [] then api_return configured else api_wrap ''list Nodes'' (call (listNodes K)))"

definition expectedResourceSliceNames ::
  "'q object_api \<Rightarrow> ('s, 'q) pool_api \<Rightarrow> unstructured \<Rightarrow> ('s world, string set) api" where
  "expectedResourceSliceNames U K sdp =
     (case decodeSimulatedDevicePoolSpec U sdp of
        None \<Rightarrow> api_return {}
      | Some spec \<Rightarrow>
          api_bind
            (api_wrap (''resolve target nodes while finalizing SimulatedDevicePool '' @ poolRef sdp)
              (resolveTargetNodes K (spTargetNodes spec)))
            (\<lambda>targetNodes. api_return (simulatedResourceSliceName sdp ` set targetNodes)))"

section \<open>Ownership\<close>

definition labelOf :: "('q, 'z) ResourceSlice_scheme \<Rightarrow> string \<Rightarrow> string" where
  "labelOf sl label = gomap_get '''' (sliceLabels sl) label"

definition resourceSliceBelongsToSDP ::
  "('q, 'z) ResourceSlice_scheme \<Rightarrow> unstructured \<Rightarrow> string set \<Rightarrow> bool" where
  "resourceSliceBelongsToSDP sl sdp expectedNames =
     (if labelOf sl resourceSliceManagedByLabel \<noteq> ''simulator'' then False
      else if labelOf sl resourceSliceSDPUIDLabel \<noteq> ''''
      then labelOf sl resourceSliceSDPUIDLabel = uUID sdp
         \<and> labelOf sl resourceSliceSDPNamespaceLabel = uNamespace sdp
         \<and> labelOf sl resourceSliceSDPNameLabel = uName sdp
      else sliceName sl \<in> expectedNames \<and> labelOf sl resourceSliceSDPNameLabel = uName sdp)"

definition ensureResourceSliceCleanupFinalizer ::
  "('s, 'q) pool_api \<Rightarrow> unstructured \<Rightarrow> ('s world, unstructured) api" where
  "ensureResourceSliceCleanupFinalizer K sdp =
     (if containsString (uFinalizers sdp) resourceSliceCleanupFinalizer then api_return sdp
      else api_wrap (''add ResourceSlice cleanup finalizer to SimulatedDevicePool '' @ poolRef sdp)
             (call (updatePool K (sdp\<lparr>uFinalizers := uFinalizers sdp @ [resourceSliceCleanupFinalizer]\<rparr>))))"

definition deleteOwnedSlices ::
  "('s, 'q) pool_api \<Rightarrow> unstructured \<Rightarrow> string set \<Rightarrow> 'q stored_slice list \<Rightarrow> ('s world, unit) api" where
  "deleteOwnedSlices K sdp expectedNames slices =
     api_forEach (\<lambda>sl _.
       if \<not> resourceSliceBelongsToSDP sl sdp expectedNames then api_return ()
       else api_wrap (''delete ResourceSlice '' @ sliceName sl @ '' while finalizing SimulatedDevicePool '' @ poolRef sdp)
              (deleteResourceSlice K (sliceName sl))) slices ()"

definition finalizeDeletingSimulatedDevicePool ::
  "'q object_api \<Rightarrow> ('s, 'q) pool_api \<Rightarrow> unstructured \<Rightarrow> ('s world, unit) api" where
  "finalizeDeletingSimulatedDevicePool U K sdp =
     (if \<not> containsString (uFinalizers sdp) resourceSliceCleanupFinalizer then api_return ()
      else api_bind (expectedResourceSliceNames U K sdp) (\<lambda>expectedNames.
           api_bind (api_wrap ''list ResourceSlices for SimulatedDevicePool finalization'' (call (listSlices K)))
             (\<lambda>slices.
           api_bind (deleteOwnedSlices K sdp expectedNames slices) (\<lambda>_.
           api_bind
             (api_wrap (''remove ResourceSlice cleanup finalizer from SimulatedDevicePool '' @ poolRef sdp)
               (call (updatePool K
                 (sdp\<lparr>uFinalizers := removeString (uFinalizers sdp) resourceSliceCleanupFinalizer\<rparr>))))
             (\<lambda>_. api_return ())))))"

section \<open>One pool\<close>

text \<open>
  \<^verbatim>\<open>activeSliceNames\<close> is a map the code passes along and fills: the model returns it updated. The result is
  the slice's name and whether it was published.
\<close>

definition desiredFor ::
  "unstructured \<Rightarrow> 'q simulatedDevicePoolSpec \<Rightarrow> string \<Rightarrow> nat \<Rightarrow> 'q desiredResourceSlice" where
  "desiredFor sdp spec nodeName sliceCount =
     \<lparr>dsName = simulatedResourceSliceName sdp nodeName, dsSDP = sdp, dsDriverName = spDriverName spec,
      dsPoolName = spPoolName spec, dsNodeName = nodeName, dsHealth = spHealth spec,
      dsDeviceCount = (if spHealth spec = ''capacity-exhausted'' then 0 else spDeviceCount spec),
      dsAttributes = spAttributes spec, dsCapacities = spCapacities spec, dsSliceCount = sliceCount\<rparr>"

definition reconcilePoolResourceSlice ::
  "('s, 'q) pool_api \<Rightarrow> unstructured \<Rightarrow> 'q simulatedDevicePoolSpec \<Rightarrow> string \<Rightarrow> nat \<Rightarrow> string set \<Rightarrow>
   ('s world, (string \<times> bool) \<times> string set) api" where
  "reconcilePoolResourceSlice K sdp spec nodeName sliceCount activeSliceNames =
     (let sliceName = simulatedResourceSliceName sdp nodeName
      in if spHealth spec = ''disappear''
         then api_bind (api_try (deleteResourceSlice K sliceName)) (\<lambda>r.
                case r of
                  Inl err \<Rightarrow>
                    api_bind (eventf sdp ''Warning'' ''ResourceSliceDeleteFailed''
                        (''Failed to delete ResourceSlice '' @ sliceName @ '': '' @ errText err))
                      (\<lambda>_. api_fail (wrapError (''delete ResourceSlice '' @ sliceName) err))
                | Inr _ \<Rightarrow>
                    api_bind (eventf sdp ''Normal'' ''ResourceSliceDeleted''
                        (''Deleted ResourceSlice '' @ sliceName @ '' due to disappear fault''))
                      (\<lambda>_. api_return (('''', False), activeSliceNames)))
         else api_bind
                (if spHealth spec = ''capacity-exhausted''
                 then eventf sdp ''Warning'' ''CapacityExhausted'' (''Capacity exhausted for pool '' @ spPoolName spec)
                 else api_return ())
                (\<lambda>_. api_bind (api_try (ensureResourceSlice K (desiredFor sdp spec nodeName sliceCount))) (\<lambda>r.
                  case r of
                    Inl err \<Rightarrow>
                      api_bind (eventf sdp ''Warning'' ''ResourceSliceEnsureFailed''
                          (''Failed to ensure ResourceSlice '' @ sliceName @ '': '' @ errText err))
                        (\<lambda>_. api_fail (wrapError (''ensure ResourceSlice '' @ sliceName) err))
                  | Inr _ \<Rightarrow> api_return ((sliceName, True), insert sliceName activeSliceNames))))"

definition reconcileNodes ::
  "('s, 'q) pool_api \<Rightarrow> unstructured \<Rightarrow> 'q simulatedDevicePoolSpec \<Rightarrow> string list \<Rightarrow> string set \<Rightarrow>
   ('s world, string list \<times> string set) api" where
  "reconcileNodes K sdp spec targetNodes activeSliceNames =
     api_forEach (\<lambda>nodeName (publishedSlices, active).
       api_bind (reconcilePoolResourceSlice K sdp spec nodeName (length targetNodes) active)
         (\<lambda>((sliceName, published), active').
            api_return (if published then publishedSlices @ [sliceName] else publishedSlices, active')))
       targetNodes ([], activeSliceNames)"

definition reconcileSimulatedDevicePool ::
  "'q object_api \<Rightarrow> ('s, 'q) pool_api \<Rightarrow> unstructured \<Rightarrow> string set \<Rightarrow>
   ('s world, int64 \<times> string set) api" where
  "reconcileSimulatedDevicePool U K sdp0 activeSliceNames =
     (if uDeletionTimestamp sdp0 \<noteq> None
      then api_bind (finalizeDeletingSimulatedDevicePool U K sdp0) (\<lambda>_. api_return (0, activeSliceNames))
      else api_bind (ensureResourceSliceCleanupFinalizer K sdp0) (\<lambda>sdp.
        case decodeSimulatedDevicePoolSpec U sdp of
          None \<Rightarrow> api_return (0, activeSliceNames)
        | Some spec \<Rightarrow>
            api_bind
              (api_wrap (''resolve target nodes for SimulatedDevicePool '' @ poolRef sdp)
                (resolveTargetNodes K (spTargetNodes spec)))
              (\<lambda>targetNodes.
            api_bind (reconcileNodes K sdp spec targetNodes activeSliceNames) (\<lambda>(publishedSlices, active).
            let activeFaults = (if spHealth spec \<noteq> ''healthy'' then [spHealth spec] else []);
                faultCount = (if spHealth spec \<noteq> ''healthy'' then 1 else 0)
            in api_bind (api_try (updateSDPStatus U K sdp publishedSlices activeFaults)) (\<lambda>r.
                 case r of
                   Inl err \<Rightarrow>
                     api_bind (eventf sdp ''Warning'' ''StatusUpdateFailed''
                         (''Failed to update SimulatedDevicePool status: '' @ errText err))
                       (\<lambda>_. api_fail
                          (wrapError (''update SimulatedDevicePool '' @ poolRef sdp @ '' status'') err))
                 | Inr _ \<Rightarrow> api_return (faultCount, active))))))"

section \<open>The pass\<close>

definition cleanupOrphanedResourceSlices ::
  "('s, 'q) pool_api \<Rightarrow> string set \<Rightarrow> ('s world, unit) api" where
  "cleanupOrphanedResourceSlices K activeSliceNames =
     api_bind (api_wrap ''list ResourceSlices for orphan cleanup'' (call (listSlices K))) (\<lambda>slices.
       api_forEach (\<lambda>sl _.
         if labelOf sl ''draforge.oaslananka/managed-by'' \<noteq> ''simulator'' \<or> sliceName sl \<in> activeSliceNames
         then api_return ()
         else api_wrap (''delete orphaned ResourceSlice '' @ sliceName sl)
                (deleteResourceSlice K (sliceName sl))) slices ())"

definition reconcilePools ::
  "'q object_api \<Rightarrow> ('s, 'q) pool_api \<Rightarrow> unstructured list \<Rightarrow> ('s world, string set \<times> int64) api" where
  "reconcilePools U K sdps =
     api_forEach (\<lambda>sdp (active, localFaultCount).
       api_bind (reconcileSimulatedDevicePool U K sdp active) (\<lambda>(faultCount, active').
         api_return (active', localFaultCount + faultCount))) sdps ({}, 0)"

definition Reconcile :: "'q object_api \<Rightarrow> ('s, 'q) pool_api \<Rightarrow> ('s world, unit) api" where
  "Reconcile U K =
     api_bind (api_try (call (listPools K))) (\<lambda>r.
       case r of
         Inl err \<Rightarrow>
           (if strings_Contains (errText err) ''could not find the scale subresource''
               \<or> strings_Contains (errText err) ''not found''
            then api_return () else api_fail (wrapError ''list SimulatedDevicePools'' err))
       | Inr sdps \<Rightarrow>
           api_bind (reconcilePools U K sdps) (\<lambda>(activeSliceNames, localFaultCount).
           api_bind (cleanupOrphanedResourceSlices K activeSliceNames) (\<lambda>_.
           api_modify (\<lambda>w. w\<lparr>activeFaultsCount := localFaultCount\<rparr>))))"

end
