(* ===== verification/Pool_Sync.thy ===== *)
theory Pool_Sync
  imports Pool_Reconcile
begin

text \<open>
  What a synchronization pass does to the cluster. \<open>server_laws\<close> states what the pass relies on of the API
  server: reads show the stored objects and change nothing, a write changes at most the object it names
  (also when it reports an error), and a write or delete that succeeds took effect. The pass runs
  without another writer of slices in between.
\<close>

section \<open>The server's contract\<close>

record ('s, 'q) server_view =
  viewSlices :: "'s \<Rightarrow> string \<Rightarrow> 'q stored_slice option"
  viewPools :: "'s \<Rightarrow> string \<times> string \<Rightarrow> unstructured option"
  viewNodes :: "'s \<Rightarrow> string list"

definition sdpKey :: "unstructured \<Rightarrow> string \<times> string" where
  "sdpKey sdp = (uNamespace sdp, uName sdp)"

definition sameView :: "('s, 'q) server_view \<Rightarrow> 's \<Rightarrow> 's \<Rightarrow> bool" where
  "sameView V s s' \<longleftrightarrow>
     viewSlices V s' = viewSlices V s \<and> viewPools V s' = viewPools V s \<and> viewNodes V s' = viewNodes V s"

definition sliceChange :: "('s, 'q) server_view \<Rightarrow> string \<Rightarrow> 's \<Rightarrow> 's \<Rightarrow> bool" where
  "sliceChange V n s s' \<longleftrightarrow>
     (\<forall>m. m \<noteq> n \<longrightarrow> viewSlices V s' m = viewSlices V s m) \<and>
     viewPools V s' = viewPools V s \<and> viewNodes V s' = viewNodes V s"

definition poolChange :: "('s, 'q) server_view \<Rightarrow> string \<times> string \<Rightarrow> 's \<Rightarrow> 's \<Rightarrow> bool" where
  "poolChange V k s s' \<longleftrightarrow>
     viewSlices V s' = viewSlices V s \<and> viewNodes V s' = viewNodes V s \<and>
     (\<forall>k'. k' \<noteq> k \<longrightarrow> viewPools V s' k' = viewPools V s k')"

text \<open>A stored slice agrees with one the code wrote: same name, equal specification, same labels.\<close>

definition agrees :: "('s, 'q) pool_api \<Rightarrow> 'q stored_slice \<Rightarrow> 'q stored_slice \<Rightarrow> bool" where
  "agrees K st sl \<longleftrightarrow>
     sliceName st = sliceName sl \<and> specsDeepEqual K st sl \<and> (\<forall>l. labelOf st l = labelOf sl l)"

definition read_laws :: "('s, 'q) pool_api \<Rightarrow> ('s, 'q) server_view \<Rightarrow> bool" where
  "read_laws K V \<longleftrightarrow>
     (\<forall>s. wpr (listPools K)
        (\<lambda>ps s'. sameView V s s' \<and> distinct (map sdpKey ps) \<and>
           (\<forall>p. p \<in> set ps \<longleftrightarrow> viewPools V s (sdpKey p) = Some p))
        (\<lambda>_ s'. sameView V s s') s) \<and>
     (\<forall>s. wpr (listNodes K) (\<lambda>ns s'. sameView V s s' \<and> ns = viewNodes V s) (\<lambda>_ s'. sameView V s s') s) \<and>
     (\<forall>s. wpr (listSlices K)
        (\<lambda>sls s'. sameView V s s' \<and> (\<forall>n sl. viewSlices V s n = Some sl \<longleftrightarrow> sl \<in> set sls \<and> sliceName sl = n))
        (\<lambda>_ s'. sameView V s s') s) \<and>
     (\<forall>s n. wpr (getSlice K n)
        (\<lambda>sl s'. sameView V s s' \<and> viewSlices V s n = Some sl \<and> sliceName sl = n)
        (\<lambda>err s'. sameView V s s' \<and> (isNotFound err \<longrightarrow> viewSlices V s n = None)) s)"

definition write_laws :: "('s, 'q) pool_api \<Rightarrow> ('s, 'q) server_view \<Rightarrow> bool" where
  "write_laws K V \<longleftrightarrow>
     (\<forall>s sl. wpr (createSlice K sl)
        (\<lambda>_ s'. sliceChange V (sliceName sl) s s' \<and> (\<exists>st. viewSlices V s' (sliceName sl) = Some st \<and> agrees K st sl))
        (\<lambda>_ s'. sliceChange V (sliceName sl) s s') s) \<and>
     (\<forall>s sl. wpr (updateSlice K sl)
        (\<lambda>_ s'. sliceChange V (sliceName sl) s s' \<and> (\<exists>st. viewSlices V s' (sliceName sl) = Some st \<and> agrees K st sl))
        (\<lambda>_ s'. sliceChange V (sliceName sl) s s') s) \<and>
     (\<forall>s n. wpr (deleteSlice K n)
        (\<lambda>_ s'. sliceChange V n s s' \<and> viewSlices V s' n = None)
        (\<lambda>err s'. sliceChange V n s s' \<and> (isNotFound err \<longrightarrow> viewSlices V s' n = None)) s) \<and>
     (\<forall>s p. wpr (updatePool K p)
        (\<lambda>p' s'. poolChange V (sdpKey p) s s' \<and> p' = p) (\<lambda>_ s'. poolChange V (sdpKey p) s s') s) \<and>
     (\<forall>s p. wpr (updatePoolStatus K p)
        (\<lambda>_ s'. poolChange V (sdpKey p) s s') (\<lambda>_ s'. poolChange V (sdpKey p) s s') s)"

definition equality_laws :: "('s, 'q) pool_api \<Rightarrow> bool" where
  "equality_laws K \<longleftrightarrow>
     (\<forall>a b v. specsDeepEqual K a (b\<lparr>resourceVersion := v\<rparr>) = specsDeepEqual K a b) \<and>
     (\<forall>a b l. labelsDeepEqual K a b \<longrightarrow> gomap_get '''' a l = gomap_get '''' b l)"

definition server_laws :: "('s, 'q) pool_api \<Rightarrow> ('s, 'q) server_view \<Rightarrow> bool" where
  "server_laws K V \<longleftrightarrow> read_laws K V \<and> write_laws K V \<and> equality_laws K"

section \<open>What the pools ask for\<close>

definition poolNodes :: "'q object_api \<Rightarrow> string list \<Rightarrow> unstructured \<Rightarrow> string list" where
  "poolNodes U nodes sdp =
     (case decodeSimulatedDevicePoolSpec U sdp of
        None \<Rightarrow> []
      | Some spec \<Rightarrow> if spTargetNodes spec \<noteq> [] then spTargetNodes spec else nodes)"

definition poolSliceNames :: "'q object_api \<Rightarrow> string list \<Rightarrow> unstructured \<Rightarrow> string list" where
  "poolSliceNames U nodes sdp = map (simulatedResourceSliceName sdp) (poolNodes U nodes sdp)"

definition desiredSlices :: "'q object_api \<Rightarrow> string list \<Rightarrow> unstructured \<Rightarrow> 'q stored_slice list" where
  "desiredSlices U nodes sdp =
     (case decodeSimulatedDevicePoolSpec U sdp of
        None \<Rightarrow> []
      | Some spec \<Rightarrow>
          if uDeletionTimestamp sdp \<noteq> None \<or> spHealth spec = ''disappear'' then []
          else map (\<lambda>node. buildResourceSlice (desiredFor sdp spec node (length (poolNodes U nodes sdp))))
                 (poolNodes U nodes sdp))"

definition faulty :: "'q object_api \<Rightarrow> unstructured \<Rightarrow> bool" where
  "faulty U sdp \<longleftrightarrow>
     uDeletionTimestamp sdp = None \<and>
     (case decodeSimulatedDevicePoolSpec U sdp of None \<Rightarrow> False | Some spec \<Rightarrow> spHealth spec \<noteq> ''healthy'')"

section \<open>Rules for the calls\<close>

lemma wpr_call [wpr_rules]:
  "wpr (call m) Q E w \<longleftrightarrow>
     wpr m (\<lambda>x s'. Q x (w\<lparr>server := s'\<rparr>)) (\<lambda>err s'. E err (w\<lparr>server := s'\<rparr>)) (server w)"
  by (auto simp: wpr_def call_def split: sum.splits prod.splits)

lemma wpr_eventf [wpr_rules]:
  "wpr (eventf sdp ty reason message) Q E w \<longleftrightarrow>
     Q () (w\<lparr>events := events w @
       [\<lparr>evPool = (uNamespace sdp, uName sdp), evType = ty, evReason = reason, evMessage = message\<rparr>]\<rparr>)"
  by (simp add: eventf_def wpr_modify)

lemma wpr_if [wpr_rules]: "wpr (if b then m else m') Q E s \<longleftrightarrow> (if b then wpr m Q E s else wpr m' Q E s)"
  by simp

lemma sliceChange_refl [simp, intro]: "sliceChange V n s s"
  by (simp add: sliceChange_def)

lemma sameView_sliceChange: "sameView V s s' \<Longrightarrow> sliceChange V n s' s'' \<Longrightarrow> sliceChange V n s s''"
  by (simp add: sameView_def sliceChange_def)

lemma sameView_refl_sliceChange: "sameView V s s' \<Longrightarrow> sliceChange V n s s'"
  by (simp add: sameView_def sliceChange_def)

lemma server_lawsD:
  assumes "server_laws K V"
  shows "wpr (listPools K)
        (\<lambda>ps s'. sameView V s s' \<and> distinct (map sdpKey ps) \<and>
           (\<forall>p. p \<in> set ps \<longleftrightarrow> viewPools V s (sdpKey p) = Some p))
        (\<lambda>_ s'. sameView V s s') s"
    and "wpr (listNodes K) (\<lambda>ns s'. sameView V s s' \<and> ns = viewNodes V s) (\<lambda>_ s'. sameView V s s') s"
    and "wpr (listSlices K)
        (\<lambda>sls s'. sameView V s s' \<and> (\<forall>n sl. viewSlices V s n = Some sl \<longleftrightarrow> sl \<in> set sls \<and> sliceName sl = n))
        (\<lambda>_ s'. sameView V s s') s"
    and "wpr (getSlice K n)
        (\<lambda>sl s'. sameView V s s' \<and> viewSlices V s n = Some sl \<and> sliceName sl = n)
        (\<lambda>err s'. sameView V s s' \<and> (isNotFound err \<longrightarrow> viewSlices V s n = None)) s"
    and "wpr (createSlice K sl)
        (\<lambda>_ s'. sliceChange V (sliceName sl) s s' \<and> (\<exists>st. viewSlices V s' (sliceName sl) = Some st \<and> agrees K st sl))
        (\<lambda>_ s'. sliceChange V (sliceName sl) s s') s"
    and "wpr (updateSlice K sl)
        (\<lambda>_ s'. sliceChange V (sliceName sl) s s' \<and> (\<exists>st. viewSlices V s' (sliceName sl) = Some st \<and> agrees K st sl))
        (\<lambda>_ s'. sliceChange V (sliceName sl) s s') s"
    and "wpr (deleteSlice K n)
        (\<lambda>_ s'. sliceChange V n s s' \<and> viewSlices V s' n = None)
        (\<lambda>err s'. sliceChange V n s s' \<and> (isNotFound err \<longrightarrow> viewSlices V s' n = None)) s"
    and "wpr (updatePool K p)
        (\<lambda>p' s'. poolChange V (sdpKey p) s s' \<and> p' = p) (\<lambda>_ s'. poolChange V (sdpKey p) s s') s"
    and "wpr (updatePoolStatus K p)
        (\<lambda>_ s'. poolChange V (sdpKey p) s s') (\<lambda>_ s'. poolChange V (sdpKey p) s s') s"
    and "specsDeepEqual K a (b\<lparr>resourceVersion := v\<rparr>) = specsDeepEqual K a b"
    and "labelsDeepEqual K la lb \<Longrightarrow> gomap_get '''' la l = gomap_get '''' lb l"
  using assms by (simp_all add: server_laws_def read_laws_def write_laws_def equality_laws_def)

lemma deleteResourceSlice_wpr:
  assumes "server_laws K V"
  shows "wpr (deleteResourceSlice K n)
    (\<lambda>_ w'. sliceChange V n (server w) (server w') \<and> viewSlices V (server w') n = None)
    (\<lambda>_ w'. sliceChange V n (server w) (server w')) w"
  unfolding deleteResourceSlice_def wpr_rules
  by (rule wpr_mono [OF server_lawsD(7) [OF assms]]) (auto simp: wpr_rules)

lemma sliceName_build [simp]: "sliceName (buildResourceSlice desired) = dsName desired"
  by (simp add: buildResourceSlice_def)

lemma agrees_version: 
  assumes "server_laws K V"
  shows "agrees K st (sl\<lparr>resourceVersion := v\<rparr>) \<longleftrightarrow> agrees K st sl"
  by (simp add: agrees_def labelOf_def server_lawsD(10) [OF assms])

lemma ensureResourceSlice_wpr:
  assumes laws: "server_laws K V"
  shows "wpr (ensureResourceSlice K desired)
    (\<lambda>_ w'. sliceChange V (dsName desired) (server w) (server w') \<and>
       (\<exists>st. viewSlices V (server w') (dsName desired) = Some st \<and> agrees K st (buildResourceSlice desired)))
    (\<lambda>_ w'. sliceChange V (dsName desired) (server w) (server w')) w"
  (is "wpr _ ?Q ?E w")
proof -
  let ?n = "dsName desired" and ?sl = "buildResourceSlice desired"
  have create: "wpr (api_wrap p (call (createSlice K ?sl))) ?Q ?E w'"
    if "sameView V (server w) (server w')" for w' p
    unfolding wpr_rules
    by (rule wpr_mono [OF server_lawsD(5) [OF laws]]) (use that sameView_sliceChange in fastforce)+
  have update: "wpr (api_wrap p (call (updateSlice K (?sl\<lparr>resourceVersion := v\<rparr>)))) ?Q ?E w'"
    if "sameView V (server w) (server w')" for w' p v
    unfolding wpr_rules
    by (rule wpr_mono [OF server_lawsD(6) [OF laws]])
      (use that sameView_sliceChange agrees_version [OF laws] in fastforce)+
  have keep: "agrees K existing ?sl"
    if "specsDeepEqual K existing (?sl\<lparr>resourceVersion := v\<rparr>)"
      and "labelsDeepEqual K (sliceLabels existing) (sliceLabels ?sl)" and "sliceName existing = ?n"
    for existing v
    using that server_lawsD(10,11) [OF laws] by (auto simp: agrees_def labelOf_def)
  have found: "sliceChange V ?n (server w) s' \<and> viewSlices V s' ?n = Some existing"
    if "sameView V (server w) s'" and "viewSlices V (server w) ?n = Some existing" for s' existing
    using that by (auto simp: sameView_def sliceChange_def)
  show ?thesis
    unfolding ensureResourceSlice_def Let_def wpr_bind wpr_try wpr_call
    by (rule wpr_mono [OF server_lawsD(4) [OF laws]])
      (use keep update create found sameView_refl_sliceChange in \<open>auto simp: wpr_return wpr_fail\<close>)
qed

section \<open>What a step may touch\<close>

text \<open>Of the slices, only those change whose name and old content satisfy \<open>P\<close>; the nodes stay.\<close>

definition touchesOnly ::
  "('s, 'q) server_view \<Rightarrow> (string \<Rightarrow> 'q stored_slice option \<Rightarrow> bool) \<Rightarrow> 's \<Rightarrow> 's \<Rightarrow> bool" where
  "touchesOnly V P s s' \<longleftrightarrow>
     viewNodes V s' = viewNodes V s \<and>
     (\<forall>m. viewSlices V s' m = viewSlices V s m \<or> P m (viewSlices V s m))"

lemma touchesOnly_refl [simp, intro]: "touchesOnly V P s s"
  by (simp add: touchesOnly_def)

lemma touchesOnly_trans: "touchesOnly V P s s' \<Longrightarrow> touchesOnly V P s' s'' \<Longrightarrow> touchesOnly V P s s''"
  by (simp add: touchesOnly_def) metis

lemma touchesOnly_mono: "touchesOnly V P s s' \<Longrightarrow> (\<And>m x. P m x \<Longrightarrow> P' m x) \<Longrightarrow> touchesOnly V P' s s'"
  by (auto simp: touchesOnly_def)

lemma sliceChange_touches: "sliceChange V n s s' \<Longrightarrow> P n (viewSlices V s n) \<Longrightarrow> touchesOnly V P s s'"
  by (metis sliceChange_def touchesOnly_def)

lemma sameView_touches: "sameView V s s' \<Longrightarrow> touchesOnly V P s s'"
  by (simp add: sameView_def touchesOnly_def)

lemma poolChange_touches: "poolChange V k s s' \<Longrightarrow> touchesOnly V P s s'"
  by (simp add: poolChange_def touchesOnly_def)

lemma touchesOnly_keeps:
  "touchesOnly V P s s' \<Longrightarrow> \<not> P m (viewSlices V s m) \<Longrightarrow> viewSlices V s' m = viewSlices V s m"
  by (auto simp: touchesOnly_def)

text \<open>The slices \<open>sls\<close> are all stored.\<close>

definition stored :: "('s, 'q) pool_api \<Rightarrow> ('s, 'q) server_view \<Rightarrow> 's \<Rightarrow> 'q stored_slice \<Rightarrow> bool" where
  "stored K V s sl \<longleftrightarrow> (\<exists>st. viewSlices V s (sliceName sl) = Some st \<and> agrees K st sl)"

lemma stored_touches:
  assumes "stored K V s sl" and "touchesOnly V P s s'"
    and "\<And>st. agrees K st sl \<Longrightarrow> \<not> P (sliceName sl) (Some st)"
  shows "stored K V s' sl"
  using assms unfolding stored_def by (metis touchesOnly_keeps)

section \<open>One pool\<close>

lemma dsName_desiredFor [simp]: "dsName (desiredFor sdp spec node n) = simulatedResourceSliceName sdp node"
  by (simp add: desiredFor_def)

lemma reconcilePoolResourceSlice_wpr:
  assumes laws: "server_laws K V"
  shows "wpr (reconcilePoolResourceSlice K sdp spec node cnt act)
    (\<lambda>((name, published), act') w'.
       sliceChange V (simulatedResourceSliceName sdp node) (server w) (server w') \<and>
       published = (spHealth spec \<noteq> ''disappear'') \<and>
       (published \<longrightarrow> name = simulatedResourceSliceName sdp node \<and>
          stored K V (server w') (buildResourceSlice (desiredFor sdp spec node cnt))) \<and>
       act' = (if published then insert (simulatedResourceSliceName sdp node) act else act))
    (\<lambda>_ w'. sliceChange V (simulatedResourceSliceName sdp node) (server w) (server w')) w"
proof -
  note del = deleteResourceSlice_wpr [OF laws, of "simulatedResourceSliceName sdp node"]
  have ens: "wpr (ensureResourceSlice K (desiredFor sdp spec node cnt))
    (\<lambda>_ w'. sliceChange V (simulatedResourceSliceName sdp node) (server w1) (server w') \<and>
       stored K V (server w') (buildResourceSlice (desiredFor sdp spec node cnt)))
    (\<lambda>_ w'. sliceChange V (simulatedResourceSliceName sdp node) (server w1) (server w')) w1" for w1
    using ensureResourceSlice_wpr [OF laws, of "desiredFor sdp spec node cnt" w1]
    by (simp add: stored_def)
  show ?thesis
    unfolding reconcilePoolResourceSlice_def Let_def wpr_rules
    by (auto intro!: wpr_mono [OF del] wpr_mono [OF ens] simp: wpr_rules)
qed

lemma reconcileNodes_wpr:
  assumes laws: "server_laws K V"
  shows "wpr (reconcileNodes K sdp spec nodes act)
    (\<lambda>(published, act') w'.
       touchesOnly V (\<lambda>m _. m \<in> simulatedResourceSliceName sdp ` set nodes) (server w) (server w') \<and>
       (if spHealth spec = ''disappear'' then act' = act
        else act' = act \<union> simulatedResourceSliceName sdp ` set nodes \<and>
          (distinct (map (simulatedResourceSliceName sdp) nodes) \<longrightarrow> (\<forall>node \<in> set nodes. stored K V (server w') (buildResourceSlice (desiredFor sdp spec node (length nodes)))))))
    (\<lambda>_ w'. touchesOnly V (\<lambda>m _. m \<in> simulatedResourceSliceName sdp ` set nodes) (server w) (server w')) w"
proof -
  let ?N = "\<lambda>m _. m \<in> simulatedResourceSliceName sdp ` set nodes"
  let ?dist = "distinct (map (simulatedResourceSliceName sdp) nodes)"
  let ?S = "\<lambda>w' node. stored K V (server w') (buildResourceSlice (desiredFor sdp spec node (length nodes)))"
  define I where "I = (\<lambda>done (published :: string list, act') (w' :: 'a world).
    touchesOnly V ?N (server w) (server w') \<and>
    (if spHealth spec = ''disappear'' then act' = act
     else act' = act \<union> simulatedResourceSliceName sdp ` set done \<and> (?dist \<longrightarrow> (\<forall>node \<in> set done. ?S w' node))))"
  have "wpr (reconcileNodes K sdp spec nodes act) (I nodes)
      (\<lambda>_ w'. touchesOnly V ?N (server w) (server w')) w"
    unfolding reconcileNodes_def
  proof (rule wpr_forEach [where I = I])
    show "I [] ([], act) w" by (simp add: I_def)
  next
    fix don node rest acc w1
    assume split: "nodes = don @ node # rest" and inv1: "I don acc w1"
    obtain published act1 where acc: "acc = (published, act1)" by force
    have touched: "touchesOnly V ?N (server w) (server w1)"
      and inv: "if spHealth spec = ''disappear'' then act1 = act
        else act1 = act \<union> simulatedResourceSliceName sdp ` set don \<and> (?dist \<longrightarrow> (\<forall>node \<in> set don. ?S w1 node))"
      using inv1 by (simp_all add: I_def acc)
    have fresh: "simulatedResourceSliceName sdp node' \<noteq> simulatedResourceSliceName sdp node"
      if "node' \<in> set don" and ?dist for node'
      using that(2) imageI [OF that(1), of "simulatedResourceSliceName sdp"] by (auto simp: split)
    have keep: "touchesOnly V ?N (server w) (server w2)"
      if "sliceChange V (simulatedResourceSliceName sdp node) (server w1) (server w2)" for w2
      using that by (intro touchesOnly_trans [OF touched] sliceChange_touches) (auto simp: split)
    have old: "?S w2 node'"
      if "sliceChange V (simulatedResourceSliceName sdp node) (server w1) (server w2)"
        and "?S w1 node'" and "node' \<in> set don" and ?dist for w2 node'
      using that fresh [of node'] by (auto simp: stored_def sliceChange_def)
    show "wpr (case acc of (published, active) \<Rightarrow>
        api_bind (reconcilePoolResourceSlice K sdp spec node (length nodes) active)
          (\<lambda>((sliceName, pub), active').
             api_return (if pub then published @ [sliceName] else published, active')))
      (I (don @ [node])) (\<lambda>_ w'. touchesOnly V ?N (server w) (server w')) w1"
      unfolding acc prod.case wpr_bind
      by (rule wpr_mono [OF reconcilePoolResourceSlice_wpr [OF laws]])
        (use inv in \<open>auto simp: wpr_return I_def keep old split: if_splits\<close>)
  qed
  then show ?thesis by (rule wpr_mono) (auto simp: I_def)
qed

section \<open>Deleting slices\<close>

definition deletesOnly :: "('s, 'q) server_view \<Rightarrow> ('q stored_slice \<Rightarrow> bool) \<Rightarrow> 's \<Rightarrow> 's \<Rightarrow> bool" where
  "deletesOnly V p s s' \<longleftrightarrow>
     touchesOnly V (\<lambda>m x. \<exists>st. x = Some st \<and> p st) s s' \<and> viewPools V s' = viewPools V s"

lemma deletesOnly_step:
  assumes "deletesOnly V p s s'" and "sliceChange V n s' s''" and "viewSlices V s n = Some sl" and "p sl"
  shows "deletesOnly V p s s''"
proof -
  have "viewSlices V s'' m = viewSlices V s m \<or> (\<exists>st. viewSlices V s m = Some st \<and> p st)" for m
    using assms by (cases "m = n") (auto simp: deletesOnly_def touchesOnly_def sliceChange_def)
  then show ?thesis
    using assms(1,2) by (simp add: deletesOnly_def touchesOnly_def sliceChange_def)
qed

text \<open>The loop that deletes the listed slices it does not skip, in finalization and in orphan cleanup.\<close>

lemma deleteSelected_wpr:
  assumes laws: "server_laws K V"
    and listed: "\<And>n sl. viewSlices V (server w) n = Some sl \<longleftrightarrow> sl \<in> set slices \<and> sliceName sl = n"
  shows "wpr (api_forEach (\<lambda>sl _. if skip sl then api_return ()
        else api_wrap (what sl) (deleteResourceSlice K (sliceName sl))) slices ())
    (\<lambda>_ w'. deletesOnly V (\<lambda>st. \<not> skip st) (server w) (server w') \<and>
       (\<forall>n st. viewSlices V (server w') n = Some st \<longrightarrow> viewSlices V (server w) n = Some st \<and> skip st))
    (\<lambda>_ w'. deletesOnly V (\<lambda>st. \<not> skip st) (server w) (server w')) w"
    (is "wpr ?loop ?Q ?E w")
proof -
  define I where "I = (\<lambda>done (_ :: unit) (w' :: 'a world). ?E undefined w' \<and>
    (\<forall>n. viewSlices V (server w') n = viewSlices V (server w) n \<or> viewSlices V (server w') n = None) \<and>
    (\<forall>sl \<in> set done. \<not> skip sl \<longrightarrow> viewSlices V (server w') (sliceName sl) = None))"
  have loop: "wpr ?loop (I slices) ?E w"
  proof (rule wpr_forEach [where I = I])
    show "I [] () w" by (simp add: I_def deletesOnly_def)
  next
    fix don sl rest acc w1
    assume split: "slices = don @ sl # rest" and inv: "I don acc w1"
    have old: "viewSlices V (server w) (sliceName sl) = Some sl"
      using listed [of "sliceName sl" sl] split by simp
    show "wpr (if skip sl then api_return () else api_wrap (what sl) (deleteResourceSlice K (sliceName sl)))
        (I (don @ [sl])) ?E w1"
    proof (cases "skip sl")
      case True
      then show ?thesis using inv by (auto simp: wpr_return I_def)
    next
      case False
      have step: "?E err w2" if "sliceChange V (sliceName sl) (server w1) (server w2)" for err w2
        using deletesOnly_step [OF _ that old, of "\<lambda>st. \<not> skip st"] inv False by (simp add: I_def)
      have "wpr (deleteResourceSlice K (sliceName sl)) (I (don @ [sl])) ?E w1"
      proof (rule wpr_mono [OF deleteResourceSlice_wpr [OF laws]])
        fix w2 :: "'a world"
        assume "sliceChange V (sliceName sl) (server w1) (server w2)"
        then show "?E undefined w2" by (rule step)
      next
        fix u :: unit and w2 :: "'a world"
        assume change: "sliceChange V (sliceName sl) (server w1) (server w2) \<and> viewSlices V (server w2) (sliceName sl) = None"
        then have view: "viewSlices V (server w2) = (viewSlices V (server w1))(sliceName sl := None)"
          by (auto simp: sliceChange_def)
        have "?E undefined w2" using change by (intro step) simp
        with inv show "I (don @ [sl]) u w2" unfolding I_def view by simp
      qed
      with False show ?thesis by (simp add: wpr_wrap)
    qed
  qed
  have rest: "viewSlices V (server w) n = Some st \<and> skip st"
    if inv: "I slices u w'" and got: "viewSlices V (server w') n = Some st" for u w' n st
  proof -
    have old: "viewSlices V (server w) n = Some st" using inv got unfolding I_def by (metis option.distinct(1))
    then have "st \<in> set slices" and "sliceName st = n" using listed by blast+
    with inv got have "skip st" unfolding I_def by auto
    with old show ?thesis ..
  qed
  have frame: "?E undefined w'" if "I slices u w'" for u w' using that unfolding I_def by blast
  show ?thesis by (rule wpr_mono [OF loop]) (blast intro: frame dest: rest)+
qed

lemma deleteOwnedSlices_wpr:
  assumes "server_laws K V"
    and "\<And>n sl. viewSlices V (server w) n = Some sl \<longleftrightarrow> sl \<in> set slices \<and> sliceName sl = n"
  shows "wpr (deleteOwnedSlices K sdp names slices)
    (\<lambda>_ w'. deletesOnly V (\<lambda>st. resourceSliceBelongsToSDP st sdp names) (server w) (server w') \<and>
       (\<forall>n st. viewSlices V (server w') n = Some st \<longrightarrow> \<not> resourceSliceBelongsToSDP st sdp names))
    (\<lambda>_ w'. deletesOnly V (\<lambda>st. resourceSliceBelongsToSDP st sdp names) (server w) (server w')) w"
  unfolding deleteOwnedSlices_def
  by (rule wpr_mono [OF deleteSelected_wpr [OF assms]]) auto

section \<open>Finalization\<close>

definition poolTouches ::
  "'q object_api \<Rightarrow> string list \<Rightarrow> unstructured \<Rightarrow> string \<Rightarrow> 'q stored_slice option \<Rightarrow> bool" where
  "poolTouches U nodes sdp m x \<longleftrightarrow>
     m \<in> set (poolSliceNames U nodes sdp) \<or>
     (\<exists>st. x = Some st \<and> resourceSliceBelongsToSDP st sdp (set (poolSliceNames U nodes sdp)))"

lemma resolveTargetNodes_wpr:
  assumes "server_laws K V"
  shows "wpr (resolveTargetNodes K configured)
    (\<lambda>nodes w'. sameView V (server w) (server w') \<and>
       nodes = (if configured \<noteq> [] then configured else viewNodes V (server w)))
    (\<lambda>_ w'. sameView V (server w) (server w')) w"
proof (cases "configured = []")
  case True
  then show ?thesis
    unfolding resolveTargetNodes_def wpr_rules
    by (simp add: wpr_wrap wpr_call) (rule wpr_mono [OF server_lawsD(2) [OF assms]]; simp)
qed (simp add: resolveTargetNodes_def wpr_return sameView_def)

lemma expectedResourceSliceNames_wpr:
  assumes "server_laws K V"
  shows "wpr (expectedResourceSliceNames U K sdp)
    (\<lambda>names w'. sameView V (server w) (server w') \<and> names = set (poolSliceNames U (viewNodes V (server w)) sdp))
    (\<lambda>_ w'. sameView V (server w) (server w')) w"
proof (cases "decodeSimulatedDevicePoolSpec U sdp")
  case None
  then show ?thesis
    by (simp add: expectedResourceSliceNames_def wpr_return sameView_def poolSliceNames_def poolNodes_def)
next
  case (Some spec)
  then show ?thesis
    unfolding expectedResourceSliceNames_def option.case wpr_bind wpr_wrap
    by (simp add: wpr_rules) (rule wpr_mono [OF resolveTargetNodes_wpr [OF assms]];
        simp add: wpr_return poolSliceNames_def poolNodes_def)
qed

definition slicesGone :: "('s, 'q) server_view \<Rightarrow> unstructured \<Rightarrow> string set \<Rightarrow> 's \<Rightarrow> bool" where
  "slicesGone V sdp names s \<longleftrightarrow>
     (\<forall>n st. viewSlices V s n = Some st \<longrightarrow> \<not> resourceSliceBelongsToSDP st sdp names)"

definition finalizing ::
  "'q object_api \<Rightarrow> ('s, 'q) server_view \<Rightarrow> unstructured \<Rightarrow> string set \<Rightarrow> 's \<Rightarrow> 's \<Rightarrow> bool" where
  "finalizing U V sdp names s s' \<longleftrightarrow>
     touchesOnly V (poolTouches U (viewNodes V s) sdp) s s' \<and>
     (\<forall>k. k \<noteq> sdpKey sdp \<longrightarrow> viewPools V s' k = viewPools V s k) \<and>
     (viewPools V s' (sdpKey sdp) \<noteq> viewPools V s (sdpKey sdp) \<longrightarrow> slicesGone V sdp names s')"

lemma finalize_wpr:
  assumes laws: "server_laws K V" and names: "names = set (poolSliceNames U (viewNodes V (server w)) sdp)"
  shows "wpr (finalizeDeletingSimulatedDevicePool U K sdp)
    (\<lambda>_ w'. finalizing U V sdp names (server w) (server w') \<and>
       (containsString (uFinalizers sdp) resourceSliceCleanupFinalizer \<longrightarrow> slicesGone V sdp names (server w')))
    (\<lambda>_ w'. finalizing U V sdp names (server w) (server w')) w"
    (is "wpr _ ?Q ?E w")
proof (cases "containsString (uFinalizers sdp) resourceSliceCleanupFinalizer")
  case False
  then show ?thesis
    by (simp add: finalizeDeletingSimulatedDevicePool_def wpr_return finalizing_def)
next
  case True
  let ?del = "\<lambda>w'. deletesOnly V (\<lambda>st. resourceSliceBelongsToSDP st sdp names) (server w) (server w')"
  have del: "?E err w'" if "?del w'" for w' err
    using that by (auto simp: finalizing_def deletesOnly_def poolTouches_def names elim!: touchesOnly_mono)
  have same: "?E err w'" if "sameView V (server w) (server w')" for w' err
    using that by (intro del) (auto simp: sameView_def deletesOnly_def touchesOnly_def)
  have remove: "wpr (api_bind (api_wrap p (call (updatePool K (sdp\<lparr>uFinalizers := fs\<rparr>)))) (\<lambda>_. api_return ())) ?Q ?E w'"
    if "?del w'" and "slicesGone V sdp names (server w')" for w' p fs
    unfolding wpr_rules
    by (rule wpr_mono [OF server_lawsD(8) [OF laws]])
      (use del [OF that(1)] that(2) in
        \<open>auto simp: finalizing_def poolChange_def sdpKey_def touchesOnly_def slicesGone_def\<close>)
  have delete: "wpr (deleteOwnedSlices K sdp names slices)
      (\<lambda>_ w'. ?del w' \<and> slicesGone V sdp names (server w')) (\<lambda>_ w'. ?del w') w1"
    if "sameView V (server w) (server w1)"
      and "\<forall>n sl. viewSlices V (server w) n = Some sl \<longleftrightarrow> sl \<in> set slices \<and> sliceName sl = n" for w1 slices
    by (rule wpr_mono [OF deleteOwnedSlices_wpr [OF laws]])
      (use that in \<open>auto simp: sameView_def deletesOnly_def touchesOnly_def slicesGone_def\<close>)
  have expected: "wpr (expectedResourceSliceNames U K sdp)
      (\<lambda>ns w'. sameView V (server w) (server w') \<and> ns = names) (\<lambda>_ w'. sameView V (server w) (server w')) w"
    unfolding names by (rule expectedResourceSliceNames_wpr [OF laws])
  have list: "wpr (api_wrap p (call (listSlices K)))
      (\<lambda>sls w'. sameView V (server w) (server w') \<and>
         (\<forall>n sl. viewSlices V (server w) n = Some sl \<longleftrightarrow> sl \<in> set sls \<and> sliceName sl = n))
      (\<lambda>_ w'. sameView V (server w) (server w')) w1"
    if "sameView V (server w) (server w1)" for w1 p
    unfolding wpr_rules
    by (rule wpr_mono [OF server_lawsD(3) [OF laws]]) (use that in \<open>auto simp: sameView_def\<close>)
  have body: "(if \<not> containsString (uFinalizers sdp) resourceSliceCleanupFinalizer then a else b) = b" for a b :: 'x
    using True by simp
  show ?thesis
    unfolding finalizeDeletingSimulatedDevicePool_def body
    apply (rule wpr_seq [OF expected])
     apply (elim conjE, hypsubst, rule wpr_seq [OF list], assumption)
      apply (elim conjE, rule wpr_seq [OF delete], assumption, assumption)
       apply (elim conjE, rule remove; assumption)
      apply (erule del)
     apply (erule same)
    apply (erule same)
    done
qed

section \<open>Reconciling one pool\<close>

lemma finalizers_irrelevant [simp]:
  "decodeSimulatedDevicePoolSpec U (sdp\<lparr>uFinalizers := fs\<rparr>) = decodeSimulatedDevicePoolSpec U sdp"
  "simulatedResourceSliceName (sdp\<lparr>uFinalizers := fs\<rparr>) node = simulatedResourceSliceName sdp node"
  "buildResourceSlice (desiredFor (sdp\<lparr>uFinalizers := fs\<rparr>) spec node n) =
   buildResourceSlice (desiredFor sdp spec node n)"
  "sdpKey (sdp\<lparr>uFinalizers := fs\<rparr>) = sdpKey sdp"
  by (simp_all add: decodeSimulatedDevicePoolSpec_def Let_def simulatedResourceSliceName_def buildResourceSlice_def
      desiredFor_def resourceSliceOwnershipLabels_def sdpKey_def cong: if_cong split: prod.splits)

lemma ensureFinalizer_wpr:
  assumes "server_laws K V"
  shows "wpr (ensureResourceSliceCleanupFinalizer K sdp)
    (\<lambda>sdp' w'. poolChange V (sdpKey sdp) (server w) (server w') \<and> (\<exists>fs. sdp' = sdp\<lparr>uFinalizers := fs\<rparr>))
    (\<lambda>_ w'. poolChange V (sdpKey sdp) (server w) (server w')) w" (is "wpr _ ?Q ?E w")
proof -
  have "?Q sdp w"
    by (auto simp: poolChange_def intro: exI [where x = "uFinalizers sdp"])
  moreover have "wpr (api_wrap p (call (updatePool K (sdp\<lparr>uFinalizers := fs\<rparr>)))) ?Q ?E w" for p fs
    unfolding wpr_rules by (rule wpr_mono [OF server_lawsD(8) [OF assms]]) auto
  ultimately show ?thesis
    unfolding ensureResourceSliceCleanupFinalizer_def wpr_if wpr_return by presburger
qed

lemma updateSDPStatus_wpr:
  assumes "server_laws K V"
  shows "wpr (updateSDPStatus U K sdp published faults)
    (\<lambda>_ w'. poolChange V (sdpKey sdp) (server w) (server w'))
    (\<lambda>_ w'. poolChange V (sdpKey sdp) (server w) (server w')) w"
proof -
  have "wpr (call (updatePoolStatus K (sdp\<lparr>uObject := ob\<rparr>)))
    (\<lambda>_ w'. poolChange V (sdpKey sdp) (server w) (server w'))
    (\<lambda>_ w'. poolChange V (sdpKey sdp) (server w) (server w')) w" for ob
    using server_lawsD(9) [OF assms, of "sdp\<lparr>uObject := ob\<rparr>" "server w"] by (simp add: wpr_call sdpKey_def)
  then show ?thesis
    by (auto simp: updateSDPStatus_def Let_def wpr_return wpr_fail poolChange_def split: sum.splits)
qed

lemma desiredSlices_names: "sliceName ` set (desiredSlices U nodes sdp) \<subseteq> set (poolSliceNames U nodes sdp)"
  by (auto simp: desiredSlices_def poolSliceNames_def split: option.splits)

lemma reconcileSimulatedDevicePool_wpr:
  assumes laws: "server_laws K V"
  shows "wpr (reconcileSimulatedDevicePool U K sdp act)
    (\<lambda>(faultCount, act') w'.
       touchesOnly V (poolTouches U (viewNodes V (server w)) sdp) (server w) (server w') \<and>
       (distinct (poolSliceNames U (viewNodes V (server w)) sdp) \<longrightarrow>
          (\<forall>sl \<in> set (desiredSlices U (viewNodes V (server w)) sdp). stored K V (server w') sl)) \<and>
       act' = act \<union> sliceName ` set (desiredSlices U (viewNodes V (server w)) sdp) \<and>
       faultCount = (if faulty U sdp then 1 else 0))
    (\<lambda>_ w'. touchesOnly V (poolTouches U (viewNodes V (server w)) sdp) (server w) (server w')) w"
    (is "wpr _ ?Q ?E w")
proof (cases "uDeletionTimestamp sdp")
  case (Some time)
  then have "desiredSlices U (viewNodes V (server w)) sdp = []" and "\<not> faulty U sdp"
    by (auto simp: desiredSlices_def faulty_def split: option.splits)
  moreover have "reconcileSimulatedDevicePool U K sdp act =
      api_bind (finalizeDeletingSimulatedDevicePool U K sdp) (\<lambda>_. api_return (0, act))"
    using Some by (simp add: reconcileSimulatedDevicePool_def)
  ultimately show ?thesis
    by (auto simp: wpr_return finalizing_def intro!: wpr_seq [OF finalize_wpr [OF laws refl]])
next
  case None
  let ?nodes = "viewNodes V (server w)" and ?T = "poolTouches U (viewNodes V (server w)) sdp"
  show ?thesis
  proof (cases "decodeSimulatedDevicePoolSpec U sdp")
    case no_spec: None
    then have "desiredSlices U ?nodes sdp = []" and "\<not> faulty U sdp"
      by (auto simp: desiredSlices_def faulty_def)
    then show ?thesis
      unfolding reconcileSimulatedDevicePool_def None
      using no_spec by (auto simp: wpr_return intro!: wpr_seq [OF ensureFinalizer_wpr [OF laws]]
          intro: poolChange_touches)
  next
    case spec: (Some spec)
    have names: "set (poolSliceNames U ?nodes sdp) = simulatedResourceSliceName sdp ` set (poolNodes U ?nodes sdp)"
      by (simp add: poolSliceNames_def)
    have nodes: "poolNodes U ?nodes sdp = (if spTargetNodes spec \<noteq> [] then spTargetNodes spec else ?nodes)"
      by (simp add: poolNodes_def spec)
    have desired: "set (desiredSlices U ?nodes sdp) = (if spHealth spec = ''disappear'' then {}
        else (\<lambda>node. buildResourceSlice (desiredFor sdp spec node (length (poolNodes U ?nodes sdp)))) ` set (poolNodes U ?nodes sdp))"
      by (simp add: desiredSlices_def spec None)
    have own: "touchesOnly V ?T s s'"
      if "touchesOnly V (\<lambda>m _. m \<in> simulatedResourceSliceName sdp ` set (poolNodes U ?nodes sdp)) s s'" for s s'
      using that by (rule touchesOnly_mono) (simp add: poolTouches_def names)
    have resolve: "wpr (api_wrap p (resolveTargetNodes K (spTargetNodes spec)))
        (\<lambda>ns w'. touchesOnly V ?T (server w) (server w') \<and> ns = poolNodes U ?nodes sdp)
        (\<lambda>_ w'. touchesOnly V ?T (server w) (server w')) w1"
      if "poolChange V (sdpKey sdp) (server w) (server w1)" for w1 p
      unfolding wpr_wrap
      by (rule wpr_mono [OF resolveTargetNodes_wpr [OF laws]])
        (use that nodes in \<open>auto simp: touchesOnly_def sameView_def poolChange_def\<close>)
    have slices: "wpr (reconcileNodes K (sdp\<lparr>uFinalizers := fs\<rparr>) spec (poolNodes U ?nodes sdp) act)
        (\<lambda>(published, act') w'. touchesOnly V ?T (server w) (server w') \<and>
           (distinct (poolSliceNames U ?nodes sdp) \<longrightarrow> (\<forall>sl \<in> set (desiredSlices U ?nodes sdp). stored K V (server w') sl)) \<and>
           act' = act \<union> sliceName ` set (desiredSlices U ?nodes sdp))
        (\<lambda>_ w'. touchesOnly V ?T (server w) (server w')) w1"
      if touched: "touchesOnly V ?T (server w) (server w1)" for w1 fs
      by (rule wpr_mono [OF reconcileNodes_wpr [OF laws]])
        (use touched own in \<open>auto simp: desired image_image poolSliceNames_def cong: map_cong intro: touchesOnly_trans\<close>)
    have status: "wpr (api_try (updateSDPStatus U K (sdp\<lparr>uFinalizers := fs\<rparr>) published faults))
        (\<lambda>_ w'. viewSlices V (server w') = viewSlices V (server w1) \<and> viewNodes V (server w') = viewNodes V (server w1))
        (\<lambda>_ _. False) w1" for w1 fs published faults
      unfolding wpr_try
      by (rule wpr_mono [OF updateSDPStatus_wpr [OF laws]]) (simp_all add: poolChange_def)
    have finish: "wpr (case r of
           Inl err \<Rightarrow> api_bind (eventf sdp' ty reason (msg err)) (\<lambda>_. api_fail (f err))
         | Inr _ \<Rightarrow> api_return (if spHealth spec \<noteq> ''healthy'' then 1 else 0, act')) ?Q ?E w2"
      if "touchesOnly V ?T (server w) (server w2)"
        and "distinct (poolSliceNames U ?nodes sdp) \<longrightarrow> (\<forall>sl \<in> set (desiredSlices U ?nodes sdp). stored K V (server w2) sl)"
        and "act' = act \<union> sliceName ` set (desiredSlices U ?nodes sdp)" for r sdp' ty reason msg f act' w2
      using that None spec by (cases r) (auto simp: wpr_rules faulty_def)
    show ?thesis
      apply (simp only: reconcileSimulatedDevicePool_def None simp_thms if_False Let_def)
      apply (rule wpr_seq [OF ensureFinalizer_wpr [OF laws]])
       apply (elim conjE exE, simp only: finalizers_irrelevant spec option.case)
       apply (rule wpr_seq [OF resolve], assumption)
        apply (elim conjE, hypsubst, rule wpr_seq [OF slices], assumption)
         apply (clarify, rule wpr_seq [OF status])
          apply (rule finish)
            apply (simp_all add: touchesOnly_def stored_def poolChange_def)
      done
  qed
qed

section \<open>The pass\<close>

lemma labelOf_build:
  "labelOf (buildResourceSlice desired) resourceSliceManagedByLabel = ''simulator''"
  "labelOf (buildResourceSlice desired) resourceSliceSDPNameLabel = uName (dsSDP desired)"
  "labelOf (buildResourceSlice desired) resourceSliceSDPNamespaceLabel = uNamespace (dsSDP desired)"
  "labelOf (buildResourceSlice desired) resourceSliceSDPUIDLabel = uUID (dsSDP desired)"
  by (simp_all add: labelOf_def buildResourceSlice_def mergeStringMaps_def putAll_def resourceSliceOwnershipLabels_def
      gomap_get_def resourceSliceManagedByLabel_def resourceSliceSDPNameLabel_def
      resourceSliceSDPNamespaceLabel_def resourceSliceSDPUIDLabel_def)

lemma desiredSlices_build:
  assumes "sl \<in> set (desiredSlices U nodes sdp)"
  obtains desired where "sl = buildResourceSlice desired" and "dsSDP desired = sdp"
    and "sliceName sl \<in> set (poolSliceNames U nodes sdp)"
proof -
  have "\<exists>spec node n. sl = buildResourceSlice (desiredFor sdp spec node n)"
    using assms by (auto simp: desiredSlices_def split: option.splits if_splits)
  moreover have "sliceName sl \<in> set (poolSliceNames U nodes sdp)"
    using assms desiredSlices_names by blast
  ultimately show ?thesis using that by (auto simp: desiredFor_def)
qed

text \<open>A pool leaves the slices of the other pools alone, if their names are different.\<close>

lemma desired_untouched:
  assumes sl: "sl \<in> set (desiredSlices U nodes p)" and st: "agrees K st sl" and other: "sdpKey p \<noteq> sdpKey sdp"
    and names: "sliceName sl \<notin> set (poolSliceNames U nodes sdp)"
  shows "\<not> poolTouches U nodes sdp (sliceName sl) (Some st)"
proof -
  obtain desired where desired: "sl = buildResourceSlice desired" "dsSDP desired = p"
    using sl by (rule desiredSlices_build)
  then have "labelOf st resourceSliceSDPNameLabel = uName p"
    and "labelOf st resourceSliceSDPNamespaceLabel = uNamespace p" and "sliceName st = sliceName sl"
    using st labelOf_build [of desired] by (simp_all add: agrees_def)
  then show ?thesis
    using other names by (auto simp: poolTouches_def resourceSliceBelongsToSDP_def sdpKey_def split: if_splits)
qed

definition managed :: "('q, 'z) ResourceSlice_scheme \<Rightarrow> bool" where
  "managed sl \<longleftrightarrow> labelOf sl resourceSliceManagedByLabel = ''simulator''"

text \<open>What a pass over the pools may touch: slices with a pool's name, and slices it manages.\<close>

definition passTouches ::
  "'q object_api \<Rightarrow> string list \<Rightarrow> unstructured list \<Rightarrow> string \<Rightarrow> 'q stored_slice option \<Rightarrow> bool" where
  "passTouches U nodes sdps m x \<longleftrightarrow>
     m \<in> set (concat (map (poolSliceNames U nodes) sdps)) \<or> (\<exists>st. x = Some st \<and> managed st)"

lemma poolTouches_pass:
  "poolTouches U nodes sdp m x \<Longrightarrow> sdp \<in> set sdps \<Longrightarrow> passTouches U nodes sdps m x"
  by (auto simp: poolTouches_def passTouches_def resourceSliceBelongsToSDP_def managed_def split: if_splits)

definition desiredNames :: "'q object_api \<Rightarrow> string list \<Rightarrow> unstructured list \<Rightarrow> string set" where
  "desiredNames U nodes sdps = (\<Union>sdp \<in> set sdps. sliceName ` set (desiredSlices U nodes sdp))"

definition allStored ::
  "'q object_api \<Rightarrow> ('s, 'q) pool_api \<Rightarrow> ('s, 'q) server_view \<Rightarrow> string list \<Rightarrow> unstructured list \<Rightarrow> 's \<Rightarrow> bool" where
  "allStored U K V nodes sdps s \<longleftrightarrow>
     (\<forall>sdp \<in> set sdps. \<forall>sl \<in> set (desiredSlices U nodes sdp). stored K V s sl)"

lemma allStored_step:
  assumes old: "allStored U K V nodes don s" and touched: "touchesOnly V (poolTouches U nodes sdp) s s'"
    and new: "\<forall>sl \<in> set (desiredSlices U nodes sdp). stored K V s' sl"
    and keys: "sdpKey sdp \<notin> sdpKey ` set don"
    and names: "set (poolSliceNames U nodes sdp) \<inter> set (concat (map (poolSliceNames U nodes) don)) = {}"
  shows "allStored U K V nodes (don @ [sdp]) s'"
proof -
  have "stored K V s' sl" if p: "p \<in> set don" and sl: "sl \<in> set (desiredSlices U nodes p)" for p sl
  proof (rule stored_touches [OF _ touched])
    show "stored K V s sl" using old p sl by (simp add: allStored_def)
    have "sliceName sl \<in> set (poolSliceNames U nodes p)" using sl desiredSlices_names by blast
    then have "sliceName sl \<notin> set (poolSliceNames U nodes sdp)" using names p by auto
    then show "\<not> poolTouches U nodes sdp (sliceName sl) (Some st)" if "agrees K st sl" for st
      using desired_untouched [OF sl that] keys p by (metis imageI)
  qed
  with new show ?thesis by (auto simp: allStored_def)
qed

lemma reconcilePools_wpr:
  fixes w :: "'s world"
  assumes laws: "server_laws K V" and nodes: "nodes = viewNodes V (server w)"
    and keys: "distinct (map sdpKey sdps)"
  shows "wpr (reconcilePools U K sdps)
    (\<lambda>(act, faults) w'. touchesOnly V (passTouches U nodes sdps) (server w) (server w') \<and>
       (distinct (concat (map (poolSliceNames U nodes) sdps)) \<longrightarrow> allStored U K V nodes sdps (server w')) \<and>
       act = desiredNames U nodes sdps \<and>
       faults = of_nat (length (filter (faulty U) sdps)))
    (\<lambda>_ w'. touchesOnly V (passTouches U nodes sdps) (server w) (server w')) w"
    (is "wpr _ ?Q ?E w")
proof -
  let ?dist = "distinct (concat (map (poolSliceNames U nodes) sdps))"
  define I where "I = (\<lambda>don (act, faults) (w' :: 's world). ?E undefined w' \<and>
    (?dist \<longrightarrow> allStored U K V nodes don (server w')) \<and> act = desiredNames U nodes don \<and>
    (faults :: int64) = of_nat (length (filter (faulty U) don)))"
  have "wpr (reconcilePools U K sdps) (I sdps) ?E w"
    unfolding reconcilePools_def
  proof (rule wpr_forEach [where I = I])
    show "I [] ({}, 0) w" by (simp add: I_def allStored_def desiredNames_def)
  next
    fix don sdp rest acc w1
    assume split: "sdps = don @ sdp # rest" and inv: "I don acc w1"
    obtain act faults where acc: "acc = (act, faults)" by force
    have touched: "?E undefined w1" using inv by (simp add: I_def acc)
    have nodes1: "viewNodes V (server w1) = nodes" using touched nodes by (simp add: touchesOnly_def)
    have step: "allStored U K V nodes (don @ [sdp]) (server w2)"
      if "touchesOnly V (poolTouches U nodes sdp) (server w1) (server w2)"
        and "\<forall>sl \<in> set (desiredSlices U nodes sdp). stored K V (server w2) sl"
        and ?dist for w2
      using that keys inv
      by (intro allStored_step) (auto simp: split I_def acc)
    have one: "distinct (poolSliceNames U nodes sdp)" if ?dist
      using that by (simp add: split)
    have pass: "?E err w2" if "touchesOnly V (poolTouches U nodes sdp) (server w1) (server w2)" for err w2
      using that touchesOnly_trans [OF touched touchesOnly_mono] poolTouches_pass by (metis in_set_conv_decomp split)
    show "wpr (case acc of (active, localFaultCount) \<Rightarrow>
        api_bind (reconcileSimulatedDevicePool U K sdp active)
          (\<lambda>(faultCount, active'). api_return (active', localFaultCount + faultCount))) (I (don @ [sdp])) ?E w1"
      unfolding acc prod.case
      by (rule wpr_seq [OF reconcileSimulatedDevicePool_wpr [OF laws]])
        (use step pass inv one in \<open>auto simp: wpr_return I_def acc nodes1 desiredNames_def\<close>)
  qed
  then show ?thesis by (rule wpr_mono) (auto simp: I_def)
qed

lemma cleanup_wpr:
  assumes laws: "server_laws K V"
  shows "wpr (cleanupOrphanedResourceSlices K act)
    (\<lambda>_ w'. deletesOnly V (\<lambda>st. managed st \<and> sliceName st \<notin> act) (server w) (server w') \<and>
       (\<forall>n st. viewSlices V (server w') n = Some st \<longrightarrow> managed st \<longrightarrow> n \<in> act))
    (\<lambda>_ w'. deletesOnly V (\<lambda>st. managed st \<and> sliceName st \<notin> act) (server w) (server w')) w"
    (is "wpr _ ?Q ?E w")
proof -
  let ?skip = "\<lambda>sl. labelOf sl ''draforge.oaslananka/managed-by'' \<noteq> ''simulator'' \<or> sliceName sl \<in> act"

  have list: "wpr (api_wrap p (call (listSlices K)))
      (\<lambda>sls w'. sameView V (server w) (server w') \<and>
         (\<forall>n sl. viewSlices V (server w) n = Some sl \<longleftrightarrow> sl \<in> set sls \<and> sliceName sl = n))
      (\<lambda>_ w'. sameView V (server w) (server w')) w" for p
    unfolding wpr_rules by (rule wpr_mono [OF server_lawsD(3) [OF laws]]) auto
  have delete: "wpr (api_forEach (\<lambda>sl _. if ?skip sl then api_return ()
        else api_wrap (f sl) (deleteResourceSlice K (sliceName sl))) sls ()) ?Q ?E w1"
    if same: "sameView V (server w) (server w1)"
      and listed: "\<forall>n sl. viewSlices V (server w) n = Some sl \<longleftrightarrow> sl \<in> set sls \<and> sliceName sl = n" for w1 sls f
  proof -
    have "viewSlices V (server w1) n = Some sl \<longleftrightarrow> sl \<in> set sls \<and> sliceName sl = n" for n sl
      using same listed by (simp add: sameView_def)
    moreover have "deletesOnly V p (server w) (server w')" if "deletesOnly V p (server w1) (server w')" for p w'
      using same that by (simp add: sameView_def deletesOnly_def touchesOnly_def)
    ultimately show ?thesis
      by (intro wpr_mono [OF deleteSelected_wpr [OF laws]])
        (auto 4 4 simp: managed_def resourceSliceManagedByLabel_def)
  qed
  show ?thesis
    unfolding cleanupOrphanedResourceSlices_def
    apply (rule wpr_seq [OF list])
     apply (elim conjE, rule delete; assumption)
    apply (simp add: sameView_def deletesOnly_def touchesOnly_def)
    done
qed

text \<open>The rest of the pass once the pools are listed.\<close>

lemma Reconcile_listed:
  assumes laws: "server_laws K V" and listed: "listPools K (server w) = (Inr sdps, s1)"
    and nodes: "nodes = viewNodes V (server w)"
  shows "wpr (Reconcile U K)
    (\<lambda>_ w'. touchesOnly V (passTouches U nodes sdps) (server w) (server w') \<and>
       (distinct (concat (map (poolSliceNames U nodes) sdps)) \<longrightarrow> allStored U K V nodes sdps (server w')) \<and>
       (\<forall>n st. viewSlices V (server w') n = Some st \<longrightarrow> managed st \<longrightarrow> n \<in> desiredNames U nodes sdps) \<and>
       activeFaultsCount w' = of_nat (length (filter (faulty U) sdps)))
    (\<lambda>_ w'. touchesOnly V (passTouches U nodes sdps) (server w) (server w')) w"
    (is "wpr _ ?Q ?E w")
proof -
  have same: "sameView V (server w) s1" and keys: "distinct (map sdpKey sdps)"
    using wprD [OF server_lawsD(1) [OF laws] listed] by simp_all
  have list: "wpr (api_try (call (listPools K))) (\<lambda>r w'. r = Inr sdps \<and> w' = w\<lparr>server := s1\<rparr>) (\<lambda>_ _. False) w"
    by (simp add: wpr_rules) (simp add: wpr_def listed)
  let ?P = "passTouches U nodes sdps" and ?act = "desiredNames U nodes sdps"
  let ?dist = "distinct (concat (map (poolSliceNames U nodes) sdps))"
  have pools: "wpr (reconcilePools U K sdps)
      (\<lambda>(act, faults) w'. touchesOnly V ?P (server w) (server w') \<and> (?dist \<longrightarrow> allStored U K V nodes sdps (server w')) \<and>
         act = ?act \<and> faults = of_nat (length (filter (faulty U) sdps))) ?E (w\<lparr>server := s1\<rparr>)"
    by (rule wpr_mono [OF reconcilePools_wpr [OF laws _ keys]])
      (use same nodes in \<open>auto simp: sameView_def touchesOnly_def\<close>)
  have cleaned: "touchesOnly V ?P (server w) (server w2)"
    if "touchesOnly V ?P (server w) (server w1)"
      and "deletesOnly V (\<lambda>st. managed st \<and> sliceName st \<notin> ?act) (server w1) (server w2)" for w1 w2
  proof (rule touchesOnly_trans [OF that(1)])
    have "touchesOnly V (\<lambda>m x. \<exists>st. x = Some st \<and> managed st \<and> sliceName st \<notin> ?act) (server w1) (server w2)"
      using that(2) by (simp add: deletesOnly_def)
    then show "touchesOnly V ?P (server w1) (server w2)"
      by (rule touchesOnly_mono) (auto simp: passTouches_def)
  qed
  have kept: "allStored U K V nodes sdps (server w2)"
    if all: "allStored U K V nodes sdps (server w1)"
      and del: "deletesOnly V (\<lambda>st. managed st \<and> sliceName st \<notin> ?act) (server w1) (server w2)" for w1 w2
  proof -
    have touched: "touchesOnly V (\<lambda>m x. \<exists>st. x = Some st \<and> managed st \<and> sliceName st \<notin> ?act) (server w1) (server w2)"
      using del by (simp add: deletesOnly_def)
    have "stored K V (server w2) sl" if "sdp \<in> set sdps" and "sl \<in> set (desiredSlices U nodes sdp)" for sdp sl
    proof (rule stored_touches [OF _ touched])
      show "stored K V (server w1) sl" using all that by (simp add: allStored_def)
      have "sliceName sl \<in> ?act" using that by (auto simp: desiredNames_def)
      then show "\<not> (\<exists>st'. Some st = Some st' \<and> managed st' \<and> sliceName st' \<notin> ?act)" if "agrees K st sl" for st
        using that by (simp add: agrees_def)
    qed
    then show ?thesis by (simp add: allStored_def)
  qed
  have rest: "wpr (api_bind (cleanupOrphanedResourceSlices K ?act) (\<lambda>_.
      api_modify (\<lambda>w. w\<lparr>activeFaultsCount := of_nat (length (filter (faulty U) sdps))\<rparr>))) ?Q ?E w1"
    if "touchesOnly V ?P (server w) (server w1)" and "?dist \<longrightarrow> allStored U K V nodes sdps (server w1)" for w1
    by (rule wpr_seq [OF cleanup_wpr [OF laws]])
      (use that cleaned kept in \<open>auto simp: wpr_modify\<close>)
  show ?thesis
    unfolding Reconcile_def
    apply (rule wpr_seq [OF list])
     apply (elim conjE, hypsubst, simp only: sum.case)
     apply (rule wpr_seq [OF pools])
      apply (clarify, rule rest; blast)
     apply assumption
    apply (rule FalseE, assumption)
    done
qed

section \<open>Passes that need no write\<close>

text \<open>A call with no effect on the server that returns a value.\<close>

definition quiet :: "('s world, 'a) api \<Rightarrow> ('a \<Rightarrow> bool) \<Rightarrow> 's \<Rightarrow> bool" where
  "quiet m P s \<longleftrightarrow> (\<forall>w. server w = s \<longrightarrow> wpr m (\<lambda>x w'. server w' = s \<and> P x) (\<lambda>_ _. False) w)"

lemma quiet_bind:
  assumes "quiet m P s" and "\<And>x. P x \<Longrightarrow> quiet (f x) Q s"
  shows "quiet (api_bind m f) Q s"
  unfolding quiet_def
proof (intro allI impI)
  fix w :: "'a world"
  assume "server w = s"
  then have "wpr m (\<lambda>x w'. server w' = s \<and> P x) (\<lambda>_ _. False) w"
    using assms(1) unfolding quiet_def by blast
  then show "wpr (api_bind m f) (\<lambda>x w'. server w' = s \<and> Q x) (\<lambda>_ _. False) w"
    by (rule wpr_seq) (use assms(2) in \<open>auto simp: quiet_def\<close>)
qed

lemma quiet_return [simp, intro]: "P x \<Longrightarrow> quiet (api_return x) P s"
  by (simp add: quiet_def wpr_return)

lemma quiet_eventf [simp, intro]: "quiet (eventf sdp ty reason msg) (\<lambda>_. True) s"
  by (simp add: quiet_def wpr_eventf)

lemma quiet_call: "m s = (Inr x, s) \<Longrightarrow> P x \<Longrightarrow> quiet (call m) P s"
  by (auto simp: quiet_def wpr_call) (simp add: wpr_def)

lemma quiet_wrap: "quiet m P s \<Longrightarrow> quiet (api_wrap p m) P s"
  by (simp add: quiet_def wpr_wrap)

lemma quiet_try: "quiet m P s \<Longrightarrow> quiet (api_try m) (\<lambda>r. \<exists>x. r = Inr x \<and> P x) s"
  unfolding quiet_def wpr_try by (auto elim!: wpr_mono)

lemma quiet_forEach:
  assumes "\<And>don x rest acc. xs = don @ x # rest \<Longrightarrow> I don acc \<Longrightarrow> quiet (body x acc) (I (don @ [x])) s" and "I [] acc"
  shows "quiet (api_forEach body xs acc) (I xs) s"
proof -
  have "quiet (api_forEach body rest acc) (I xs) s" if "xs = don @ rest" and "I don acc" for don rest acc
    using that
  proof (induction rest arbitrary: don acc)
    case (Cons x rest)
    then show ?case
      using assms(1) [OF Cons.prems] by (auto intro!: quiet_bind simp del: append.simps) 
  qed auto
  from this [of "[]" xs] show ?thesis using assms(2) by simp
qed

definition settledPool :: "'q object_api \<Rightarrow> ('s, 'q) pool_api \<Rightarrow> string list \<Rightarrow> 's \<Rightarrow> unstructured \<Rightarrow> bool" where
  "settledPool U K nodes s sdp \<longleftrightarrow>
     uDeletionTimestamp sdp = None \<and> containsString (uFinalizers sdp) resourceSliceCleanupFinalizer \<and>
     (\<forall>spec. decodeSimulatedDevicePoolSpec U sdp = Some spec \<longrightarrow>
        spHealth spec \<noteq> ''disappear'' \<and>
        deepEqualObjects U (fst (nestedMap U (uObject sdp) ''status''))
          [(''publishedSlices'', AnyList (map AnyString (poolSliceNames U nodes sdp))),
           (''activeFaults'', AnyList (map AnyString (if spHealth spec \<noteq> ''healthy'' then [spHealth spec] else [])))]) \<and>
     (\<forall>sl \<in> set (desiredSlices U nodes sdp). \<exists>st. getSlice K (sliceName sl) s = (Inr st, s) \<and>
        specsDeepEqual K st (sl\<lparr>resourceVersion := resourceVersion st\<rparr>) \<and>
        labelsDeepEqual K (sliceLabels st) (sliceLabels sl))"

lemma ensureResourceSlice_quiet:
  assumes "getSlice K (dsName desired) s = (Inr st, s)"
    and "specsDeepEqual K st ((buildResourceSlice desired)\<lparr>resourceVersion := resourceVersion st\<rparr>)"
    and "labelsDeepEqual K (sliceLabels st) (sliceLabels (buildResourceSlice desired))"
  shows "quiet (ensureResourceSlice K desired) (\<lambda>_. True) s"
proof -
  have got: "quiet (call (getSlice K (dsName desired))) (\<lambda>x. x = st) s"
    using assms(1) by (rule quiet_call) simp
  show ?thesis
    unfolding ensureResourceSlice_def Let_def
    by (rule quiet_bind [OF quiet_try [OF got]]) (use assms(2,3) in auto)
qed

lemma reconcileNodes_quiet:
  assumes health: "spHealth spec \<noteq> ''disappear''"
    and slices: "\<And>node. node \<in> set nodes \<Longrightarrow>
      quiet (ensureResourceSlice K (desiredFor sdp spec node (length nodes))) (\<lambda>_. True) s"
  shows "quiet (reconcileNodes K sdp spec nodes act)
    (\<lambda>(published, act'). published = map (simulatedResourceSliceName sdp) nodes \<and>
       act' = act \<union> simulatedResourceSliceName sdp ` set nodes) s"
proof -
  have one: "quiet (reconcilePoolResourceSlice K sdp spec node (length nodes) active)
      (\<lambda>r. r = ((simulatedResourceSliceName sdp node, True), insert (simulatedResourceSliceName sdp node) active)) s"
    if "node \<in> set nodes" for node active
    unfolding reconcilePoolResourceSlice_def Let_def using health
    by (auto intro!: quiet_bind [OF quiet_eventf] quiet_bind [OF quiet_try [OF slices [OF that]]]
        quiet_bind [where P = "\<lambda>_. True"])
  show ?thesis
    unfolding reconcileNodes_def
  proof (rule quiet_forEach [where I = "\<lambda>don (published, act'). published = map (simulatedResourceSliceName sdp) don \<and>
          act' = act \<union> simulatedResourceSliceName sdp ` set don"], goal_cases)
    case (1 don node rest acc)
    then have node: "node \<in> set nodes" by simp
    obtain published active where acc: "acc = (published, active)" by force
    show ?case
      unfolding acc prod.case by (rule quiet_bind [OF one [OF node]]) (use 1(2) acc in auto)
  qed simp
qed

end
