(* ===== verification/Pool_Guarantees.thy ===== *)
theory Pool_Guarantees
  imports Pool_Sync
begin

text \<open>
  The guarantees of pool synchronization: a pass converges, leaves foreign slices alone, releases a
  deleted pool only when its slices are gone, writes nothing to a settled cluster, and succeeds when the
  server does. An in-memory server shows that the laws can hold, and runs the examples.
\<close>

section \<open>A settled cluster\<close>

lemma reconcileSimulatedDevicePool_quiet:
  assumes settled: "settledPool U K nodes s sdp" and listed: "listNodes K s = (Inr nodes, s)"
  shows "quiet (reconcileSimulatedDevicePool U K sdp act)
    (\<lambda>(faultCount, act'). act' = act \<union> sliceName ` set (desiredSlices U nodes sdp)) s"
proof -
  have alive: "uDeletionTimestamp sdp = None" and final: "containsString (uFinalizers sdp) resourceSliceCleanupFinalizer"
    using settled by (simp_all add: settledPool_def)
  have ensure: "quiet (ensureResourceSliceCleanupFinalizer K sdp) (\<lambda>x. x = sdp) s"
    using final by (simp add: ensureResourceSliceCleanupFinalizer_def)
  show ?thesis
  proof (cases "decodeSimulatedDevicePoolSpec U sdp")
    case None
    then show ?thesis
      unfolding reconcileSimulatedDevicePool_def using alive
      by (auto simp: desiredSlices_def intro!: quiet_bind [OF ensure])
  next
    case (Some spec)
    have health: "spHealth spec \<noteq> ''disappear''"
      and status: "deepEqualObjects U (fst (nestedMap U (uObject sdp) ''status''))
          [(''publishedSlices'', AnyList (map AnyString (poolSliceNames U nodes sdp))),
           (''activeFaults'', AnyList (map AnyString (if spHealth spec \<noteq> ''healthy'' then [spHealth spec] else [])))]"
      using settled Some unfolding settledPool_def by blast+
    have desired: "desiredSlices U nodes sdp =
        map (\<lambda>node. buildResourceSlice (desiredFor sdp spec node (length (poolNodes U nodes sdp)))) (poolNodes U nodes sdp)"
      using Some alive health by (simp add: desiredSlices_def)
    have resolve: "quiet (api_wrap p (resolveTargetNodes K (spTargetNodes spec))) (\<lambda>x. x = poolNodes U nodes sdp) s" for p
      using quiet_call [of "listNodes K" s nodes "\<lambda>x. x = nodes"] listed
      by (auto simp: resolveTargetNodes_def poolNodes_def Some intro!: quiet_wrap)
    have slices: "quiet (reconcileNodes K sdp spec (poolNodes U nodes sdp) act)
        (\<lambda>(published, act'). published = map (simulatedResourceSliceName sdp) (poolNodes U nodes sdp) \<and>
           act' = act \<union> simulatedResourceSliceName sdp ` set (poolNodes U nodes sdp)) s"
    proof (rule reconcileNodes_quiet [OF health])
      fix node
      assume "node \<in> set (poolNodes U nodes sdp)"
      then have "buildResourceSlice (desiredFor sdp spec node (length (poolNodes U nodes sdp))) \<in> set (desiredSlices U nodes sdp)"
        by (simp add: desired)
      then show "quiet (ensureResourceSlice K (desiredFor sdp spec node (length (poolNodes U nodes sdp)))) (\<lambda>_. True) s"
        using settled ensureResourceSlice_quiet [of K "desiredFor sdp spec node (length (poolNodes U nodes sdp))" s]
        unfolding settledPool_def by (metis sliceName_build)
    qed
    have written: "quiet (updateSDPStatus U K sdp (map (simulatedResourceSliceName sdp) (poolNodes U nodes sdp))
        (if spHealth spec \<noteq> ''healthy'' then [spHealth spec] else [])) (\<lambda>_. True) s"
      using status by (simp add: updateSDPStatus_def poolSliceNames_def)
    have names: "sliceName ` set (desiredSlices U nodes sdp) = simulatedResourceSliceName sdp ` set (poolNodes U nodes sdp)"
      by (simp add: desired image_image)
    show ?thesis
      unfolding reconcileSimulatedDevicePool_def Let_def names
      apply (simp only: alive simp_thms if_False)
      apply (rule quiet_bind [OF ensure], hypsubst, simp only: Some option.case)
      apply (rule quiet_bind [OF resolve], hypsubst)
      apply (rule quiet_bind [OF slices], clarify)
      apply (rule quiet_bind [OF quiet_try [OF written]])
      apply auto
      done
  qed
qed

lemma reconcilePools_quiet:
  assumes "\<forall>sdp \<in> set sdps. settledPool U K nodes s sdp" and "listNodes K s = (Inr nodes, s)"
  shows "quiet (reconcilePools U K sdps) (\<lambda>(act, faults). act = desiredNames U nodes sdps) s"
  unfolding reconcilePools_def
proof (rule quiet_forEach [where I = "\<lambda>don (act, faults). act = desiredNames U nodes don"], goal_cases)
  case (1 don sdp rest acc)
  then have "settledPool U K nodes s sdp" using assms(1) by simp
  from reconcileSimulatedDevicePool_quiet [OF this assms(2)]
  have one: "quiet (reconcileSimulatedDevicePool U K sdp act)
    (\<lambda>(faultCount, act'). act' = act \<union> sliceName ` set (desiredSlices U nodes sdp)) s" for act .
  show ?case
    using 1(2) by (cases acc) (auto simp: desiredNames_def intro!: quiet_bind [OF one])
qed (simp add: desiredNames_def)

lemma cleanup_quiet:
  assumes "listSlices K s = (Inr sls, s)" and "\<forall>sl \<in> set sls. managed sl \<longrightarrow> sliceName sl \<in> act"
  shows "quiet (cleanupOrphanedResourceSlices K act) (\<lambda>_. True) s"
proof -
  have list: "quiet (api_wrap p (call (listSlices K))) (\<lambda>x. x = sls) s" for p
    using quiet_call [of "listSlices K" s sls "\<lambda>x. x = sls"] assms(1) by (auto intro: quiet_wrap)
  have "quiet (api_forEach (\<lambda>sl _. if labelOf sl ''draforge.oaslananka/managed-by'' \<noteq> ''simulator'' \<or> sliceName sl \<in> act
      then api_return () else m sl) sls ()) (\<lambda>_. True) s" for m
    by (rule quiet_forEach [where I = "\<lambda>_ _. True"])
      (use assms(2) in \<open>auto simp: managed_def resourceSliceManagedByLabel_def\<close>)
  then show ?thesis
    unfolding cleanupOrphanedResourceSlices_def by (auto intro!: quiet_bind [OF list])
qed

section \<open>A server that answers\<close>

text \<open>A call that returns a value from every state.\<close>

definition succeeds :: "('s, 'a) api \<Rightarrow> bool" where
  "succeeds m \<longleftrightarrow> (\<forall>s. wpr m (\<lambda>_ _. True) (\<lambda>_ _. False) s)"

named_theorems succeeds_intros \<open>calls that return a value\<close>

lemma succeeds_bind [succeeds_intros]: "succeeds m \<Longrightarrow> (\<And>x. succeeds (f x)) \<Longrightarrow> succeeds (api_bind m f)"
  unfolding succeeds_def by (auto intro: wpr_seq)

lemma succeeds_basic [succeeds_intros]:
  "succeeds (api_return x)" "succeeds (eventf sdp ty reason msg)" "succeeds (api_modify g)"
  by (simp_all add: succeeds_def wpr_return wpr_eventf wpr_modify)

lemma succeeds_if: "succeeds m \<Longrightarrow> succeeds m' \<Longrightarrow> succeeds (if b then m else m')"
  by simp

lemma succeeds_call [succeeds_intros]: "succeeds m \<Longrightarrow> succeeds (call m)"
  by (simp add: succeeds_def wpr_call)

lemma succeeds_wrap [succeeds_intros]: "succeeds m \<Longrightarrow> succeeds (api_wrap p m)"
  by (simp add: succeeds_def wpr_wrap)

lemma succeeds_forEach [succeeds_intros]: "(\<And>x acc. succeeds (body x acc)) \<Longrightarrow> succeeds (api_forEach body xs acc)"
  by (induction xs arbitrary: acc) (auto intro: succeeds_intros)

text \<open>\<open>m\<close> is inspected by \<open>f\<close>: enough that \<open>f\<close> goes on after every answer \<open>m\<close> can give.\<close>

lemma succeeds_try:
  assumes "\<And>s. wpr m (\<lambda>x _. succeeds (f (Inr x))) (\<lambda>err _. succeeds (f (Inl err))) s"
  shows "succeeds (api_bind (api_try m) f)"
  unfolding succeeds_def
proof
  fix s
  show "wpr (api_bind (api_try m) f) (\<lambda>_ _. True) (\<lambda>_ _. False) s"
    unfolding wpr_bind wpr_try by (rule wpr_mono [OF assms]) (auto simp: succeeds_def)
qed

lemma succeeds_try_ok: "succeeds m \<Longrightarrow> (\<And>x. succeeds (f (Inr x))) \<Longrightarrow> succeeds (api_bind (api_try m) f)"
  by (rule succeeds_try) (auto simp: succeeds_def elim!: wpr_mono)

text \<open>
  The server answers every call: reads and writes succeed, only a missing slice is reported as not found,
  and setting the status in the object works.
\<close>

definition answers :: "'q object_api \<Rightarrow> ('s, 'q) pool_api \<Rightarrow> bool" where
  "answers U K \<longleftrightarrow>
     succeeds (listPools K) \<and> (\<forall>p. succeeds (updatePool K p)) \<and> (\<forall>p. succeeds (updatePoolStatus K p)) \<and>
     succeeds (listNodes K) \<and> succeeds (listSlices K) \<and>
     (\<forall>n s. wpr (getSlice K n) (\<lambda>_ _. True) (\<lambda>err _. isNotFound err) s) \<and>
     (\<forall>sl. succeeds (createSlice K sl)) \<and> (\<forall>sl. succeeds (updateSlice K sl)) \<and>
     (\<forall>n s. wpr (deleteSlice K n) (\<lambda>_ _. True) (\<lambda>err _. isNotFound err) s) \<and>
     (\<forall>ob status. isl (setNestedMap U ob status ''status'') = False)"

lemma answersD:
  assumes "answers U K"
  shows "succeeds (listPools K)" "succeeds (updatePool K p)" "succeeds (updatePoolStatus K p)"
    "succeeds (listNodes K)" "succeeds (listSlices K)"
    "wpr (getSlice K n) (\<lambda>_ _. True) (\<lambda>err _. isNotFound err) s"
    "succeeds (createSlice K sl)" "succeeds (updateSlice K sl)"
    "wpr (deleteSlice K n) (\<lambda>_ _. True) (\<lambda>err _. isNotFound err) s"
    "\<exists>ob'. setNestedMap U ob status ''status'' = Inr ob'"
  using assms by (simp_all add: answers_def isl_def) (metis sum.exhaust)

lemma succeeds_deleteResourceSlice: "answers U K \<Longrightarrow> succeeds (deleteResourceSlice K n)"
  unfolding deleteResourceSlice_def
  by (rule succeeds_try, unfold wpr_call, rule wpr_mono [OF answersD(9)])
    (auto intro: succeeds_intros)

lemma succeeds_ensureResourceSlice: "answers U K \<Longrightarrow> succeeds (ensureResourceSlice K desired)"
  unfolding ensureResourceSlice_def Let_def
  by (rule succeeds_try, unfold wpr_call, rule wpr_mono [OF answersD(6)])
    (auto intro: succeeds_intros answersD)

lemma succeeds_updateSDPStatus: "answers U K \<Longrightarrow> succeeds (updateSDPStatus U K sdp published faults)"
  using answersD(10) [of U K "uObject sdp"] unfolding updateSDPStatus_def Let_def
  by (auto intro!: succeeds_intros answersD(3) split: sum.splits) (metis sum.distinct(1))

lemma succeeds_resolveTargetNodes: "answers U K \<Longrightarrow> succeeds (resolveTargetNodes K configured)"
  by (auto simp: resolveTargetNodes_def intro: succeeds_intros answersD)

lemma succeeds_finalize: "answers U K \<Longrightarrow> succeeds (finalizeDeletingSimulatedDevicePool U K sdp)"
  unfolding finalizeDeletingSimulatedDevicePool_def expectedResourceSliceNames_def deleteOwnedSlices_def
  by (auto intro!: succeeds_intros succeeds_resolveTargetNodes succeeds_deleteResourceSlice answersD
      split: option.splits)

lemma succeeds_reconcilePoolResourceSlice:
  assumes "answers U K"
  shows "succeeds (reconcilePoolResourceSlice K sdp spec node n act)"
proof -
  have ensure: "succeeds (api_bind (api_try (ensureResourceSlice K desired))
      (\<lambda>r. case r of Inl err \<Rightarrow> failed err | Inr _ \<Rightarrow> api_return x))" for desired failed x
    by (rule succeeds_try_ok [OF succeeds_ensureResourceSlice [OF assms]]) (simp add: succeeds_basic)
  have delete: "succeeds (api_bind (api_try (deleteResourceSlice K name))
      (\<lambda>r. case r of Inl err \<Rightarrow> failed err | Inr _ \<Rightarrow> api_bind (eventf sdp ty reason msg) (\<lambda>_. api_return x)))"
    for name failed ty reason msg x
    by (rule succeeds_try_ok [OF succeeds_deleteResourceSlice [OF assms]]) (simp add: succeeds_intros)
  have warn: "succeeds (if b then eventf sdp ty reason msg else api_return ())" for b ty reason msg
    by (simp add: succeeds_basic)
  show ?thesis
    unfolding reconcilePoolResourceSlice_def Let_def
    by (rule succeeds_if [OF delete succeeds_bind [OF warn ensure]])
qed

lemma succeeds_reconcileSimulatedDevicePool:
  assumes "answers U K"
  shows "succeeds (reconcileSimulatedDevicePool U K sdp act)"
proof -
  note calls = succeeds_intros succeeds_finalize [OF assms] succeeds_resolveTargetNodes [OF assms]
    succeeds_reconcilePoolResourceSlice [OF assms] answersD(2) [OF assms]
  have nodes: "succeeds (reconcileNodes K sdp spec targetNodes act)" for sdp spec targetNodes act
    unfolding reconcileNodes_def by (auto intro!: calls split: prod.splits)
  show ?thesis
    unfolding reconcileSimulatedDevicePool_def ensureResourceSliceCleanupFinalizer_def Let_def
    by (auto intro!: succeeds_try_ok [OF succeeds_updateSDPStatus [OF assms]] nodes calls split: option.splits prod.splits)
qed

section \<open>An in-memory server\<close>

text \<open>The first element of each key.\<close>

fun firsts :: "('a \<Rightarrow> 'k) \<Rightarrow> 'a list \<Rightarrow> 'a list" where
  "firsts f [] = []"
| "firsts f (x # xs) = x # filter (\<lambda>y. f y \<noteq> f x) (firsts f xs)"

lemma firsts_distinct: "distinct (map f (firsts f xs))"
  by (induction xs) (auto simp: distinct_map_filter)

lemma firsts_iff: "x \<in> set (firsts f xs) \<longleftrightarrow> find (\<lambda>y. f y = f x) xs = Some x"
  by (induction xs) auto

lemma firsts_find: "find (\<lambda>y. f y = k) xs = Some x \<longleftrightarrow> x \<in> set (firsts f xs) \<and> f x = k"
  using firsts_iff [of x f xs] by (auto simp: find_Some_iff)

record memory =
  memSlices :: "int stored_slice list"
  memPools :: "unstructured list"
  memNodes :: "string list"

definition notFound :: api_error where
  "notFound = (plainError ''not found'')\<lparr>isNotFound := True\<rparr>"

definition stripMeta :: "'q stored_slice \<Rightarrow> 'q stored_slice" where
  "stripMeta sl = sl\<lparr>sliceName := '''', sliceLabels := [], resourceVersion := ''''\<rparr>"

definition putPool :: "unstructured \<Rightarrow> memory \<Rightarrow> memory" where
  "putPool p m = m\<lparr>memPools := map (\<lambda>q. if sdpKey q = sdpKey p then p else q) (memPools m)\<rparr>"

definition memoryApi :: "(memory, int) pool_api" where
  "memoryApi =
     \<lparr>listPools = (\<lambda>m. (Inr (firsts sdpKey (memPools m)), m)),
      updatePool = (\<lambda>p m. (Inr p, putPool p m)),
      updatePoolStatus = (\<lambda>p m. (Inr (), putPool p m)),
      listNodes = (\<lambda>m. (Inr (memNodes m), m)),
      listSlices = (\<lambda>m. (Inr (firsts sliceName (memSlices m)), m)),
      getSlice = (\<lambda>n m. (case find (\<lambda>sl. sliceName sl = n) (memSlices m) of
                            None \<Rightarrow> (Inl notFound, m) | Some sl \<Rightarrow> (Inr sl, m))),
      createSlice = (\<lambda>sl m. (Inr (), m\<lparr>memSlices := sl # memSlices m\<rparr>)),
      updateSlice = (\<lambda>sl m. (Inr (), m\<lparr>memSlices := sl # memSlices m\<rparr>)),
      deleteSlice = (\<lambda>n m. if \<exists>sl \<in> set (memSlices m). sliceName sl = n
                            then (Inr (), m\<lparr>memSlices := filter (\<lambda>sl. sliceName sl \<noteq> n) (memSlices m)\<rparr>)
                            else (Inl notFound, m)),
      specsDeepEqual = (\<lambda>a b. stripMeta a = stripMeta b),
      labelsDeepEqual = gomap_equal\<rparr>"

definition memoryView :: "(memory, int) server_view" where
  "memoryView =
     \<lparr>viewSlices = (\<lambda>m n. find (\<lambda>sl. sliceName sl = n) (memSlices m)),
      viewPools = (\<lambda>m k. find (\<lambda>p. sdpKey p = k) (memPools m)),
      viewNodes = memNodes\<rparr>"

lemma find_putPool:
  "k \<noteq> sdpKey p \<Longrightarrow> find (\<lambda>q. sdpKey q = k) (map (\<lambda>q. if sdpKey q = sdpKey p then p else q) ps) =
     find (\<lambda>q. sdpKey q = k) ps"
  by (induction ps) auto

lemma find_deleted:
  "find (\<lambda>sl. sliceName sl = m) (filter (\<lambda>sl. sliceName sl \<noteq> n) sls) =
     (if m = n then None else find (\<lambda>sl. sliceName sl = m) sls)"
  by (induction sls) auto

lemma memory_reads: "read_laws memoryApi memoryView"
  unfolding read_laws_def
proof (intro conjI allI, goal_cases)
  case (1 s)
  show ?case
    by (auto simp: wpr_def memoryApi_def memoryView_def sameView_def firsts_distinct firsts_iff)
next
  case (2 s)
  show ?case by (simp add: wpr_def memoryApi_def memoryView_def sameView_def)
next
  case (3 s)
  show ?case by (auto simp: wpr_def memoryApi_def memoryView_def sameView_def firsts_find)
next
  case (4 s n)
  show ?case
    by (auto simp: wpr_def memoryApi_def memoryView_def sameView_def notFound_def find_Some_iff split: option.splits)
qed

lemma memory_writes: "write_laws memoryApi memoryView"
  unfolding write_laws_def
proof (intro conjI allI, goal_cases)
  case (1 s sl)
  show ?case by (simp add: wpr_def memoryApi_def memoryView_def sliceChange_def agrees_def)
next
  case (2 s sl)
  show ?case by (simp add: wpr_def memoryApi_def memoryView_def sliceChange_def agrees_def)
next
  case (3 s n)
  show ?case
    by (auto simp: wpr_def memoryApi_def memoryView_def sliceChange_def notFound_def find_deleted find_None_iff)
next
  case (4 s p)
  show ?case by (simp add: wpr_def memoryApi_def memoryView_def poolChange_def putPool_def find_putPool)
next
  case (5 s p)
  show ?case by (simp add: wpr_def memoryApi_def memoryView_def poolChange_def putPool_def find_putPool)
qed

lemma memory_server: "server_laws memoryApi memoryView"
  using memory_reads memory_writes
  by (auto simp: server_laws_def equality_laws_def memoryApi_def stripMeta_def gomap_equal_iff gomap_get_def)

definition memoryObjects :: "int object_api" where
  "memoryObjects =
     \<lparr>nestedMap = (\<lambda>ob f. case map_of ob f of Some (AnyMap m) \<Rightarrow> (m, True) | _ \<Rightarrow> ([], False)),
      nestedString = (\<lambda>ob f. case map_of ob f of Some (AnyString v) \<Rightarrow> v | _ \<Rightarrow> ''''),
      nestedInt64 = (\<lambda>ob f. case map_of ob f of Some (AnyInt64 i) \<Rightarrow> i | _ \<Rightarrow> 0),
      nestedStringSlice = (\<lambda>ob f. case map_of ob f of
          Some (AnyList vs) \<Rightarrow> concat (map (\<lambda>v. case v of AnyString x \<Rightarrow> [x] | _ \<Rightarrow> []) vs) | _ \<Rightarrow> []),
      setNestedMap = (\<lambda>ob m f. Inr (gomap_put f (AnyMap m) ob)),
      deepEqualObjects = (\<lambda>a b. a = b),
      parseQuantity = (\<lambda>v. Inr (int (length v)))\<rparr>"

lemma memory_answers: "answers memoryObjects memoryApi"
  by (auto simp: answers_def succeeds_def wpr_def memoryApi_def memoryObjects_def notFound_def split: option.splits)

section \<open>Examples\<close>

definition examplePool :: "string \<Rightarrow> string \<Rightarrow> int \<Rightarrow> unstructured" where
  "examplePool name node n =
     \<lparr>uName = name, uNamespace = ''ns'', uUID = name @ ''-uid'', uFinalizers = [], uDeletionTimestamp = None,
      uObject = [(''spec'', AnyMap [(''driverName'', AnyString ''gpu''), (''deviceCount'', AnyInt64 n),
                                    (''targetNodes'', AnyList [AnyString node])])]\<rparr>"

definition foreignSlice :: "int stored_slice" where
  "foreignSlice = (buildResourceSlice \<lparr>dsName = ''vendor'', dsSDP = examplePool ''v'' ''n1'' 0, dsDriverName = ''v'',
      dsPoolName = ''v'', dsNodeName = ''n1'', dsHealth = '''', dsDeviceCount = 1, dsAttributes = [],
      dsCapacities = [], dsSliceCount = 1\<rparr>)\<lparr>sliceLabels := []\<rparr>"

definition orphanSlice :: "int stored_slice" where
  "orphanSlice = foreignSlice\<lparr>sliceName := ''orphan'', sliceLabels := [(''draforge.oaslananka/managed-by'', ''simulator'')]\<rparr>"

definition exampleWorld :: "unstructured list \<Rightarrow> memory world" where
  "exampleWorld pools =
     \<lparr>server = \<lparr>memSlices = [foreignSlice, orphanSlice], memPools = pools, memNodes = [''n1'', ''n2'']\<rparr>,
      events = [], activeFaultsCount = 0\<rparr>"

section \<open>The guarantees\<close>

lemma Reconcile_unlisted:
  assumes "server_laws K V" and "listPools K (server w) = (Inl err, s1)" and "Reconcile U K w = (Inr (), w')"
  shows "strings_Contains (errText err) ''could not find the scale subresource'' \<or> strings_Contains (errText err) ''not found''"
    and "viewSlices V (server w') = viewSlices V (server w)" and "activeFaultsCount w' = activeFaultsCount w"
proof -
  have "sameView V (server w) s1" using wprD [OF server_lawsD(1) [OF assms(1)] assms(2)] by simp
  moreover have "(strings_Contains (errText err) ''could not find the scale subresource'' \<or> strings_Contains (errText err) ''not found'') \<and>
      w' = w\<lparr>server := s1\<rparr>"
    using assms(2,3) by (auto simp: Reconcile_def api_bind_def api_try_def call_def api_return_def api_fail_def split: if_splits)
  ultimately show "strings_Contains (errText err) ''could not find the scale subresource'' \<or> strings_Contains (errText err) ''not found''"
    "viewSlices V (server w') = viewSlices V (server w)" "activeFaultsCount w' = activeFaultsCount w"
    by (auto simp: sameView_def)
qed

text \<open>
  C12. What a pass that returns without an error has done. Where the pools could be listed, every slice labelled as managed by the
  simulator is one a live pool asks for, and the fault gauge counts the live pools that are not healthy; and if the pools' slice
  names are different from each other, every slice a live pool asks for is stored with the specification and the labels asked for.
  Where the pools could not be listed, the error says that something was not found, and slices and gauge are as before.
\<close>

theorem Reconcile_converges:
  assumes "server_laws K V" and "nodes = viewNodes V (server w)" and "Reconcile U K w = (Inr (), w')"
  shows "case fst (listPools K (server w)) of
      Inl err \<Rightarrow>
        (strings_Contains (errText err) ''could not find the scale subresource'' \<or> strings_Contains (errText err) ''not found'') \<and>
        viewSlices V (server w') = viewSlices V (server w) \<and> activeFaultsCount w' = activeFaultsCount w
    | Inr sdps \<Rightarrow>
        (distinct (concat (map (poolSliceNames U nodes) sdps)) \<longrightarrow>
          (\<forall>sdp \<in> set sdps. \<forall>sl \<in> set (desiredSlices U nodes sdp).
            \<exists>st. viewSlices V (server w') (sliceName sl) = Some st \<and> agrees K st sl)) \<and>
        (\<forall>n st. viewSlices V (server w') n = Some st \<longrightarrow> labelOf st resourceSliceManagedByLabel = ''simulator'' \<longrightarrow>
          (\<exists>sdp \<in> set sdps. n \<in> sliceName ` set (desiredSlices U nodes sdp))) \<and>
        activeFaultsCount w' = of_nat (length (filter (faulty U) sdps))"
proof (cases "listPools K (server w)")
  case (Pair r s1)
  show ?thesis
  proof (cases r)
    case (Inl err)
    with Reconcile_unlisted [OF assms(1) _ assms(3)] Pair show ?thesis by auto
  next
    case (Inr sdps)
    with wprD [OF Reconcile_listed [OF assms(1) _ assms(2), of sdps s1 U] assms(3)] Pair show ?thesis
      by (auto simp: allStored_def stored_def managed_def desiredNames_def)
  qed
qed

definition twoPools :: "unstructured list" where
  "twoPools = [examplePool ''a'' ''n1'' 2, examplePool ''b'' ''n2'' 1]"

lemma twoPools_run:
  "listPools memoryApi (server (exampleWorld twoPools)) = (Inr twoPools, server (exampleWorld twoPools))"
  "viewNodes memoryView (server (exampleWorld twoPools)) = [''n1'', ''n2'']"
  "map (poolSliceNames memoryObjects [''n1'', ''n2'']) twoPools = [[''sim-slice-a-n1-ns''], [''sim-slice-b-n2-ns'']]"
  "Reconcile memoryObjects memoryApi (exampleWorld twoPools) =
     (Inr (), snd (Reconcile memoryObjects memoryApi (exampleWorld twoPools)))"
proof -
  show "listPools memoryApi (server (exampleWorld twoPools)) = (Inr twoPools, server (exampleWorld twoPools))"
    by (simp add: memoryApi_def exampleWorld_def twoPools_def sdpKey_def examplePool_def)
  show "viewNodes memoryView (server (exampleWorld twoPools)) = [''n1'', ''n2'']"
    by (simp add: memoryView_def exampleWorld_def)
  show "map (poolSliceNames memoryObjects [''n1'', ''n2'']) twoPools = [[''sim-slice-a-n1-ns''], [''sim-slice-b-n2-ns'']]"
    by code_simp
  have "fst (Reconcile memoryObjects memoryApi (exampleWorld twoPools)) = Inr ()" by code_simp
  then show "Reconcile memoryObjects memoryApi (exampleWorld twoPools) =
     (Inr (), snd (Reconcile memoryObjects memoryApi (exampleWorld twoPools)))"
    by (metis prod.collapse)
qed

theorem Reconcile_converges_witness:
  "let sl = hd (desiredSlices memoryObjects [''n1'', ''n2''] (examplePool ''a'' ''n1'' 2))
   in \<exists>st. viewSlices memoryView (server (snd (Reconcile memoryObjects memoryApi (exampleWorld twoPools)))) (sliceName sl) = Some st \<and>
        agrees memoryApi st sl"
proof -
  have "desiredSlices memoryObjects [''n1'', ''n2''] (examplePool ''a'' ''n1'' 2) \<noteq> []" by code_simp
  then have "hd (desiredSlices memoryObjects [''n1'', ''n2''] (examplePool ''a'' ''n1'' 2))
      \<in> set (desiredSlices memoryObjects [''n1'', ''n2''] (examplePool ''a'' ''n1'' 2))" by simp
  moreover have "examplePool ''a'' ''n1'' 2 \<in> set twoPools" by (simp add: twoPools_def)
  ultimately show ?thesis
    using Reconcile_converges [OF memory_server _ twoPools_run(4), of "[''n1'', ''n2'']"]
      twoPools_run(1-3) by (simp add: Let_def)
qed

text \<open>
  C23. A pass touches only what is the simulator's: whatever its result, also when it stops at an error
  half-way, a slice name that no listed pool has for one of its nodes keeps its slice, or stays free, unless
  the slice stored there is labelled as managed by the simulator.
\<close>

theorem Reconcile_foreign_slices:
  assumes "server_laws K V" and "listPools K (server w) = (Inr sdps, s1)" and "Reconcile U K w = (r, w')"
    and "\<forall>sdp \<in> set sdps. n \<notin> set (poolSliceNames U (viewNodes V (server w)) sdp)"
    and "\<forall>st. viewSlices V (server w) n = Some st \<longrightarrow> labelOf st resourceSliceManagedByLabel \<noteq> ''simulator''"
  shows "viewSlices V (server w') n = viewSlices V (server w) n"
proof -
  have "touchesOnly V (passTouches U (viewNodes V (server w)) sdps) (server w) (server w')"
    using wprD [OF Reconcile_listed [OF assms(1,2) refl, of U] assms(3)] by (auto split: sum.splits)
  then show ?thesis
    by (rule touchesOnly_keeps) (use assms(4,5) in \<open>auto simp: passTouches_def managed_def\<close>)
qed

theorem Reconcile_foreign_slices_witness:
  "viewSlices memoryView (server (snd (Reconcile memoryObjects memoryApi (exampleWorld twoPools)))) ''vendor'' = Some foreignSlice"
proof -
  have names: "\<forall>sdp \<in> set twoPools. ''vendor'' \<notin> set (poolSliceNames memoryObjects [''n1'', ''n2''] sdp)"
    using twoPools_run(3) by (auto simp: twoPools_def)
  have start: "viewSlices memoryView (server (exampleWorld twoPools)) ''vendor'' = Some foreignSlice"
    by (simp add: memoryView_def exampleWorld_def foreignSlice_def)
  have "labelOf foreignSlice resourceSliceManagedByLabel \<noteq> ''simulator''"
    by (simp add: labelOf_def foreignSlice_def)
  then show ?thesis
    using Reconcile_foreign_slices [OF memory_server twoPools_run(1,4), of "''vendor''"] names start
    by (simp add: twoPools_run(2))
qed

text \<open>
  C13. A pool that is being deleted is released last: whatever the result of
  \<^verbatim>\<open>finalizeDeletingSimulatedDevicePool\<close>, it changes no other pool, and if it changed the pool's own object,
  which is how the finalizer goes, then no slice that belongs to the pool is stored any more.
\<close>

theorem finalize_after_cleanup:
  assumes "server_laws K V" and "finalizeDeletingSimulatedDevicePool U K sdp w = (r, w')"
    and "viewPools V (server w') k \<noteq> viewPools V (server w) k"
  shows "k = (uNamespace sdp, uName sdp) \<and>
    (\<forall>n st. viewSlices V (server w') n = Some st \<longrightarrow>
       \<not> resourceSliceBelongsToSDP st sdp (set (poolSliceNames U (viewNodes V (server w)) sdp)))"
proof -
  have fin: "finalizing U V sdp (set (poolSliceNames U (viewNodes V (server w)) sdp)) (server w) (server w')"
    using wprD [OF finalize_wpr [OF assms(1) refl] assms(2)] by (simp split: sum.splits)
  have key: "k = sdpKey sdp"
    using fin assms(3) unfolding finalizing_def by metis
  then have "slicesGone V sdp (set (poolSliceNames U (viewNodes V (server w)) sdp)) (server w')"
    using fin assms(3) unfolding finalizing_def by metis
  with key show ?thesis by (simp add: slicesGone_def sdpKey_def)
qed

definition deletingPool :: unstructured where
  "deletingPool = (examplePool ''a'' ''n1'' 2)\<lparr>uDeletionTimestamp := Some ''now'', uFinalizers := [resourceSliceCleanupFinalizer]\<rparr>"

definition ownedSlice :: "int stored_slice" where
  "ownedSlice = foreignSlice\<lparr>sliceName := ''old'', sliceLabels := resourceSliceOwnershipLabels deletingPool\<rparr>"

definition deletingWorld :: "memory world" where
  "deletingWorld = \<lparr>server = \<lparr>memSlices = [foreignSlice, ownedSlice], memPools = [deletingPool], memNodes = []\<rparr>,
      events = [], activeFaultsCount = 0\<rparr>"

theorem finalize_after_cleanup_witness:
  "viewSlices memoryView (server (snd (finalizeDeletingSimulatedDevicePool memoryObjects memoryApi deletingPool deletingWorld))) ''old''
     \<noteq> Some ownedSlice"
proof -
  let ?w' = "snd (finalizeDeletingSimulatedDevicePool memoryObjects memoryApi deletingPool deletingWorld)"
  have "viewPools memoryView (server ?w') (''ns'', ''a'') \<noteq> viewPools memoryView (server deletingWorld) (''ns'', ''a'')"
    by code_simp
  moreover have "resourceSliceBelongsToSDP ownedSlice deletingPool
      (set (poolSliceNames memoryObjects (viewNodes memoryView (server deletingWorld)) deletingPool))"
    by code_simp
  ultimately show ?thesis
    using finalize_after_cleanup [OF memory_server, of memoryObjects deletingPool deletingWorld _ ?w'] by (metis prod.collapse)
qed

text \<open>
  A settled cluster stays as it is: when every pool is alive with its finalizer, its status and slices
  are current and no managed slice is an orphan, a pass whose reads succeed returns without any write.
  In particular the pass does not feed the informers that start it.
\<close>

theorem Reconcile_quiescent:
  assumes "listPools K s = (Inr sdps, s)" and "listNodes K s = (Inr nodes, s)" and "listSlices K s = (Inr sls, s)"
    and "\<forall>sdp \<in> set sdps. settledPool U K nodes s sdp"
    and "\<forall>sl \<in> set sls. labelOf sl resourceSliceManagedByLabel = ''simulator'' \<longrightarrow> sliceName sl \<in> desiredNames U nodes sdps"
    and "server w = s"
  shows "fst (Reconcile U K w) = Inr () \<and> server (snd (Reconcile U K w)) = s"
proof -
  have list: "quiet (call (listPools K)) (\<lambda>x. x = sdps) s"
    using assms(1) by (rule quiet_call) simp
  have "quiet (api_bind (cleanupOrphanedResourceSlices K (desiredNames U nodes sdps))
      (\<lambda>_. api_modify (\<lambda>w. w\<lparr>activeFaultsCount := faults\<rparr>))) (\<lambda>_. True) s" for faults
    by (rule quiet_bind [OF cleanup_quiet [OF assms(3)]])
      (use assms(5) in \<open>auto simp: managed_def quiet_def wpr_modify\<close>)
  then have pools: "quiet (api_bind (reconcilePools U K sdps) (\<lambda>(act, faults).
      api_bind (cleanupOrphanedResourceSlices K act) (\<lambda>_. api_modify (\<lambda>w. w\<lparr>activeFaultsCount := faults\<rparr>)))) (\<lambda>_. True) s"
    by (intro quiet_bind [OF reconcilePools_quiet [OF assms(4,2)]]) auto
  have "quiet (Reconcile U K) (\<lambda>_. True) s"
    unfolding Reconcile_def by (rule quiet_bind [OF quiet_try [OF list]]) (use pools in auto)
  then have "wpr (Reconcile U K) (\<lambda>_ w'. server w' = s \<and> True) (\<lambda>_ _. False) w"
    using assms(6) unfolding quiet_def by blast
  from wpr_no_error [OF this] show ?thesis by auto
qed

definition settledSDP :: unstructured where
  "settledSDP = (examplePool ''a'' ''n1'' 2)\<lparr>uFinalizers := [resourceSliceCleanupFinalizer],
     uObject := uObject (examplePool ''a'' ''n1'' 2) @
       [(''status'', AnyMap [(''publishedSlices'', AnyList [AnyString ''sim-slice-a-n1-ns'']), (''activeFaults'', AnyList [])])]\<rparr>"

definition settledMemory :: memory where
  "settledMemory = \<lparr>memSlices = foreignSlice # desiredSlices memoryObjects [] settledSDP, memPools = [settledSDP], memNodes = []\<rparr>"

theorem Reconcile_quiescent_witness:
  "server (snd (Reconcile memoryObjects memoryApi \<lparr>server = settledMemory, events = [], activeFaultsCount = 0\<rparr>)) = settledMemory"
proof -
  have names: "desiredNames memoryObjects [] [settledSDP] = {''sim-slice-a-n1-ns''}" by code_simp

  have spec: "map_option spHealth (decodeSimulatedDevicePoolSpec memoryObjects settledSDP) = Some ''healthy''"
    and published: "poolSliceNames memoryObjects [] settledSDP = [''sim-slice-a-n1-ns'']"
    and status: "nestedMap memoryObjects (uObject settledSDP) ''status'' =
      ([(''publishedSlices'', AnyList [AnyString ''sim-slice-a-n1-ns'']), (''activeFaults'', AnyList [])], True)"
    and stored: "list_all (\<lambda>sl. case getSlice memoryApi (sliceName sl) settledMemory of
        (Inl _, _) \<Rightarrow> False | (Inr st, m) \<Rightarrow> st = sl \<and> m = settledMemory) (desiredSlices memoryObjects [] settledSDP)"
    and managed: "list_all (\<lambda>sl. labelOf sl resourceSliceManagedByLabel = ''simulator'' \<longrightarrow> sliceName sl = ''sim-slice-a-n1-ns'')
        (firsts sliceName (memSlices settledMemory))"
    and alive: "uDeletionTimestamp settledSDP = None"
      "containsString (uFinalizers settledSDP) resourceSliceCleanupFinalizer"
    by code_simp+
  have get: "getSlice memoryApi (sliceName sl) settledMemory = (Inr sl, settledMemory)"
    if "sl \<in> set (desiredSlices memoryObjects [] settledSDP)" for sl
    using stored that by (cases "getSlice memoryApi (sliceName sl) settledMemory";
        cases "fst (getSlice memoryApi (sliceName sl) settledMemory)") (fastforce simp: list_all_iff)+
  have equal: "deepEqualObjects memoryObjects a a" "specsDeepEqual memoryApi sl sl"
    "labelsDeepEqual memoryApi l l" for a sl l
    by (simp_all add: memoryObjects_def memoryApi_def stripMeta_def gomap_equal_iff)
  have "settledPool memoryObjects memoryApi [] settledMemory settledSDP"
    using spec alive get equal unfolding settledPool_def published status by auto
  then have settled: "\<forall>sdp \<in> set [settledSDP]. settledPool memoryObjects memoryApi [] settledMemory sdp" by simp
  have lists: "listPools memoryApi settledMemory = (Inr [settledSDP], settledMemory)"
    "listNodes memoryApi settledMemory = (Inr [], settledMemory)"
    "listSlices memoryApi settledMemory = (Inr (firsts sliceName (memSlices settledMemory)), settledMemory)"
    by (simp_all add: memoryApi_def) (simp_all add: settledMemory_def)
  show ?thesis
    using Reconcile_quiescent [OF lists settled, of "\<lparr>server = settledMemory, events = [], activeFaultsCount = 0\<rparr>"] managed
    by (simp add: names list_all_iff)
qed

text \<open>
  A pass succeeds when the server does: if every call returns a value, with a missing slice reported as
  not found, and the status can be set in the pool's object, \<^verbatim>\<open>Reconcile\<close> returns no error.
\<close>

theorem Reconcile_succeeds:
  assumes "answers U K"
  shows "fst (Reconcile U K w) = Inr ()"
proof -
  have "succeeds (reconcilePools U K sdps)" for sdps
    unfolding reconcilePools_def
    by (auto intro!: succeeds_intros succeeds_reconcileSimulatedDevicePool [OF assms] split: prod.splits)
  moreover have "succeeds (cleanupOrphanedResourceSlices K act)" for act
    unfolding cleanupOrphanedResourceSlices_def
    by (auto intro!: succeeds_intros succeeds_deleteResourceSlice [OF assms] answersD [OF assms])
  ultimately have "succeeds (Reconcile U K)"
    unfolding Reconcile_def
    by (intro succeeds_try_ok [OF succeeds_call [OF answersD(1) [OF assms]]])
      (auto intro!: succeeds_intros split: prod.splits)
  then have "wpr (Reconcile U K) (\<lambda>_ _. True) (\<lambda>_ _. False) w" by (simp add: succeeds_def)
  from wpr_no_error [OF this] show ?thesis by auto
qed

theorem Reconcile_succeeds_witness: "fst (Reconcile memoryObjects memoryApi (exampleWorld twoPools)) = Inr ()"
  by (rule Reconcile_succeeds [OF memory_answers])

text \<open>
  Slice names are not unique: a pool \<^verbatim>\<open>a\<close> on node \<^verbatim>\<open>b-c\<close> and a pool \<^verbatim>\<open>a-b\<close> on node \<^verbatim>\<open>c\<close> of the same
  namespace have the same slice name, and so have nodes that differ in a dot. A pass over the two pools
  succeeds, stores one slice, the second pool's, and reports it in the status of both.
\<close>

theorem simulatedResourceSliceName_collision:
  "simulatedResourceSliceName (examplePool ''a'' ''b-c'' 1) ''b-c'' = simulatedResourceSliceName (examplePool ''a-b'' ''c'' 5) ''c'' \<and>
   simulatedResourceSliceName (examplePool ''a'' '''' 1) ''n.1'' = simulatedResourceSliceName (examplePool ''a'' '''' 1) ''n-1'' \<and>
   (case Reconcile memoryObjects memoryApi (exampleWorld [examplePool ''a'' ''b-c'' 1, examplePool ''a-b'' ''c'' 5]) of
      (r, w') \<Rightarrow> r = Inr () \<and>
        map (\<lambda>sl. (sliceName sl, poolName sl, length (sliceDevices sl))) (firsts sliceName (memSlices (server w'))) =
          [(''sim-slice-a-b-c-ns'', ''a-b'', 5), (''vendor'', ''v'', 1)] \<and>
        map (\<lambda>p. map_of (uObject p) ''status'') (memPools (server w')) =
          replicate 2 (Some (AnyMap [(''publishedSlices'', AnyList [AnyString ''sim-slice-a-b-c-ns'']),
                                     (''activeFaults'', AnyList [])])))"
  by code_simp

end
