(* ===== verification/Pool_Allocation.thy ===== *)
theory Pool_Allocation
  imports Allocation Pool_Guarantees
begin

text \<open>
  From pools to allocations: what pool synchronization publishes is what the planners rely on, and what an allocation pass over the slices
  of the pools can give away.
\<close>

section \<open>The slices of the pools\<close>

text \<open>What a pass of pool synchronization leaves for the live pools, as the allocation pass lists it.\<close>

definition publishedSlices :: "'q object_api \<Rightarrow> string list \<Rightarrow> unstructured list \<Rightarrow> 'q ResourceSlice list" where
  "publishedSlices U nodes sdps = map ResourceSlice.truncate (concat (map (desiredSlices U nodes) sdps))"

definition poolIdentity :: "'q object_api \<Rightarrow> unstructured \<Rightarrow> (string \<times> string) option" where
  "poolIdentity U sdp = map_option (\<lambda>spec. (spDriverName spec, spPoolName spec)) (decodeSimulatedDevicePoolSpec U sdp)"

text \<open>Pools that can be told apart by driver and pool name, without NUL in the names.\<close>

definition distinctPools :: "'q object_api \<Rightarrow> unstructured list \<Rightarrow> bool" where
  "distinctPools U sdps \<longleftrightarrow>
     distinct (List.map_filter (poolIdentity U) sdps) \<and>
     list_all (\<lambda>(driver, pool). CHR 0x00 \<notin> set driver \<and> CHR 0x00 \<notin> set pool) (List.map_filter (poolIdentity U) sdps)"

lemma map_filter_unique:
  assumes "distinct (List.map_filter f xs)" "x \<in> set xs" "y \<in> set xs" "f x = Some v" "f y = Some v"
  shows "x = y"
  using assms
proof (induction xs)
  case (Cons z zs)
  have member: "v \<in> set (List.map_filter f zs)" if "w \<in> set zs" "f w = Some v" for w
    using that by (force simp: List.map_filter_def)
  show ?case
    using Cons member by (auto simp: List.map_filter_simps split: option.splits)
qed simp

lemma quantityEntries_wf: "gomap_wf caps \<Longrightarrow> gomap_wf (quantityEntries U raw caps)"
  by (induction U raw caps rule: quantityEntries.induct) (auto split: go_any.splits sum.splits)

lemma decoded_capacities: "decodeSimulatedDevicePoolSpec U sdp = Some spec \<Longrightarrow> gomap_wf (spCapacities spec)"
  by (auto simp: decodeSimulatedDevicePoolSpec_def decodeCapacities_def Let_def intro!: quantityEntries_wf split: prod.splits if_splits)

lemma simulatedDevices_iff:
  "device \<in> set (simulatedDevices attrs caps n) \<longleftrightarrow> (\<exists>i < nat n. device = simulatedDevice attrs caps i)"
  by (auto simp: simulatedDevices_def)

text \<open>A slice of the pools, with the pool and the node it is from.\<close>

lemma publishedSlices_cases:
  assumes "sl \<in> set (publishedSlices U nodes sdps)"
  obtains sdp spec node where "sdp \<in> set sdps" "decodeSimulatedDevicePoolSpec U sdp = Some spec"
    "sliceDriver sl = spDriverName spec" "poolName sl = spPoolName spec" "sliceNodeName sl = Some node"
    "managedSimulatorSlice sl" "unhealthySlice sl \<longleftrightarrow> spHealth spec = ''unhealthy''"
    "sliceDevices sl = simulatedDevices (spAttributes spec) (spCapacities spec)
       (if spHealth spec = ''capacity-exhausted'' then 0 else spDeviceCount spec)"
proof -
  from assms obtain sdp st where st: "sdp \<in> set sdps" "st \<in> set (desiredSlices U nodes sdp)" "sl = ResourceSlice.truncate st"
    by (auto simp: publishedSlices_def)
  then obtain spec node n where spec: "decodeSimulatedDevicePoolSpec U sdp = Some spec" "st = buildResourceSlice (desiredFor sdp spec node n)"
    unfolding desiredSlices_def by (cases "decodeSimulatedDevicePoolSpec U sdp") (auto split: if_splits)
  show ?thesis
    by (rule that [OF st(1) spec(1)])
       (simp_all add: st(3) spec(2) buildResourceSlice_def desiredFor_def ResourceSlice.defs managedSimulatorSlice_def unhealthySlice_def sliceLabel_def
         mergeStringMaps_def putAll_def resourceSliceOwnershipLabels_def gomap_get_def resourceSliceManagedByLabel_def resourceSliceSDPNameLabel_def
         resourceSliceSDPNamespaceLabel_def resourceSliceSDPUIDLabel_def)
qed

lemma publishedSlices_device:
  assumes "sl \<in> set (publishedSlices U nodes sdps)" "device \<in> set (sliceDevices sl)"
  obtains sdp spec i where "sdp \<in> set sdps" "decodeSimulatedDevicePoolSpec U sdp = Some spec"
    "sliceDriver sl = spDriverName spec" "poolName sl = spPoolName spec" "i < nat (spDeviceCount spec)"
    "device = simulatedDevice (spAttributes spec) (spCapacities spec) i"
  using assms(1)
proof (cases rule: publishedSlices_cases)
  case (1 sdp spec node)
  with assms(2) obtain i where "i < nat (spDeviceCount spec)" "device = simulatedDevice (spAttributes spec) (spCapacities spec) i"
    by (auto simp: simulatedDevices_iff split: if_splits)
  with 1 that show ?thesis by blast
qed

lemma distinctPools_plain:
  assumes "distinctPools U sdps" "sdp \<in> set sdps" "decodeSimulatedDevicePoolSpec U sdp = Some spec"
  shows "CHR 0x00 \<notin> set (spDriverName spec)" "CHR 0x00 \<notin> set (spPoolName spec)"
proof -
  have "(spDriverName spec, spPoolName spec) \<in> set (List.map_filter (poolIdentity U) sdps)"
    using assms(2,3) by (force simp: List.map_filter_def poolIdentity_def)
  with assms(1) show "CHR 0x00 \<notin> set (spDriverName spec)" "CHR 0x00 \<notin> set (spPoolName spec)"
    by (auto simp: distinctPools_def list_all_iff)
qed

lemma distinctPools_same:
  assumes "distinctPools U sdps" "sdp \<in> set sdps" "sdp' \<in> set sdps"
    and "decodeSimulatedDevicePoolSpec U sdp = Some spec" "decodeSimulatedDevicePoolSpec U sdp' = Some spec'"
    and "spDriverName spec = spDriverName spec'" "spPoolName spec = spPoolName spec'"
  shows "spec = spec'"
proof -
  have "sdp = sdp'"
    by (rule map_filter_unique [of "poolIdentity U" sdps _ _ "(spDriverName spec, spPoolName spec)"])
       (use assms in \<open>simp_all add: distinctPools_def poolIdentity_def\<close>)
  with assms(4,5) show ?thesis by simp
qed

lemma publishedSlices_coherent:
  assumes "distinctPools U sdps"
  shows "coherentDevices (publishedSlices U nodes sdps)"
  unfolding coherentDevices_def
proof (intro ballI impI)
  fix sl sl' device device'
  assume sl: "sl \<in> set (publishedSlices U nodes sdps)" "device \<in> set (sliceDevices sl)"
    and sl': "sl' \<in> set (publishedSlices U nodes sdps)" "device' \<in> set (sliceDevices sl')"
    and key: "deviceKey sl device = deviceKey sl' device'"
  from sl show "deviceAllowsMultipleAllocations device = deviceAllowsMultipleAllocations device' \<and> set (devCapacity device) = set (devCapacity device')"
  proof (cases rule: publishedSlices_device)
    case pool: (1 sdp spec i)
    from sl' show ?thesis
    proof (cases rule: publishedSlices_device)
      case pool': (1 sdp' spec' j)
      have "spDriverName spec = spDriverName spec' \<and> spPoolName spec = spPoolName spec'"
        using deviceIdentityKey_inject [of "sliceDriver sl" "sliceDriver sl'" "poolName sl" "poolName sl'"] key pool pool'
          distinctPools_plain [OF assms] by (auto simp: deviceKey_def)
      then have "spec = spec'" using distinctPools_same [OF assms pool(1) pool'(1) pool(2) pool'(2)] by blast
      with pool pool' show ?thesis by (simp add: simulatedDevice_def deviceAllowsMultipleAllocations_def)
    qed
  qed
qed

lemma publishedSlices_ok:
  assumes "quantity_laws Q den" and "distinctPools U sdps"
  shows "slicesOk Q den (publishedSlices U nodes sdps)"
proof -
  have "gomap_wf (devCapacity device)" if "sl \<in> set (publishedSlices U nodes sdps)" "device \<in> set (sliceDevices sl)" for sl device
    using that
  proof (cases rule: publishedSlices_device)
    case (1 sdp spec i)
    then show ?thesis using decoded_capacities [OF 1(2)] by (simp add: simulatedDevice_def gomap_wf_def comp_def case_prod_unfold)
  qed
  moreover have "plainSlice sl" if "sl \<in> set (publishedSlices U nodes sdps)" for sl
    using that
  proof (cases rule: publishedSlices_cases)
    case (1 sdp spec node)
    then show ?thesis using distinctPools_plain [OF assms(2) 1(1,2)] by (simp add: plainSlice_def)
  qed
  ultimately show ?thesis
    using assms publishedSlices_coherent by (auto simp: slicesOk_def capacitiesWf_def list_all_iff)
qed

lemma publishedSlices_exclusive: "\<not> hasManagedShareableDevice (publishedSlices U nodes sdps)"
  by (auto simp: hasManagedShareableDevice_def list_ex_iff simulatedDevice_def deviceAllowsMultipleAllocations_def elim!: publishedSlices_device)

text \<open>
  C32. What pool synchronization publishes is what the planners rely on. For pools that differ in driver or pool name, the slices of
  the live pools are well formed for both planners (capacities without duplicates, and devices with one key agreeing on sharing and
  capacities), every slice is one that the planners manage, those of pools with the fault \<^verbatim>\<open>unhealthy\<close> and no others are left out as
  unhealthy, and no device is shareable, so claims without constraints never need the backtracking planner.
\<close>

theorem pools_plannable:
  assumes "quantity_laws Q den" and "distinctPools U sdps"
  shows "slicesOk Q den (publishedSlices U nodes sdps) \<and> \<not> hasManagedShareableDevice (publishedSlices U nodes sdps) \<and>
    (\<forall>sl \<in> set (publishedSlices U nodes sdps). managedSimulatorSlice sl \<and>
       (\<exists>sdp \<in> set sdps. poolIdentity U sdp = Some (sliceDriver sl, poolName sl) \<and>
          (unhealthySlice sl \<longleftrightarrow> map_option spHealth (decodeSimulatedDevicePoolSpec U sdp) = Some ''unhealthy'')))"
proof (intro conjI ballI)
  fix sl assume sl: "sl \<in> set (publishedSlices U nodes sdps)"
  then show "managedSimulatorSlice sl" by (rule publishedSlices_cases)
  from sl show "\<exists>sdp \<in> set sdps. poolIdentity U sdp = Some (sliceDriver sl, poolName sl) \<and>
      (unhealthySlice sl \<longleftrightarrow> map_option spHealth (decodeSimulatedDevicePoolSpec U sdp) = Some ''unhealthy'')"
  proof (cases rule: publishedSlices_cases)
    case (1 sdp spec node)
    then show ?thesis by (intro bexI [of _ sdp]) (simp_all add: poolIdentity_def)
  qed
qed (rule publishedSlices_ok [OF assms] publishedSlices_exclusive)+

section \<open>What a pool can give away\<close>

text \<open>The results on one pool.\<close>

definition poolResults :: "'q simulatedDevicePoolSpec \<Rightarrow> 'q DeviceRequestAllocationResult list \<Rightarrow> 'q DeviceRequestAllocationResult list" where
  "poolResults spec rs = filter (\<lambda>r. resDriver r = spDriverName spec \<and> resPool r = spPoolName spec) rs"

text \<open>A slice lists the device of a result.\<close>

definition listedBy :: "'q ResourceSlice list \<Rightarrow> 'q DeviceRequestAllocationResult \<Rightarrow> bool" where
  "listedBy slices r \<longleftrightarrow> list_ex (\<lambda>sl. list_ex (\<lambda>device. resultAt sl device r) (sliceDevices sl)) slices"

lemma poolResults_key:
  assumes "distinctPools U sdps" and "sdp \<in> set sdps" and "decodeSimulatedDevicePoolSpec U sdp = Some spec"
    and "r \<in> set (poolResults spec rs)" and "listedBy (publishedSlices U nodes sdps) r"
  shows "resultKey r \<in> (\<lambda>i. deviceIdentityKey (spDriverName spec) (spPoolName spec) (''dev-'' @ decimal i)) ` {..<nat (spDeviceCount spec)}"
proof -
  from assms(5) obtain sl device where sl: "sl \<in> set (publishedSlices U nodes sdps)" "device \<in> set (sliceDevices sl)" "resultAt sl device r"
    unfolding listedBy_def list_ex_iff by blast
  from sl(1,2) show ?thesis
  proof (cases rule: publishedSlices_device)
    case (1 sdp' spec' i)
    then have "spec' = spec"
      using distinctPools_same [OF assms(1) 1(1) assms(2) 1(2) assms(3)] sl(3) assms(4) by (auto simp: resultAt_def poolResults_def)
    with 1 sl(3) show ?thesis by (auto simp: resultAt_def resultKey_def simulatedDevice_def)
  qed
qed

lemma offeredBy_pools:
  assumes "offeredBy (publishedSlices U nodes sdps) r"
  shows "listedBy (publishedSlices U nodes sdps) r \<and> resShareID r = None"
proof -
  from assms obtain sl device where sl: "sl \<in> set (publishedSlices U nodes sdps)" "device \<in> set (sliceDevices sl)" "resultAt sl device r"
    "deviceAllowsMultipleAllocations device \<or> resShareID r = None"
    unfolding offeredBy_def list_ex_iff by blast
  moreover from sl(1,2) have "\<not> deviceAllowsMultipleAllocations device"
    by (rule publishedSlices_device) (simp add: simulatedDevice_def deviceAllowsMultipleAllocations_def)
  ultimately show ?thesis by (auto simp: listedBy_def list_ex_iff)
qed

text \<open>New exclusive results use keys of their own, besides those that are held.\<close>

lemma exclusive_count:
  assumes "sorted_wrt compatibleResults (held @ new)" "\<And>r. r \<in> set new \<Longrightarrow> resShareID r = None \<and> resultKey r \<in> keys"
    and "resultKey ` set held' \<subseteq> keys" "set held' \<subseteq> set held" "finite keys"
  shows "length new + card (resultKey ` set held') \<le> card keys"
proof -
  have "sorted_wrt compatibleResults new" and cross: "\<forall>r \<in> set held. \<forall>r' \<in> set new. compatibleResults r r'"
    using assms(1) by (auto simp: sorted_wrt_append)
  then have "distinct (map resultKey new)"
    using assms(2)
  proof (induction new)
    case (Cons r rs)
    then have "resultKey r \<notin> resultKey ` set rs" by (auto simp: compatibleResults_def)
    with Cons show ?case by simp
  qed simp
  then have "length new = card (resultKey ` set new)" using distinct_card by fastforce
  moreover have "resultKey ` set new \<inter> resultKey ` set held' = {}"
    using cross assms(2,4) by (fastforce simp: compatibleResults_def)
  ultimately have "length new + card (resultKey ` set held') = card (resultKey ` set new \<union> resultKey ` set held')"
    by (simp add: card_Un_disjoint)
  also have "\<dots> \<le> card keys" using assms(2,3,5) by (intro card_mono) auto
  finally show ?thesis .
qed

text \<open>
  C31. However many nodes a pool has, an allocation pass never gives away more of its devices than its \<^verbatim>\<open>deviceCount\<close>. The pass runs on
  the slices of pools that differ in driver or pool name, from whatever claims the API lists, with new UUIDs: what the claims hold afterwards
  is what they held and new results, and the new results on the pool, together with the devices of the pool that its slices list and that
  were held already, are at most \<^verbatim>\<open>deviceCount\<close>, all nodes together, also when the pass stops at an error or the claims listed contradict
  each other. The slices list as many devices on every node, under the same names, and a device is tracked by driver, pool and name.
  Devices above a lowered \<^verbatim>\<open>deviceCount\<close> that a claim still holds do not count.
\<close>

theorem pool_devices_bound:
  assumes "statusLaw api" and "quantity_laws Q den" and "distinctPools U sdps"
    and "apiListClaims api = Inr claims" and "apiListSlices api = Inr (publishedSlices U nodes sdps)"
    and "SimulateAllocation Q evaluator X api recorder r = (err, Some state, r')"
    and "list_all plainResult (committedResults claims)"
    and "freshUUIDs X (committedResults claims) (clkUUIDs (recClock r)) (clkUUIDs (recClock r'))"
    and "sdp \<in> set sdps" and "decodeSimulatedDevicePoolSpec U sdp = Some spec"
  shows "\<exists>new. mset (committedResults (syncClaims state)) = mset (committedResults claims) + mset new \<and>
    length (poolResults spec new) +
      card (resultKey ` set (filter (listedBy (publishedSlices U nodes sdps)) (poolResults spec (committedResults claims))))
    \<le> nat (spDeviceCount spec)"
proof -
  let ?slices = "publishedSlices U nodes sdps" and ?n = "clkUUIDs (recClock r')" and ?before = "committedResults claims"
  let ?keys = "(\<lambda>i. deviceIdentityKey (spDriverName spec) (spPoolName spec) (''dev-'' @ decimal i)) ` {..<nat (spDeviceCount spec)}"
  let ?held = "filter (listedBy ?slices) (poolResults spec ?before)"
  from assms(1,6) obtain state0 where load: "loadAllocationSyncState api = Inr state0"
    and steps: "(allocation_step (\<lambda>claim claims. planClaimAllocation Q evaluator X claim claims
      (syncSlices state0) (syncClasses state0)))\<^sup>*\<^sup>* (syncClaims state0, recClock r) (syncClaims state, recClock r')"
    by (rule SimulateAllocation_run)
  have start: "syncClaims state0 = claims" "syncSlices state0 = ?slices"
    using load assms(4,5) by (auto simp: loadAllocationSyncState_def split: sum.splits)
  have keys: "card ?keys \<le> nat (spDeviceCount spec)" using card_image_le [of "{..<nat (spDeviceCount spec)}"] by simp
  have held: "resultKey ` set ?held \<subseteq> ?keys" using poolResults_key [OF assms(3,9,10)] by auto
  show ?thesis
  proof (cases "consistentResults den ?before")
    case False
    then have "committedResults (syncClaims state) = ?before"
      using steps_inconsistent [OF steps assms(2)] start by simp
    moreover have "card (resultKey ` set ?held) \<le> card ?keys" by (rule card_mono [OF _ held]) simp
    ultimately show ?thesis using keys by (intro exI [of _ "[]"]) (simp add: poolResults_def)
  next
    case True
    have ok: "slicesOk Q den ?slices" by (rule publishedSlices_ok [OF assms(2,3)])
    have "capacityRespected den ?slices ?before"
      by (auto simp: capacityRespected_def withinCapacity_def simulatedDevice_def deviceAllowsMultipleAllocations_def elim!: publishedSlices_device)
    then have "safeAt Q den X ?slices ?n ?before (recClock r)" using ok True assms(7,8) by (simp add: safeAt_def resultsSafe_def)
    then have "safeAt Q den X ?slices ?n (committedResults (syncClaims state)) (recClock r')"
      using simulator.steps_safe [OF steps, of den ?n] start by simp
    then have consistent: "consistentResults den (committedResults (syncClaims state))" by (simp add: safeAt_def resultsSafe_def)
    have "grownBy (offeredBy ?slices) ?before ?before" by (auto simp: grownBy_def intro: exI [of _ "[]"])
    then have "grownBy (offeredBy ?slices) ?before (committedResults (syncClaims state))"
      using offered.steps_safe [OF steps, of den ?before] start ok by simp
    then obtain new where new: "mset (committedResults (syncClaims state)) = mset (?before @ new)" "list_all (offeredBy ?slices) new"
      by (auto simp: grownBy_def)
    have "sorted_wrt compatibleResults (?before @ new)"
      using consistent consistentResults_mset [OF new(1)] by (simp add: consistentResults_def)
    then have "sorted_wrt compatibleResults (poolResults spec ?before @ poolResults spec new)"
      by (simp add: poolResults_def sorted_wrt_filter flip: filter_append)
    moreover have "resShareID r = None \<and> resultKey r \<in> ?keys" if "r \<in> set (poolResults spec new)" for r
      using that offeredBy_pools [of U nodes sdps r] poolResults_key [OF assms(3,9,10) that, of nodes] new(2)
      by (auto simp: poolResults_def list_all_iff)
    ultimately have "length (poolResults spec new) + card (resultKey ` set ?held) \<le> card ?keys"
      using held by (intro exclusive_count) auto
    with new(1) keys show ?thesis by (intro exI [of _ new]) simp
  qed
qed

section \<open>A pool on two nodes\<close>

definition poolObjects :: "rat object_api" where
  "poolObjects =
     \<lparr>nestedMap = nestedMap memoryObjects, nestedString = nestedString memoryObjects, nestedInt64 = nestedInt64 memoryObjects,
      nestedStringSlice = nestedStringSlice memoryObjects, setNestedMap = setNestedMap memoryObjects,
      deepEqualObjects = deepEqualObjects memoryObjects, parseQuantity = (\<lambda>v. Inr (of_nat (length v)))\<rparr>"

text \<open>One device, \<^verbatim>\<open>dev-0\<close>, on the nodes \<open>a\<close> and \<open>b\<close>.\<close>

definition twoNodePool :: unstructured where
  "twoNodePool =
     \<lparr>uName = ''p'', uNamespace = ''ns'', uUID = ''1'', uFinalizers = [], uDeletionTimestamp = None,
      uObject = [(''spec'', AnyMap [(''driverName'', AnyString ''d''), (''deviceCount'', AnyInt64 1),
                                    (''targetNodes'', AnyList [AnyString ''a'', AnyString ''b''])])]\<rparr>"

definition heldDevice :: "rat DeviceRequestAllocationResult" where
  "heldDevice = exampleExclusive\<lparr>resDevice := ''dev-0''\<rparr>"

definition twoNodeApi :: "rat cluster_api" where
  "twoNodeApi =
     \<lparr>apiListClaims = Inr [exampleClaim [heldDevice], pendingClaim [exampleRequest] []],
      apiListSlices = Inr (publishedSlices poolObjects [] [twoNodePool]),
      apiListClasses = Inr [\<lparr>className = ''class'', classSelectors = [\<lparr>selCEL = Some ''true''\<rparr>]\<rparr>],
      apiUpdateStatus = (\<lambda>_ claim. Inr claim)\<rparr>"

lemma twoNode_spec:
  "decodeSimulatedDevicePoolSpec poolObjects twoNodePool =
     Some \<lparr>spDriverName = ''d'', spPoolName = ''p'', spDeviceType = '''', spDeviceCount = 1, spTargetNodes = [''a'', ''b''], spHealth = ''healthy'',
       spAttributes = [(''driver'', ''d''), (''type'', '''')], spCapacities = []\<rparr>"
  by (simp add: decodeSimulatedDevicePoolSpec_def twoNodePool_def poolObjects_def memoryObjects_def decodeStringAttributes_def decodeCapacities_def
      gomap_put_def Let_def)

lemma twoNode_metadata:
  "uName twoNodePool = ''p''" "uNamespace twoNodePool = ''ns''" "uUID twoNodePool = ''1''" "uDeletionTimestamp twoNodePool = None"
  by (simp_all add: twoNodePool_def)

definition twoNodeDevice :: "rat Device" where
  "twoNodeDevice = simulatedDevice [(''driver'', ''d''), (''type'', '''')] [] 0"

lemma twoNode_slices:
  "publishedSlices poolObjects [] [twoNodePool] =
     map (\<lambda>node. \<lparr>sliceName = ''sim-slice-p-'' @ node @ ''-ns'',
        sliceLabels = [(''draforge.oaslananka/managed-by'', ''simulator''), (''draforge.oaslananka/sdp-name'', ''p''),
          (''draforge.oaslananka/sdp-namespace'', ''ns''), (''draforge.oaslananka/sdp-uid'', ''1''), (''draforge.oaslananka/health'', ''healthy''),
          (''project'', ''draforge'')],
        sliceDriver = ''d'', poolName = ''p'', poolGeneration = 1, resourceSliceCount = 2, sliceNodeName = Some node, sliceNodeSelector = None,
        sliceAllNodes = None, perDeviceNodeSelection = None, sharedCounters = [], sliceDevices = [twoNodeDevice]\<rparr>) [''a'', ''b'']"
  by (simp add: publishedSlices_def desiredSlices_def twoNode_spec poolNodes_def buildResourceSlice_def desiredFor_def ResourceSlice.defs
      mergeStringMaps_def putAll_def resourceSliceOwnershipLabels_def gomap_put_def resourceSliceManagedByLabel_def resourceSliceSDPNameLabel_def
      resourceSliceSDPNamespaceLabel_def resourceSliceSDPUIDLabel_def simulatedResourceSliceName_def simulatedDevices_def twoNodeDevice_def twoNode_metadata)

text \<open>
  A claim holds \<^verbatim>\<open>dev-0\<close>; the pass finds no device for the other claim, although the node that the first claim does not use lists one.
\<close>

lemma twoNode_usage:
  "collectCommittedAllocationUsage exact_quantity [exampleClaim [heldDevice], pendingClaim [exampleRequest] []] =
     Inr [(deviceIdentityKey ''d'' ''p'' ''dev-0'', noDeviceUsage\<lparr>comExclusive := True\<rparr>)]"
  by (simp add: collectCommittedAllocationUsage_def addResult_def heldDevice_def exampleExclusive_def exampleClaim_def pendingClaim_def
      resultKey_def noDeviceUsage_def gomap_get_def gomap_put_def Let_def)

lemma twoNode_plan:
  "\<exists>failure. planClaimAllocation exact_quantity acceptingCEL exampleContext (pendingClaim [exampleRequest] [])
      [exampleClaim [heldDevice], pendingClaim [exampleRequest] []] (publishedSlices poolObjects [] [twoNodePool])
      [''class'' \<mapsto> \<lparr>className = ''class'', classSelectors = [\<lparr>selCEL = Some ''true''\<rparr>]\<rparr>] \<lparr>clkUUIDs = 0, clkPolls = 0\<rparr>
    = (Inl failure, \<lparr>clkUUIDs = 0, clkPolls = 0\<rparr>)"
proof -
  let ?usage = "[(deviceIdentityKey ''d'' ''p'' ''dev-0'', noDeviceUsage\<lparr>comExclusive := True\<rparr>)]"
  let ?planner = "newClaimPlanner exact_quantity acceptingCEL [exampleClaim [heldDevice], pendingClaim [exampleRequest] []]
    (publishedSlices poolObjects [] [twoNodePool]) [''class'' \<mapsto> \<lparr>className = ''class'', classSelectors = [\<lparr>selCEL = Some ''true''\<rparr>]\<rparr>] ?usage"
  have alts: "supportedAlternatives exact_quantity exampleRequest =
     Inr [\<lparr>altRequestName = ''r'', altDeviceClassName = ''class'', altSelectors = [], altMode = ModeExactCount, altCount = 1, altCapacity = None\<rparr>]"
    by (simp add: example_request_defs)
  have zero: "decimal 0 = ''0''" by code_simp
  have "\<exists>failure. selectRequest ?planner exampleRequest '''' 32 = Inl failure"
    unfolding selectRequest_def twoNode_slices
    by (simp add: example_plan_defs twoNodeDevice_def simulatedDevice_def heldDevice_def pendingClaim_def alts zero Let_def)
  then have "\<exists>failure. planUnconstrainedClaimAllocation ?planner (pendingClaim [exampleRequest] []) = Inl failure"
    by (auto simp: planUnconstrainedClaimAllocation_def pendingClaim_def AllocationResultsMaxSize_def validateClaimResultLimit_def)
  moreover have "supportedMatchAttributeConstraints (pendingClaim [exampleRequest] []) = Inr []"
    by (simp add: supportedMatchAttributeConstraints_def pendingClaim_def)
  ultimately show ?thesis
    using twoNode_usage publishedSlices_exclusive [of poolObjects "[]" "[twoNodePool]"]
    by (auto simp: planClaimAllocation_def hasShared_def noDeviceUsage_def)
qed

lemma twoNode_pass:
  "\<exists>r'. SimulateAllocation exact_quantity acceptingCEL exampleContext twoNodeApi True exampleStart =
     (None, Some \<lparr>syncClaims = [exampleClaim [heldDevice], pendingClaim [exampleRequest] []],
        syncSlices = publishedSlices poolObjects [] [twoNodePool],
        syncClasses = [''class'' \<mapsto> \<lparr>className = ''class'', classSelectors = [\<lparr>selCEL = Some ''true''\<rparr>]\<rparr>]\<rparr>, r') \<and>
     recClock r' = \<lparr>clkUUIDs = 0, clkPolls = 0\<rparr>"
proof -
  from twoNode_plan obtain failure where plan: "planClaimAllocation exact_quantity acceptingCEL exampleContext (pendingClaim [exampleRequest] [])
      [exampleClaim [heldDevice], pendingClaim [exampleRequest] []] (publishedSlices poolObjects [] [twoNodePool])
      [''class'' \<mapsto> \<lparr>className = ''class'', classSelectors = [\<lparr>selCEL = Some ''true''\<rparr>]\<rparr>] \<lparr>clkUUIDs = 0, clkPolls = 0\<rparr>
    = (Inl failure, \<lparr>clkUUIDs = 0, clkPolls = 0\<rparr>)" by blast
  have "claimAllocation (exampleClaim [heldDevice]) \<noteq> None" "claimAllocation (pendingClaim [exampleRequest] []) = None"
    "claimRequests (pendingClaim [exampleRequest] []) \<noteq> []"
    by (simp_all add: exampleClaim_def pendingClaim_def)
  with plan show ?thesis
    by (simp add: SimulateAllocation_def loadAllocationSyncState_def twoNodeApi_def simulatePendingClaim_def recordAllocationFailure_def
        classMap_def exampleStart_def Let_def)
qed

theorem pool_devices_bound_witness:
  "\<exists>spec r' state. decodeSimulatedDevicePoolSpec poolObjects twoNodePool = Some spec \<and> spTargetNodes spec = [''a'', ''b''] \<and>
     SimulateAllocation exact_quantity acceptingCEL exampleContext twoNodeApi True exampleStart = (None, Some state, r') \<and>
     (\<exists>new. mset (committedResults (syncClaims state)) = {#heldDevice#} + mset new \<and>
        length (poolResults spec new) + card (resultKey ` set (filter (listedBy (publishedSlices poolObjects [] [twoNodePool])) [heldDevice])) \<le> 1)"
proof -
  from twoNode_pass obtain r' where pass: "SimulateAllocation exact_quantity acceptingCEL exampleContext twoNodeApi True exampleStart =
     (None, Some \<lparr>syncClaims = [exampleClaim [heldDevice], pendingClaim [exampleRequest] []],
        syncSlices = publishedSlices poolObjects [] [twoNodePool],
        syncClasses = [''class'' \<mapsto> \<lparr>className = ''class'', classSelectors = [\<lparr>selCEL = Some ''true''\<rparr>]\<rparr>]\<rparr>, r')"
    and clock: "recClock r' = \<lparr>clkUUIDs = 0, clkPolls = 0\<rparr>" by blast
  have held: "committedResults [exampleClaim [heldDevice], pendingClaim [exampleRequest] []] = [heldDevice]"
    by (simp add: exampleClaim_def pendingClaim_def)
  have pools: "distinctPools poolObjects [twoNodePool]"
    by (simp add: distinctPools_def poolIdentity_def twoNode_spec List.map_filter_simps)
  have plain: "list_all plainResult (committedResults [exampleClaim [heldDevice], pendingClaim [exampleRequest] []])"
    "freshUUIDs exampleContext (committedResults [exampleClaim [heldDevice], pendingClaim [exampleRequest] []]) (clkUUIDs (recClock exampleStart)) (clkUUIDs (recClock r'))"
    unfolding held by (simp_all add: plainResult_def freshUUIDs_def heldDevice_def exampleExclusive_def exampleStart_def clock)
  have "poolResults \<lparr>spDriverName = ''d'', spPoolName = ''p'', spDeviceType = '''', spDeviceCount = 1, spTargetNodes = [''a'', ''b''], spHealth = ''healthy'',
       spAttributes = [(''driver'', ''d''), (''type'', '''')], spCapacities = []\<rparr> [heldDevice] = [heldDevice]"
    by (simp add: poolResults_def heldDevice_def exampleExclusive_def)
  note held' = held this
  have law: "statusLaw twoNodeApi" by (simp add: statusLaw_def twoNodeApi_def)
  have lists: "apiListClaims twoNodeApi = Inr [exampleClaim [heldDevice], pendingClaim [exampleRequest] []]"
    "apiListSlices twoNodeApi = Inr (publishedSlices poolObjects [] [twoNodePool])" by (simp_all add: twoNodeApi_def)
  from pool_devices_bound [OF law exact_quantity_laws pools lists pass plain _ twoNode_spec] obtain new where
    "mset (committedResults (syncClaims state)) = mset [heldDevice] + mset new"
    "length (poolResults spec new) + card (resultKey ` set (filter (listedBy (publishedSlices poolObjects [] [twoNodePool])) [heldDevice])) \<le> nat 1"
    if "state = \<lparr>syncClaims = [exampleClaim [heldDevice], pendingClaim [exampleRequest] []],
        syncSlices = publishedSlices poolObjects [] [twoNodePool],
        syncClasses = [''class'' \<mapsto> \<lparr>className = ''class'', classSelectors = [\<lparr>selCEL = Some ''true''\<rparr>]\<rparr>]\<rparr>"
      "spec = \<lparr>spDriverName = ''d'', spPoolName = ''p'', spDeviceType = [], spDeviceCount = 1, spTargetNodes = [''a'', ''b''], spHealth = ''healthy'',
       spAttributes = [(''driver'', ''d''), (''type'', [])], spCapacities = []\<rparr>" for state spec
    unfolding held' by auto
  then show ?thesis using twoNode_spec pass by (intro exI conjI) auto
qed

theorem pools_plannable_witness:
  "slicesOk exact_quantity (\<lambda>a. a) (publishedSlices poolObjects [] [twoNodePool]) \<and> length (publishedSlices poolObjects [] [twoNodePool]) = 2"
proof -
  have "distinctPools poolObjects [twoNodePool]"
    by (simp add: distinctPools_def poolIdentity_def twoNode_spec List.map_filter_simps)
  from pools_plannable [OF exact_quantity_laws this, of "[]"] show ?thesis by (simp add: twoNode_slices)
qed

end
