(* ===== verification/Model_Types.thy ===== *)
theory Model_Types
  imports DRA_Types "HOL-Library.List_Lexorder" "HOL-Library.Char_ord"
begin

text \<open>
  The data structures of \<^verbatim>\<open>pkg/model/model.go\<close> that discovery fills and graph, explain and doctor read, with
  the two methods of \<^verbatim>\<open>ResourceClaimInfo\<close>. Go compares strings byte by byte: that is the lexicographic
  order on \<open>char list\<close>. Times are nanoseconds.
\<close>

section \<open>Devices and pools\<close>

record 'q model_device =
  mdID :: string
  mdName :: string
  mdType :: string
  mdStatus :: string
  mdDriverName :: string
  mdNodeName :: string
  mdPoolName :: string
  mdAttributes :: "(string, string) gomap"
  mdCapacities :: "(string, int64) gomap"
  mdIsSynthetic :: bool
  mdLastUpdated :: int
  mdDRAAttributes :: "(string, DeviceAttribute) gomap"
  mdDRACapacity :: "(string, 'q DeviceCapacity) gomap"
  mdDRAAllowMultipleAllocations :: "bool option"

record DevicePool =
  dpName :: string
  dpDriverName :: string
  dpNodeName :: string
  dpDeviceCount :: int
  dpDeviceType :: string
  dpHealth :: string
  dpIsSynthetic :: bool
  dpLabels :: "(string, string) gomap"

section \<open>Claims\<close>

record ClaimRequestAlternative =
  craName :: string
  craDeviceClassName :: string
  craAllocationMode :: string
  craCount :: int

record ClaimRequest =
  crName :: string
  crMode :: string
  crAlternatives :: "ClaimRequestAlternative list"

record ClaimAllocation =
  caRequest :: string
  caDriverName :: string
  caPoolName :: string
  caDeviceName :: string
  caNodeName :: string

record ResourceClaimInfo =
  ciName :: string
  ciNamespace :: string
  ciStatus :: string
  ciRequests :: "ClaimRequest list"
  ciAllocations :: "ClaimAllocation list"
  ciOwnerPodName :: string
  ciCreatedAt :: int
  ciDeviceClassName :: string
  ciAllocatedDevice :: string
  ciAllocatedNode :: string
  ciAllocatedDriver :: string

text \<open>The inner and the outer loop of \<^verbatim>\<open>RequestedClassNames\<close>: the class names in order of first occurrence.\<close>

fun collectAlternativeClasses :: "ClaimRequestAlternative list \<Rightarrow> string list \<Rightarrow> string list" where
  "collectAlternativeClasses [] classNames = classNames"
| "collectAlternativeClasses (alternative # rest) classNames =
     (if craDeviceClassName alternative = '''' \<or> craDeviceClassName alternative \<in> set classNames
      then collectAlternativeClasses rest classNames
      else collectAlternativeClasses rest (classNames @ [craDeviceClassName alternative]))"

fun collectRequestClasses :: "ClaimRequest list \<Rightarrow> string list \<Rightarrow> string list" where
  "collectRequestClasses [] classNames = classNames"
| "collectRequestClasses (request # rest) classNames =
     collectRequestClasses rest (collectAlternativeClasses (crAlternatives request) classNames)"

definition RequestedClassNames :: "ResourceClaimInfo \<Rightarrow> string list" where
  "RequestedClassNames claim =
     (let classNames = collectRequestClasses (ciRequests claim) []
      in sort (if classNames = [] \<and> ciDeviceClassName claim \<noteq> '''' then [ciDeviceClassName claim] else classNames))"

definition EffectiveAllocations :: "ResourceClaimInfo \<Rightarrow> ClaimAllocation list" where
  "EffectiveAllocations claim =
     (if ciAllocations claim \<noteq> [] then ciAllocations claim
      else if ciAllocatedDevice claim = '''' then []
      else [\<lparr>caRequest = '''', caDriverName = ciAllocatedDriver claim, caPoolName = '''',
             caDeviceName = ciAllocatedDevice claim, caNodeName = ciAllocatedNode claim\<rparr>])"

lemma collectAlternativeClasses_set:
  "set (collectAlternativeClasses alternatives names) =
     set names \<union> {c \<in> craDeviceClassName ` set alternatives. c \<noteq> ''''}"
  by (induction alternatives arbitrary: names) auto

lemma collectAlternativeClasses_distinct:
  "distinct names \<Longrightarrow> distinct (collectAlternativeClasses alternatives names)"
  by (induction alternatives arbitrary: names) auto

lemma collectRequestClasses_set:
  "set (collectRequestClasses requests names) =
     set names \<union> {c. c \<noteq> '''' \<and> (\<exists>r \<in> set requests. \<exists>a \<in> set (crAlternatives r). c = craDeviceClassName a)}"
  by (induction requests arbitrary: names) (auto simp: collectAlternativeClasses_set)

lemma collectRequestClasses_distinct:
  "distinct names \<Longrightarrow> distinct (collectRequestClasses requests names)"
  by (induction requests arbitrary: names) (simp_all add: collectAlternativeClasses_distinct)

lemma RequestedClassNames_sorted: "sorted (RequestedClassNames claim) \<and> distinct (RequestedClassNames claim)"
  by (simp add: RequestedClassNames_def Let_def collectRequestClasses_distinct)

lemma RequestedClassNames_nonempty: "'''' \<notin> set (RequestedClassNames claim)"
  by (auto simp: RequestedClassNames_def Let_def collectRequestClasses_set)

section \<open>The graph\<close>

text \<open>The values the sources store in a node's metadata.\<close>

datatype meta_value =
    MetaString string
  | MetaBool bool
  | MetaInt int
  | MetaStrings "string list"
  | MetaRequests "ClaimRequest list"
  | MetaAllocations "ClaimAllocation list"

record GraphNode =
  gnID :: string
  gnType :: string
  gnLabel :: string
  gnMetadata :: "(string, meta_value) gomap option"

record GraphEdge =
  geFrom :: string
  geTo :: string
  geType :: string

record ResourceGraph =
  rgNodes :: "GraphNode list"
  rgEdges :: "GraphEdge list"

record DiscoveryStatus =
  dsResourceClaimsAvailable :: bool
  dsResourceSlicesAvailable :: bool
  dsPodsAvailable :: bool
  dsIsPartial :: bool
  dsWarnings :: "string list"

end
