(* ===== verification/Discovery.thy ===== *)
theory Discovery
  imports Model_Types "HOL-Library.Multiset"
begin

text \<open>
  Discovery, \<^verbatim>\<open>internal/discovery/discovery.go\<close>: the lists the API returns (or the text of the error) mapped to
  the model. The objects carry their creation time, which \<open>DRA_Types\<close> leaves out. \<^verbatim>\<open>strings.ToLower\<close> and
  \<^verbatim>\<open>strings.EqualFold\<close> rest on the Unicode tables and come in as \<open>go_unicode\<close>; the 64-bit value of a quantity is
  \<open>q_value\<close>. \<^verbatim>\<open>sort.Slice\<close> leaves the order of equal keys open; the model takes the stable one. The
  warnings printed to standard output are left out.
\<close>

record go_unicode =
  toLower :: "string \<Rightarrow> string"
  equalFold :: "string \<Rightarrow> string \<Rightarrow> bool"

record 'q live_slice = "'q ResourceSlice" +
  sliceCreated :: int

record 'q live_claim = "'q ResourceClaim" +
  claimCreated :: int

record PodResourceClaim =
  prcName :: string
  prcResourceClaimName :: "string option"
  prcResourceClaimTemplateName :: "string option"

record Pod =
  podName :: string
  podNamespace :: string
  podResourceClaims :: "PodResourceClaim list"

section \<open>Identities\<close>

definition stableIdentity :: "string \<Rightarrow> string list \<Rightarrow> string" where
  "stableIdentity kind parts = strings_Join (kind # map (\<lambda>part. decimal (length part) @ '':'' @ part) parts) ''/''"

definition poolIdentity :: "string \<Rightarrow> string \<Rightarrow> string \<Rightarrow> string" where
  "poolIdentity driverName pool nodeName = stableIdentity ''pool'' [driverName, pool, nodeName]"

definition deviceIdentity :: "string \<Rightarrow> string \<Rightarrow> string \<Rightarrow> string \<Rightarrow> string" where
  "deviceIdentity driverName pool nodeName deviceName =
     stableIdentity ''device'' [driverName, nodeName, pool, deviceName]"

section \<open>Claims\<close>

definition allocationModeName :: "DeviceAllocationMode \<Rightarrow> string" where
  "allocationModeName mode =
     (case mode of ModeUnset \<Rightarrow> '''' | ModeExactCount \<Rightarrow> ''ExactCount'' | ModeAll \<Rightarrow> ''All'' | ModeOther s \<Rightarrow> s)"

definition normalizedAllocationMode :: "DeviceAllocationMode \<Rightarrow> string" where
  "normalizedAllocationMode mode = (if allocationModeName mode = '''' then ''ExactCount'' else allocationModeName mode)"

definition normalizedRequestCount :: "DeviceAllocationMode \<Rightarrow> int \<Rightarrow> int" where
  "normalizedRequestCount mode n = (if normalizedAllocationMode mode = ''ExactCount'' \<and> n = 0 then 1 else n)"

definition mapExactRequest :: "string \<Rightarrow> 'q ExactDeviceRequest \<Rightarrow> ClaimRequestAlternative" where
  "mapExactRequest name request =
     \<lparr>craName = name, craDeviceClassName = exDeviceClassName request,
      craAllocationMode = normalizedAllocationMode (exAllocationMode request),
      craCount = normalizedRequestCount (exAllocationMode request) (exCount request)\<rparr>"

definition mapSubRequest :: "'q DeviceSubRequest \<Rightarrow> ClaimRequestAlternative" where
  "mapSubRequest request =
     \<lparr>craName = subName request, craDeviceClassName = subDeviceClassName request,
      craAllocationMode = normalizedAllocationMode (subAllocationMode request),
      craCount = normalizedRequestCount (subAllocationMode request) (subCount request)\<rparr>"

definition mapClaimRequest :: "'q DeviceRequest \<Rightarrow> ClaimRequest" where
  "mapClaimRequest request =
     (case drExactly request of
        Some exact \<Rightarrow>
          \<lparr>crName = drName request, crMode = ''Exactly'', crAlternatives = [mapExactRequest (drName request) exact]\<rparr>
      | None \<Rightarrow>
          (if drFirstAvailable request \<noteq> []
           then \<lparr>crName = drName request, crMode = ''FirstAvailable'',
                 crAlternatives = map mapSubRequest (drFirstAvailable request)\<rparr>
           else \<lparr>crName = drName request, crMode = ''Unknown'', crAlternatives = []\<rparr>))"

definition mapClaimRequests :: "'q DeviceRequest list \<Rightarrow> ClaimRequest list" where
  "mapClaimRequests requests = map mapClaimRequest requests"

definition mergeExactNode :: "string \<Rightarrow> string \<Rightarrow> string" where
  "mergeExactNode current next = (if current = '''' \<or> current = next then next else '''')"

text \<open>One of the two loops of \<^verbatim>\<open>exactNodeForTerm\<close>; \<open>None\<close> is its early return of the empty name.\<close>

fun exactNodeFrom :: "string \<Rightarrow> NodeSelectorRequirement list \<Rightarrow> string \<Rightarrow> string option" where
  "exactNodeFrom key [] candidate = Some candidate"
| "exactNodeFrom key (requirement # rest) candidate =
     (if req_key requirement \<noteq> key \<or> req_operator requirement \<noteq> ''In'' \<or> length (req_values requirement) \<noteq> 1
      then exactNodeFrom key rest candidate
      else let candidate' = mergeExactNode candidate (req_values requirement ! 0)
           in if candidate' = '''' then None else exactNodeFrom key rest candidate')"

definition exactNodeForTerm :: "NodeSelectorTerm \<Rightarrow> string" where
  "exactNodeForTerm term =
     (case exactNodeFrom ''metadata.name'' (matchFields term) '''' of
        None \<Rightarrow> ''''
      | Some candidate \<Rightarrow>
          (case exactNodeFrom ''kubernetes.io/hostname'' (matchExpressions term) candidate of
             None \<Rightarrow> '''' | Some candidate' \<Rightarrow> candidate'))"

fun nodeOfTerms :: "NodeSelectorTerm list \<Rightarrow> string \<Rightarrow> string" where
  "nodeOfTerms [] candidate = candidate"
| "nodeOfTerms (term # terms) candidate =
     (let termNode = exactNodeForTerm term
      in if termNode = '''' then ''''
         else if candidate = '''' then nodeOfTerms terms termNode
         else if candidate \<noteq> termNode then ''''
         else nodeOfTerms terms candidate)"

definition allocationNodeName :: "'q AllocationResult option \<Rightarrow> string" where
  "allocationNodeName allocation =
     (case allocation of
        None \<Rightarrow> ''''
      | Some a \<Rightarrow> (case allocNodeSelector a of None \<Rightarrow> '''' | Some terms \<Rightarrow> if terms = [] then '''' else nodeOfTerms terms ''''))"

definition mapClaimAllocations :: "'q AllocationResult option \<Rightarrow> string \<Rightarrow> ClaimAllocation list" where
  "mapClaimAllocations allocation nodeName =
     (case allocation of
        None \<Rightarrow> []
      | Some a \<Rightarrow>
          map (\<lambda>result. \<lparr>caRequest = resRequest result, caDriverName = resDriver result, caPoolName = resPool result,
                         caDeviceName = resDevice result, caNodeName = nodeName\<rparr>) (allocResults a))"

definition mapResourceClaim :: "'q live_claim \<Rightarrow> ResourceClaimInfo" where
  "mapResourceClaim claim =
     (let requests = mapClaimRequests (claimRequests claim);
          nodeName = allocationNodeName (claimAllocation claim);
          allocations = mapClaimAllocations (claimAllocation claim) nodeName
      in \<lparr>ciName = claimName claim, ciNamespace = claimNamespace claim,
          ciStatus = (if allocations \<noteq> [] then ''Allocated'' else ''Pending''),
          ciRequests = requests, ciAllocations = allocations, ciOwnerPodName = '''',
          ciCreatedAt = claimCreated claim,
          ciDeviceClassName = (case requests of [] \<Rightarrow> ''''
             | request # _ \<Rightarrow> (case crAlternatives request of [] \<Rightarrow> '''' | alternative # _ \<Rightarrow> craDeviceClassName alternative)),
          ciAllocatedDevice = (case allocations of [] \<Rightarrow> '''' | a # _ \<Rightarrow> caDeviceName a),
          ciAllocatedNode = (case allocations of [] \<Rightarrow> nodeName | a # _ \<Rightarrow> caNodeName a),
          ciAllocatedDriver = (case allocations of [] \<Rightarrow> '''' | a # _ \<Rightarrow> caDriverName a)\<rparr>)"

definition discoverClaims ::
  "string + 'q live_claim list \<Rightarrow> ResourceClaimInfo list \<times> bool \<times> string list" where
  "discoverClaims claimList =
     (case claimList of
        Inl err \<Rightarrow> ([], False, [''resource.k8s.io/v1 ResourceClaims API not available: '' @ err])
      | Inr items \<Rightarrow> (map mapResourceClaim items, True, []))"

section \<open>Slices\<close>

definition managedByLabel :: string where "managedByLabel = ''draforge.oaslananka/managed-by''"
definition syntheticLabel :: string where "syntheticLabel = ''draforge.oaslananka/synthetic''"

definition hasSyntheticLabel :: "go_unicode \<Rightarrow> (string, string) gomap \<Rightarrow> bool" where
  "hasSyntheticLabel G labels \<longleftrightarrow>
     equalFold G (gomap_get '''' labels managedByLabel) ''simulator'' \<or>
     equalFold G (gomap_get '''' labels syntheticLabel) ''true''"

definition sliceIdentity :: "'q live_slice \<Rightarrow> string \<times> string \<times> string \<times> string" where
  "sliceIdentity sl =
     (sliceDriver sl, poolName sl, (case sliceNodeName sl of None \<Rightarrow> '''' | Some n \<Rightarrow> n),
      let health = gomap_get '''' (sliceLabels sl) ''draforge.oaslananka/health'' in if health = '''' then ''healthy'' else health)"

text \<open>The pool for the key, created or updated; the caller stores it.\<close>

definition ensurePool ::
  "go_unicode \<Rightarrow> (string, DevicePool) gomap \<Rightarrow> 'q live_slice \<Rightarrow> string \<Rightarrow> string \<Rightarrow> string \<Rightarrow> string \<Rightarrow> DevicePool" where
  "ensurePool G poolMap sl driverName pool nodeName health =
     (case map_of poolMap (poolIdentity driverName pool nodeName) of
        None \<Rightarrow>
          \<lparr>dpName = pool, dpDriverName = driverName, dpNodeName = nodeName, dpDeviceCount = 0, dpDeviceType = ''unknown'',
           dpHealth = health, dpIsSynthetic = hasSyntheticLabel G (sliceLabels sl), dpLabels = sliceLabels sl\<rparr>
      | Some p \<Rightarrow>
          (let p' = p\<lparr>dpIsSynthetic := dpIsSynthetic p \<or> hasSyntheticLabel G (sliceLabels sl)\<rparr>
           in if health \<noteq> ''healthy'' then p'\<lparr>dpHealth := health\<rparr> else p'))"

text \<open>The loop of \<^verbatim>\<open>mapDevice\<close> over the attributes, in the map's iteration order.\<close>

fun mapAttributes ::
  "go_unicode \<Rightarrow> (string, DeviceAttribute) gomap \<Rightarrow> (string, string) gomap \<Rightarrow> string \<Rightarrow> (string, string) gomap \<times> string" where
  "mapAttributes G [] attributes deviceType = (attributes, deviceType)"
| "mapAttributes G ((name, val) # rest) attributes deviceType =
     (case stringValue val of
        Some v \<Rightarrow>
          mapAttributes G rest (gomap_put name v attributes)
            (if equalFold G name ''type'' \<or> equalFold G name ''model'' then toLower G v else deviceType)
      | None \<Rightarrow>
          (case intValue val of
             Some i \<Rightarrow> mapAttributes G rest (gomap_put name (decimalInt i) attributes) deviceType
           | None \<Rightarrow>
               (case boolValue val of
                  Some b \<Rightarrow> mapAttributes G rest (gomap_put name (if b then ''true'' else ''false'') attributes) deviceType
                | None \<Rightarrow> mapAttributes G rest attributes deviceType)))"

definition mapDevice ::
  "go_unicode \<Rightarrow> 'q quantity_api \<Rightarrow> 'q live_slice \<Rightarrow> 'q Device \<Rightarrow> string \<Rightarrow> string \<Rightarrow> string \<Rightarrow> string \<Rightarrow> 'q model_device" where
  "mapDevice G Q sl specification driverName pool nodeName health =
     (case mapAttributes G (devAttributes specification) [] ''unknown'' of
        (attributes, deviceType) \<Rightarrow>
          \<lparr>mdID = deviceIdentity driverName pool nodeName (devName specification),
           mdName = devName specification, mdType = deviceType, mdStatus = health, mdDriverName = driverName,
           mdNodeName = nodeName, mdPoolName = pool, mdAttributes = attributes,
           mdCapacities = map (\<lambda>(name, capacity). (name, q_value Q (capValue capacity))) (devCapacity specification),
           mdIsSynthetic = hasSyntheticLabel G (sliceLabels sl), mdLastUpdated = sliceCreated sl,
           mdDRAAttributes = devAttributes specification, mdDRACapacity = devCapacity specification,
           mdDRAAllowMultipleAllocations = allowMultipleAllocations specification\<rparr>)"

fun mapSliceDevices ::
  "go_unicode \<Rightarrow> 'q quantity_api \<Rightarrow> 'q live_slice \<Rightarrow> 'q Device list \<Rightarrow> DevicePool \<Rightarrow> string \<Rightarrow> string \<Rightarrow> string \<Rightarrow> string \<Rightarrow>
   'q model_device list \<times> DevicePool" where
  "mapSliceDevices G Q sl [] pool driverName pname nodeName health = ([], pool)"
| "mapSliceDevices G Q sl (specification # rest) pool driverName pname nodeName health =
     (let device = mapDevice G Q sl specification driverName pname nodeName health;
          pool1 = pool\<lparr>dpDeviceCount := dpDeviceCount pool + 1\<rparr>;
          pool2 = (if mdType device \<noteq> ''unknown'' then pool1\<lparr>dpDeviceType := mdType device\<rparr> else pool1)
      in case mapSliceDevices G Q sl rest pool2 driverName pname nodeName health of
           (devices, pool') \<Rightarrow> (device # devices, pool'))"

fun collectSlices ::
  "go_unicode \<Rightarrow> 'q quantity_api \<Rightarrow> 'q live_slice list \<Rightarrow> (string, DevicePool) gomap \<Rightarrow> 'q model_device list \<Rightarrow>
   (string, DevicePool) gomap \<times> 'q model_device list" where
  "collectSlices G Q [] poolMap devices = (poolMap, devices)"
| "collectSlices G Q (sl # rest) poolMap devices =
     (case sliceIdentity sl of
        (driverName, pname, nodeName, health) \<Rightarrow>
          (case mapSliceDevices G Q sl (sliceDevices sl) (ensurePool G poolMap sl driverName pname nodeName health)
                  driverName pname nodeName health of
             (new, pool) \<Rightarrow>
               collectSlices G Q rest (gomap_put (poolIdentity driverName pname nodeName) pool poolMap) (devices @ new)))"

definition discoverSlices ::
  "go_unicode \<Rightarrow> 'q quantity_api \<Rightarrow> string + 'q live_slice list \<Rightarrow> DevicePool list \<times> 'q model_device list \<times> bool \<times> string list" where
  "discoverSlices G Q sliceList =
     (case sliceList of
        Inl err \<Rightarrow> ([], [], False, [''resource.k8s.io/v1 ResourceSlices API not available: '' @ err])
      | Inr items \<Rightarrow> (case collectSlices G Q items [] [] of (poolMap, devices) \<Rightarrow> (map snd poolMap, devices, True, [])))"

section \<open>Owners\<close>

definition claimKey :: "string \<Rightarrow> string \<Rightarrow> string" where
  "claimKey namespace name = namespace @ [CHR 0x00] @ name"

fun claimIndexesFrom :: "nat \<Rightarrow> ResourceClaimInfo list \<Rightarrow> (string, nat) gomap \<Rightarrow> (string, nat) gomap" where
  "claimIndexesFrom i [] indexes = indexes"
| "claimIndexesFrom i (claim # rest) indexes =
     claimIndexesFrom (Suc i) rest (gomap_put (claimKey (ciNamespace claim) (ciName claim)) i indexes)"

definition podClaimName :: "Pod \<Rightarrow> PodResourceClaim \<Rightarrow> string" where
  "podClaimName pod podClaim =
     (case prcResourceClaimName podClaim of
        Some name \<Rightarrow> name
      | None \<Rightarrow> (case prcResourceClaimTemplateName podClaim of Some _ \<Rightarrow> podName pod @ ''-'' @ prcName podClaim | None \<Rightarrow> ''''))"

definition attachOwner ::
  "(string, nat) gomap \<Rightarrow> Pod \<Rightarrow> PodResourceClaim \<Rightarrow> ResourceClaimInfo list \<Rightarrow> ResourceClaimInfo list" where
  "attachOwner indexes pod podClaim claims =
     (case map_of indexes (claimKey (podNamespace pod) (podClaimName pod podClaim)) of
        None \<Rightarrow> claims
      | Some i \<Rightarrow> claims[i := (claims ! i)\<lparr>ciOwnerPodName := podName pod\<rparr>])"

definition attachClaimOwners ::
  "string + Pod list \<Rightarrow> ResourceClaimInfo list \<Rightarrow> ResourceClaimInfo list \<times> bool \<times> string list" where
  "attachClaimOwners podList claims =
     (case podList of
        Inl err \<Rightarrow> (claims, False, [''core/v1 Pods API not available: '' @ err])
      | Inr pods \<Rightarrow>
          (fold (\<lambda>pod. fold (attachOwner (claimIndexesFrom 0 claims []) pod) (podResourceClaims pod)) pods claims, True, []))"

section \<open>Everything\<close>

record 'q discovered =
  dvPools :: "DevicePool list"
  dvDevices :: "'q model_device list"
  dvClaims :: "ResourceClaimInfo list"
  dvStatus :: DiscoveryStatus

definition DiscoverDRAWithStatus ::
  "go_unicode \<Rightarrow> 'q quantity_api \<Rightarrow> string + 'q live_claim list \<Rightarrow> string + 'q live_slice list \<Rightarrow> string + Pod list \<Rightarrow>
   'q discovered" where
  "DiscoverDRAWithStatus G Q claimList sliceList podList =
     (case discoverClaims claimList of
        (claims, claimAvailable, claimWarnings) \<Rightarrow>
     (case discoverSlices G Q sliceList of
        (pools, devices, slicesAvailable, sliceWarnings) \<Rightarrow>
     (case attachClaimOwners podList claims of
        (claims', podsAvailable, podWarnings) \<Rightarrow>
          \<lparr>dvPools = sort_key (\<lambda>p. poolIdentity (dpDriverName p) (dpName p) (dpNodeName p)) pools,
           dvDevices = sort_key mdID devices,
           dvClaims = sort_key (\<lambda>c. [ciNamespace c, ciName c]) claims',
           dvStatus = \<lparr>dsResourceClaimsAvailable = claimAvailable, dsResourceSlicesAvailable = slicesAvailable,
             dsPodsAvailable = podsAvailable, dsIsPartial = (\<not> claimAvailable \<or> \<not> slicesAvailable \<or> \<not> podsAvailable),
             dsWarnings = claimWarnings @ sliceWarnings @ podWarnings\<rparr>\<rparr>)))"

section \<open>Identities are injective\<close>

lemma stableIdentity_inject:
  assumes "CHR ''/'' \<notin> set kind" and "CHR ''/'' \<notin> set kind'"
    and "stableIdentity kind ps = stableIdentity kind' qs"
  shows "kind = kind' \<and> ps = qs"
proof -
  have "stableIdentity k xs = strings_Join (k # map lengthPrefixed xs) ''/''" for k xs
    by (simp add: stableIdentity_def lengthPrefixed_def [abs_def])
  with assms show ?thesis using joinedParts_inject [of kind kind' ps qs] by simp
qed

lemma poolIdentity_inject [simp]:
  "poolIdentity d p n = poolIdentity d' p' n' \<longleftrightarrow> d = d' \<and> p = p' \<and> n = n'"
  using stableIdentity_inject [of "''pool''" "''pool''"] by (auto simp: poolIdentity_def)

lemma deviceIdentity_inject [simp]:
  "deviceIdentity d p n x = deviceIdentity d' p' n' x' \<longleftrightarrow> d = d' \<and> p = p' \<and> n = n' \<and> x = x'"
  using stableIdentity_inject [of "''device''" "''device''"] by (auto simp: deviceIdentity_def)

section \<open>Pools and devices\<close>

definition poolKey :: "DevicePool \<Rightarrow> string" where
  "poolKey p = poolIdentity (dpDriverName p) (dpName p) (dpNodeName p)"

definition devicePoolKey :: "'q model_device \<Rightarrow> string" where
  "devicePoolKey d = poolIdentity (mdDriverName d) (mdPoolName d) (mdNodeName d)"

definition slicePoolKey :: "'q live_slice \<Rightarrow> string" where
  "slicePoolKey sl =
     poolIdentity (sliceDriver sl) (poolName sl) (case sliceNodeName sl of None \<Rightarrow> '''' | Some n \<Rightarrow> n)"

definition sliceDeviceIDs :: "'q live_slice \<Rightarrow> string list" where
  "sliceDeviceIDs sl =
     map (\<lambda>d. deviceIdentity (sliceDriver sl) (poolName sl) (case sliceNodeName sl of None \<Rightarrow> '''' | Some n \<Rightarrow> n) (devName d))
       (sliceDevices sl)"

lemma mapDevice_fields [simp]:
  "mdID (mapDevice G Q sl s driver pool node health) = deviceIdentity driver pool node (devName s)"
  "mdName (mapDevice G Q sl s driver pool node health) = devName s"
  "mdDriverName (mapDevice G Q sl s driver pool node health) = driver"
  "mdPoolName (mapDevice G Q sl s driver pool node health) = pool"
  "mdNodeName (mapDevice G Q sl s driver pool node health) = node"
  by (simp_all add: mapDevice_def split: prod.split)

lemma mapSliceDevices_devices:
  "fst (mapSliceDevices G Q sl specs p driver pool node health) =
     map (\<lambda>s. mapDevice G Q sl s driver pool node health) specs"
proof (induction specs arbitrary: p)
  case (Cons s specs)
  then show ?case
    by (simp add: Let_def split: prod.split) (metis fst_conv)
qed simp

lemma snd_case_pair: "snd (case x of (a, b) \<Rightarrow> (f a, b)) = snd x"
  by (simp split: prod.split)

lemma mapSliceDevices_pool:
  "poolKey (snd (mapSliceDevices G Q sl specs p driver pool node health)) = poolKey p \<and>
   dpDeviceCount (snd (mapSliceDevices G Q sl specs p driver pool node health)) = dpDeviceCount p + int (length specs)"
proof (induction specs arbitrary: p)
  case (Cons s specs)
  show ?case by (simp add: Let_def snd_case_pair Cons.IH) (simp add: poolKey_def)
qed simp

lemma ensurePool_key:
  assumes "\<And>k p. map_of poolMap k = Some p \<Longrightarrow> poolKey p = k"
  shows "poolKey (ensurePool G poolMap sl driver pool node health) = poolIdentity driver pool node"
proof (cases "map_of poolMap (poolIdentity driver pool node)")
  case (Some p)
  from assms [OF this] show ?thesis by (simp add: ensurePool_def poolKey_def Let_def Some)
qed (simp add: ensurePool_def poolKey_def)

lemma ensurePool_count:
  "dpDeviceCount (ensurePool G poolMap sl driver pool node health) =
     (case map_of poolMap (poolIdentity driver pool node) of None \<Rightarrow> 0 | Some p \<Rightarrow> dpDeviceCount p)"
  by (auto simp: ensurePool_def Let_def split: option.split)

text \<open>The invariant of the loop over the slices.\<close>

definition pools_agree :: "(string, DevicePool) gomap \<Rightarrow> 'q model_device list \<Rightarrow> bool" where
  "pools_agree poolMap devices \<longleftrightarrow>
     gomap_wf poolMap \<and> (\<forall>k p. map_of poolMap k = Some p \<longrightarrow> poolKey p = k) \<and>
     (\<forall>k. int (length (filter (\<lambda>d. devicePoolKey d = k) devices)) =
        (case map_of poolMap k of None \<Rightarrow> 0 | Some p \<Rightarrow> dpDeviceCount p))"

lemma pools_agree_slice:
  assumes agree: "pools_agree poolMap devices"
    and step: "mapSliceDevices G Q sl specs (ensurePool G poolMap sl driver pool node health)
      driver pool node health = (new, p)"
  shows "pools_agree (gomap_put (poolIdentity driver pool node) p poolMap) (devices @ new)"
proof -
  have new: "new = map (\<lambda>s. mapDevice G Q sl s driver pool node health) specs"
    using mapSliceDevices_devices [of G Q sl specs _ driver pool node health] step by (metis fst_conv)
  have p: "poolKey p = poolIdentity driver pool node"
      "dpDeviceCount p = dpDeviceCount (ensurePool G poolMap sl driver pool node health) + int (length specs)"
    using mapSliceDevices_pool [of G Q sl specs "ensurePool G poolMap sl driver pool node health" driver pool node health]
      ensurePool_key [of poolMap G sl driver pool node health] agree step by (auto simp: pools_agree_def)
  have "filter (\<lambda>d. devicePoolKey d = k) new = (if k = poolIdentity driver pool node then new else [])" for k
    unfolding new by (auto simp: devicePoolKey_def filter_map comp_def)
  then show ?thesis using agree p new
    by (auto simp: pools_agree_def ensurePool_count)
qed

lemma collectSlices_agree:
  "pools_agree poolMap devices \<Longrightarrow> collectSlices G Q items poolMap devices = (poolMap', devices') \<Longrightarrow>
     pools_agree poolMap' devices'"
proof (induction items arbitrary: poolMap devices)
  case (Cons sl items)
  obtain driver pool node health where id: "sliceIdentity sl = (driver, pool, node, health)" by (metis prod.exhaust)
  obtain new p where step: "mapSliceDevices G Q sl (sliceDevices sl) (ensurePool G poolMap sl driver pool node health)
      driver pool node health = (new, p)" by fastforce
  show ?case using Cons.IH [OF pools_agree_slice [OF Cons.prems(1) step]] Cons.prems(2) id step by simp
qed simp

lemma collectSlices_keys:
  "collectSlices G Q items poolMap devices = (poolMap', devices') \<Longrightarrow>
     gomap_keys poolMap' = gomap_keys poolMap \<union> slicePoolKey ` set items"
  by (induction items arbitrary: poolMap devices)
    (auto simp: sliceIdentity_def slicePoolKey_def split: prod.splits)

lemma collectSlices_deviceIDs:
  "collectSlices G Q items poolMap devices = (poolMap', devices') \<Longrightarrow>
     map mdID devices' = map mdID devices @ concat (map sliceDeviceIDs items)"
proof (induction items arbitrary: poolMap devices)
  case (Cons sl items)
  obtain new p where step: "mapSliceDevices G Q sl (sliceDevices sl)
      (ensurePool G poolMap sl (fst (sliceIdentity sl)) (fst (snd (sliceIdentity sl))) (fst (snd (snd (sliceIdentity sl)))) (snd (snd (snd (sliceIdentity sl)))))
      (fst (sliceIdentity sl)) (fst (snd (sliceIdentity sl))) (fst (snd (snd (sliceIdentity sl)))) (snd (snd (snd (sliceIdentity sl)))) = (new, p)"
    by fastforce
  have "map mdID new = sliceDeviceIDs sl"
    using arg_cong [OF step, of fst] unfolding mapSliceDevices_devices
    by (auto simp: sliceDeviceIDs_def sliceIdentity_def)
  then show ?case using Cons step by (auto split: prod.splits)
qed simp

lemma discoverSlices_Inr:
  assumes "discoverSlices G Q (Inr items) = (pools, devices, available, warnings)"
  shows "distinct (map poolKey pools)" and "poolKey ` set pools = slicePoolKey ` set items"
    and "\<And>p. p \<in> set pools \<Longrightarrow> dpDeviceCount p = int (length (filter (\<lambda>d. devicePoolKey d = poolKey p) devices))"
    and "map mdID devices = concat (map sliceDeviceIDs items)"
    and "\<And>d. d \<in> set devices \<Longrightarrow> devicePoolKey d \<in> poolKey ` set pools"
proof -
  obtain poolMap where run: "collectSlices G Q items [] [] = (poolMap, devices)" and pools: "pools = map snd poolMap"
    using assms by (auto simp: discoverSlices_def split: prod.splits)
  have agree: "pools_agree poolMap devices"
    using collectSlices_agree [OF _ run] by (simp add: pools_agree_def)
  then have wf: "gomap_wf poolMap" by (simp add: pools_agree_def)
  then have lookup: "map_of poolMap k = Some p \<longleftrightarrow> (k, p) \<in> set poolMap" for k p
    by (rule map_of_wf_iff)
  have key: "poolKey p = k" if "(k, p) \<in> set poolMap" for k p
    using agree that unfolding pools_agree_def lookup by blast
  have count: "int (length (filter (\<lambda>d. devicePoolKey d = k) devices)) =
      (case map_of poolMap k of None \<Rightarrow> 0 | Some p \<Rightarrow> dpDeviceCount p)" for k
    using agree unfolding pools_agree_def by blast
  from key have keys: "map poolKey pools = map fst poolMap" by (auto simp: pools)
  from wf keys show "distinct (map poolKey pools)" by (simp add: gomap_wf_def)
  have "poolKey ` set pools = gomap_keys poolMap"
    using arg_cong [OF keys, of set] by (simp add: gomap_keys_def)
  also have "\<dots> = slicePoolKey ` set items" using collectSlices_keys [OF run] by simp
  finally show *: "poolKey ` set pools = slicePoolKey ` set items" .
  show "dpDeviceCount p = int (length (filter (\<lambda>d. devicePoolKey d = poolKey p) devices))" if "p \<in> set pools" for p
  proof -
    from that obtain k where k: "(k, p) \<in> set poolMap" by (auto simp: pools)
    with key [OF k] have "(poolKey p, p) \<in> set poolMap" by simp
    then have "map_of poolMap (poolKey p) = Some p" by (simp add: lookup)
    with count [of "poolKey p"] show ?thesis by simp
  qed
  show "map mdID devices = concat (map sliceDeviceIDs items)" using collectSlices_deviceIDs [OF run] by simp
  show "devicePoolKey d \<in> poolKey ` set pools" if "d \<in> set devices" for d
  proof -
    from that have "filter (\<lambda>d'. devicePoolKey d' = devicePoolKey d) devices \<noteq> []" by (auto simp: filter_empty_conv)
    with count [of "devicePoolKey d"] obtain p where "map_of poolMap (devicePoolKey d) = Some p"
      by (cases "map_of poolMap (devicePoolKey d)") auto
    then have "(devicePoolKey d, p) \<in> set poolMap" by (simp add: lookup)
    from this key [OF this] show ?thesis by (force simp: pools)
  qed
qed

lemma map_sort_key: "map f (sort_key f xs) = sort (map f xs)"
  by (rule properties_for_sort [symmetric]) simp_all

lemma length_filter_sort_key: "length (filter P (sort_key f xs)) = length (filter P xs)"
  by (metis mset_filter mset_sort size_mset)


text \<open>
  What discovery reports when the slices can be listed: one pool for every driver, pool and node that
  occurs, in the order of the identities; every pool counts the devices that carry its identity; the devices
  are those of the slices, in the order of theirs.
\<close>

theorem DiscoverDRAWithStatus_pools:
  "let r = DiscoverDRAWithStatus G Q claimList (Inr items) podList in
     map poolKey (dvPools r) = sorted_list_of_set (slicePoolKey ` set items) \<and>
     map dpDeviceCount (dvPools r) =
       map (\<lambda>p. int (length (filter (\<lambda>d. devicePoolKey d = poolKey p) (dvDevices r)))) (dvPools r) \<and>
     map mdID (dvDevices r) = sort (concat (map sliceDeviceIDs items))"
proof -
  define r where "r = DiscoverDRAWithStatus G Q claimList (Inr items) podList"
  obtain pools devices available warnings where
    run: "discoverSlices G Q (Inr items) = (pools, devices, available, warnings)" by (metis prod.exhaust)
  have r: "dvPools r = sort_key poolKey pools" "dvDevices r = sort_key mdID devices"
    by (auto simp: r_def DiscoverDRAWithStatus_def run poolKey_def [abs_def] split: prod.split)
  note facts = discoverSlices_Inr [OF run]
  have "sorted_list_of_set (set (map poolKey pools)) = sort (map poolKey pools)"
    using facts(1) by (simp only: sorted_list_of_set_sort_remdups distinct_remdups_id)
  then have "map poolKey (dvPools r) = sorted_list_of_set (slicePoolKey ` set items)"
    using facts(2) by (simp add: r map_sort_key)
  moreover have "map mdID (dvDevices r) = sort (concat (map sliceDeviceIDs items))"
    using facts(4) by (simp add: r map_sort_key)
  moreover have "map dpDeviceCount (dvPools r) =
      map (\<lambda>p. int (length (filter (\<lambda>d. devicePoolKey d = poolKey p) (dvDevices r)))) (dvPools r)"
    using facts(3) by (simp add: r length_filter_sort_key)
  ultimately show ?thesis by (simp add: Let_def r_def)
qed

lemma DiscoverDRAWithStatus_device_pools:
  "d \<in> set (dvDevices (DiscoverDRAWithStatus G Q claimList sliceList podList)) \<Longrightarrow>
     devicePoolKey d \<in> poolKey ` set (dvPools (DiscoverDRAWithStatus G Q claimList sliceList podList))"
  by (cases sliceList)
    (auto simp: DiscoverDRAWithStatus_def discoverSlices_def [of G Q "Inl _"] dest: discoverSlices_Inr(5) split: prod.splits)

section \<open>Devices by identity\<close>

lemma collectSlices_ids:
  "collectSlices G Q items poolMap devices = (poolMap', devices') \<Longrightarrow>
     (\<And>d. d \<in> set devices \<Longrightarrow> mdID d = deviceIdentity (mdDriverName d) (mdPoolName d) (mdNodeName d) (mdName d)) \<Longrightarrow>
     d \<in> set devices' \<Longrightarrow> mdID d = deviceIdentity (mdDriverName d) (mdPoolName d) (mdNodeName d) (mdName d)"
proof (induction items arbitrary: poolMap devices)
  case (Cons sl items)
  obtain driver pool node health where id: "sliceIdentity sl = (driver, pool, node, health)" by (metis prod.exhaust)
  obtain new p where step: "mapSliceDevices G Q sl (sliceDevices sl) (ensurePool G poolMap sl driver pool node health)
      driver pool node health = (new, p)" by fastforce
  have "new = map (\<lambda>s. mapDevice G Q sl s driver pool node health) (sliceDevices sl)"
    using arg_cong [OF step, of fst] unfolding mapSliceDevices_devices by simp
  then have ids: "mdID d = deviceIdentity (mdDriverName d) (mdPoolName d) (mdNodeName d) (mdName d)" if "d \<in> set (devices @ new)" for d
    using that Cons.prems(2) by auto
  have "collectSlices G Q items (gomap_put (poolIdentity driver pool node) p poolMap) (devices @ new) = (poolMap', devices')"
    using Cons.prems(1) id step by simp
  from Cons.IH [OF this ids Cons.prems(3)] show ?case .
qed simp

text \<open>The devices discovery reports, in its order, are given by their identities.\<close>

lemma DiscoverDRAWithStatus_devices:
  fixes items :: "'q live_slice list" and G Q claimList podList
  defines "devices \<equiv> dvDevices (DiscoverDRAWithStatus G Q claimList (Inr items) podList)"
  shows "map mdID devices = sort (concat (map sliceDeviceIDs items))"
    and "d \<in> set devices \<Longrightarrow> mdID d = deviceIdentity (mdDriverName d) (mdPoolName d) (mdNodeName d) (mdName d)"
proof -
  obtain pools devices' available warnings where
    run: "discoverSlices G Q (Inr items) = (pools, devices', available, warnings)" by (metis prod.exhaust)
  have r: "devices = sort_key mdID devices'"
    by (auto simp: devices_def DiscoverDRAWithStatus_def run split: prod.split)
  show "map mdID devices = sort (concat (map sliceDeviceIDs items))"
    using discoverSlices_Inr(4) [OF run] by (simp add: r map_sort_key)
  show "d \<in> set devices \<Longrightarrow> mdID d = deviceIdentity (mdDriverName d) (mdPoolName d) (mdNodeName d) (mdName d)"
    using run by (auto simp: r discoverSlices_def split: prod.splits dest: collectSlices_ids)
qed

section \<open>Owners of claims\<close>

definition infoKey :: "ResourceClaimInfo \<Rightarrow> string" where
  "infoKey claim = claimKey (ciNamespace claim) (ciName claim)"

lemma claimIndexesFrom_miss:
  "key \<notin> infoKey ` set claims \<Longrightarrow> map_of (claimIndexesFrom i claims m) key = map_of m key"
  by (induction claims arbitrary: i m) (auto simp: infoKey_def)

lemma claimIndexesFrom_hit:
  "distinct (map infoKey claims) \<Longrightarrow> j < length claims \<Longrightarrow>
     map_of (claimIndexesFrom i claims m) (infoKey (claims ! j)) = Some (i + j)"
proof (induction claims arbitrary: i j m)
  case (Cons claim claims)
  show ?case
  proof (cases j)
    case 0
    with Cons.prems(1) show ?thesis by (simp add: claimIndexesFrom_miss) (simp add: infoKey_def)
  next
    case (Suc j')
    with Cons.prems Cons.IH [of j' "Suc i"] show ?thesis by simp
  qed
qed simp

text \<open>What the pods say, in the order the loops visit it: the key of a claim and the pod that names it.\<close>

definition podReferences :: "Pod list \<Rightarrow> (string \<times> string) list" where
  "podReferences pods =
     concat (map (\<lambda>pod. map (\<lambda>pc. (claimKey (podNamespace pod) (podClaimName pod pc), podName pod)) (podResourceClaims pod)) pods)"

definition withOwner :: "(string \<times> string) list \<Rightarrow> ResourceClaimInfo \<Rightarrow> ResourceClaimInfo" where
  "withOwner references claim =
     (case map_of (rev references) (infoKey claim) of None \<Rightarrow> claim | Some owner \<Rightarrow> claim\<lparr>ciOwnerPodName := owner\<rparr>)"

definition attachReference ::
  "(string, nat) gomap \<Rightarrow> string \<times> string \<Rightarrow> ResourceClaimInfo list \<Rightarrow> ResourceClaimInfo list" where
  "attachReference indexes reference claims =
     (case map_of indexes (fst reference) of
        None \<Rightarrow> claims | Some i \<Rightarrow> claims[i := (claims ! i)\<lparr>ciOwnerPodName := snd reference\<rparr>])"

lemma attachClaimOwners_references:
  "fold (\<lambda>pod. fold (attachOwner indexes pod) (podResourceClaims pod)) pods claims =
     fold (attachReference indexes) (podReferences pods) claims"
proof (induction pods arbitrary: claims)
  case (Cons pod pods)
  have "fold (attachOwner indexes pod) pcs claims =
      fold (attachReference indexes) (map (\<lambda>pc. (claimKey (podNamespace pod) (podClaimName pod pc), podName pod)) pcs) claims" for pcs
    by (induction pcs arbitrary: claims) (simp_all add: attachOwner_def attachReference_def cong: option.case_cong)
  with Cons.IH show ?case by (simp add: podReferences_def)
qed (simp add: podReferences_def)

lemma withOwner_snoc:
  "withOwner (refs @ [r]) claim =
     (if infoKey claim = fst r then claim\<lparr>ciOwnerPodName := snd r\<rparr> else withOwner refs claim)"
  by (cases r) (auto simp: withOwner_def)

lemma withOwner_key [simp]: "infoKey (withOwner refs claim) = infoKey claim"
  by (simp add: withOwner_def infoKey_def split: option.split)

lemma withOwner_overwrite: "(withOwner refs claim)\<lparr>ciOwnerPodName := x\<rparr> = claim\<lparr>ciOwnerPodName := x\<rparr>"
  by (simp add: withOwner_def split: option.split)

lemma fold_attachReference:
  assumes "distinct (map infoKey claims)"
  shows "fold (attachReference (claimIndexesFrom 0 claims [])) refs claims = map (withOwner refs) claims"
proof (induction refs rule: rev_induct)
  case Nil
  show ?case by (simp add: withOwner_def)
next
  case (snoc r refs)
  show ?case
  proof (cases "fst r \<in> infoKey ` set claims")
    case True
    then obtain j where j: "j < length claims" "infoKey (claims ! j) = fst r" by (auto simp: in_set_conv_nth)
    have other: "infoKey (claims ! i) = fst r \<longleftrightarrow> i = j" if "i < length claims" for i
      using assms j that by (metis distinct_conv_nth length_map nth_map)
    have "map_of (claimIndexesFrom 0 claims []) (fst r) = Some j"
      using claimIndexesFrom_hit [OF assms j(1), of 0] j(2) by simp
    then have "fold (attachReference (claimIndexesFrom 0 claims [])) (refs @ [r]) claims =
        (map (withOwner refs) claims)[j := (claims ! j)\<lparr>ciOwnerPodName := snd r\<rparr>]"
      using j by (simp add: snoc.IH attachReference_def [of _ r] withOwner_overwrite)
    also have "\<dots> = map (withOwner (refs @ [r])) claims"
      using j other by (intro nth_equalityI) (simp_all add: withOwner_snoc nth_list_update)
    finally show ?thesis .
  next
    case False
    then have "map_of (claimIndexesFrom 0 claims []) (fst r) = None" by (simp add: claimIndexesFrom_miss)
    moreover have "withOwner (refs @ [r]) claim = withOwner refs claim" if "claim \<in> set claims" for claim
      using False that by (simp add: withOwner_snoc) (metis imageI)
    ultimately show ?thesis by (simp add: snoc.IH attachReference_def [of _ r])
  qed
qed

text \<open>
  The owner of a claim is the last pod that names it, directly or through a template, and a claim no pod
  names keeps the owner it had; nothing else of a claim changes.
\<close>

theorem attachClaimOwners_exact:
  assumes "distinct (map infoKey claims)"
  shows "attachClaimOwners (Inr pods) claims = (map (withOwner (podReferences pods)) claims, True, [])"
  using fold_attachReference [OF assms] by (simp add: attachClaimOwners_def attachClaimOwners_references)

definition exampleInfo :: "string \<Rightarrow> ResourceClaimInfo" where
  "exampleInfo name =
     \<lparr>ciName = name, ciNamespace = ''team'', ciStatus = ''Pending'', ciRequests = [], ciAllocations = [],
      ciOwnerPodName = '''', ciCreatedAt = 0, ciDeviceClassName = '''', ciAllocatedDevice = '''',
      ciAllocatedNode = '''', ciAllocatedDriver = ''''\<rparr>"

definition examplePods :: "Pod list" where
  "examplePods =
     [\<lparr>podName = ''web'', podNamespace = ''team'',
       podResourceClaims = [\<lparr>prcName = ''gpu'', prcResourceClaimName = None, prcResourceClaimTemplateName = Some ''t''\<rparr>]\<rparr>,
      \<lparr>podName = ''job'', podNamespace = ''team'',
       podResourceClaims = [\<lparr>prcName = ''x'', prcResourceClaimName = Some ''shared'', prcResourceClaimTemplateName = None\<rparr>]\<rparr>]"

theorem attachClaimOwners_exact_witness:
  "map ciOwnerPodName (fst (attachClaimOwners (Inr examplePods) [exampleInfo ''web-gpu'', exampleInfo ''shared'', exampleInfo ''free'']))
     = [''web'', ''job'', '''']"
proof -
  have "distinct (map infoKey [exampleInfo ''web-gpu'', exampleInfo ''shared'', exampleInfo ''free''])" by code_simp
  note attachClaimOwners_exact [OF this, of examplePods]
  moreover have "map ciOwnerPodName (map (withOwner (podReferences examplePods))
      [exampleInfo ''web-gpu'', exampleInfo ''shared'', exampleInfo ''free'']) = [''web'', ''job'', '''']" by code_simp
  ultimately show ?thesis by simp
qed

section \<open>The type of a device\<close>

lemma mapAttributes_type:
  "snd (mapAttributes G attrs acc t) =
     (let typed = filter (\<lambda>(name, val). (equalFold G name ''type'' \<or> equalFold G name ''model'') \<and> stringValue val \<noteq> None) attrs
      in if typed = [] then t else toLower G (the (stringValue (snd (last typed)))))"
  by (induction attrs arbitrary: acc t) (auto simp: Let_def split: option.splits if_splits)

text \<open>
  A device with both a type and a model attribute has no type of its own: the last one the iteration of the map
  visits decides.
\<close>

definition asciiUnicode :: go_unicode where
  "asciiUnicode =
     (let lower = map (\<lambda>c. if 65 \<le> (of_char c :: nat) \<and> of_char c \<le> (90 :: nat) then char_of (of_char c + 32 :: nat) else c)
      in \<lparr>toLower = lower, equalFold = (\<lambda>a b. lower a = lower b)\<rparr>)"

definition stringAttribute :: "string \<Rightarrow> DeviceAttribute" where
  "stringAttribute v = \<lparr>intValue = None, boolValue = None, stringValue = Some v, versionValue = None,
     intValues = [], boolValues = [], stringValues = [], versionValues = []\<rparr>"

lemma mapDevice_type_order:
  assumes "devAttributes spec = [(''type'', stringAttribute ''gpu''), (''model'', stringAttribute ''a100'')]"
  shows "mdType (mapDevice asciiUnicode Q sl spec driver pool node health) = ''a100'' \<and>
         mdType (mapDevice asciiUnicode Q sl (spec\<lparr>devAttributes := rev (devAttributes spec)\<rparr>) driver pool node health) = ''gpu''"
proof -
  have "mdType (mapDevice G Q sl s driver pool node health) = snd (mapAttributes G (devAttributes s) [] ''unknown'')" for G s
    by (simp add: mapDevice_def split: prod.split)
  moreover have "snd (mapAttributes asciiUnicode
      [(''type'', stringAttribute ''gpu''), (''model'', stringAttribute ''a100'')] [] ''unknown'') = ''a100''"
    by code_simp
  moreover have "snd (mapAttributes asciiUnicode
      (rev [(''type'', stringAttribute ''gpu''), (''model'', stringAttribute ''a100'')]) [] ''unknown'') = ''gpu''"
    by code_simp
  ultimately show ?thesis using assms by simp
qed

end
