(* ===== verification/Graph.thy ===== *)
theory Graph
  imports Discovery
begin

text \<open>
  The resource graph, \<^verbatim>\<open>internal/graph/graph.go\<close>: the builder with its nodes, edges and the two maps that
  deduplicate them, the operations that add pools, devices, classes and claims, and \<^verbatim>\<open>BuildGraph\<close>. The maps
  \<^verbatim>\<open>namespaces\<close>, \<^verbatim>\<open>drivers\<close> and \<^verbatim>\<open>classSet\<close> are only ranged over for their keys; \<open>order\<close> is the order an
  iteration takes. The maps \<^verbatim>\<open>nodeIDs\<close> and \<^verbatim>\<open>edgeIDs\<close> are only asked for membership and are sets.
\<close>

section \<open>The builder\<close>

record GraphBuilder =
  gbNodes :: "GraphNode list"
  gbEdges :: "GraphEdge list"
  nodeIDs :: "string set"
  edgeIDs :: "string set"

definition classNodePrefix :: string where "classNodePrefix = ''class/''"

text \<open>\<^verbatim>\<open>reset\<close>, with which \<^verbatim>\<open>BuildGraph\<close> begins.\<close>

definition reset_builder :: GraphBuilder where
  "reset_builder = \<lparr>gbNodes = [], gbEdges = [], nodeIDs = {}, edgeIDs = {}\<rparr>"

definition edgeKey :: "string \<Rightarrow> string \<Rightarrow> string \<Rightarrow> string" where
  "edgeKey from to edgeType = from @ [CHR 0x00] @ to @ [CHR 0x00] @ edgeType"

definition graphID :: "string \<Rightarrow> string list \<Rightarrow> string" where
  "graphID kind parts = strings_Join (kind # map (\<lambda>part. decimal (length part) @ '':'' @ part) parts) ''/''"

definition poolGraphID :: "string \<Rightarrow> string \<Rightarrow> string \<Rightarrow> string" where
  "poolGraphID driver node pool = graphID ''pool'' [driver, node, pool]"

definition deviceGraphID :: "string \<Rightarrow> string \<Rightarrow> string \<Rightarrow> string \<Rightarrow> string" where
  "deviceGraphID driver node pool device = graphID ''device'' [driver, node, pool, device]"

definition missingDeviceGraphID :: "string \<Rightarrow> string \<Rightarrow> string \<Rightarrow> string \<Rightarrow> string" where
  "missingDeviceGraphID driver node pool device = graphID ''device'' [''missing'', driver, node, pool, device]"

definition allocationGraphID :: "string \<Rightarrow> string \<Rightarrow> nat \<Rightarrow> ClaimAllocation \<Rightarrow> string" where
  "allocationGraphID namespace claim index a =
     graphID ''allocation'' [namespace, claim, decimal index, caRequest a, caDriverName a, caNodeName a, caPoolName a, caDeviceName a]"

definition addNode ::
  "string \<Rightarrow> string \<Rightarrow> string \<Rightarrow> (string, meta_value) gomap option \<Rightarrow> GraphBuilder \<Rightarrow> GraphBuilder" where
  "addNode nodeID nodeType label meta gb =
     (if nodeID \<in> nodeIDs gb then gb
      else gb\<lparr>nodeIDs := insert nodeID (nodeIDs gb),
              gbNodes := gbNodes gb @ [\<lparr>gnID = nodeID, gnType = nodeType, gnLabel = label, gnMetadata = meta\<rparr>]\<rparr>)"

definition addEdge :: "string \<Rightarrow> string \<Rightarrow> string \<Rightarrow> GraphBuilder \<Rightarrow> GraphBuilder" where
  "addEdge from to edgeType gb =
     (if edgeKey from to edgeType \<in> edgeIDs gb then gb
      else gb\<lparr>edgeIDs := insert (edgeKey from to edgeType) (edgeIDs gb),
              gbEdges := gbEdges gb @ [\<lparr>geFrom = from, geTo = to, geType = edgeType\<rparr>]\<rparr>)"

section \<open>Namespaces, pools, devices and classes\<close>

definition matchesNamespace :: "ResourceClaimInfo \<Rightarrow> string \<Rightarrow> bool" where
  "matchesNamespace claim namespaceFilter \<longleftrightarrow> namespaceFilter = '''' \<or> ciNamespace claim = namespaceFilter"

definition matchesDriver :: "string \<Rightarrow> string \<Rightarrow> bool" where
  "matchesDriver driver driverFilter \<longleftrightarrow> driverFilter = '''' \<or> driver = driverFilter"

definition discoverClassSet :: "string + DeviceClass list \<Rightarrow> string list" where
  "discoverClassSet classList =
     (case classList of Inl _ \<Rightarrow> [] | Inr items \<Rightarrow> remdups (map className items))"

definition addNamespaces ::
  "(string list \<Rightarrow> string list) \<Rightarrow> ResourceClaimInfo list \<Rightarrow> string \<Rightarrow> GraphBuilder \<Rightarrow> GraphBuilder" where
  "addNamespaces order claims namespaceFilter =
     (let namespaces = remdups (map ciNamespace (filter (\<lambda>c. matchesNamespace c namespaceFilter) claims))
      in fold (\<lambda>namespace. addNode (''ns/'' @ namespace) ''Namespace'' namespace None) (order namespaces))"

definition addPool :: "DevicePool \<Rightarrow> GraphBuilder \<Rightarrow> GraphBuilder" where
  "addPool pool gb =
     (let poolID = poolGraphID (dpDriverName pool) (dpNodeName pool) (dpName pool);
          gb1 = addNode poolID ''ResourcePool'' (dpName pool)
                  (Some [(''driver'', MetaString (dpDriverName pool)), (''node'', MetaString (dpNodeName pool)),
                         (''synthetic'', MetaBool (dpIsSynthetic pool)), (''health'', MetaString (dpHealth pool))]) gb;
          gb2 = (if dpNodeName pool \<noteq> ''''
                 then addEdge poolID (''node/'' @ dpNodeName pool) ''located-on''
                        (addNode (''node/'' @ dpNodeName pool) ''Node'' (dpNodeName pool) None gb1)
                 else gb1)
      in addEdge poolID (''driver/'' @ dpDriverName pool) ''managed-by'' gb2)"

definition addPools ::
  "(string list \<Rightarrow> string list) \<Rightarrow> DevicePool list \<Rightarrow> string \<Rightarrow> GraphBuilder \<Rightarrow> GraphBuilder" where
  "addPools order pools driverFilter gb =
     (let kept = filter (\<lambda>p. matchesDriver (dpDriverName p) driverFilter) pools
      in fold (\<lambda>driver. addNode (''driver/'' @ driver) ''Driver'' driver None)
           (order (remdups (map dpDriverName kept))) (fold addPool kept gb))"

definition addDevice :: "'q model_device \<Rightarrow> GraphBuilder \<Rightarrow> GraphBuilder" where
  "addDevice device gb =
     (let deviceID = deviceGraphID (mdDriverName device) (mdNodeName device) (mdPoolName device) (mdName device);
          gb1 = addNode deviceID ''Device'' (mdName device)
                  (Some [(''driver'', MetaString (mdDriverName device)), (''pool'', MetaString (mdPoolName device)),
                         (''type'', MetaString (mdType device)), (''node'', MetaString (mdNodeName device)),
                         (''synthetic'', MetaBool (mdIsSynthetic device)), (''status'', MetaString (mdStatus device))]) gb;
          gb2 = (if mdPoolName device \<noteq> ''''
                 then addEdge deviceID (poolGraphID (mdDriverName device) (mdNodeName device) (mdPoolName device)) ''part-of-pool'' gb1
                 else gb1)
      in if mdNodeName device \<noteq> ''''
         then addEdge deviceID (''node/'' @ mdNodeName device) ''located-on''
                (addNode (''node/'' @ mdNodeName device) ''Node'' (mdNodeName device) None gb2)
         else gb2)"

definition addDevices :: "'q model_device list \<Rightarrow> string \<Rightarrow> GraphBuilder \<Rightarrow> GraphBuilder" where
  "addDevices devices driverFilter =
     fold addDevice (filter (\<lambda>d. matchesDriver (mdDriverName d) driverFilter) devices)"

definition addClasses :: "(string list \<Rightarrow> string list) \<Rightarrow> string list \<Rightarrow> GraphBuilder \<Rightarrow> GraphBuilder" where
  "addClasses order classSet =
     fold (\<lambda>name. addNode (classNodePrefix @ name) ''DeviceClass'' name (Some [(''status'', MetaString ''available'')]))
       (order classSet)"

section \<open>Claims\<close>

definition addClaimClasses :: "string \<Rightarrow> string list \<Rightarrow> string list \<Rightarrow> GraphBuilder \<Rightarrow> GraphBuilder" where
  "addClaimClasses claimID classNames classSet =
     fold (\<lambda>name gb.
       addEdge claimID (classNodePrefix @ name) ''uses-class''
         (if name \<notin> set classSet
          then addNode (classNodePrefix @ name) ''DeviceClass'' (name @ '' (MISSING)'') (Some [(''status'', MetaString ''missing'')]) gb
          else gb)) classNames"

definition deviceMatches :: "ClaimAllocation \<Rightarrow> 'q model_device \<Rightarrow> bool" where
  "deviceMatches a device \<longleftrightarrow>
     mdName device = caDeviceName a \<and> mdDriverName device = caDriverName a \<and>
     (caPoolName a = '''' \<or> mdPoolName device = caPoolName a) \<and>
     (caNodeName a = '''' \<or> mdNodeName device = caNodeName a)"

definition allocatedDeviceID :: "'q model_device list \<Rightarrow> ClaimAllocation \<Rightarrow> string option" where
  "allocatedDeviceID devices a =
     (case filter (deviceMatches a) devices of
        [device] \<Rightarrow> Some (deviceGraphID (mdDriverName device) (mdNodeName device) (mdPoolName device) (mdName device))
      | _ \<Rightarrow> None)"

definition addMissingAllocation :: "string \<Rightarrow> string \<Rightarrow> ClaimAllocation \<Rightarrow> GraphBuilder \<Rightarrow> GraphBuilder" where
  "addMissingAllocation claimID allocationID a gb =
     (let missingID = missingDeviceGraphID (caDriverName a) (caNodeName a) (caPoolName a) (caDeviceName a);
          gb1 = addNode missingID ''Device'' (caDeviceName a @ '' (MISSING)'')
                  (Some [(''status'', MetaString ''missing''), (''driver'', MetaString (caDriverName a)),
                         (''pool'', MetaString (caPoolName a)), (''node'', MetaString (caNodeName a))]) gb
      in addEdge claimID missingID ''allocates-missing'' (addEdge allocationID missingID ''resolves-to-missing'' gb1))"

definition addClaimAllocation ::
  "string \<Rightarrow> ResourceClaimInfo \<Rightarrow> 'q model_device list \<Rightarrow> nat \<times> ClaimAllocation \<Rightarrow> GraphBuilder \<Rightarrow> GraphBuilder" where
  "addClaimAllocation claimID claim devices indexed gb =
     (case indexed of (index, a) \<Rightarrow>
        let allocationID = allocationGraphID (ciNamespace claim) (ciName claim) index a;
            gb1 = addEdge claimID allocationID ''has-allocation''
                    (addNode allocationID ''Allocation'' (if caRequest a = '''' then caDeviceName a else caRequest a)
                      (Some [(''request'', MetaString (caRequest a)), (''driver'', MetaString (caDriverName a)),
                             (''pool'', MetaString (caPoolName a)), (''device'', MetaString (caDeviceName a)),
                             (''node'', MetaString (caNodeName a))]) gb)
        in case allocatedDeviceID devices a of
             Some deviceID \<Rightarrow> addEdge claimID deviceID ''allocates'' (addEdge allocationID deviceID ''resolves-to'' gb1)
           | None \<Rightarrow> addMissingAllocation claimID allocationID a gb1)"

definition addClaimAllocations ::
  "string \<Rightarrow> ResourceClaimInfo \<Rightarrow> 'q model_device list \<Rightarrow> string \<Rightarrow> GraphBuilder \<Rightarrow> GraphBuilder" where
  "addClaimAllocations claimID claim devices driverFilter =
     fold (addClaimAllocation claimID claim devices)
       (filter (\<lambda>(index, a). matchesDriver (caDriverName a) driverFilter)
         (enumerate 0 (EffectiveAllocations claim)))"

definition claimAllocationNodes :: "ResourceClaimInfo \<Rightarrow> string list" where
  "claimAllocationNodes claim = sort (remdups (filter (\<lambda>n. n \<noteq> '''') (map caNodeName (EffectiveAllocations claim))))"

definition addClaimOwner :: "string \<Rightarrow> ResourceClaimInfo \<Rightarrow> GraphBuilder \<Rightarrow> GraphBuilder" where
  "addClaimOwner claimID claim gb =
     (if ciOwnerPodName claim = '''' then gb
      else let podID = ''pod/'' @ ciNamespace claim @ ''/'' @ ciOwnerPodName claim;
               gb1 = addNode podID ''Pod'' (ciOwnerPodName claim) (Some [(''namespace'', MetaString (ciNamespace claim))]) gb;
               gb2 = addEdge podID (''ns/'' @ ciNamespace claim) ''belongs-to'' (addEdge podID claimID ''claims'' gb1)
           in fold (\<lambda>node gb. addEdge podID (''node/'' @ node) ''runs-on'' (addNode (''node/'' @ node) ''Node'' node None gb))
                (claimAllocationNodes claim) gb2)"

definition claimGraphID :: "ResourceClaimInfo \<Rightarrow> string" where
  "claimGraphID claim = ''claim/'' @ ciNamespace claim @ ''/'' @ ciName claim"

definition addClaim ::
  "'q model_device list \<Rightarrow> string list \<Rightarrow> string \<Rightarrow> ResourceClaimInfo \<Rightarrow> GraphBuilder \<Rightarrow> GraphBuilder" where
  "addClaim devices classSet driverFilter claim gb =
     (let claimID = claimGraphID claim;
          classNames = RequestedClassNames claim;
          gb1 = addNode claimID ''ResourceClaim'' (ciName claim)
                  (Some [(''namespace'', MetaString (ciNamespace claim)), (''status'', MetaString (ciStatus claim)),
                         (''classes'', MetaStrings classNames), (''requestCount'', MetaInt (int (length (ciRequests claim)))),
                         (''allocationCount'', MetaInt (int (length (ciAllocations claim)))),
                         (''requests'', MetaRequests (ciRequests claim)), (''allocations'', MetaAllocations (ciAllocations claim))]) gb;
          gb2 = addEdge claimID (''ns/'' @ ciNamespace claim) ''belongs-to'' gb1;
          gb3 = addClaimClasses claimID classNames classSet gb2;
          gb4 = addClaimAllocations claimID claim devices driverFilter gb3
      in addClaimOwner claimID claim gb4)"

definition addClaims ::
  "ResourceClaimInfo list \<Rightarrow> 'q model_device list \<Rightarrow> string list \<Rightarrow> string \<Rightarrow> string \<Rightarrow> GraphBuilder \<Rightarrow> GraphBuilder" where
  "addClaims claims devices classSet namespaceFilter driverFilter =
     fold (addClaim devices classSet driverFilter) (filter (\<lambda>c. matchesNamespace c namespaceFilter) claims)"

section \<open>The graph\<close>

definition sortGraph :: "GraphBuilder \<Rightarrow> GraphBuilder" where
  "sortGraph gb = gb\<lparr>gbNodes := sort_key gnID (gbNodes gb),
                     gbEdges := sort_key (\<lambda>e. [geFrom e, geTo e, geType e]) (gbEdges gb)\<rparr>"

definition buildFrom ::
  "(string list \<Rightarrow> string list) \<Rightarrow> DevicePool list \<Rightarrow> 'q model_device list \<Rightarrow> ResourceClaimInfo list \<Rightarrow> string list \<Rightarrow>
   string \<Rightarrow> string \<Rightarrow> GraphBuilder" where
  "buildFrom order pools devices claims classSet namespaceFilter driverFilter =
     addClaims claims devices classSet namespaceFilter driverFilter
       (addClasses order classSet
         (addDevices devices driverFilter
           (addPools order pools driverFilter
             (addNamespaces order claims namespaceFilter reset_builder))))"

definition BuildGraph ::
  "go_unicode \<Rightarrow> 'q quantity_api \<Rightarrow> (string list \<Rightarrow> string list) \<Rightarrow>
   string + 'q live_claim list \<Rightarrow> string + 'q live_slice list \<Rightarrow> string + Pod list \<Rightarrow> string + DeviceClass list \<Rightarrow>
   string \<Rightarrow> string \<Rightarrow> ResourceGraph" where
  "BuildGraph G Q order claimList sliceList podList classList namespaceFilter driverFilter =
     (let discovered = DiscoverDRAWithStatus G Q claimList sliceList podList;
          gb = sortGraph (buildFrom order (dvPools discovered) (dvDevices discovered) (dvClaims discovered)
                 (discoverClassSet classList) namespaceFilter driverFilter)
      in \<lparr>rgNodes = gbNodes gb, rgEdges = gbEdges gb\<rparr>)"

section \<open>Graphviz\<close>

text \<open>\<^verbatim>\<open>strings.ReplaceAll\<close> of a one-byte pattern.\<close>

definition replaceChar :: "char \<Rightarrow> string \<Rightarrow> string \<Rightarrow> string" where
  "replaceChar c new s = concat (map (\<lambda>x. if x = c then new else [x]) s)"

definition newline :: string where "newline = [CHR 0x0A]"
definition dquote :: string where "dquote = [CHR 0x22]"

definition dotColor :: "GraphNode \<Rightarrow> string" where
  "dotColor n =
     (if gnType n = ''Pod'' then ''lightgreen''
      else if gnType n = ''ResourceClaim'' then ''lightyellow''
      else if gnType n = ''Device''
           then (case gnMetadata n of
                   None \<Rightarrow> ''lightpink''
                 | Some meta \<Rightarrow> if map_of meta ''status'' = Some (MetaString ''missing'') then ''red'' else ''lightpink'')
      else if gnType n = ''Allocation'' then ''orange''
      else if gnType n = ''Driver'' then ''purple''
      else ''lightblue'')"

definition dotNode :: "GraphNode \<Rightarrow> string" where
  "dotNode n =
     ''  '' @ dquote @ gnID n @ dquote @ '' [label='' @ dquote @ replaceChar (CHR 0x22) ([CHR 0x5C] @ dquote) (gnLabel n) @
     [CHR 0x5C] @ ''n('' @ gnType n @ '')'' @ dquote @ '', fillcolor='' @ dotColor n @ ''];'' @ newline"

definition dotEdge :: "GraphEdge \<Rightarrow> string" where
  "dotEdge e =
     ''  '' @ dquote @ geFrom e @ dquote @ '' -> '' @ dquote @ geTo e @ dquote @ '' [label='' @ dquote @ geType e @ dquote @ ''];'' @ newline"

definition ToDOT :: "ResourceGraph \<Rightarrow> string" where
  "ToDOT g =
     ''digraph G {'' @ newline @ ''  rankdir=LR;'' @ newline @
     ''  node [shape=box, style=filled, color=lightblue];'' @ newline @ newline @
     concat (map dotNode (rgNodes g)) @ newline @ concat (map dotEdge (rgEdges g)) @ ''}'' @ newline"

end
