(* ===== verification/Graph_Guarantees.thy ===== *)
theory Graph_Guarantees
  imports Graph
begin

text \<open>
  What \<^verbatim>\<open>BuildGraph\<close> returns. Every operation of the builder is described by its footprint, the nodes and edges
  it offers; footprints compose with the rules for \<open>adds\<close>. The footprint of the whole run is the specification of the
  graph as two sets, and the run refines it.
\<close>

section \<open>Footprints\<close>

type_synonym node_fact = "string \<times> string"
type_synonym edge_fact = "string \<times> string \<times> string"

definition nodeFacts :: "GraphNode list \<Rightarrow> node_fact set" where
  "nodeFacts nodes = (\<lambda>n. (gnID n, gnType n)) ` set nodes"

definition edgeFacts :: "GraphEdge list \<Rightarrow> edge_fact set" where
  "edgeFacts edges = (\<lambda>e. (geFrom e, geTo e, geType e)) ` set edges"

definition factKey :: "edge_fact \<Rightarrow> string" where
  "factKey e = edgeKey (fst e) (fst (snd e)) (snd (snd e))"

definition builder_wf :: "GraphBuilder \<Rightarrow> bool" where
  "builder_wf gb \<longleftrightarrow>
     distinct (map gnID (gbNodes gb)) \<and> nodeIDs gb = gnID ` set (gbNodes gb) \<and>
     distinct (map (\<lambda>e. edgeKey (geFrom e) (geTo e) (geType e)) (gbEdges gb)) \<and>
     edgeIDs gb = (\<lambda>e. edgeKey (geFrom e) (geTo e) (geType e)) ` set (gbEdges gb)"

definition adds :: "(GraphBuilder \<Rightarrow> GraphBuilder) \<Rightarrow> node_fact set \<Rightarrow> edge_fact set \<Rightarrow> bool" where
  "adds f N E \<longleftrightarrow>
     (\<forall>gb. builder_wf gb \<longrightarrow> builder_wf (f gb) \<and>
        nodeIDs (f gb) = nodeIDs gb \<union> fst ` N \<and> nodeFacts (gbNodes (f gb)) \<subseteq> nodeFacts (gbNodes gb) \<union> N \<and>
        edgeIDs (f gb) = edgeIDs gb \<union> factKey ` E \<and> edgeFacts (gbEdges (f gb)) \<subseteq> edgeFacts (gbEdges gb) \<union> E)"

named_theorems adds_rules "footprints of the builder's operations"

lemma adds_id [adds_rules]: "adds (\<lambda>gb. gb) {} {}"
  by (simp add: adds_def)

lemma adds_addNode [adds_rules]: "adds (addNode i t l m) {(i, t)} {}"
  by (auto simp: adds_def addNode_def builder_wf_def nodeFacts_def)

lemma adds_addEdge [adds_rules]: "adds (addEdge a b t) {} {(a, b, t)}"
  by (auto simp: adds_def addEdge_def builder_wf_def edgeFacts_def factKey_def)

lemma addsD:
  assumes "adds f N E" and "builder_wf gb"
  shows "builder_wf (f gb)" and "nodeIDs (f gb) = nodeIDs gb \<union> fst ` N"
    and "nodeFacts (gbNodes (f gb)) \<subseteq> nodeFacts (gbNodes gb) \<union> N"
    and "edgeIDs (f gb) = edgeIDs gb \<union> factKey ` E" and "edgeFacts (gbEdges (f gb)) \<subseteq> edgeFacts (gbEdges gb) \<union> E"
  using assms unfolding adds_def by simp_all

lemma adds_comp:
  assumes f: "adds f N E" and g: "adds g N' E'"
  shows "adds (\<lambda>gb. g (f gb)) (N \<union> N') (E \<union> E')"
  unfolding adds_def
proof (intro allI impI conjI)
  fix gb
  assume wf: "builder_wf gb"
  note F = addsD [OF f wf]
  note G = addsD [OF g F(1)]
  show "builder_wf (g (f gb))" by (rule G)
  show "nodeIDs (g (f gb)) = nodeIDs gb \<union> fst ` (N \<union> N')" by (simp only: F G image_Un Un_assoc)
  show "edgeIDs (g (f gb)) = edgeIDs gb \<union> factKey ` (E \<union> E')" by (simp only: F G image_Un Un_assoc)
  show "nodeFacts (gbNodes (g (f gb))) \<subseteq> nodeFacts (gbNodes gb) \<union> (N \<union> N')" using F(3) G(3) by blast
  show "edgeFacts (gbEdges (g (f gb))) \<subseteq> edgeFacts (gbEdges gb) \<union> (E \<union> E')" using F(5) G(5) by blast
qed

lemma adds_if [adds_rules]:
  "(P \<Longrightarrow> adds f N E) \<Longrightarrow> (\<not> P \<Longrightarrow> adds g N' E') \<Longrightarrow>
     adds (\<lambda>gb. if P then f gb else g gb) (if P then N else N') (if P then E else E')"
  by simp

lemma adds_fold [adds_rules]:
  "(\<And>x. x \<in> set xs \<Longrightarrow> adds (f x) (N x) (E x)) \<Longrightarrow> adds (fold f xs) (\<Union>x \<in> set xs. N x) (\<Union>x \<in> set xs. E x)"
proof (induction xs)
  case (Cons x xs)
  then have "adds (\<lambda>gb. fold f xs (f x gb)) (N x \<union> (\<Union>x \<in> set xs. N x)) (E x \<union> (\<Union>x \<in> set xs. E x))"
    by (intro adds_comp) auto
  then show ?case by (simp add: comp_def)
qed (simp add: adds_id id_def)

lemma adds_weaken: "adds f N E \<Longrightarrow> N = N' \<Longrightarrow> E = E' \<Longrightarrow> adds f N' E'"
  by simp

lemma adds_addNode_after [adds_rules]:
  "adds f N E \<Longrightarrow> adds (\<lambda>gb. addNode i t l m (f gb)) (insert (i, t) N) E"
  using adds_comp [OF _ adds_addNode] by fastforce

lemma adds_addEdge_after [adds_rules]:
  "adds f N E \<Longrightarrow> adds (\<lambda>gb. addEdge a b t (f gb)) N (insert (a, b, t) E)"
  using adds_comp [OF _ adds_addEdge] by fastforce

section \<open>The specification\<close>

definition poolNodes :: "DevicePool \<Rightarrow> node_fact set" where
  "poolNodes p =
     {(poolGraphID (dpDriverName p) (dpNodeName p) (dpName p), ''ResourcePool''), (''driver/'' @ dpDriverName p, ''Driver'')} \<union>
     (if dpNodeName p = '''' then {} else {(''node/'' @ dpNodeName p, ''Node'')})"

definition poolEdges :: "DevicePool \<Rightarrow> edge_fact set" where
  "poolEdges p =
     (let poolID = poolGraphID (dpDriverName p) (dpNodeName p) (dpName p)
      in {(poolID, ''driver/'' @ dpDriverName p, ''managed-by'')} \<union>
         (if dpNodeName p = '''' then {} else {(poolID, ''node/'' @ dpNodeName p, ''located-on'')}))"

definition deviceNodes :: "'q model_device \<Rightarrow> node_fact set" where
  "deviceNodes d =
     {(deviceGraphID (mdDriverName d) (mdNodeName d) (mdPoolName d) (mdName d), ''Device'')} \<union>
     (if mdNodeName d = '''' then {} else {(''node/'' @ mdNodeName d, ''Node'')})"

definition deviceEdges :: "'q model_device \<Rightarrow> edge_fact set" where
  "deviceEdges d =
     (let deviceID = deviceGraphID (mdDriverName d) (mdNodeName d) (mdPoolName d) (mdName d)
      in (if mdPoolName d = '''' then {}
          else {(deviceID, poolGraphID (mdDriverName d) (mdNodeName d) (mdPoolName d), ''part-of-pool'')}) \<union>
         (if mdNodeName d = '''' then {} else {(deviceID, ''node/'' @ mdNodeName d, ''located-on'')}))"

definition missingID :: "ClaimAllocation \<Rightarrow> string" where
  "missingID a = missingDeviceGraphID (caDriverName a) (caNodeName a) (caPoolName a) (caDeviceName a)"

text \<open>
  The published devices an allocation may mean, as positions in the list of devices: those of its name and driver, in its pool and
  on its node where it gives them. The allocation is resolved when there is exactly one such position, so neither a device that is
  missing nor one that is published twice is linked.
\<close>

definition meantDevices :: "'q model_device list \<Rightarrow> ClaimAllocation \<Rightarrow> nat set" where
  "meantDevices devices a =
     {i. i < length devices \<and> mdName (devices ! i) = caDeviceName a \<and> mdDriverName (devices ! i) = caDriverName a \<and>
         caPoolName a \<in> {'''', mdPoolName (devices ! i)} \<and> caNodeName a \<in> {'''', mdNodeName (devices ! i)}}"

definition deviceID :: "'q model_device \<Rightarrow> string" where
  "deviceID d = deviceGraphID (mdDriverName d) (mdNodeName d) (mdPoolName d) (mdName d)"

definition allocationNodes ::
  "'q model_device list \<Rightarrow> ResourceClaimInfo \<Rightarrow> nat \<times> ClaimAllocation \<Rightarrow> node_fact set" where
  "allocationNodes devices c ia =
     {(allocationGraphID (ciNamespace c) (ciName c) (fst ia) (snd ia), ''Allocation'')} \<union>
     (if card (meantDevices devices (snd ia)) = 1 then {} else {(missingID (snd ia), ''Device'')})"

definition allocationEdges ::
  "'q model_device list \<Rightarrow> ResourceClaimInfo \<Rightarrow> nat \<times> ClaimAllocation \<Rightarrow> edge_fact set" where
  "allocationEdges devices c ia =
     (let allocationID = allocationGraphID (ciNamespace c) (ciName c) (fst ia) (snd ia)
      in {(claimGraphID c, allocationID, ''has-allocation'')} \<union>
         (if card (meantDevices devices (snd ia)) = 1
          then \<Union>i \<in> meantDevices devices (snd ia). {(allocationID, deviceID (devices ! i), ''resolves-to''),
                                                  (claimGraphID c, deviceID (devices ! i), ''allocates'')}
          else {(allocationID, missingID (snd ia), ''resolves-to-missing''),
                (claimGraphID c, missingID (snd ia), ''allocates-missing'')}))"

definition podGraphID :: "ResourceClaimInfo \<Rightarrow> string" where
  "podGraphID c = ''pod/'' @ ciNamespace c @ ''/'' @ ciOwnerPodName c"

definition ownerNodes :: "ResourceClaimInfo \<Rightarrow> node_fact set" where
  "ownerNodes c =
     (if ciOwnerPodName c = '''' then {}
      else insert (podGraphID c, ''Pod'') {(''node/'' @ node, ''Node'') | node. node \<in> set (claimAllocationNodes c)})"

definition ownerEdges :: "ResourceClaimInfo \<Rightarrow> edge_fact set" where
  "ownerEdges c =
     (if ciOwnerPodName c = '''' then {}
      else {(podGraphID c, claimGraphID c, ''claims''), (podGraphID c, ''ns/'' @ ciNamespace c, ''belongs-to'')} \<union>
           {(podGraphID c, ''node/'' @ node, ''runs-on'') | node. node \<in> set (claimAllocationNodes c)})"

text \<open>The allocations of a claim the driver filter keeps, with their positions.\<close>

definition shownAllocations :: "string \<Rightarrow> ResourceClaimInfo \<Rightarrow> (nat \<times> ClaimAllocation) set" where
  "shownAllocations driverFilter c =
     {ia \<in> set (enumerate 0 (EffectiveAllocations c)). matchesDriver (caDriverName (snd ia)) driverFilter}"

definition claimNodes :: "'q model_device list \<Rightarrow> string \<Rightarrow> ResourceClaimInfo \<Rightarrow> node_fact set" where
  "claimNodes devices driverFilter c =
     {(claimGraphID c, ''ResourceClaim''), (''ns/'' @ ciNamespace c, ''Namespace'')} \<union>
     {(''class/'' @ name, ''DeviceClass'') | name. name \<in> set (RequestedClassNames c)} \<union>
     (\<Union>ia \<in> shownAllocations driverFilter c. allocationNodes devices c ia) \<union> ownerNodes c"

definition claimEdges :: "'q model_device list \<Rightarrow> string \<Rightarrow> ResourceClaimInfo \<Rightarrow> edge_fact set" where
  "claimEdges devices driverFilter c =
     {(claimGraphID c, ''ns/'' @ ciNamespace c, ''belongs-to'')} \<union>
     {(claimGraphID c, ''class/'' @ name, ''uses-class'') | name. name \<in> set (RequestedClassNames c)} \<union>
     (\<Union>ia \<in> shownAllocations driverFilter c. allocationEdges devices c ia) \<union> ownerEdges c"

definition shownPools :: "string \<Rightarrow> DevicePool list \<Rightarrow> DevicePool set" where
  "shownPools driverFilter pools = {p \<in> set pools. matchesDriver (dpDriverName p) driverFilter}"

definition shownDevices :: "string \<Rightarrow> 'q model_device list \<Rightarrow> 'q model_device set" where
  "shownDevices driverFilter devices = {d \<in> set devices. matchesDriver (mdDriverName d) driverFilter}"

definition shownClaims :: "string \<Rightarrow> ResourceClaimInfo list \<Rightarrow> ResourceClaimInfo set" where
  "shownClaims namespaceFilter claims = {c \<in> set claims. matchesNamespace c namespaceFilter}"

definition graphNodes ::
  "DevicePool list \<Rightarrow> 'q model_device list \<Rightarrow> ResourceClaimInfo list \<Rightarrow> string list \<Rightarrow> string \<Rightarrow> string \<Rightarrow> node_fact set" where
  "graphNodes pools devices claims classSet namespaceFilter driverFilter =
     (\<Union>p \<in> shownPools driverFilter pools. poolNodes p) \<union>
     (\<Union>d \<in> shownDevices driverFilter devices. deviceNodes d) \<union>
     {(''class/'' @ name, ''DeviceClass'') | name. name \<in> set classSet} \<union>
     (\<Union>c \<in> shownClaims namespaceFilter claims. claimNodes devices driverFilter c)"

definition graphEdges ::
  "DevicePool list \<Rightarrow> 'q model_device list \<Rightarrow> ResourceClaimInfo list \<Rightarrow> string \<Rightarrow> string \<Rightarrow> edge_fact set" where
  "graphEdges pools devices claims namespaceFilter driverFilter =
     (\<Union>p \<in> shownPools driverFilter pools. poolEdges p) \<union>
     (\<Union>d \<in> shownDevices driverFilter devices. deviceEdges d) \<union>
     (\<Union>c \<in> shownClaims namespaceFilter claims. claimEdges devices driverFilter c)"

section \<open>Footprints of the operations\<close>

lemma meantDevices_matches: "meantDevices devices a = {i. i < length devices \<and> deviceMatches a (devices ! i)}"
  by (auto simp: meantDevices_def deviceMatches_def)

lemma filter_single:
  assumes "{i. i < length xs \<and> P (xs ! i)} = {i}"
  shows "filter P xs = [xs ! i]"
proof -
  have "length (filter P xs) = 1" using assms by (simp add: length_filter_conv_card)
  then obtain x where x: "filter P xs = [x]" by (metis One_nat_def length_0_conv length_Suc_conv)
  then have "x \<in> set (filter P xs)" by simp
  then have "x \<in> set xs" "P x" by simp_all
  then obtain j where "j < length xs" "xs ! j = x" by (metis in_set_conv_nth)
  with assms \<open>P x\<close> have "j = i" by blast
  with x \<open>xs ! j = x\<close> show ?thesis by simp
qed

lemma allocatedDeviceID_single:
  "meantDevices devices a = {i} \<Longrightarrow> allocatedDeviceID devices a = Some (deviceID (devices ! i))"
  using filter_single [of devices "deviceMatches a" i] by (simp add: allocatedDeviceID_def meantDevices_matches deviceID_def)

lemma allocatedDeviceID_ambiguous:
  "card (meantDevices devices a) \<noteq> 1 \<Longrightarrow> allocatedDeviceID devices a = None"
  unfolding meantDevices_matches length_filter_conv_card [symmetric] allocatedDeviceID_def by (auto split: list.split)

lemma adds_addNamespaces:
  assumes "\<And>xs. set (order xs) = set xs"
  shows "adds (addNamespaces order claims f) {(''ns/'' @ ciNamespace c, ''Namespace'') | c. c \<in> shownClaims f claims} {}"
  unfolding addNamespaces_def Let_def
  by (rule adds_weaken, (rule adds_rules)+) (auto simp: assms shownClaims_def)

lemma adds_addPool:
  "adds (addPool p) (poolNodes p - {(''driver/'' @ dpDriverName p, ''Driver'')}) (poolEdges p)"
  unfolding addPool_def [abs_def] Let_def
  by (rule adds_weaken, (rule adds_rules)+) (auto simp: poolNodes_def poolEdges_def Let_def poolGraphID_def graphID_def strings_Join_Cons)

lemma adds_addPools:
  assumes "\<And>xs. set (order xs) = set xs"
  shows "adds (addPools order pools f) (\<Union>p \<in> shownPools f pools. poolNodes p) (\<Union>p \<in> shownPools f pools. poolEdges p)"
proof -
  have "adds (\<lambda>gb. fold (\<lambda>driver. addNode (''driver/'' @ driver) ''Driver'' driver None)
           (order (remdups (map dpDriverName (filter (\<lambda>p. matchesDriver (dpDriverName p) f) pools))))
           (fold addPool (filter (\<lambda>p. matchesDriver (dpDriverName p) f) pools) gb))
      ((\<Union>p \<in> set (filter (\<lambda>p. matchesDriver (dpDriverName p) f) pools). poolNodes p - {(''driver/'' @ dpDriverName p, ''Driver'')}) \<union>
       (\<Union>d \<in> set (order (remdups (map dpDriverName (filter (\<lambda>p. matchesDriver (dpDriverName p) f) pools)))). {(''driver/'' @ d, ''Driver'')}))
      ((\<Union>p \<in> set (filter (\<lambda>p. matchesDriver (dpDriverName p) f) pools). poolEdges p) \<union> (\<Union>d \<in> set (order (remdups (map dpDriverName (filter (\<lambda>p. matchesDriver (dpDriverName p) f) pools)))). {}))"
    by (intro adds_comp adds_fold adds_addPool adds_addNode)
  then show ?thesis
    unfolding addPools_def [abs_def] Let_def
    by (rule adds_weaken) (auto simp: assms shownPools_def poolNodes_def)
qed

lemma adds_addDevice: "adds (addDevice d) (deviceNodes d) (deviceEdges d)"
  unfolding addDevice_def [abs_def] Let_def
  by (rule adds_weaken, (rule adds_rules)+) (auto simp: deviceNodes_def deviceEdges_def Let_def)

lemma adds_addDevices:
  "adds (addDevices devices f) (\<Union>d \<in> shownDevices f devices. deviceNodes d) (\<Union>d \<in> shownDevices f devices. deviceEdges d)"
  unfolding addDevices_def
  by (rule adds_weaken, rule adds_fold, rule adds_addDevice) (auto simp: shownDevices_def)

lemma adds_addClasses:
  assumes "\<And>xs. set (order xs) = set xs"
  shows "adds (addClasses order classSet) {(''class/'' @ name, ''DeviceClass'') | name. name \<in> set classSet} {}"
  unfolding addClasses_def classNodePrefix_def
  by (rule adds_weaken, (rule adds_rules)+) (auto simp: assms)

lemma adds_addClaimClasses:
  "adds (addClaimClasses claimID names classSet)
     {(''class/'' @ name, ''DeviceClass'') | name. name \<in> set names \<and> name \<notin> set classSet}
     {(claimID, ''class/'' @ name, ''uses-class'') | name. name \<in> set names}"
  unfolding addClaimClasses_def classNodePrefix_def
  by (rule adds_weaken, (rule adds_rules)+) (auto split: if_splits)

lemma adds_addMissingAllocation:
  "adds (addMissingAllocation claimID allocationID a) {(missingID a, ''Device'')}
     {(allocationID, missingID a, ''resolves-to-missing''), (claimID, missingID a, ''allocates-missing'')}"
  unfolding addMissingAllocation_def [abs_def] Let_def
  by (rule adds_weaken, (rule adds_rules)+) (auto simp: missingID_def)

lemma adds_addClaimAllocation:
  "adds (addClaimAllocation (claimGraphID c) c devices ia) (allocationNodes devices c ia) (allocationEdges devices c ia)"
proof (cases "card (meantDevices devices (snd ia)) = 1")
  case False
  from allocatedDeviceID_ambiguous [OF False] False show ?thesis
    unfolding addClaimAllocation_def [abs_def] Let_def case_prod_beta
    by (simp only: option.case)
      (rule adds_weaken, rule adds_comp [OF _ adds_addMissingAllocation], (rule adds_rules)+,
        auto simp: allocationNodes_def allocationEdges_def Let_def)
next
  case True
  then obtain i where i: "meantDevices devices (snd ia) = {i}" by (auto simp: card_1_singleton_iff)
  from allocatedDeviceID_single [OF i] i show ?thesis
    unfolding addClaimAllocation_def [abs_def] Let_def case_prod_beta
    by (simp only: option.case)
      (rule adds_weaken, (rule adds_rules)+, auto simp: allocationNodes_def allocationEdges_def Let_def)
qed

lemma adds_addClaimAllocations:
  "adds (addClaimAllocations (claimGraphID c) c devices f)
     (\<Union>ia \<in> shownAllocations f c. allocationNodes devices c ia) (\<Union>ia \<in> shownAllocations f c. allocationEdges devices c ia)"
  unfolding addClaimAllocations_def
  by (rule adds_weaken, rule adds_fold, rule adds_addClaimAllocation) (auto simp: shownAllocations_def case_prod_beta)

lemma adds_addClaimOwner: "adds (addClaimOwner (claimGraphID c) c) (ownerNodes c) (ownerEdges c)"
proof -
  have nodes: "adds (fold (\<lambda>node gb. addEdge (podGraphID c) (''node/'' @ node) ''runs-on'' (addNode (''node/'' @ node) ''Node'' node None gb))
        (claimAllocationNodes c))
      (\<Union>node \<in> set (claimAllocationNodes c). {(''node/'' @ node, ''Node'')})
      (\<Union>node \<in> set (claimAllocationNodes c). {(podGraphID c, ''node/'' @ node, ''runs-on'')})"
    by (rule adds_fold, rule adds_weaken, (rule adds_rules)+) auto
  have owned: "adds (\<lambda>gb. fold (\<lambda>node gb. addEdge (podGraphID c) (''node/'' @ node) ''runs-on'' (addNode (''node/'' @ node) ''Node'' node None gb))
        (claimAllocationNodes c) (addEdge (podGraphID c) (''ns/'' @ ciNamespace c) ''belongs-to'' (addEdge (podGraphID c) (claimGraphID c) ''claims''
          (addNode (podGraphID c) ''Pod'' (ciOwnerPodName c) (Some [(''namespace'', MetaString (ciNamespace c))]) gb))))
      ({(podGraphID c, ''Pod'')} \<union> (\<Union>node \<in> set (claimAllocationNodes c). {(''node/'' @ node, ''Node'')}))
      ({(podGraphID c, ''ns/'' @ ciNamespace c, ''belongs-to''), (podGraphID c, claimGraphID c, ''claims'')} \<union>
       (\<Union>node \<in> set (claimAllocationNodes c). {(podGraphID c, ''node/'' @ node, ''runs-on'')}))"
    by (rule adds_comp [OF _ nodes], (rule adds_rules)+)
  show ?thesis
  proof (cases "ciOwnerPodName c = ''''")
    case True
    then have "addClaimOwner (claimGraphID c) c = (\<lambda>gb. gb)" by (simp add: addClaimOwner_def fun_eq_iff)
    with True show ?thesis by (simp add: ownerNodes_def ownerEdges_def adds_id)
  next
    case False
    then have eq: "addClaimOwner (claimGraphID c) c =
        (\<lambda>gb. fold (\<lambda>node gb. addEdge (podGraphID c) (''node/'' @ node) ''runs-on'' (addNode (''node/'' @ node) ''Node'' node None gb))
          (claimAllocationNodes c) (addEdge (podGraphID c) (''ns/'' @ ciNamespace c) ''belongs-to'' (addEdge (podGraphID c) (claimGraphID c) ''claims''
            (addNode (podGraphID c) ''Pod'' (ciOwnerPodName c) (Some [(''namespace'', MetaString (ciNamespace c))]) gb))))"
      by (intro ext) (simp only: addClaimOwner_def podGraphID_def Let_def if_False)
    show ?thesis unfolding eq
      by (rule adds_weaken [OF owned], unfold ownerNodes_def ownerEdges_def if_not_P [OF False]) blast+
  qed
qed

lemma adds_addClaim:
  "adds (addClaim devices classSet f c)
     ({(claimGraphID c, ''ResourceClaim'')} \<union>
      {(''class/'' @ name, ''DeviceClass'') | name. name \<in> set (RequestedClassNames c) \<and> name \<notin> set classSet} \<union>
      (\<Union>ia \<in> shownAllocations f c. allocationNodes devices c ia) \<union> ownerNodes c)
     (claimEdges devices f c)"
  unfolding addClaim_def [abs_def] Let_def claimEdges_def
  by (rule adds_weaken, rule adds_comp [OF _ adds_addClaimOwner], rule adds_comp [OF _ adds_addClaimAllocations],
      rule adds_comp [OF _ adds_addClaimClasses], (rule adds_rules)+) simp_all

lemma adds_addClaims:
  "adds (addClaims claims devices classSet nf f)
     (\<Union>c \<in> shownClaims nf claims. {(claimGraphID c, ''ResourceClaim'')} \<union>
      {(''class/'' @ name, ''DeviceClass'') | name. name \<in> set (RequestedClassNames c) \<and> name \<notin> set classSet} \<union>
      (\<Union>ia \<in> shownAllocations f c. allocationNodes devices c ia) \<union> ownerNodes c)
     (\<Union>c \<in> shownClaims nf claims. claimEdges devices f c)"
  unfolding addClaims_def
  by (rule adds_weaken, rule adds_fold, rule adds_addClaim) (simp_all add: shownClaims_def)

lemma adds_buildFrom:
  assumes "\<And>xs. set (order xs) = set xs"
  shows "adds (\<lambda>gb. addClaims claims devices classSet nf f
           (addClasses order classSet (addDevices devices f (addPools order pools f (addNamespaces order claims nf gb)))))
         (graphNodes pools devices claims classSet nf f) (graphEdges pools devices claims nf f)"
  by (rule adds_weaken, rule adds_comp [OF _ adds_addClaims], rule adds_comp [OF _ adds_addClasses [OF assms]],
      rule adds_comp [OF _ adds_addDevices], rule adds_comp [OF _ adds_addPools [OF assms]], rule adds_addNamespaces [OF assms])
    (auto simp: graphNodes_def graphEdges_def claimNodes_def)

section \<open>Identifiers\<close>

lemma graphID_inject:
  assumes "CHR ''/'' \<notin> set kind" and "CHR ''/'' \<notin> set kind'" and "graphID kind ps = graphID kind' qs"
  shows "kind = kind' \<and> ps = qs"
  using assms stableIdentity_inject [of kind kind' ps qs] by (simp add: graphID_def stableIdentity_def)

lemma graphID_kind:
  "CHR ''/'' \<notin> set kind \<Longrightarrow> takeWhile (\<lambda>c. c \<noteq> CHR ''/'') (graphID kind (p # ps)) = kind"
  unfolding graphID_def strings_Join_Cons by (subst takeWhile_append2) auto

lemma edgeKey_inject:
  assumes "CHR 0x00 \<notin> set a" "CHR 0x00 \<notin> set a'" "CHR 0x00 \<notin> set t" "CHR 0x00 \<notin> set t'"
    and "edgeKey a b t = edgeKey a' b' t'"
  shows "a = a' \<and> b = b' \<and> t = t'"
proof -
  have a: "a = a' \<and> b @ CHR 0x00 # t = b' @ CHR 0x00 # t'"
    using assms(1,2,5) by (intro separated_append_inject) (simp_all add: edgeKey_def)
  then have "rev t @ CHR 0x00 # rev b = rev t' @ CHR 0x00 # rev b'" by (metis rev_append rev.simps(2) append_assoc append_Cons append_Nil)
  then have "rev t = rev t' \<and> rev b = rev b'" using assms(3,4) by (intro separated_append_inject [of "CHR 0x00"]) simp_all
  with a show ?thesis by simp
qed

text \<open>The kind of a node can be read off its identifier, so two adds of one identifier agree on the type.\<close>

definition typeOfID :: "string \<Rightarrow> string" where
  "typeOfID i =
     (let kind = takeWhile (\<lambda>c. c \<noteq> CHR ''/'') i
      in if kind = ''ns'' then ''Namespace'' else if kind = ''pool'' then ''ResourcePool'' else if kind = ''node'' then ''Node''
         else if kind = ''driver'' then ''Driver'' else if kind = ''device'' then ''Device'' else if kind = ''class'' then ''DeviceClass''
         else if kind = ''claim'' then ''ResourceClaim'' else if kind = ''allocation'' then ''Allocation'' else ''Pod'')"

lemma typeOfID_simps:
  "typeOfID (''ns/'' @ x) = ''Namespace''" "typeOfID (''node/'' @ x) = ''Node''" "typeOfID (''driver/'' @ x) = ''Driver''"
  "typeOfID (''class/'' @ x) = ''DeviceClass''" "typeOfID (''claim/'' @ x) = ''ResourceClaim''" "typeOfID (''pod/'' @ x) = ''Pod''"
  "typeOfID (poolGraphID a b c) = ''ResourcePool''" "typeOfID (deviceGraphID a b c d) = ''Device''"
  "typeOfID (missingDeviceGraphID a b c d) = ''Device''" "typeOfID (allocationGraphID e f k al) = ''Allocation''"
  by (simp_all add: typeOfID_def poolGraphID_def deviceGraphID_def missingDeviceGraphID_def allocationGraphID_def graphID_kind)

lemma graphNodes_typed: "(i, t) \<in> graphNodes pools devices claims classSet nf f \<Longrightarrow> t = typeOfID i"
  by (auto simp only: graphNodes_def poolNodes_def deviceNodes_def claimNodes_def allocationNodes_def ownerNodes_def missingID_def
      podGraphID_def claimGraphID_def typeOfID_simps Un_iff UN_iff insert_iff empty_iff mem_Collect_eq prod.inject not_ex not_Some_eq split: if_splits)

lemma graphEdges_types: "(a, b, t) \<in> graphEdges pools devices claims nf f \<Longrightarrow> CHR 0x00 \<notin> set t"
  by (auto simp: graphEdges_def poolEdges_def deviceEdges_def claimEdges_def allocationEdges_def ownerEdges_def Let_def
      split: if_splits option.splits)

section \<open>Edges connect nodes\<close>

lemma poolEdges_closed: "(a, b, t) \<in> poolEdges p \<Longrightarrow> a \<in> fst ` poolNodes p \<and> b \<in> fst ` poolNodes p"
  by (auto simp: poolEdges_def poolNodes_def Let_def image_iff split: if_splits)

lemma allocationEdges_closed:
  assumes "(a, b, t) \<in> allocationEdges devices c ia" and "ia \<in> shownAllocations f c"
  shows "a \<in> fst ` claimNodes devices f c \<and>
         (b \<in> fst ` claimNodes devices f c \<or> (\<exists>d \<in> shownDevices f devices. b \<in> fst ` deviceNodes d))"
proof -
  let ?id = "allocationGraphID (ciNamespace c) (ciName c) (fst ia) (snd ia)"
  have nodes: "allocationNodes devices c ia \<subseteq> claimNodes devices f c" using assms(2) by (auto simp: claimNodes_def)
  then have id: "?id \<in> fst ` claimNodes devices f c" by (force simp: allocationNodes_def)
  have claim: "claimGraphID c \<in> fst ` claimNodes devices f c" by (force simp: claimNodes_def)
  show ?thesis
  proof (cases "card (meantDevices devices (snd ia)) = 1")
    case False
    with nodes have "missingID (snd ia) \<in> fst ` claimNodes devices f c" by (force simp: allocationNodes_def)
    with assms(1) id claim False show ?thesis by (auto simp: allocationEdges_def Let_def)
  next
    case True
    have shown: "devices ! i \<in> shownDevices f devices" if "i \<in> meantDevices devices (snd ia)" for i
      using that assms(2) by (auto simp: meantDevices_def shownDevices_def shownAllocations_def)
    have node: "deviceID d \<in> fst ` deviceNodes d" for d by (force simp: deviceID_def deviceNodes_def)
    from True assms(1) consider "a = claimGraphID c" "b = ?id"
      | i where "i \<in> meantDevices devices (snd ia)" "a \<in> {?id, claimGraphID c}" "b = deviceID (devices ! i)"
      by (auto simp: allocationEdges_def Let_def)
    then show ?thesis using id claim node shown by cases blast+
  qed
qed

lemma ownerEdges_closed:
  "(a, b, t) \<in> ownerEdges c \<Longrightarrow> a \<in> fst ` claimNodes devices f c \<and> b \<in> fst ` claimNodes devices f c"
proof -
  assume e: "(a, b, t) \<in> ownerEdges c"
  have in_fst: "(x, y) \<in> claimNodes devices f c \<Longrightarrow> x \<in> fst ` claimNodes devices f c" for x y by force
  from e have owned: "ciOwnerPodName c \<noteq> ''''" by (auto simp: ownerEdges_def)
  have "a = podGraphID c \<and> (b = claimGraphID c \<or> b = ''ns/'' @ ciNamespace c \<or> (\<exists>n \<in> set (claimAllocationNodes c). b = ''node/'' @ n))"
    using e unfolding ownerEdges_def if_not_P [OF owned] by blast
  moreover have "(podGraphID c, ''Pod'') \<in> claimNodes devices f c" "(claimGraphID c, ''ResourceClaim'') \<in> claimNodes devices f c"
      "(''ns/'' @ ciNamespace c, ''Namespace'') \<in> claimNodes devices f c"
    by (simp_all only: claimNodes_def ownerNodes_def owned if_False Un_iff insert_iff simp_thms)
  moreover have "(''node/'' @ n, ''Node'') \<in> claimNodes devices f c" if "n \<in> set (claimAllocationNodes c)" for n
    using that unfolding claimNodes_def ownerNodes_def if_not_P [OF owned] by blast
  ultimately show ?thesis using in_fst by metis
qed

lemma claimEdges_closed:
  assumes "(a, b, t) \<in> claimEdges devices f c"
  shows "a \<in> fst ` claimNodes devices f c \<and>
         (b \<in> fst ` claimNodes devices f c \<or> (\<exists>d \<in> shownDevices f devices. b \<in> fst ` deviceNodes d))"
proof -
  consider "(a, b, t) \<in> {(claimGraphID c, ''ns/'' @ ciNamespace c, ''belongs-to'')} \<union>
       {(claimGraphID c, ''class/'' @ name, ''uses-class'') | name. name \<in> set (RequestedClassNames c)}"
    | ia where "ia \<in> shownAllocations f c" "(a, b, t) \<in> allocationEdges devices c ia"
    | "(a, b, t) \<in> ownerEdges c"
    using assms unfolding claimEdges_def by blast
  then show ?thesis
  proof cases
    case 1
    have in_fst: "(x, y) \<in> N \<Longrightarrow> x \<in> fst ` N" for x y :: string and N by force
    have "(claimGraphID c, ''ResourceClaim'') \<in> claimNodes devices f c" "(''ns/'' @ ciNamespace c, ''Namespace'') \<in> claimNodes devices f c"
      by (simp_all only: claimNodes_def Un_iff insert_iff simp_thms)
    moreover have "(''class/'' @ name, ''DeviceClass'') \<in> claimNodes devices f c" if "name \<in> set (RequestedClassNames c)" for name
      using that unfolding claimNodes_def by blast
    ultimately show ?thesis using 1 by (auto intro: in_fst simp del: append_Cons)
  next
    case 2
    then show ?thesis using allocationEdges_closed by blast
  next
    case 3
    then show ?thesis using ownerEdges_closed by blast
  qed
qed

lemma deviceEdges_closed:
  assumes "(a, b, t) \<in> deviceEdges d" and "d \<in> shownDevices f devices" and "devicePoolKey d \<in> poolKey ` set pools"
  shows "a \<in> fst ` deviceNodes d \<and> (b \<in> fst ` deviceNodes d \<or> (\<exists>p \<in> shownPools f pools. b \<in> fst ` poolNodes p))"
proof -
  from assms(3) obtain p where p: "p \<in> set pools" "dpDriverName p = mdDriverName d" "dpName p = mdPoolName d" "dpNodeName p = mdNodeName d"
    by (auto simp: devicePoolKey_def poolKey_def)
  then have "p \<in> shownPools f pools" using assms(2) by (simp add: shownPools_def shownDevices_def)
  moreover have "poolGraphID (mdDriverName d) (mdNodeName d) (mdPoolName d) \<in> fst ` poolNodes p"
    using p by (force simp: poolNodes_def)
  ultimately show ?thesis using assms(1) by (auto simp: deviceEdges_def deviceNodes_def Let_def image_iff split: if_splits)
qed

lemma graphEdges_closed:
  assumes "(a, b, t) \<in> graphEdges pools devices claims nf f"
    and "\<And>d. d \<in> set devices \<Longrightarrow> devicePoolKey d \<in> poolKey ` set pools"
  shows "a \<in> fst ` graphNodes pools devices claims classSet nf f \<and> b \<in> fst ` graphNodes pools devices claims classSet nf f"
proof -
  have sub: "p \<in> shownPools f pools \<Longrightarrow> fst ` poolNodes p \<subseteq> fst ` graphNodes pools devices claims classSet nf f"
      "d \<in> shownDevices f devices \<Longrightarrow> fst ` deviceNodes d \<subseteq> fst ` graphNodes pools devices claims classSet nf f"
      "c \<in> shownClaims nf claims \<Longrightarrow> fst ` claimNodes devices f c \<subseteq> fst ` graphNodes pools devices claims classSet nf f" for p d c
    by (rule image_mono, force simp: graphNodes_def)+
  consider p where "p \<in> shownPools f pools" "(a, b, t) \<in> poolEdges p"
    | d where "d \<in> shownDevices f devices" "(a, b, t) \<in> deviceEdges d"
    | c where "c \<in> shownClaims nf claims" "(a, b, t) \<in> claimEdges devices f c"
    using assms(1) unfolding graphEdges_def by blast
  then show ?thesis
  proof cases
    case 1
    then show ?thesis using poolEdges_closed sub(1) by blast
  next
    case 2
    then have "devicePoolKey d \<in> poolKey ` set pools" using assms(2) by (simp add: shownDevices_def)
    from deviceEdges_closed [OF 2(2,1) this] show ?thesis using sub(1,2) 2(1) by blast
  next
    case 3
    from claimEdges_closed [OF 3(2)] show ?thesis using sub(2,3) 3(1) by blast
  qed
qed

section \<open>The graph of a cluster\<close>

lemma builder_wf_reset: "builder_wf reset_builder"
  by (simp add: builder_wf_def reset_builder_def)

lemma buildFrom_facts:
  fixes devices :: "'q model_device list" and nf f :: string and pools claims classSet order
  assumes order: "\<And>xs. set (order xs) = set xs"
  defines "gb \<equiv> buildFrom order pools devices claims classSet nf f"
  shows "builder_wf gb" and "gnID ` set (gbNodes gb) = fst ` graphNodes pools devices claims classSet nf f"
    and "nodeFacts (gbNodes gb) = graphNodes pools devices claims classSet nf f"
    and "(\<lambda>e. edgeKey (geFrom e) (geTo e) (geType e)) ` set (gbEdges gb) = factKey ` graphEdges pools devices claims nf f"
    and "edgeFacts (gbEdges gb) \<subseteq> graphEdges pools devices claims nf f"
proof -
  note facts = addsD [OF adds_buildFrom [OF order] builder_wf_reset, of claims devices classSet nf f pools, folded buildFrom_def, folded gb_def]
  have empty: "nodeIDs reset_builder = {}" "edgeIDs reset_builder = {}" "gbNodes reset_builder = []" "gbEdges reset_builder = []"
    by (simp_all add: reset_builder_def)
  show wf: "builder_wf gb" by (rule facts)
  show ids: "gnID ` set (gbNodes gb) = fst ` graphNodes pools devices claims classSet nf f"
    using facts(2) wf by (simp add: empty builder_wf_def)
  show "(\<lambda>e. edgeKey (geFrom e) (geTo e) (geType e)) ` set (gbEdges gb) = factKey ` graphEdges pools devices claims nf f"
    using facts(4) wf by (simp add: empty builder_wf_def)
  show "edgeFacts (gbEdges gb) \<subseteq> graphEdges pools devices claims nf f" using facts(5) by (simp add: empty edgeFacts_def)
  have sub: "nodeFacts (gbNodes gb) \<subseteq> graphNodes pools devices claims classSet nf f" using facts(3) by (simp add: empty nodeFacts_def)
  moreover have "(i, t) \<in> nodeFacts (gbNodes gb)" if "(i, t) \<in> graphNodes pools devices claims classSet nf f" for i t
  proof -
    from that have "i \<in> gnID ` set (gbNodes gb)" using ids by force
    then obtain t' where t': "(i, t') \<in> nodeFacts (gbNodes gb)" by (auto simp: nodeFacts_def)
    with sub that graphNodes_typed show ?thesis by blast
  qed
  ultimately show "nodeFacts (gbNodes gb) = graphNodes pools devices claims classSet nf f" by auto
qed

lemma edgeFacts_exact:
  assumes keys: "(\<lambda>e. edgeKey (geFrom e) (geTo e) (geType e)) ` set edges = factKey ` E"
    and sub: "edgeFacts edges \<subseteq> E"
    and clean: "\<And>a b t. (a, b, t) \<in> E \<Longrightarrow> CHR 0x00 \<notin> set a \<and> CHR 0x00 \<notin> set t"
  shows "edgeFacts edges = E"
proof (intro equalityI subsetI)
  fix x
  assume x: "x \<in> E"
  then have "factKey x \<in> (\<lambda>e. edgeKey (geFrom e) (geTo e) (geType e)) ` set edges" using keys by blast
  then obtain e where e: "e \<in> set edges" "factKey x = edgeKey (geFrom e) (geTo e) (geType e)" by blast
  then have "(geFrom e, geTo e, geType e) \<in> edgeFacts edges" by (auto simp: edgeFacts_def)
  moreover obtain a b t where abt: "x = (a, b, t)" by (metis prod.exhaust)
  moreover have "a = geFrom e \<and> b = geTo e \<and> t = geType e"
    using e(2) abt clean [of a b t] clean [of "geFrom e" "geTo e" "geType e"] x calculation(1) sub
    by (intro edgeKey_inject) (auto simp: factKey_def)
  ultimately show "x \<in> edgeFacts edges" by simp
qed (use sub in blast)

lemma BuildGraph_build:
  "rgNodes (BuildGraph G Q order claimList sliceList podList classList nf f) =
     sort_key gnID (gbNodes (buildFrom order (dvPools (DiscoverDRAWithStatus G Q claimList sliceList podList))
       (dvDevices (DiscoverDRAWithStatus G Q claimList sliceList podList)) (dvClaims (DiscoverDRAWithStatus G Q claimList sliceList podList))
       (discoverClassSet classList) nf f))"
  "rgEdges (BuildGraph G Q order claimList sliceList podList classList nf f) =
     sort_key (\<lambda>e. [geFrom e, geTo e, geType e]) (gbEdges (buildFrom order (dvPools (DiscoverDRAWithStatus G Q claimList sliceList podList))
       (dvDevices (DiscoverDRAWithStatus G Q claimList sliceList podList)) (dvClaims (DiscoverDRAWithStatus G Q claimList sliceList podList))
       (discoverClassSet classList) nf f))"
  by (simp_all add: BuildGraph_def Let_def sortGraph_def)

text \<open>
  C27. The graph is exactly the one the specification describes: its nodes, with their types, are those of
  the pools, devices, classes, claims, allocations and owners the filters keep, and, as long as no identifier
  carries the byte that separates the parts of an edge key, its edges are exactly the relations between them;
  an allocation is linked to a device exactly when one published device, and no second one, has its name and driver
  and the pool and node it gives, and to a missing device otherwise.
\<close>

theorem BuildGraph_exact:
  assumes order: "\<And>xs. set (order xs) = set xs"
    and clean: "\<And>n. n \<in> set (rgNodes (BuildGraph G Q order claimList sliceList podList classList nf f)) \<Longrightarrow> CHR 0x00 \<notin> set (gnID n)"
  shows "let d = DiscoverDRAWithStatus G Q claimList sliceList podList;
             g = BuildGraph G Q order claimList sliceList podList classList nf f
         in nodeFacts (rgNodes g) = graphNodes (dvPools d) (dvDevices d) (dvClaims d) (discoverClassSet classList) nf f \<and>
            edgeFacts (rgEdges g) = graphEdges (dvPools d) (dvDevices d) (dvClaims d) nf f"
proof -
  define d where "d = DiscoverDRAWithStatus G Q claimList sliceList podList"
  define g where "g = BuildGraph G Q order claimList sliceList podList classList nf f"
  note facts = buildFrom_facts [OF order, where pools = "dvPools d" and devices = "dvDevices d" and claims = "dvClaims d"
      and classSet = "discoverClassSet classList" and nf = nf and f = f]
  have same: "set (rgNodes g) = set (gbNodes (buildFrom order (dvPools d) (dvDevices d) (dvClaims d) (discoverClassSet classList) nf f))"
    "set (rgEdges g) = set (gbEdges (buildFrom order (dvPools d) (dvDevices d) (dvClaims d) (discoverClassSet classList) nf f))"
    by (simp_all add: g_def BuildGraph_build flip: d_def)
  have "nodeFacts (rgNodes g) = graphNodes (dvPools d) (dvDevices d) (dvClaims d) (discoverClassSet classList) nf f"
    using facts(3) by (simp add: nodeFacts_def same)
  moreover have "edgeFacts (rgEdges g) = graphEdges (dvPools d) (dvDevices d) (dvClaims d) nf f"
  proof (rule edgeFacts_exact)
    show "(\<lambda>e. edgeKey (geFrom e) (geTo e) (geType e)) ` set (rgEdges g) = factKey ` graphEdges (dvPools d) (dvDevices d) (dvClaims d) nf f"
      unfolding same by (rule facts)
    show "edgeFacts (rgEdges g) \<subseteq> graphEdges (dvPools d) (dvDevices d) (dvClaims d) nf f"
      using facts(5) by (simp only: edgeFacts_def same)
    fix a b t
    assume e: "(a, b, t) \<in> graphEdges (dvPools d) (dvDevices d) (dvClaims d) nf f"
    then have "a \<in> fst ` graphNodes (dvPools d) (dvDevices d) (dvClaims d) (discoverClassSet classList) nf f"
      using graphEdges_closed DiscoverDRAWithStatus_device_pools unfolding d_def by blast
    then have "a \<in> gnID ` set (rgNodes g)" unfolding same facts(2) .
    with clean e show "CHR 0x00 \<notin> set a \<and> CHR 0x00 \<notin> set t" unfolding g_def using graphEdges_types by blast
  qed
  ultimately show ?thesis by (simp add: Let_def d_def g_def)
qed

text \<open>
  C28. The graph is closed and canonical: every edge starts and ends at a node of the graph, whatever the
  filters hide; no two nodes share an identifier; nodes and edges are strictly sorted.
\<close>

theorem BuildGraph_closed:
  assumes order: "\<And>xs. set (order xs) = set xs"
  shows "let g = BuildGraph G Q order claimList sliceList podList classList nf f
         in geFrom ` set (rgEdges g) \<union> geTo ` set (rgEdges g) \<subseteq> gnID ` set (rgNodes g) \<and>
            sorted_wrt (<) (map gnID (rgNodes g)) \<and> sorted_wrt (<) (map (\<lambda>e. [geFrom e, geTo e, geType e]) (rgEdges g))"
proof -
  define d where "d = DiscoverDRAWithStatus G Q claimList sliceList podList"
  define g where "g = BuildGraph G Q order claimList sliceList podList classList nf f"
  define gb where "gb = buildFrom order (dvPools d) (dvDevices d) (dvClaims d) (discoverClassSet classList) nf f"
  note facts = buildFrom_facts [OF order, of "dvPools d" "dvDevices d" "dvClaims d" "discoverClassSet classList" nf f, folded gb_def]
  have g: "rgNodes g = sort_key gnID (gbNodes gb)" "rgEdges g = sort_key (\<lambda>e. [geFrom e, geTo e, geType e]) (gbEdges gb)"
    by (simp_all add: g_def gb_def d_def BuildGraph_build)
  have "geFrom e \<in> gnID ` set (rgNodes g) \<and> geTo e \<in> gnID ` set (rgNodes g)" if "e \<in> set (rgEdges g)" for e
  proof -
    from that have "(geFrom e, geTo e, geType e) \<in> edgeFacts (gbEdges gb)" by (simp add: g edgeFacts_def)
    then have "(geFrom e, geTo e, geType e) \<in> graphEdges (dvPools d) (dvDevices d) (dvClaims d) nf f" using facts(5) by blast
    from graphEdges_closed [OF this] show ?thesis
      using DiscoverDRAWithStatus_device_pools facts(2) unfolding d_def g by fastforce
  qed
  moreover have "sorted_wrt (<) (map gnID (rgNodes g))"
    using facts(1) by (simp add: g map_sort_key strict_sorted_iff builder_wf_def)
  moreover have "sorted_wrt (<) (map (\<lambda>e. [geFrom e, geTo e, geType e]) (rgEdges g))"
  proof -
    have "distinct (map (\<lambda>e. [geFrom e, geTo e, geType e]) (gbEdges gb))"
      using facts(1) by (auto simp: builder_wf_def distinct_map inj_on_def)
    then show ?thesis by (simp add: g map_sort_key strict_sorted_iff)
  qed
  ultimately show ?thesis by (auto simp: Let_def g_def)
qed

section \<open>The order of iteration does not show\<close>

definition sameBuilder :: "GraphBuilder \<Rightarrow> GraphBuilder \<Rightarrow> bool" where
  "sameBuilder a b \<longleftrightarrow> mset (gbNodes a) = mset (gbNodes b) \<and> gbEdges a = gbEdges b \<and> nodeIDs a = nodeIDs b \<and> edgeIDs a = edgeIDs b"

definition orderless :: "(GraphBuilder \<Rightarrow> GraphBuilder) \<Rightarrow> bool" where
  "orderless f \<longleftrightarrow> (\<forall>a b. sameBuilder a b \<longrightarrow> sameBuilder (f a) (f b))"

named_theorems orderless_rules "operations that do not look at the order of the nodes"

lemma orderless_id [orderless_rules]: "orderless (\<lambda>gb. gb)"
  by (simp add: orderless_def)

lemma orderless_addNode [orderless_rules]: "orderless f \<Longrightarrow> orderless (\<lambda>gb. addNode i t l m (f gb))"
proof -
  have "sameBuilder a b \<Longrightarrow> sameBuilder (addNode i t l m a) (addNode i t l m b)" for a b
    by (simp add: addNode_def sameBuilder_def)
  then show "orderless f \<Longrightarrow> orderless (\<lambda>gb. addNode i t l m (f gb))" by (simp add: orderless_def)
qed

lemma orderless_addEdge [orderless_rules]: "orderless f \<Longrightarrow> orderless (\<lambda>gb. addEdge a b t (f gb))"
proof -
  have "sameBuilder x y \<Longrightarrow> sameBuilder (addEdge a b t x) (addEdge a b t y)" for x y
    by (simp add: addEdge_def sameBuilder_def)
  then show "orderless f \<Longrightarrow> orderless (\<lambda>gb. addEdge a b t (f gb))" by (simp add: orderless_def)
qed

lemma orderless_comp: "orderless g \<Longrightarrow> orderless f \<Longrightarrow> orderless (\<lambda>gb. g (f gb))"
  by (simp add: orderless_def)

lemma orderless_if [orderless_rules]: "orderless f \<Longrightarrow> orderless g \<Longrightarrow> orderless (\<lambda>gb. if P then f gb else g gb)"
  by (cases P) simp_all

lemma orderless_option [orderless_rules]:
  "orderless f \<Longrightarrow> (\<And>y. orderless (g y)) \<Longrightarrow> orderless (\<lambda>gb. case x of None \<Rightarrow> f gb | Some y \<Rightarrow> g y gb)"
  by (cases x) simp_all

lemma orderless_fold [orderless_rules]:
  assumes "\<And>x. orderless (f x)" and "orderless g"
  shows "orderless (\<lambda>gb. fold f xs (g gb))"
proof -
  have "orderless (fold f xs)"
    using assms(1) by (induction xs) (simp_all add: orderless_def)
  with assms(2) show ?thesis by (rule orderless_comp [rotated])
qed

lemma orderless_addDevices: "orderless (addDevices devices f)"
  unfolding addDevices_def addDevice_def [abs_def] Let_def
  by (rule orderless_fold [where g = "\<lambda>gb. gb"], (rule orderless_rules)+)

lemma orderless_addClaims: "orderless (addClaims claims devices classSet nf f)"
proof -
  have alloc: "orderless (addClaimAllocation claimID c devices ia)" for claimID c ia
    unfolding addClaimAllocation_def [abs_def] addMissingAllocation_def [abs_def] Let_def case_prod_beta
    by (rule orderless_rules)+
  have owner: "orderless (addClaimOwner claimID c)" for claimID c
    unfolding addClaimOwner_def [abs_def] Let_def by (rule orderless_rules)+
  have claim: "orderless (addClaim devices classSet f c)" for c
    unfolding addClaim_def [abs_def] Let_def addClaimClasses_def addClaimAllocations_def
    by (rule orderless_comp [OF owner] orderless_fold alloc orderless_rules)+
  show ?thesis unfolding addClaims_def by (rule orderless_fold [where g = "\<lambda>gb. gb"], rule claim, rule orderless_id)
qed

lemma fold_addNode:
  "distinct xs \<Longrightarrow>
     fold (\<lambda>x. addNode (kind @ x) t x m) xs gb =
       gb\<lparr>nodeIDs := nodeIDs gb \<union> (@) kind ` set xs,
          gbNodes := gbNodes gb @ map (\<lambda>x. \<lparr>gnID = kind @ x, gnType = t, gnLabel = x, gnMetadata = m\<rparr>)
            (filter (\<lambda>x. kind @ x \<notin> nodeIDs gb) xs)\<rparr>"
proof (induction xs arbitrary: gb)
  case (Cons x xs)
  then have "filter (\<lambda>y. kind @ y \<noteq> kind @ x \<and> kind @ y \<notin> nodeIDs gb) xs = filter (\<lambda>y. kind @ y \<notin> nodeIDs gb) xs"
    by (intro filter_cong) auto
  with Cons show ?case by (auto simp: addNode_def insert_absorb)
qed simp

lemma fold_addNode_order:
  assumes "distinct xs" and "mset ys = mset xs" and "sameBuilder a b"
  shows "sameBuilder (fold (\<lambda>x. addNode (kind @ x) t x m) xs a) (fold (\<lambda>x. addNode (kind @ x) t x m) ys b)"
proof -
  have "distinct ys" "set ys = set xs" using assms(1,2) by (metis mset_eq_imp_distinct_iff, metis set_mset_mset)
  moreover have "mset (map n (filter P xs)) = mset (map n (filter P ys))" for n :: "string \<Rightarrow> GraphNode" and P
    using assms(2) by (simp only: mset_map mset_filter)
  ultimately show ?thesis using assms by (simp add: fold_addNode sameBuilder_def)
qed

lemma sort_key_order:
  "mset xs = mset ys \<Longrightarrow> distinct (map k xs) \<Longrightarrow> sort_key k xs = sort_key k ys"
  by (rule sort_key_inj_key_eq) (simp_all add: distinct_map)

text \<open>
  The order in which Go ranges over the maps of namespaces, drivers and classes has no influence on the graph:
  any two iteration orders that visit every key once give the same nodes and edges in the same order.
\<close>

theorem BuildGraph_order:
  assumes "\<And>xs. mset (order xs) = mset xs" and "\<And>xs. mset (order' xs) = mset xs"
  shows "BuildGraph G Q order claimList sliceList podList classList nf f =
         BuildGraph G Q order' claimList sliceList podList classList nf f"
proof -
  have nodes: "sameBuilder a b \<Longrightarrow> distinct xs \<Longrightarrow>
      sameBuilder (fold (\<lambda>x. addNode (kind @ x) t x m) (order xs) a) (fold (\<lambda>x. addNode (kind @ x) t x m) (order' xs) b)"
    for a b xs kind t m
    using assms by (intro fold_addNode_order) (metis mset_eq_imp_distinct_iff)+
  have pools: "orderless (fold addPool ps)" for ps
    unfolding addPool_def [abs_def] Let_def
    by (rule orderless_fold [where g = "\<lambda>gb. gb"], (rule orderless_rules)+)
  have step: "orderless h \<Longrightarrow> sameBuilder a b \<Longrightarrow> sameBuilder (h a) (h b)" for h a b by (simp add: orderless_def)
  have same: "sameBuilder (buildFrom order pools devices claims classSet nf f) (buildFrom order' pools devices claims classSet nf f)"
    if "distinct classSet" for pools and devices :: "'a model_device list" and claims classSet
    unfolding buildFrom_def addNamespaces_def addPools_def addClasses_def Let_def
    by (intro step [OF orderless_addClaims] step [OF orderless_addDevices] step [OF pools] nodes that)
      (simp_all add: sameBuilder_def)
  define d where "d = DiscoverDRAWithStatus G Q claimList sliceList podList"
  define gb where "gb = (\<lambda>order. buildFrom order (dvPools d) (dvDevices d) (dvClaims d) (discoverClassSet classList) nf f)"
  have "distinct (discoverClassSet classList)" by (simp add: discoverClassSet_def split: sum.split)
  then have "sameBuilder (gb order) (gb order')" unfolding gb_def by (rule same)
  moreover have "builder_wf (gb order)"
    unfolding gb_def by (rule buildFrom_facts) (metis assms(1) set_mset_mset)
  ultimately show ?thesis
    by (simp add: BuildGraph_def Let_def sortGraph_def sameBuilder_def builder_wf_def sort_key_order flip: d_def gb_def)
      (metis gb_def sort_key_order)
qed

section \<open>An example\<close>

text \<open>A slice with one device, a claim that has it, and a pod that uses the claim.\<close>

definition graphDevice :: "rat Device" where
  "graphDevice = \<lparr>devName = ''g0'', devAttributes = [], devCapacity = [], consumesCounters = [], devNodeName = None,
     devNodeSelector = None, devAllNodes = None, taints = [], bindsToNode = None, bindingConditions = [],
     bindingFailureConditions = [], allowMultipleAllocations = None, nodeAllocatableResourceMappings = []\<rparr>"

definition graphSlice :: "rat live_slice" where
  "graphSlice = \<lparr>sliceName = ''s'', sliceLabels = [], sliceDriver = ''d'', poolName = ''p'', poolGeneration = 1,
     resourceSliceCount = 1, sliceNodeName = Some ''n'', sliceNodeSelector = None, sliceAllNodes = None,
     perDeviceNodeSelection = None, sharedCounters = [], sliceDevices = [graphDevice], sliceCreated = 0\<rparr>"

definition graphClaim :: "rat live_claim" where
  "graphClaim = \<lparr>claimName = ''c'', claimNamespace = ''t'', claimRequests = [], claimConstraints = [],
     claimAllocation = Some \<lparr>allocResults = [\<lparr>resRequest = ''r'', resDriver = ''d'', resPool = ''p'', resDevice = ''g0'',
         resShareID = None, resConsumedCapacity = None\<rparr>],
       allocNodeSelector = Some [\<lparr>matchFields = [\<lparr>req_key = ''metadata.name'', req_operator = ''In'', req_values = [''n'']\<rparr>],
         matchExpressions = []\<rparr>]\<rparr>,
     claimReservedFor = [], claimCreated = 0\<rparr>"

definition graphPod :: Pod where
  "graphPod = \<lparr>podName = ''w'', podNamespace = ''t'',
     podResourceClaims = [\<lparr>prcName = ''x'', prcResourceClaimName = Some ''c'', prcResourceClaimTemplateName = None\<rparr>]\<rparr>"

definition exampleGraph :: "(string list \<Rightarrow> string list) \<Rightarrow> ResourceGraph" where
  "exampleGraph order =
     BuildGraph asciiUnicode exact_quantity order (Inr [graphClaim]) (Inr [graphSlice]) (Inr [graphPod])
       (Inr [\<lparr>className = ''k'', classSelectors = []\<rparr>, \<lparr>className = ''j'', classSelectors = []\<rparr>]) '''' ''''"

lemma exampleGraph_ids:
  "map gnID (rgNodes (exampleGraph rev)) =
     [''allocation/1:t/1:c/1:0/1:r/1:d/1:n/1:p/2:g0'', ''claim/t/c'', ''class/j'', ''class/k'', ''device/1:d/1:n/1:p/2:g0'',
      ''driver/d'', ''node/n'', ''ns/t'', ''pod/t/w'', ''pool/1:d/1:n/1:p'']"
  by code_simp

theorem BuildGraph_exact_witness:
  "let d = DiscoverDRAWithStatus asciiUnicode exact_quantity (Inr [graphClaim]) (Inr [graphSlice]) (Inr [graphPod])
   in nodeFacts (rgNodes (exampleGraph rev)) = graphNodes (dvPools d) (dvDevices d) (dvClaims d) [''k'', ''j''] '''' '''' \<and>
      edgeFacts (rgEdges (exampleGraph rev)) = graphEdges (dvPools d) (dvDevices d) (dvClaims d) '''' ''''"
proof -
  have "CHR 0x00 \<notin> set (gnID n)" if "n \<in> set (rgNodes (exampleGraph rev))" for n
  proof -
    from that have "gnID n \<in> set (map gnID (rgNodes (exampleGraph rev)))" by simp
    then show ?thesis unfolding exampleGraph_ids by auto
  qed
  moreover have "discoverClassSet (Inr [\<lparr>className = ''k'', classSelectors = []\<rparr>, \<lparr>className = ''j'', classSelectors = []\<rparr>]) = [''k'', ''j'']"
    by code_simp
  ultimately show ?thesis
    using BuildGraph_exact [of rev asciiUnicode exact_quantity "Inr [graphClaim]" "Inr [graphSlice]" "Inr [graphPod]"
        "Inr [\<lparr>className = ''k'', classSelectors = []\<rparr>, \<lparr>className = ''j'', classSelectors = []\<rparr>]" "''''" "''''"]
    by (simp add: exampleGraph_def Let_def)
qed

theorem BuildGraph_closed_witness:
  "geFrom ` set (rgEdges (exampleGraph rev)) \<union> geTo ` set (rgEdges (exampleGraph rev)) \<subseteq>
     {''allocation/1:t/1:c/1:0/1:r/1:d/1:n/1:p/2:g0'', ''claim/t/c'', ''class/j'', ''class/k'', ''device/1:d/1:n/1:p/2:g0'',
      ''driver/d'', ''node/n'', ''ns/t'', ''pod/t/w'', ''pool/1:d/1:n/1:p''}"
proof -
  have "gnID ` set (rgNodes (exampleGraph rev)) = set (map gnID (rgNodes (exampleGraph rev)))" by simp
  then show ?thesis
    using BuildGraph_closed [of rev asciiUnicode exact_quantity "Inr [graphClaim]" "Inr [graphSlice]" "Inr [graphPod]"
        "Inr [\<lparr>className = ''k'', classSelectors = []\<rparr>, \<lparr>className = ''j'', classSelectors = []\<rparr>]" "''''" "''''", folded exampleGraph_def]
    unfolding exampleGraph_ids Let_def by simp
qed

theorem BuildGraph_order_witness: "exampleGraph rev = exampleGraph (\<lambda>xs. xs)"
  unfolding exampleGraph_def by (rule BuildGraph_order) simp_all

end
