(* ===== verification/CDI_Files.thy ===== *)
theory CDI_Files
  imports API_Monad
begin

text \<open>
  The file side of the synthetic node driver, \<^verbatim>\<open>cmd/draforge-sim-driver/driver.go\<close>: a file system with the
  calls of package \<^verbatim>\<open>os\<close> the driver makes, the atomic writer of the CDI document and the check of its directory.

  A path is a string and the file system a map from paths to files; a directory is only consulted where
  the code looks at it. Every call may fail: \<open>osFault\<close> gives the error of the \<open>k\<close>-th call, if it fails. A write
  that fails may have written a part. \<open>fsHistory\<close> records the file system after each call that changed it or
  succeeded, so a theorem about it is one about every moment another process could look.
\<close>

section \<open>Files\<close>

datatype file_kind = RegularFile | DirectoryFile | SymbolicLink bool | OtherFile

text \<open>The argument of \<open>SymbolicLink\<close> says whether the link leads to a directory.\<close>

record os_file =
  fileKind :: file_kind
  fileMode :: nat
  fileOwner :: int
  fileData :: string

text \<open>The modes in use, written in octal in the source.\<close>

definition mode0600 :: nat where "mode0600 = 384"
definition mode0644 :: nat where "mode0644 = 420"
definition mode0755 :: nat where "mode0755 = 493"

type_synonym files = "string \<rightharpoonup> os_file"

record filesystem =
  fsFiles :: files
  fsCalls :: nat
  fsHistory :: "files list"

record os_env =
  osFault :: "nat \<Rightarrow> api_error option"
  osShort :: "nat \<Rightarrow> nat"
  osRandom :: "nat \<Rightarrow> string"
  osEuid :: int
  osHasStat :: bool

definition syscall :: "os_env \<Rightarrow> (files \<Rightarrow> api_error + 'a \<times> files) \<Rightarrow> (filesystem, 'a) api" where
  "syscall E call s =
     (case osFault E (fsCalls s) of
        Some err \<Rightarrow> (Inl err, s\<lparr>fsCalls := Suc (fsCalls s)\<rparr>)
      | None \<Rightarrow>
          (case call (fsFiles s) of
             Inl err \<Rightarrow> (Inl err, s\<lparr>fsCalls := Suc (fsCalls s)\<rparr>)
           | Inr (x, files) \<Rightarrow>
               (Inr x, s\<lparr>fsCalls := Suc (fsCalls s), fsFiles := files, fsHistory := fsHistory s @ [files]\<rparr>)))"

text \<open>A call that touches no file: \<^verbatim>\<open>Sync\<close>, \<^verbatim>\<open>Close\<close>, \<^verbatim>\<open>os.Open\<close> of a directory.\<close>

definition os_Touchless :: "os_env \<Rightarrow> (filesystem, unit) api" where
  "os_Touchless E = syscall E (\<lambda>files. Inr ((), files))"

text \<open>\<^verbatim>\<open>os.CreateTemp\<close>: a new regular file with mode 0600; the star of the pattern becomes a random text.\<close>

definition os_CreateTemp :: "os_env \<Rightarrow> string \<Rightarrow> string \<Rightarrow> (filesystem, string) api" where
  "os_CreateTemp E dir stem s =
     (let name = dir @ ''/'' @ stem @ osRandom E (fsCalls s)
      in syscall E (\<lambda>files. if files name \<noteq> None then Inl (plainError ''file exists'')
                            else Inr (name, files(name \<mapsto> \<lparr>fileKind = RegularFile, fileMode = mode0600, fileOwner = osEuid E, fileData = ''''\<rparr>))) s)"

definition changeFile :: "string \<Rightarrow> (os_file \<Rightarrow> os_file) \<Rightarrow> files \<Rightarrow> api_error + unit \<times> files" where
  "changeFile path change files =
     (case files path of
        None \<Rightarrow> Inl (plainError ''no such file or directory'')
      | Some f \<Rightarrow> Inr ((), files(path \<mapsto> change f)))"

definition file_Write :: "os_env \<Rightarrow> string \<Rightarrow> string \<Rightarrow> (filesystem, unit) api" where
  "file_Write E path bytes s =
     (case osFault E (fsCalls s) of
        Some err \<Rightarrow>
          (case fsFiles s path of
             None \<Rightarrow> (Inl err, s\<lparr>fsCalls := Suc (fsCalls s)\<rparr>)
           | Some f \<Rightarrow>
               let files = (fsFiles s)(path \<mapsto> f\<lparr>fileData := fileData f @ take (osShort E (fsCalls s)) bytes\<rparr>)
               in (Inl err, s\<lparr>fsCalls := Suc (fsCalls s), fsFiles := files, fsHistory := fsHistory s @ [files]\<rparr>))
      | None \<Rightarrow> syscall E (changeFile path (\<lambda>f. f\<lparr>fileData := fileData f @ bytes\<rparr>)) s)"

definition file_Chmod :: "os_env \<Rightarrow> string \<Rightarrow> nat \<Rightarrow> (filesystem, unit) api" where
  "file_Chmod E path mode = syscall E (changeFile path (\<lambda>f. f\<lparr>fileMode := mode\<rparr>))"

definition os_Rename :: "os_env \<Rightarrow> string \<Rightarrow> string \<Rightarrow> (filesystem, unit) api" where
  "os_Rename E old new =
     syscall E (\<lambda>files. case files old of
        None \<Rightarrow> Inl (plainError ''no such file or directory'')
      | Some f \<Rightarrow> Inr ((), (files(old := None))(new \<mapsto> f)))"

definition os_Remove :: "os_env \<Rightarrow> string \<Rightarrow> (filesystem, unit) api" where
  "os_Remove E path =
     syscall E (\<lambda>files. case files path of
        None \<Rightarrow> Inl (plainError ''no such file or directory'')
      | Some _ \<Rightarrow> Inr ((), files(path := None)))"

text \<open>\<^verbatim>\<open>os.Stat\<close> and \<^verbatim>\<open>os.Lstat\<close> of a path that is no link.\<close>

definition os_Lstat :: "os_env \<Rightarrow> string \<Rightarrow> (filesystem, os_file) api" where
  "os_Lstat E path =
     syscall E (\<lambda>files. case files path of
        None \<Rightarrow> Inl (plainError ''no such file or directory'') | Some f \<Rightarrow> Inr (f, files))"

text \<open>A deferred call whose error is dropped.\<close>

definition api_defer :: "('s, 'a) api \<Rightarrow> ('s, unit) api \<Rightarrow> ('s, 'a) api" where
  "api_defer m d s = (case m s of (r, s') \<Rightarrow> (r, snd (d s')))"

text \<open>A deferred call whose error becomes the result when there is no error yet.\<close>

definition api_deferErr :: "('s, 'a) api \<Rightarrow> ('s, unit) api \<Rightarrow> ('s, 'a) api" where
  "api_deferErr m d s =
     (case m s of (r, s') \<Rightarrow>
        (case d s' of
           (Inl err, s'') \<Rightarrow> (case r of Inl err' \<Rightarrow> (Inl err', s'') | Inr _ \<Rightarrow> (Inl err, s''))
         | (Inr _, s'') \<Rightarrow> (r, s'')))"

text \<open>A call made only when there is an error, its own error dropped.\<close>

definition api_onError :: "('s, 'a) api \<Rightarrow> ('s, unit) api \<Rightarrow> ('s, 'a) api" where
  "api_onError m d s = (case m s of (Inl err, s') \<Rightarrow> (Inl err, snd (d s')) | (Inr x, s') \<Rightarrow> (Inr x, s'))"

definition api_ensure :: "bool \<Rightarrow> string \<Rightarrow> ('s, unit) api" where
  "api_ensure ok msg = (if ok then api_return () else api_fail (plainError msg))"

definition api_then :: "('s, unit) api \<Rightarrow> ('s, 'a) api \<Rightarrow> ('s, 'a) api" where
  "api_then m n = api_bind m (\<lambda>_. n)"

section \<open>The CDI document\<close>

definition cdiFileName :: string where "cdiFileName = ''draforge-sim-devices.json''"
definition cdiKind :: string where "cdiKind = ''draforge.oaslananka/sim''"

record CDIDevice =
  cdName :: string
  cdEnv :: "string list"

record CDISpec =
  cdiVersion :: string
  cdiSpecKind :: string
  cdiDevices :: "CDIDevice list"

text \<open>\<^verbatim>\<open>filepath.Dir\<close> of a clean path.\<close>

definition filepath_Dir :: "string \<Rightarrow> string" where
  "filepath_Dir path =
     (if CHR ''/'' \<notin> set path then ''.''
      else let dir = rev (tl (dropWhile (\<lambda>c. c \<noteq> CHR ''/'') (rev path))) in if dir = '''' then ''/'' else dir)"

fun octal :: "nat \<Rightarrow> string" where
  "octal n = (if n < 8 then [char_of (48 + n)] else octal (n div 8) @ [char_of (48 + n mod 8)])"

declare octal.simps [simp del]

definition validateGeneratedFile :: "os_env \<Rightarrow> string \<Rightarrow> (filesystem, unit) api" where
  "validateGeneratedFile E path =
     api_bind (api_wrap ''stat generated CDI document'' (os_Lstat E path)) (\<lambda>info.
     api_then (api_ensure (fileKind info = RegularFile) ''generated CDI document is not a regular file'')
     (api_then (api_ensure (fileMode info = mode0644)
        (''generated CDI document mode is '' @ octal (fileMode info) @ '', want 644''))
     (api_then (api_ensure (osHasStat E) ''generated CDI document ownership is unavailable'')
     (api_ensure (fileOwner info = osEuid E)
        (''generated CDI document owner uid is '' @ decimalInt (fileOwner info) @ '', want '' @ decimalInt (osEuid E))))))"

text \<open>
  \<^verbatim>\<open>atomicCDIWriter.Write\<close> with the functions of \<^verbatim>\<open>newAtomicCDIWriter\<close>. \<open>marshal\<close> is \<^verbatim>\<open>json.MarshalIndent\<close>.
  \<open>writeTemp\<close> is what happens up to the rename, \<open>syncDirectory\<close> what follows it; the closing of the temporary
  file and its removal are deferred.
\<close>

definition writeTemp :: "os_env \<Rightarrow> string \<Rightarrow> string \<Rightarrow> string \<Rightarrow> (filesystem, unit) api" where
  "writeTemp E path tempPath bytes =
     api_then (api_wrap ''write temporary CDI document'' (file_Write E tempPath bytes))
     (api_then (api_wrap ''fsync temporary CDI document'' (os_Touchless E))
     (api_then (api_wrap ''set temporary CDI permissions'' (file_Chmod E tempPath mode0644))
     (api_then (api_wrap ''fsync temporary CDI permissions'' (os_Touchless E))
     (api_then (api_wrap ''close temporary CDI document'' (os_Touchless E))
     (api_then (validateGeneratedFile E tempPath)
     (api_wrap ''atomically replace CDI document'' (os_Rename E tempPath path)))))))"

definition syncDirectory :: "os_env \<Rightarrow> (filesystem, unit) api" where
  "syncDirectory E =
     api_then (api_wrap ''open CDI directory for fsync'' (os_Touchless E))
       (api_deferErr (api_wrap ''fsync CDI directory'' (os_Touchless E)) (api_wrap ''close CDI directory'' (os_Touchless E)))"

definition cleanupTemp :: "os_env \<Rightarrow> string \<Rightarrow> (filesystem, unit) api" where
  "cleanupTemp E tempPath = api_then (api_bind (api_try (os_Touchless E)) (\<lambda>_. api_return ())) (os_Remove E tempPath)"

definition cdiWrite :: "os_env \<Rightarrow> (CDISpec \<Rightarrow> api_error + string) \<Rightarrow> string \<Rightarrow> CDISpec \<Rightarrow> (filesystem, unit) api" where
  "cdiWrite E marshal path spec =
     (case marshal spec of
        Inl err \<Rightarrow> api_fail (wrapError ''marshal CDI document'' err)
      | Inr json \<Rightarrow>
          api_bind (api_wrap ''create temporary CDI document'' (os_CreateTemp E (filepath_Dir path) ''.draforge-cdi-'')) (\<lambda>tempPath.
          api_defer (api_then (writeTemp E path tempPath (json @ [CHR 0x0A])) (syncDirectory E)) (cleanupTemp E tempPath)))"

section \<open>The directory\<close>

definition parentPaths :: "string \<Rightarrow> string list" where
  "parentPaths path = map (\<lambda>i. take i path) (filter (\<lambda>i. 0 < i \<and> path ! i = CHR ''/'') [0..<length path])"

text \<open>\<^verbatim>\<open>os.MkdirAll\<close>: every missing directory of the path is created; anything else in the way is an error.\<close>

fun makeDirectories :: "int \<Rightarrow> nat \<Rightarrow> string list \<Rightarrow> files \<Rightarrow> api_error + unit \<times> files" where
  "makeDirectories uid mode [] files = Inr ((), files)"
| "makeDirectories uid mode (p # ps) files =
     (case files p of
        None \<Rightarrow> makeDirectories uid mode ps
                  (files(p \<mapsto> \<lparr>fileKind = DirectoryFile, fileMode = mode, fileOwner = uid, fileData = ''''\<rparr>))
      | Some f \<Rightarrow> if fileKind f = DirectoryFile \<or> fileKind f = SymbolicLink True then makeDirectories uid mode ps files
                  else Inl (plainError ''not a directory''))"

definition os_MkdirAll :: "os_env \<Rightarrow> string \<Rightarrow> nat \<Rightarrow> (filesystem, unit) api" where
  "os_MkdirAll E path mode = syscall E (makeDirectories (osEuid E) mode (parentPaths path @ [path]))"

text \<open>The write probe.\<close>

definition probeDirectory :: "os_env \<Rightarrow> string \<Rightarrow> (filesystem, unit) api" where
  "probeDirectory E probePath =
     api_then (api_onError (api_wrap ''set CDI write probe permissions'' (file_Chmod E probePath mode0644)) (os_Touchless E))
     (api_then (api_onError (api_wrap ''fsync CDI write probe'' (os_Touchless E)) (os_Touchless E))
     (api_then (api_wrap ''close CDI write probe'' (os_Touchless E))
     (api_wrap ''validate CDI directory ownership and permissions'' (validateGeneratedFile E probePath))))"

definition prepareCDIDirectory :: "os_env \<Rightarrow> string \<Rightarrow> string \<Rightarrow> (filesystem, unit) api" where
  "prepareCDIDirectory E path mode =
     api_then (api_ensure (path \<noteq> '''' \<and> hd path = CHR ''/'') ''CDI directory must be an absolute path'')
     (api_then (api_wrap (''create '' @ mode @ '' CDI directory '' @ goQuote path) (os_MkdirAll E path mode0755))
     (api_bind (api_wrap (''stat CDI directory '' @ goQuote path) (os_Lstat E path)) (\<lambda>info.
      api_then (api_ensure (fileKind info \<noteq> SymbolicLink True \<and> fileKind info \<noteq> SymbolicLink False) (''CDI directory '' @ goQuote path @ '' must not be a symbolic link''))
      (api_then (api_ensure (fileKind info = DirectoryFile) (''CDI path '' @ goQuote path @ '' is not a directory''))
      (api_bind (api_wrap (''CDI directory '' @ goQuote path @ '' is not writable'') (os_CreateTemp E path ''.draforge-write-probe-'')) (\<lambda>probePath.
       api_defer (probeDirectory E probePath) (os_Remove E probePath)))))))"

section \<open>What every moment shows\<close>

lemma wpr_then [wpr_rules]: "wpr (api_then m n) Q R s \<longleftrightarrow> wpr m (\<lambda>_. wpr n Q R) R s"
  by (simp add: api_then_def wpr_bind)

lemma wpr_defer [wpr_rules]:
  "wpr (api_defer m d) Q R s \<longleftrightarrow> wpr m (\<lambda>x. wpr d (\<lambda>_. Q x) (\<lambda>_. Q x)) (\<lambda>err. wpr d (\<lambda>_. R err) (\<lambda>_. R err)) s"
  by (auto simp: wpr_def api_defer_def split: prod.splits sum.splits)

lemma wpr_deferErr [wpr_rules]:
  "wpr (api_deferErr m d) Q R s \<longleftrightarrow> wpr m (\<lambda>x. wpr d (\<lambda>_. Q x) R) (\<lambda>err. wpr d (\<lambda>_. R err) (\<lambda>_. R err)) s"
  by (auto simp: wpr_def api_deferErr_def split: prod.splits sum.splits)

lemma wpr_ensure [wpr_rules]: "wpr (api_ensure ok msg) Q R s \<longleftrightarrow> (if ok then Q () s else R (plainError msg) s)"
  by (simp add: api_ensure_def wpr_return wpr_fail)

text \<open>\<open>seen P now s0 s\<close>: since \<open>s0\<close> every file system another process could see satisfied \<open>P\<close>, and the present one is \<open>now\<close>.\<close>

definition seen :: "(files \<Rightarrow> bool) \<Rightarrow> (files \<Rightarrow> bool) \<Rightarrow> filesystem \<Rightarrow> filesystem \<Rightarrow> bool" where
  "seen P now s0 s \<longleftrightarrow> now (fsFiles s) \<and> (\<exists>ext. fsHistory s = fsHistory s0 @ ext \<and> list_all P ext)"

lemma seen_mono: "seen P now s0 s \<Longrightarrow> (\<And>files. now files \<Longrightarrow> now' files) \<Longrightarrow> seen P now' s0 s"
  by (auto simp: seen_def)

lemma wpr_syscall:
  assumes "seen P now s0 s"
    and "\<And>x files files'. now files \<Longrightarrow> call files = Inr (x, files') \<Longrightarrow> P files' \<and> now' x files'"
  shows "wpr (syscall E call) (\<lambda>x. seen P (now' x) s0) (\<lambda>_. seen P now s0) s"
  using assms(1) assms(2) [of "fsFiles s"]
  by (auto simp: wpr_def syscall_def seen_def split: option.splits sum.splits)

lemma wpr_os_Touchless:
  assumes "seen P now s0 s" and "\<And>files. now files \<Longrightarrow> P files"
  shows "wpr (os_Touchless E) (\<lambda>_. seen P now s0) (\<lambda>_. seen P now s0) s"
  unfolding os_Touchless_def by (rule wpr_syscall [OF assms(1)]) (use assms(2) in auto)

lemma wpr_file_Write:
  assumes "seen P (\<lambda>files. \<exists>f. files = F(path \<mapsto> f) \<and> A f) s0 s"
    and "\<And>f. P (F(path \<mapsto> f))"
  shows "wpr (file_Write E path bytes) (\<lambda>_. seen P (\<lambda>files. \<exists>f. files = F(path \<mapsto> f\<lparr>fileData := fileData f @ bytes\<rparr>) \<and> A f) s0)
     (\<lambda>_. seen P (\<lambda>files. \<exists>f. files = F(path \<mapsto> f)) s0) s"
  using assms
  by (fastforce simp: wpr_def file_Write_def syscall_def changeFile_def seen_def Let_def split: option.splits)

lemma wpr_file_Chmod:
  assumes "seen P (\<lambda>files. \<exists>f. files = F(path \<mapsto> f) \<and> A f) s0 s"
    and "\<And>f. P (F(path \<mapsto> f))"
  shows "wpr (file_Chmod E path mode) (\<lambda>_. seen P (\<lambda>files. \<exists>f. files = F(path \<mapsto> f\<lparr>fileMode := mode\<rparr>) \<and> A f) s0)
     (\<lambda>_. seen P (\<lambda>files. \<exists>f. files = F(path \<mapsto> f)) s0) s"
  unfolding file_Chmod_def
  by (rule wpr_mono, rule wpr_syscall [OF assms(1),
        where now' = "\<lambda>_ files. \<exists>f. files = F(path \<mapsto> f\<lparr>fileMode := mode\<rparr>) \<and> A f"])
    (use assms(2) in \<open>auto simp: changeFile_def elim!: seen_mono\<close>)

lemma wpr_then_seq:
  assumes "wpr m (\<lambda>_. Q') (\<lambda>_. R') s" and "\<And>s'. Q' s' \<Longrightarrow> wpr n Q R s'" and "\<And>err s'. R' s' \<Longrightarrow> R err s'"
  shows "wpr (api_then m n) Q R s"
  unfolding wpr_then using assms(1) by (rule wpr_mono) (use assms(2,3) in auto)

lemma wpr_wrap_const: "wpr m Q (\<lambda>_. R) s \<Longrightarrow> wpr (api_wrap what m) Q (\<lambda>_. R) s"
  by (simp add: wpr_wrap)

lemma wpr_validateGeneratedFile:
  assumes "seen P now s0 s" and "\<And>files. now files \<Longrightarrow> P files"
  shows "wpr (validateGeneratedFile E path) (\<lambda>_. seen P now s0) (\<lambda>_. seen P now s0) s"
proof -
  have "wpr (os_Lstat E path) (\<lambda>_. seen P now s0) (\<lambda>_. seen P now s0) s"
    unfolding os_Lstat_def by (rule wpr_syscall [OF assms(1)]) (use assms(2) in \<open>auto split: option.splits\<close>)
  then show ?thesis
    unfolding validateGeneratedFile_def wpr_bind wpr_wrap by (rule wpr_mono) (simp_all add: wpr_rules)
qed

lemma wpr_os_Rename:
  assumes "seen P (\<lambda>files. files = F(old \<mapsto> f)) s0 s" and "old \<noteq> new" and "F old = None" and "P (F(new \<mapsto> f))"
  shows "wpr (os_Rename E old new) (\<lambda>_. seen P (\<lambda>files. files = F(new \<mapsto> f)) s0) (\<lambda>_. seen P (\<lambda>files. files = F(old \<mapsto> f)) s0) s"
proof -
  have "F(old := None) = F" using assms(3) by (rule fun_upd_idem)
  then show ?thesis
    unfolding os_Rename_def by (intro wpr_syscall [OF assms(1)]) (use assms(2-4) in auto)
qed

lemma wpr_writeTemp:
  fixes F :: files and bytes :: string
  assumes start: "seen P (\<lambda>files. files = F(t \<mapsto> \<lparr>fileKind = RegularFile, fileMode = mode0600, fileOwner = osEuid E, fileData = ''''\<rparr>)) s0 s"
    and names: "t \<noteq> path" "F t = None"
    and P: "\<And>f. P (F(t \<mapsto> f))" "P (F(path \<mapsto> new))"
    and new: "new = \<lparr>fileKind = RegularFile, fileMode = mode0644, fileOwner = osEuid E, fileData = bytes\<rparr>"
  shows "wpr (writeTemp E path t bytes) (\<lambda>_. seen P (\<lambda>files. files = F(path \<mapsto> new)) s0)
     (\<lambda>_. seen P (\<lambda>files. \<exists>f. files = F(t \<mapsto> f)) s0) s"
proof -
  let ?now = "\<lambda>f files. files = F(t \<mapsto> f)"
  define f0 where "f0 = \<lparr>fileKind = RegularFile, fileMode = mode0600, fileOwner = osEuid E, fileData = ''''\<rparr>"
  define f1 where "f1 = f0\<lparr>fileData := bytes\<rparr>"
  have new': "new = f1\<lparr>fileMode := mode0644\<rparr>" by (simp add: new f1_def f0_def)
  have some: "seen P (?now f) s0 s \<Longrightarrow> seen P (\<lambda>files. \<exists>f. files = F(t \<mapsto> f)) s0 s" for f s by (erule seen_mono) blast
  have touch: "wpr (api_wrap what (os_Touchless E)) (\<lambda>_. seen P (?now f) s0) (\<lambda>_. seen P (\<lambda>files. \<exists>f. files = F(t \<mapsto> f)) s0) s"
    if "seen P (?now f) s0 s" for f s what
    by (rule wpr_wrap_const, rule wpr_mono [OF wpr_os_Touchless [OF that]]) (use P some in auto)
  have "wpr (file_Write E t bytes) (\<lambda>_. seen P (?now f1) s0) (\<lambda>_. seen P (\<lambda>files. \<exists>f. files = F(t \<mapsto> f)) s0) s"
    by (rule wpr_mono, rule wpr_file_Write [where A = "\<lambda>f. f = f0" and F = F and P = P and ?s0.0 = s0])
      (use start P(1) in \<open>auto simp: f1_def f0_def elim!: seen_mono\<close>)
  moreover have "wpr (file_Chmod E t mode0644) (\<lambda>_. seen P (?now new) s0) (\<lambda>_. seen P (\<lambda>files. \<exists>f. files = F(t \<mapsto> f)) s0) s'"
    if "seen P (?now f1) s0 s'" for s'
    by (rule wpr_mono, rule wpr_file_Chmod [where A = "\<lambda>f. f = f1" and F = F and P = P and ?s0.0 = s0])
      (use that P(1) in \<open>auto simp: new' elim!: seen_mono\<close>)
  moreover have "wpr (validateGeneratedFile E t) (\<lambda>_. seen P (?now new) s0) (\<lambda>_. seen P (\<lambda>files. \<exists>f. files = F(t \<mapsto> f)) s0) s'"
    if "seen P (?now new) s0 s'" for s'
    by (rule wpr_mono [OF wpr_validateGeneratedFile [OF that]]) (use P some in auto)
  moreover have "wpr (os_Rename E t path) (\<lambda>_. seen P (\<lambda>files. files = F(path \<mapsto> new)) s0) (\<lambda>_. seen P (\<lambda>files. \<exists>f. files = F(t \<mapsto> f)) s0) s'"
    if "seen P (?now new) s0 s'" for s'
    by (rule wpr_mono [OF wpr_os_Rename [OF that names P(2)]]) (use some in auto)
  ultimately show ?thesis unfolding writeTemp_def
    by (intro wpr_then_seq [where Q' = "seen P (?now f1) s0" and R' = "seen P (\<lambda>files. \<exists>f. files = F(t \<mapsto> f)) s0"]
        wpr_then_seq [where Q' = "seen P (?now new) s0" and R' = "seen P (\<lambda>files. \<exists>f. files = F(t \<mapsto> f)) s0"]
        wpr_wrap_const touch)
qed

lemma wpr_syncDirectory:
  assumes "seen P now s0 s" and "\<And>files. now files \<Longrightarrow> P files"
  shows "wpr (syncDirectory E) (\<lambda>_. seen P now s0) (\<lambda>_. seen P now s0) s"
proof -
  have touch: "seen P now s0 s \<Longrightarrow> wpr (os_Touchless E) (\<lambda>_. seen P now s0) (\<lambda>_. seen P now s0) s" for s
    by (erule wpr_os_Touchless) (rule assms(2))
  show ?thesis
    unfolding syncDirectory_def
    by (rule wpr_then_seq [OF wpr_wrap_const [OF touch [OF assms(1)]]])
      (auto simp: wpr_deferErr wpr_wrap intro!: wpr_mono [OF touch] touch)
qed

lemma wpr_cleanupTemp:
  assumes "seen P now s0 s" and "\<And>files. now files \<Longrightarrow> P files \<and> P (files(t := None)) \<and> now' files \<and> (files t \<noteq> None \<longrightarrow> now' (files(t := None)))"
  shows "wpr (cleanupTemp E t) (\<lambda>_. seen P now' s0) (\<lambda>_. seen P now' s0) s"
proof -
  have now': "seen P now s0 s' \<Longrightarrow> seen P now' s0 s'" for s' using assms(2) by (auto elim: seen_mono)
  have "wpr (os_Remove E t) (\<lambda>_. seen P now' s0) (\<lambda>_. seen P now' s0) s'" if "seen P now s0 s'" for s'
    unfolding os_Remove_def
    by (rule wpr_mono, rule wpr_syscall [OF that, where now' = "\<lambda>_. now'"])
      (use assms(2) now' in \<open>auto split: option.splits\<close>)
  moreover have "wpr (os_Touchless E) (\<lambda>_. seen P now s0) (\<lambda>_. seen P now s0) s"
    by (rule wpr_os_Touchless [OF assms(1)]) (use assms(2) in blast)
  ultimately show ?thesis
    unfolding cleanupTemp_def wpr_then wpr_bind wpr_try wpr_return by (auto intro: wpr_mono)
qed

lemma filepath_Dir_append: "CHR ''/'' \<notin> set name \<Longrightarrow> dir \<noteq> '''' \<Longrightarrow> filepath_Dir (dir @ ''/'' @ name) = dir"
proof -
  assume "CHR ''/'' \<notin> set name" and "dir \<noteq> ''''"
  moreover from this have "dropWhile (\<lambda>c. c \<noteq> CHR ''/'') (rev name @ CHR ''/'' # rev dir) = CHR ''/'' # rev dir"
    by (subst dropWhile_append2) auto
  ultimately show ?thesis by (simp add: filepath_Dir_def)
qed

text \<open>
  What a write of the document leaves: \<open>F\<close> with the complete document in its place, and while it is not done \<open>F\<close> or
  \<open>F\<close> with the temporary file.
\<close>

lemma wpr_cdiWrite:
  fixes dir bytes :: string and F :: files and E :: os_env
  defines "path \<equiv> dir @ ''/'' @ cdiFileName"
    and "new \<equiv> \<lparr>fileKind = RegularFile, fileMode = mode0644, fileOwner = osEuid E, fileData = bytes @ [CHR 0x0A]\<rparr>"
  assumes dir: "dir \<noteq> ''''" and marshal: "marshal spec = Inr bytes" and F: "fsFiles s = F"
    and P: "P = (\<lambda>files. files path = F path \<or> files path = Some new)"
  shows "wpr (cdiWrite E marshal path spec) (\<lambda>_. seen P (\<lambda>files. files = F(path \<mapsto> new)) s)
     (\<lambda>_. seen P (\<lambda>files. files = F \<or> files = F(path \<mapsto> new) \<or>
            (\<exists>t f. F t = None \<and> t \<noteq> path \<and> files = F(t \<mapsto> f))) s) s"
proof -
  let ?temp = "dir @ ''/'' @ ''.draforge-cdi-'' @ osRandom E (fsCalls s)"
  let ?f0 = "\<lparr>fileKind = RegularFile, fileMode = mode0600, fileOwner = osEuid E, fileData = ''''\<rparr>"
  have temp: "?temp \<noteq> path" by (simp add: path_def cdiFileName_def)
  have "filepath_Dir path = dir" unfolding path_def by (rule filepath_Dir_append) (simp_all add: dir cdiFileName_def)
  then have create: "wpr (os_CreateTemp E (filepath_Dir path) ''.draforge-cdi-'')
      (\<lambda>t s'. t = ?temp \<and> F ?temp = None \<and> seen P (\<lambda>files. files = F(?temp \<mapsto> ?f0)) s s') (\<lambda>_. seen P (\<lambda>files. files = F) s) s"
    using temp F P
    by (auto simp: wpr_def os_CreateTemp_def syscall_def seen_def Let_def split: option.splits)
  show ?thesis
    unfolding cdiWrite_def marshal sum.case wpr_bind wpr_wrap
  proof (rule wpr_mono [OF create])
    fix t s'
    assume t: "t = ?temp \<and> F ?temp = None \<and> seen P (\<lambda>files. files = F(?temp \<mapsto> ?f0)) s s'"
    let ?temps = "\<lambda>files. \<exists>f. files = F(t \<mapsto> f)"
    let ?replaced = "\<lambda>files. files = F(path \<mapsto> new)"
    let ?final = "\<lambda>files. files = F \<or> files = F(path \<mapsto> new) \<or> (\<exists>t f. F t = None \<and> t \<noteq> path \<and> files = F(t \<mapsto> f))"
    have P': "P (F(t \<mapsto> f))" "P (F(path \<mapsto> new))" "P F" for f using temp t by (auto simp: P)
    have clean_temps: "wpr (cleanupTemp E t) (\<lambda>_. seen P ?final s) (\<lambda>_. seen P ?final s) s2" if "seen P ?temps s s2" for s2
      by (rule wpr_cleanupTemp [OF that]) (use t temp P' in \<open>auto simp: fun_upd_idem\<close>)
    have clean_done: "wpr (cleanupTemp E t) (\<lambda>_. seen P ?replaced s) (\<lambda>_. seen P ?replaced s) s2" if "seen P ?replaced s s2" for s2
      by (rule wpr_cleanupTemp [OF that]) (use t temp P' in \<open>auto simp: fun_upd_idem\<close>)
    have body: "wpr (writeTemp E path t (bytes @ [CHR 0x0A])) (\<lambda>_. seen P ?replaced s) (\<lambda>_. seen P ?temps s) s'"
      by (rule wpr_writeTemp) (use t temp P' in \<open>auto simp: new_def\<close>)
    have "wpr (api_then (writeTemp E path t (bytes @ [CHR 0x0A])) (syncDirectory E))
        (\<lambda>_. seen P ?replaced s) (\<lambda>_ s2. seen P ?temps s s2 \<or> seen P ?replaced s s2) s'"
      by (rule wpr_then_seq [OF body]) (auto intro!: wpr_mono [OF wpr_syncDirectory] P')
    then show "wpr (api_defer (api_then (writeTemp E path t (bytes @ [CHR 0x0A])) (syncDirectory E)) (cleanupTemp E t))
        (\<lambda>_. seen P ?replaced s) (\<lambda>_. seen P ?final s) s'"
      unfolding wpr_defer
    proof (rule wpr_mono)
      fix s2 assume "seen P ?replaced s s2"
      then show "wpr (cleanupTemp E t) (\<lambda>_. seen P ?replaced s) (\<lambda>_. seen P ?replaced s) s2" by (rule clean_done)
    next
      fix s2 assume "seen P ?temps s s2 \<or> seen P ?replaced s s2"
      then show "wpr (cleanupTemp E t) (\<lambda>_. seen P ?final s) (\<lambda>_. seen P ?final s) s2"
      proof
        assume "seen P ?replaced s s2"
        from clean_done [OF this] show ?thesis by (rule wpr_mono) (auto elim: seen_mono)
      qed (rule clean_temps)
    qed
  qed (auto elim: seen_mono)
qed

text \<open>
  C17. The CDI document is replaced atomically. Whatever calls fail, and however much of the temporary file a
  failed write leaves, at every moment the path holds the old document or the complete new one, with its mode and
  owner; a write that reports success has installed the new one; and no other file that was there is touched.
\<close>

theorem cdiWrite_atomic:
  assumes "dir \<noteq> ''''" and "marshal spec = Inr bytes"
    and "cdiWrite E marshal (dir @ ''/'' @ cdiFileName) spec s = (res, s')"
  shows "let path = dir @ ''/'' @ cdiFileName;
             new = \<lparr>fileKind = RegularFile, fileMode = mode0644, fileOwner = osEuid E, fileData = bytes @ [CHR 0x0A]\<rparr>
         in (\<exists>moments. fsHistory s' = fsHistory s @ moments \<and>
               (\<forall>files \<in> set moments. files path = fsFiles s path \<or> files path = Some new)) \<and>
            (fsFiles s' path = fsFiles s path \<or> fsFiles s' path = Some new) \<and>
            (res = Inr () \<longrightarrow> fsFiles s' path = Some new) \<and>
            (\<forall>other f. other \<noteq> path \<longrightarrow> fsFiles s other = Some f \<longrightarrow> fsFiles s' other = Some f)"
  using wprD [OF wpr_cdiWrite [where marshal = marshal and spec = spec and bytes = bytes and dir = dir, OF assms(1,2) refl refl] assms(3)]
  by (cases res) (auto simp: Let_def seen_def list_all_iff)

text \<open>A write on a directory that holds the document, where the rename fails once.\<close>

definition exampleOs :: "(nat \<Rightarrow> api_error option) \<Rightarrow> os_env" where
  "exampleOs fault = \<lparr>osFault = fault, osShort = (\<lambda>_. 0), osRandom = (\<lambda>_. ''1''), osEuid = 0, osHasStat = True\<rparr>"

definition exampleFs :: filesystem where
  "exampleFs = \<lparr>fsFiles = [''/cdi/draforge-sim-devices.json'' \<mapsto>
       \<lparr>fileKind = RegularFile, fileMode = mode0644, fileOwner = 0, fileData = ''old''\<rparr>], fsCalls = 0, fsHistory = []\<rparr>"

definition emptySpec :: CDISpec where
  "emptySpec = \<lparr>cdiVersion = ''0.5.0'', cdiSpecKind = cdiKind, cdiDevices = []\<rparr>"

lemmas cdi_call_defs =
  cdiWrite_def writeTemp_def syncDirectory_def cleanupTemp_def validateGeneratedFile_def os_CreateTemp_def
  file_Write_def file_Chmod_def os_Rename_def os_Remove_def os_Lstat_def os_Touchless_def syscall_def changeFile_def
  api_then_def api_bind_def api_wrap_def api_try_def api_return_def api_fail_def api_defer_def api_deferErr_def api_ensure_def Let_def

lemma example_write:
  "fst (cdiWrite (exampleOs (\<lambda>_. None)) (\<lambda>_. Inr ''{}'') (''/cdi'' @ ''/'' @ cdiFileName) spec exampleFs) = Inr ()"
proof -
  have dir: "filepath_Dir (''/cdi'' @ ''/'' @ cdiFileName) = ''/cdi''"
    by (rule filepath_Dir_append) (simp_all add: cdiFileName_def)
  show ?thesis
    unfolding cdi_call_defs dir
    by (simp add: exampleOs_def exampleFs_def cdiFileName_def wrapError_def)
qed

theorem cdiWrite_atomic_witness:
  "\<exists>s'. cdiWrite (exampleOs (\<lambda>_. None)) (\<lambda>_. Inr ''{}'') (''/cdi'' @ ''/'' @ cdiFileName) emptySpec exampleFs = (Inr (), s') \<and>
     fsFiles s' (''/cdi'' @ ''/'' @ cdiFileName) =
       Some \<lparr>fileKind = RegularFile, fileMode = mode0644, fileOwner = 0, fileData = ''{}'' @ [CHR 0x0A]\<rparr>"
proof -
  obtain s' where run: "cdiWrite (exampleOs (\<lambda>_. None)) (\<lambda>_. Inr ''{}'') (''/cdi'' @ ''/'' @ cdiFileName) emptySpec exampleFs = (Inr (), s')"
    using example_write [of emptySpec] by (metis prod.collapse)
  then show ?thesis
    using cdiWrite_atomic [OF _ _ run] by (simp add: exampleOs_def Let_def)
qed

end
