(* ===== verification/CDI_Driver.thy ===== *)
theory CDI_Driver
  imports CDI_Files Discovery
begin

text \<open>
  The synthetic node driver, \<^verbatim>\<open>cmd/draforge-sim-driver/driver.go\<close> and \<^verbatim>\<open>main.go\<close>: which devices of the claims a node
  shows in its CDI document and under which names, the refresh with its readiness status, and the loop around it.
  \<^verbatim>\<open>sha256\<close> with \<^verbatim>\<open>hex.EncodeToString\<close> is the parameter \<open>sha256hex\<close>. The parsing of flags is left to package
  \<^verbatim>\<open>flag\<close>: the options begin as their parsed values.
\<close>

section \<open>Options and status\<close>

datatype outputMode = OutputDemo | OutputNode

definition outputModeName :: "outputMode \<Rightarrow> string" where
  "outputModeName mode = (case mode of OutputDemo \<Rightarrow> ''demo'' | OutputNode \<Rightarrow> ''node'')"

definition parseOutputMode :: "string \<Rightarrow> api_error + outputMode" where
  "parseOutputMode val =
     (if val = ''demo'' then Inr OutputDemo
      else if val = ''node'' then Inr OutputNode
      else Inl (plainError (''output mode must be '' @ goQuote ''demo'' @ '' or '' @ goQuote ''node'')))"

record simDriverOptions =
  optCDIDir :: string
  optKubeconfig :: string
  optOutputMode :: outputMode
  optHealthAddr :: string
  optRefreshInterval :: int
  optNodeName :: string

definition resolveNodeName :: "(string \<Rightarrow> string) \<Rightarrow> api_error + string \<Rightarrow> string" where
  "resolveNodeName getenv hostname =
     (if getenv ''NODE_NAME'' \<noteq> '''' then getenv ''NODE_NAME''
      else case hostname of Inr resolved \<Rightarrow> if resolved \<noteq> '''' then resolved else ''node-0'' | Inl _ \<Rightarrow> ''node-0'')"

text \<open>\<^verbatim>\<open>parseSimDriverOptions\<close> after \<^verbatim>\<open>fs.Parse\<close>: \<open>parsed\<close> has the flags' values, \<open>modeValue\<close> that of the mode.\<close>

definition parseSimDriverOptions ::
  "simDriverOptions \<Rightarrow> string \<Rightarrow> (string \<Rightarrow> string) \<Rightarrow> api_error + string \<Rightarrow> api_error + simDriverOptions" where
  "parseSimDriverOptions parsed modeValue getenv hostname =
     (case parseOutputMode modeValue of
        Inl err \<Rightarrow> Inl err
      | Inr mode \<Rightarrow>
          if optRefreshInterval parsed \<le> 0 then Inl (plainError ''refresh interval must be positive'')
          else Inr (parsed\<lparr>optOutputMode := mode, optNodeName := resolveNodeName getenv hostname\<rparr>))"

record driverStatus =
  drvMode :: outputMode
  drvReady :: bool
  drvReason :: string
  drvMessage :: string
  drvDevices :: int
  drvLastSuccess :: "int option"

definition newDriverStatus :: "outputMode \<Rightarrow> driverStatus" where
  "newDriverStatus mode =
     \<lparr>drvMode = mode, drvReady = False, drvReason = ''initializing'', drvMessage = ''CDI document has not been generated yet'',
      drvDevices = 0, drvLastSuccess = None\<rparr>"

definition MarkReady :: "int \<Rightarrow> int \<Rightarrow> driverStatus \<Rightarrow> driverStatus" where
  "MarkReady now devices st =
     st\<lparr>drvReady := True, drvReason := ''ready'', drvMessage := ''CDI document is current'', drvDevices := devices,
        drvLastSuccess := Some now\<rparr>"

definition MarkFailure :: "string \<Rightarrow> string \<Rightarrow> driverStatus \<Rightarrow> driverStatus" where
  "MarkFailure reason msg st = st\<lparr>drvReady := False, drvReason := reason, drvMessage := msg\<rparr>"

record readinessPayload =
  plStatus :: string
  plReady :: bool
  plMode :: outputMode
  plReason :: string
  plMessage :: string
  plDevices :: int
  plLastSuccess :: "int option"

definition statusSnapshot :: "driverStatus \<Rightarrow> readinessPayload" where
  "statusSnapshot st =
     \<lparr>plStatus = (if drvReady st then ''ready'' else ''not_ready''), plReady = drvReady st, plMode = drvMode st,
      plReason = drvReason st, plMessage = drvMessage st, plDevices = drvDevices st, plLastSuccess = drvLastSuccess st\<rparr>"

text \<open>The code and payload of \<^verbatim>\<open>/readyz\<close>; \<^verbatim>\<open>/healthz\<close> always answers 200.\<close>

definition readyzResponse :: "driverStatus \<Rightarrow> nat \<times> readinessPayload" where
  "readyzResponse st = (let payload = statusSnapshot st in (if plReady payload then 200 else 503, payload))"

text \<open>The multiplexer of the health server, for request paths in canonical form; \<^verbatim>\<open>net/http\<close> answers every other path.\<close>

datatype health_body = LiveBody string | ReadyBody readinessPayload

definition newHealthHandler :: "driverStatus \<Rightarrow> string \<Rightarrow> (nat \<times> health_body) option" where
  "newHealthHandler st path =
     (if path = ''/healthz'' then Some (200, LiveBody (CHR ''{'' # goQuote ''status'' @ '':'' @ goQuote ''live'' @ ''}''))
      else if path = ''/readyz'' then (case readyzResponse st of (code, payload) \<Rightarrow> Some (code, ReadyBody payload))
      else None)"

section \<open>Names\<close>

definition simulatedDriverName :: string where "simulatedDriverName = ''sim.draforge.oaslananka''"

definition isSimulatedDriver :: "string \<Rightarrow> bool" where
  "isSimulatedDriver driver \<longleftrightarrow> driver = simulatedDriverName \<or> suffix ''.draforge.oaslananka'' driver"

definition qualifiedDeviceIdentity :: "'q DeviceRequestAllocationResult \<Rightarrow> string" where
  "qualifiedDeviceIdentity r = resDriver r @ ''/'' @ resPool r @ ''/'' @ resDevice r"

text \<open>\<^verbatim>\<open>strings.Trim\<close> with a set of one-byte characters.\<close>

definition strings_Trim :: "string \<Rightarrow> string \<Rightarrow> string" where
  "strings_Trim s cutset = rev (dropWhile (\<lambda>c. c \<in> set cutset) (rev (dropWhile (\<lambda>c. c \<in> set cutset) s)))"

definition validCDIChar :: "char \<Rightarrow> bool" where
  "validCDIChar c \<longleftrightarrow>
     (97 \<le> (of_char c :: nat) \<and> of_char c \<le> (122 :: nat)) \<or> (48 \<le> (of_char c :: nat) \<and> of_char c \<le> (57 :: nat)) \<or>
     c = CHR ''.'' \<or> c = CHR ''_''"

text \<open>
  The loop ranges over runes; every rune outside ASCII is a separator, as is every byte it consists of, and adjacent
  separators give one dash: the loop over the bytes has the same result.
\<close>

fun sanitizeLoop :: "string \<Rightarrow> bool \<Rightarrow> string" where
  "sanitizeLoop [] previousSeparator = []"
| "sanitizeLoop (c # cs) previousSeparator =
     (if validCDIChar c then c # sanitizeLoop cs False
      else if \<not> previousSeparator then CHR ''-'' # sanitizeLoop cs True
      else sanitizeLoop cs True)"

definition sanitizeCDIName :: "go_unicode \<Rightarrow> string \<Rightarrow> string" where
  "sanitizeCDIName G val = strings_Trim (sanitizeLoop (toLower G val) False) ''-._''"

definition cdiDeviceName :: "go_unicode \<Rightarrow> (string \<Rightarrow> string) \<Rightarrow> string \<Rightarrow> string \<Rightarrow> string" where
  "cdiDeviceName G sha256hex ident device =
     (let suff = take 24 (sha256hex ident);
          stem = sanitizeCDIName G device;
          stem1 = (if stem = '''' then ''device'' else stem);
          stem2 = (if length stem1 > 38 then strings_Trim (take 38 stem1) ''-._'' else stem1)
      in stem2 @ ''-'' @ suff)"

section \<open>The document of a node\<close>

text \<open>The loops of \<^verbatim>\<open>allocationMatchesNode\<close>; \<^verbatim>\<open>containsString\<close> is membership.\<close>

definition termNamesNode :: "NodeSelectorTerm \<Rightarrow> string \<Rightarrow> bool" where
  "termNamesNode term nodeName \<longleftrightarrow>
     (\<exists>requirement \<in> set (matchFields term). req_key requirement = ''metadata.name'' \<and> nodeName \<in> set (req_values requirement)) \<or>
     (\<exists>requirement \<in> set (matchExpressions term). req_key requirement = ''kubernetes.io/hostname'' \<and> nodeName \<in> set (req_values requirement))"

definition allocationMatchesNode :: "'q AllocationResult \<Rightarrow> string \<Rightarrow> bool" where
  "allocationMatchesNode a nodeName =
     (case allocNodeSelector a of None \<Rightarrow> False | Some terms \<Rightarrow> list_ex (\<lambda>term. termNamesNode term nodeName) terms)"

definition cdiDeviceFor ::
  "go_unicode \<Rightarrow> (string \<Rightarrow> string) \<Rightarrow> 'q ResourceClaim \<Rightarrow> 'q DeviceRequestAllocationResult \<Rightarrow> CDIDevice" where
  "cdiDeviceFor G sha256hex claim r =
     \<lparr>cdName = cdiDeviceName G sha256hex (qualifiedDeviceIdentity r) (resDevice r),
      cdEnv = [''DRAFORGE_VIRTUAL_IDENTITY='' @ qualifiedDeviceIdentity r, ''DRAFORGE_VIRTUAL_DRIVER='' @ resDriver r,
        ''DRAFORGE_VIRTUAL_POOL='' @ resPool r, ''DRAFORGE_VIRTUAL_DEVICE='' @ resDevice r, ''DRAFORGE_VIRTUAL_TYPE=sim-device'',
        ''DRAFORGE_CLAIM_NAME='' @ claimName claim, ''DRAFORGE_CLAIM_NAMESPACE='' @ claimNamespace claim]\<rparr>"

fun collectResults ::
  "go_unicode \<Rightarrow> (string \<Rightarrow> string) \<Rightarrow> string \<Rightarrow> 'q ResourceClaim \<Rightarrow> bool \<Rightarrow> 'q DeviceRequestAllocationResult list \<Rightarrow>
   string set \<times> CDIDevice list \<Rightarrow> string set \<times> CDIDevice list" where
  "collectResults G H nodeName claim nodeMatched [] st = st"
| "collectResults G H nodeName claim nodeMatched (r # rs) (seenIDs, devices) =
     (if (\<not> nodeMatched \<and> resPool r \<noteq> nodeName) \<or> \<not> isSimulatedDriver (resDriver r) \<or> qualifiedDeviceIdentity r \<in> seenIDs
      then collectResults G H nodeName claim nodeMatched rs (seenIDs, devices)
      else collectResults G H nodeName claim nodeMatched rs
             (insert (qualifiedDeviceIdentity r) seenIDs, devices @ [cdiDeviceFor G H claim r]))"

fun collectClaims ::
  "go_unicode \<Rightarrow> (string \<Rightarrow> string) \<Rightarrow> string \<Rightarrow> 'q ResourceClaim list \<Rightarrow>
   string set \<times> CDIDevice list \<Rightarrow> string set \<times> CDIDevice list" where
  "collectClaims G H nodeName [] st = st"
| "collectClaims G H nodeName (claim # claims) st =
     (case claimAllocation claim of
        None \<Rightarrow> collectClaims G H nodeName claims st
      | Some a \<Rightarrow>
          collectClaims G H nodeName claims
            (collectResults G H nodeName claim (allocationMatchesNode a nodeName) (allocResults a) st))"

definition buildCDISpec :: "go_unicode \<Rightarrow> (string \<Rightarrow> string) \<Rightarrow> 'q ResourceClaim list \<Rightarrow> string \<Rightarrow> CDISpec" where
  "buildCDISpec G sha256hex claims nodeName =
     (let orderedClaims = sort_key (\<lambda>c. claimNamespace c @ ''/'' @ claimName c) claims
      in \<lparr>cdiVersion = ''0.5.0'', cdiSpecKind = cdiKind,
          cdiDevices = sort_key cdName (snd (collectClaims G sha256hex nodeName orderedClaims ({}, [])))\<rparr>)"

definition demoCDISpec :: CDISpec where
  "demoCDISpec =
     \<lparr>cdiVersion = ''0.5.0'', cdiSpecKind = cdiKind,
      cdiDevices =
        [\<lparr>cdName = ''demo-dev-0'', cdEnv = [''DRAFORGE_VIRTUAL_IDENTITY=demo/dev-0'', ''DRAFORGE_VIRTUAL_DEVICE=dev-0'', ''DRAFORGE_VIRTUAL_TYPE=gpu'']\<rparr>,
         \<lparr>cdName = ''demo-dev-1'', cdEnv = [''DRAFORGE_VIRTUAL_IDENTITY=demo/dev-1'', ''DRAFORGE_VIRTUAL_DEVICE=dev-1'', ''DRAFORGE_VIRTUAL_TYPE=camera'']\<rparr>]\<rparr>"

section \<open>Refresh\<close>

record cdiDriver =
  cdMode :: outputMode
  cdHasClient :: bool
  cdNodeName :: string
  cdPath :: string

text \<open>What a refresh reads from outside: the claims or the error of the list call, and the time.\<close>

record 'q refresh_input =
  riClaims :: "api_error + 'q ResourceClaim list"
  riNow :: int

record driver_state =
  stFiles :: filesystem
  stStatus :: driverStatus

record driver_env =
  deUnicode :: go_unicode
  deHash :: "string \<Rightarrow> string"
  deMarshal :: "CDISpec \<Rightarrow> api_error + string"
  deOs :: os_env

definition writeSpec :: "driver_env \<Rightarrow> cdiDriver \<Rightarrow> CDISpec \<Rightarrow> int \<Rightarrow> driver_state \<Rightarrow> api_error option \<times> driver_state" where
  "writeSpec V d spec now st =
     (case cdiWrite (deOs V) (deMarshal V) (cdPath d) spec (stFiles st) of
        (Inl err, fs) \<Rightarrow>
          (Some err, st\<lparr>stFiles := fs,
             stStatus := MarkFailure ''cdi_write_failed'' ''could not atomically update the CDI document'' (stStatus st)\<rparr>)
      | (Inr _, fs) \<Rightarrow>
          (None, st\<lparr>stFiles := fs, stStatus := MarkReady now (int (length (cdiDevices spec))) (stStatus st)\<rparr>))"

definition Refresh ::
  "driver_env \<Rightarrow> cdiDriver \<Rightarrow> 'q refresh_input \<Rightarrow> driver_state \<Rightarrow> api_error option \<times> driver_state" where
  "Refresh V d input st =
     (if cdMode d = OutputDemo then writeSpec V d demoCDISpec (riNow input) st
      else if \<not> cdHasClient d
      then (Some (plainError ''kubernetes client is unavailable''),
            st\<lparr>stStatus := MarkFailure ''kubernetes_api_unavailable'' ''Kubernetes client is unavailable'' (stStatus st)\<rparr>)
      else case riClaims input of
             Inl err \<Rightarrow>
               (Some (wrapError ''list ResourceClaims'' err),
                st\<lparr>stStatus := MarkFailure ''kubernetes_api_unavailable'' ''Kubernetes ResourceClaims could not be listed'' (stStatus st)\<rparr>)
           | Inr claims \<Rightarrow> writeSpec V d (buildCDISpec (deUnicode V) (deHash V) claims (cdNodeName d)) (riNow input) st)"

section \<open>The process\<close>

text \<open>
  \<^verbatim>\<open>runSimDriver\<close>: after the directory has been prepared, a first refresh, then what the loop receives until it returns.
  \<open>None\<close> as the result means that the loop still runs.
\<close>

datatype 'q driver_event =
    ContextDone "api_error option"
  | HealthServerStopped "api_error option"
  | Tick "'q refresh_input"

fun driverLoop ::
  "driver_env \<Rightarrow> cdiDriver \<Rightarrow> 'q driver_event list \<Rightarrow> driver_state \<Rightarrow> (api_error + unit) option \<times> driver_state" where
  "driverLoop V d [] st = (None, st)"
| "driverLoop V d (ContextDone shutdownErr # events) st =
     (case shutdownErr of
        Some err \<Rightarrow> (Some (Inl (wrapError ''shutdown health server'' err)), st)
      | None \<Rightarrow> (Some (Inr ()), st))"
| "driverLoop V d (HealthServerStopped stopErr # events) st =
     (case stopErr of
        None \<Rightarrow> (Some (Inr ()), st)
      | Some err \<Rightarrow> (Some (Inl (wrapError ''health server stopped'' err)), st))"
| "driverLoop V d (Tick input # events) st = driverLoop V d events (snd (Refresh V d input st))"

text \<open>\<^verbatim>\<open>filepath.Join\<close> of a clean directory and a file name.\<close>

definition filepath_Join :: "string \<Rightarrow> string \<Rightarrow> string" where
  "filepath_Join dir name = (if dir \<noteq> '''' \<and> last dir = CHR ''/'' then dir @ name else dir @ ''/'' @ name)"

text \<open>\<open>HealthServerStopped None\<close> is \<^verbatim>\<open>http.ErrServerClosed\<close>. \<open>client\<close> is what \<^verbatim>\<open>newKubernetesClient\<close> returns.\<close>

definition runSimDriver ::
  "driver_env \<Rightarrow> simDriverOptions \<Rightarrow> api_error option \<Rightarrow> 'q refresh_input \<Rightarrow> 'q driver_event list \<Rightarrow> filesystem \<Rightarrow>
   (api_error + unit) option \<times> driver_state" where
  "runSimDriver V opts clientErr first events fs =
     (let start = \<lparr>stFiles = fs, stStatus = newDriverStatus (optOutputMode opts)\<rparr>
      in case prepareCDIDirectory (deOs V) (optCDIDir opts) (outputModeName (optOutputMode opts)) fs of
           (Inl err, fs') \<Rightarrow> (Some (Inl err), start\<lparr>stFiles := fs'\<rparr>)
         | (Inr _, fs') \<Rightarrow>
             (case (if optOutputMode opts = OutputNode then clientErr else None) of
                Some err \<Rightarrow> (Some (Inl (wrapError ''initialize Kubernetes client in node mode'' err)), start\<lparr>stFiles := fs'\<rparr>)
              | None \<Rightarrow>
                  let d = \<lparr>cdMode = optOutputMode opts, cdHasClient = (optOutputMode opts = OutputNode),
                           cdNodeName = optNodeName opts, cdPath = filepath_Join (optCDIDir opts) cdiFileName\<rparr>
                  in driverLoop V d events (snd (Refresh V d first (start\<lparr>stFiles := fs'\<rparr>)))))"

text \<open>
  \<^verbatim>\<open>main\<close>: what package \<^verbatim>\<open>flag\<close> makes of the arguments, starting from the defaults; the help text is no error. An error is printed to the
  standard error stream and the exit code is 1; the files are those the driver leaves. \<open>None\<close> means that the driver still runs.
\<close>

definition defaultSimDriverOptions :: "simDriverOptions \<times> string" where
  "defaultSimDriverOptions =
     (\<lparr>optCDIDir = ''/var/lib/kubelet/device-plugins/cdi'', optKubeconfig = '''', optOutputMode = OutputNode, optHealthAddr = '':8083'',
       optRefreshInterval = 3000000000, optNodeName = ''''\<rparr>, outputModeName OutputNode)"

datatype flag_outcome = HelpRequested | FlagError api_error | FlagsParsed simDriverOptions string

definition runMain ::
  "driver_env \<Rightarrow> (simDriverOptions \<times> string \<Rightarrow> flag_outcome) \<Rightarrow> (string \<Rightarrow> string) \<Rightarrow> api_error + string \<Rightarrow> api_error option \<Rightarrow>
   'q refresh_input \<Rightarrow> 'q driver_event list \<Rightarrow> filesystem \<Rightarrow> (api_error + unit) option \<times> filesystem" where
  "runMain V parseFlags getenv hostname clientErr first events fs =
     (case parseFlags defaultSimDriverOptions of
        HelpRequested \<Rightarrow> (Some (Inr ()), fs)
      | FlagError err \<Rightarrow> (Some (Inl err), fs)
      | FlagsParsed parsed modeValue \<Rightarrow>
          (case parseSimDriverOptions parsed modeValue getenv hostname of
             Inl err \<Rightarrow> (Some (Inl err), fs)
           | Inr opts \<Rightarrow> (case runSimDriver V opts clientErr first events fs of (result, st) \<Rightarrow> (result, stFiles st))))"

definition simDriverExit :: "(api_error + unit) option \<Rightarrow> (nat \<times> string) option" where
  "simDriverExit result =
     (case result of
        None \<Rightarrow> None
      | Some (Inr _) \<Rightarrow> Some (0, '''')
      | Some (Inl err) \<Rightarrow> Some (1, ''draforge-sim-driver: '' @ errText err @ [CHR 0x0A]))"

text \<open>With the default flags the driver runs in node mode, so without a client it fails before it writes a document.\<close>

lemma runMain_defaults:
  assumes "parseFlags defaultSimDriverOptions = FlagsParsed (fst defaultSimDriverOptions) (snd defaultSimDriverOptions)"
    and "prepareCDIDirectory (deOs V) ''/var/lib/kubelet/device-plugins/cdi'' ''node'' fs = (Inr u, fs')"
  shows "runMain V parseFlags getenv hostname (Some err) first events fs =
    (Some (Inl (wrapError ''initialize Kubernetes client in node mode'' err)), fs')"
  using assms
  by (simp add: runMain_def defaultSimDriverOptions_def parseSimDriverOptions_def parseOutputMode_def outputModeName_def runSimDriver_def Let_def)

text \<open>An invalid mode or interval ends the process with exit code 1 and leaves every file as it was.\<close>

lemma runMain_refuses:
  assumes "parseFlags defaultSimDriverOptions = FlagsParsed parsed modeValue"
    and "modeValue \<notin> {''demo'', ''node''} \<or> optRefreshInterval parsed \<le> 0"
  shows "\<exists>err. runMain V parseFlags getenv hostname clientErr first events fs = (Some (Inl err), fs) \<and>
    map_option fst (simDriverExit (Some (Inl err))) = Some 1"
  using assms by (auto simp: runMain_def parseSimDriverOptions_def parseOutputMode_def simDriverExit_def)

section \<open>Names are valid\<close>

definition alnumChar :: "char \<Rightarrow> bool" where
  "alnumChar c \<longleftrightarrow>
     (97 \<le> (of_char c :: nat) \<and> of_char c \<le> (122 :: nat)) \<or> (48 \<le> (of_char c :: nat) \<and> of_char c \<le> (57 :: nat))"

text \<open>What the CDI specification asks of a device name, and the length of a DNS label.\<close>

definition validCDIName :: "string \<Rightarrow> bool" where
  "validCDIName name \<longleftrightarrow>
     name \<noteq> '''' \<and> length name \<le> 63 \<and> alnumChar (hd name) \<and> alnumChar (last name) \<and>
     list_all (\<lambda>c. alnumChar c \<or> c \<in> set ''-._'') name"

lemma sanitizeLoop_chars: "c \<in> set (sanitizeLoop s b) \<Longrightarrow> alnumChar c \<or> c \<in> set ''-._''"
  by (induction s b rule: sanitizeLoop.induct) (auto simp: validCDIChar_def alnumChar_def split: if_splits)


lemma strings_Trim_sub: "set (strings_Trim s chars) \<subseteq> set s"
  by (auto simp: strings_Trim_def dest!: set_dropWhileD)

lemma strings_Trim_length: "length (strings_Trim s chars) \<le> length s"
  unfolding strings_Trim_def by (metis length_rev length_dropWhile_le order_trans)

lemma last_rev_dropWhile: "dropWhile P xs \<noteq> [] \<Longrightarrow> \<not> P (last (rev (dropWhile P xs)))"
  by (simp add: last_rev hd_dropWhile)

lemma strings_Trim_ends:
  assumes "strings_Trim s chars \<noteq> ''''"
  shows "hd (strings_Trim s chars) \<notin> set chars \<and> last (strings_Trim s chars) \<notin> set chars"
proof -
  let ?P = "\<lambda>c. c \<in> set chars"
  let ?l = "dropWhile ?P s"
  have tail: "dropWhile ?P (rev ?l) \<noteq> []" using assms by (simp add: strings_Trim_def)
  obtain pre where pre: "rev ?l = pre @ dropWhile ?P (rev ?l)" by (metis takeWhile_dropWhile_id)
  then have l: "?l = strings_Trim s chars @ rev pre" unfolding strings_Trim_def by (metis rev_append rev_rev_ident)
  then have "hd (strings_Trim s chars) = hd ?l" and "?l \<noteq> []" using assms by (metis hd_append2, auto)
  then have "hd (strings_Trim s chars) \<notin> set chars" using hd_dropWhile [of ?P s] by simp
  moreover have "last (strings_Trim s chars) \<notin> set chars"
    unfolding strings_Trim_def using last_rev_dropWhile [OF tail] by simp
  ultimately show ?thesis by blast
qed

lemma strings_Trim_keep_hd:
  assumes "s \<noteq> ''''" and "hd s \<notin> set chars"
  shows "strings_Trim s chars \<noteq> '''' \<and> hd (strings_Trim s chars) = hd s"
proof -
  have l: "dropWhile (\<lambda>c. c \<in> set chars) s = s" using assms by (cases s) auto
  have ne: "dropWhile (\<lambda>c. c \<in> set chars) (rev s) \<noteq> []" using assms by (auto simp: dropWhile_eq_Nil_conv)
  then have trim: "strings_Trim s chars \<noteq> ''''" by (simp add: strings_Trim_def l)
  obtain pre where "rev s = pre @ dropWhile (\<lambda>c. c \<in> set chars) (rev s)" by (metis takeWhile_dropWhile_id)
  then have "s = strings_Trim s chars @ rev pre" unfolding strings_Trim_def l by (metis rev_append rev_rev_ident)
  then have "hd s = hd (strings_Trim s chars)" using trim by (metis hd_append2)
  with trim show ?thesis by simp
qed

text \<open>The part of a name before the hash.\<close>

definition cdiStem :: "string \<Rightarrow> string" where
  "cdiStem stem =
     (let stem1 = (if stem = '''' then ''device'' else stem)
      in if length stem1 > 38 then strings_Trim (take 38 stem1) ''-._'' else stem1)"

lemma cdiStem_valid:
  assumes "list_all (\<lambda>c. alnumChar c \<or> c \<in> set ''-._'') stem" and "stem \<noteq> '''' \<Longrightarrow> hd stem \<notin> set ''-._''"
  shows "cdiStem stem \<noteq> '''' \<and> length (cdiStem stem) \<le> 38 \<and> alnumChar (hd (cdiStem stem)) \<and>
         list_all (\<lambda>c. alnumChar c \<or> c \<in> set ''-._'') (cdiStem stem)"
proof -
  define s where "s = (if stem = '''' then ''device'' else stem)"
  have s: "s \<noteq> ''''" "hd s \<notin> set ''-._''" "list_all (\<lambda>c. alnumChar c \<or> c \<in> set ''-._'') s"
    using assms by (auto simp: s_def alnumChar_def)
  then have hd: "alnumChar (hd s)" by (cases s) auto
  show ?thesis
  proof (cases "length s > 38")
    case True
    have "take 38 s \<noteq> ''''" "hd (take 38 s) = hd s" using s(1) by (cases s; simp)+
    with s(2) have keep: "strings_Trim (take 38 s) ''-._'' \<noteq> '''' \<and> hd (strings_Trim (take 38 s) ''-._'') = hd s"
      using strings_Trim_keep_hd [of "take 38 s" "''-._''"] by simp
    moreover have "length (strings_Trim (take 38 s) ''-._'') \<le> 38"
      using strings_Trim_length [of "take 38 s" "''-._''"] True by simp
    moreover have "set (strings_Trim (take 38 s) ''-._'') \<subseteq> set s"
      using strings_Trim_sub [of "take 38 s" "''-._''"] set_take_subset [of 38 s] by blast
    ultimately show ?thesis using s(3) hd True
      by (auto simp: cdiStem_def list_all_iff simp flip: s_def)
  next
    case False
    with s hd show ?thesis by (simp add: cdiStem_def flip: s_def)
  qed
qed

text \<open>
  C20. Every name the driver gives a device is a valid CDI name of at most 63 bytes: letters, digits, dots, dashes and
  underscores, with a letter or digit at both ends, whatever the name of the device is.
\<close>

theorem cdiDeviceName_valid:
  assumes "\<And>s. length (sha256hex s) = 64 \<and> list_all alnumChar (sha256hex s)"
  shows "validCDIName (cdiDeviceName G sha256hex ident device)"
proof -
  let ?stem = "sanitizeCDIName G device"
  have "list_all (\<lambda>c. alnumChar c \<or> c \<in> set ''-._'') ?stem"
    using strings_Trim_sub [of "sanitizeLoop (toLower G device) False" "''-._''"] sanitizeLoop_chars
    by (fastforce simp: list_all_iff sanitizeCDIName_def)
  moreover have "?stem \<noteq> '''' \<Longrightarrow> hd ?stem \<notin> set ''-._''"
    unfolding sanitizeCDIName_def using strings_Trim_ends by blast
  ultimately have stem: "cdiStem ?stem \<noteq> '''' \<and> length (cdiStem ?stem) \<le> 38 \<and> alnumChar (hd (cdiStem ?stem)) \<and>
      list_all (\<lambda>c. alnumChar c \<or> c \<in> set ''-._'') (cdiStem ?stem)" by (rule cdiStem_valid)
  have hash: "length (take 24 (sha256hex ident)) = 24" "list_all alnumChar (take 24 (sha256hex ident))"
    using assms [of ident] by (simp_all add: list_all_iff) (meson in_set_takeD)
  then have "alnumChar (last (take 24 (sha256hex ident)))" "take 24 (sha256hex ident) \<noteq> []"
    by (metis last_in_set list_all_iff length_0_conv zero_neq_numeral, auto)
  with stem hash show ?thesis
    by (simp add: validCDIName_def cdiDeviceName_def Let_def list_all_iff hd_append flip: cdiStem_def [unfolded Let_def]) blast
qed

text \<open>A stand-in for the hash: the length of a text, in 64 digits.\<close>

definition exampleHash :: "string \<Rightarrow> string" where
  "exampleHash s = replicate 62 (CHR ''0'') @ [char_of (48 + length s div 10 mod 10), char_of (48 + length s mod 10)]"

lemma exampleHash_valid: "length (exampleHash s) = 64 \<and> list_all alnumChar (exampleHash s)"
proof -
  have "alnumChar (char_of (48 + k mod 10))" for k :: nat
  proof -
    have "k mod 10 < 10" by simp
    then have "(of_char (char_of (48 + k mod 10) :: char) :: nat) = 48 + k mod 10" by simp
    moreover have "k mod 10 \<le> 9" using \<open>k mod 10 < 10\<close> by linarith
    ultimately show ?thesis unfolding alnumChar_def by simp
  qed
  moreover have "alnumChar CHR ''0''" by (simp add: alnumChar_def)
  ultimately show ?thesis by (simp add: exampleHash_def list_all_iff)
qed

theorem cdiDeviceName_valid_witness: "validCDIName (cdiDeviceName asciiUnicode exampleHash ''d/p/GPU 0'' ''GPU 0'')"
  by (rule cdiDeviceName_valid) (rule exampleHash_valid)

section \<open>What a node shows\<close>

text \<open>The first elements with their key, leaving out the keys already taken.\<close>

fun firstBy :: "('a \<Rightarrow> 'k) \<Rightarrow> 'a list \<Rightarrow> 'k set \<Rightarrow> 'a list" where
  "firstBy k [] S = []"
| "firstBy k (x # xs) S = (if k x \<in> S then firstBy k xs S else x # firstBy k xs (insert (k x) S))"

lemma firstBy_append: "firstBy k (xs @ ys) S = firstBy k xs S @ firstBy k ys (S \<union> k ` set xs)"
  by (induction xs arbitrary: S) (simp_all add: insert_absorb)

lemma firstBy_set: "set (firstBy k xs S) \<subseteq> set xs"
  by (induction xs arbitrary: S) (auto split: if_splits)

lemma firstBy_keys: "k ` set (firstBy k xs S) = k ` set xs - S"
  by (induction xs arbitrary: S) auto

lemma firstBy_distinct: "distinct (map k (firstBy k xs S))"
proof (induction xs arbitrary: S)
  case (Cons x xs)
  then show ?case using firstBy_keys [of k xs "insert (k x) S"] by auto
qed simp

text \<open>
  Where an allocation is placed, read from its node selector without the loops of the code. A selector that names nodes has one requirement
  per term, with the operator \<^verbatim>\<open>In\<close>, on the node's name or the host name label; it admits a node as Kubernetes says: some term that is
  not empty has its requirements satisfied. Every other selector the driver reads by the names it mentions, whatever the operator.
\<close>

definition nameRequirements :: "NodeSelectorTerm \<Rightarrow> NodeSelectorRequirement list" where
  "nameRequirements term =
     filter (\<lambda>q. req_key q = ''metadata.name'') (matchFields term) @ filter (\<lambda>q. req_key q = ''kubernetes.io/hostname'') (matchExpressions term)"

definition namesNodes :: "NodeSelectorTerm list \<Rightarrow> bool" where
  "namesNodes terms \<longleftrightarrow>
     list_all (\<lambda>term. length (matchFields term @ matchExpressions term) \<le> 1 \<and> nameRequirements term = matchFields term @ matchExpressions term \<and>
        list_all (\<lambda>q. req_operator q = ''In'') (nameRequirements term)) terms"

definition admitsNode :: "string \<Rightarrow> NodeSelectorTerm list \<Rightarrow> bool" where
  "admitsNode nodeName terms \<longleftrightarrow>
     list_ex (\<lambda>term. matchFields term @ matchExpressions term \<noteq> [] \<and>
        list_all (\<lambda>q. nodeName \<in> set (req_values q)) (matchFields term @ matchExpressions term)) terms"

definition mentionsNode :: "string \<Rightarrow> NodeSelectorTerm list \<Rightarrow> bool" where
  "mentionsNode nodeName terms \<longleftrightarrow> nodeName \<in> (\<Union>term \<in> set terms. \<Union>q \<in> set (nameRequirements term). set (req_values q))"

definition placedOn :: "string \<Rightarrow> 'q AllocationResult \<Rightarrow> bool" where
  "placedOn nodeName a \<longleftrightarrow>
     (case allocNodeSelector a of
        None \<Rightarrow> False
      | Some terms \<Rightarrow> if namesNodes terms then admitsNode nodeName terms else mentionsNode nodeName terms)"

lemma admits_mentions:
  assumes "namesNodes terms"
  shows "admitsNode nodeName terms \<longleftrightarrow> mentionsNode nodeName terms"
proof -
  have "matchFields term @ matchExpressions term \<noteq> [] \<and> list_all (\<lambda>q. nodeName \<in> set (req_values q)) (matchFields term @ matchExpressions term) \<longleftrightarrow>
      (\<exists>q \<in> set (nameRequirements term). nodeName \<in> set (req_values q))" if "term \<in> set terms" for "term"
  proof -
    have one: "length (matchFields term @ matchExpressions term) \<le> 1" and all: "nameRequirements term = matchFields term @ matchExpressions term"
      using assms that by (simp_all add: namesNodes_def list_all_iff)
    from one show ?thesis unfolding all by (cases "matchFields term @ matchExpressions term") auto
  qed
  then show ?thesis by (auto simp: admitsNode_def mentionsNode_def list_ex_iff)
qed

lemma allocationMatchesNode_placed: "allocationMatchesNode a nodeName \<longleftrightarrow> placedOn nodeName a"
proof (cases "allocNodeSelector a")
  case (Some terms)
  have "list_ex (\<lambda>term. termNamesNode term nodeName) terms \<longleftrightarrow> mentionsNode nodeName terms"
    by (auto simp: list_ex_iff termNamesNode_def mentionsNode_def nameRequirements_def)
  with Some admits_mentions show ?thesis by (simp add: allocationMatchesNode_def placedOn_def)
qed (simp add: allocationMatchesNode_def placedOn_def)

text \<open>The results of a claim that a node shows: those of a simulated driver, placed on the node by the claim's
  node selector or by a pool of the node's name.\<close>

definition shownResults :: "string \<Rightarrow> 'q ResourceClaim \<Rightarrow> ('q ResourceClaim \<times> 'q DeviceRequestAllocationResult) list" where
  "shownResults nodeName claim =
     (case claimAllocation claim of
        None \<Rightarrow> []
      | Some a \<Rightarrow> map (Pair claim) (filter (\<lambda>r. (placedOn nodeName a \<or> resPool r = nodeName) \<and> isSimulatedDriver (resDriver r))
                    (allocResults a)))"

definition shownIdentity :: "'q ResourceClaim \<times> 'q DeviceRequestAllocationResult \<Rightarrow> string" where
  "shownIdentity x = qualifiedDeviceIdentity (snd x)"

lemma collectResults_firstBy:
  "collectResults G H n c m rs (S, D) =
     (let shown = map (Pair c) (filter (\<lambda>r. (m \<or> resPool r = n) \<and> isSimulatedDriver (resDriver r)) rs)
      in (S \<union> shownIdentity ` set shown,
          D @ map (\<lambda>(c, r). cdiDeviceFor G H c r) (firstBy shownIdentity shown S)))"
  by (induction rs arbitrary: S D) (auto simp: Let_def insert_absorb shownIdentity_def)

lemma collectClaims_firstBy:
  "collectClaims G H n claims (S, D) =
     (let shown = concat (map (shownResults n) claims)
      in (S \<union> shownIdentity ` set shown,
          D @ map (\<lambda>(c, r). cdiDeviceFor G H c r) (firstBy shownIdentity shown S)))"
proof (induction claims arbitrary: S D)
  case (Cons claim claims)
  show ?case
  proof (cases "claimAllocation claim")
    case None
    then show ?thesis using Cons.IH by (simp add: shownResults_def)
  next
    case (Some a)
    then show ?thesis
      by (simp add: shownResults_def [of n claim] allocationMatchesNode_placed collectResults_firstBy Cons.IH Let_def firstBy_append image_Un Un_assoc)
  qed
qed (simp add: Let_def)

lemma buildCDISpec_shown:
  "\<exists>shown. cdiDevices (buildCDISpec G sha256hex claims nodeName) = sort_key cdName (map (\<lambda>(c, r). cdiDeviceFor G sha256hex c r) shown) \<and>
     set shown \<subseteq> (\<Union>c \<in> set claims. set (shownResults nodeName c)) \<and>
     distinct (map shownIdentity shown) \<and>
     shownIdentity ` set shown = shownIdentity ` (\<Union>c \<in> set claims. set (shownResults nodeName c))"
proof -
  define shown where "shown = concat (map (shownResults nodeName) (sort_key (\<lambda>c. claimNamespace c @ ''/'' @ claimName c) claims))"
  have set: "set shown = (\<Union>c \<in> set claims. set (shownResults nodeName c))" by (simp add: shown_def)
  let ?first = "firstBy shownIdentity shown {}"
  have "cdiDevices (buildCDISpec G sha256hex claims nodeName) = sort_key cdName (map (\<lambda>(c, r). cdiDeviceFor G sha256hex c r) ?first)"
    by (simp add: buildCDISpec_def Let_def collectClaims_firstBy shown_def)
  then show ?thesis
    using firstBy_set [of shownIdentity shown "{}"] firstBy_keys [of shownIdentity shown "{}"]
      firstBy_distinct [of shownIdentity shown "{}"]
    unfolding set by (intro exI [of _ ?first]) simp
qed

text \<open>The identities a document exposes, read from the environment of its entries.\<close>

definition exposed :: "CDISpec \<Rightarrow> string set" where
  "exposed spec = {ident. \<exists>d \<in> set (cdiDevices spec). ''DRAFORGE_VIRTUAL_IDENTITY='' @ ident \<in> set (cdEnv d)}"

lemma cdiDeviceFor_identity:
  "''DRAFORGE_VIRTUAL_IDENTITY='' @ ident \<in> set (cdEnv (cdiDeviceFor G sha256hex c r)) \<longleftrightarrow> ident = qualifiedDeviceIdentity r"
  by (simp add: cdiDeviceFor_def)

lemma exposed_shown:
  "exposed (buildCDISpec G sha256hex claims nodeName) = shownIdentity ` (\<Union>c \<in> set claims. set (shownResults nodeName c))"
proof -
  from buildCDISpec_shown [of G sha256hex claims nodeName] obtain shown where shown:
    "cdiDevices (buildCDISpec G sha256hex claims nodeName) = sort_key cdName (map (\<lambda>(c, r). cdiDeviceFor G sha256hex c r) shown)"
    "set shown \<subseteq> (\<Union>c \<in> set claims. set (shownResults nodeName c))"
    "shownIdentity ` set shown = shownIdentity ` (\<Union>c \<in> set claims. set (shownResults nodeName c))" by blast
  then have "exposed (buildCDISpec G sha256hex claims nodeName) =
      {ident. \<exists>x \<in> set shown. ''DRAFORGE_VIRTUAL_IDENTITY='' @ ident \<in> set (cdEnv (cdiDeviceFor G sha256hex (fst x) (snd x)))}"
    by (simp only: exposed_def set_sort set_map split_def bex_simps)
  also have "\<dots> = shownIdentity ` set shown"
    by (simp only: cdiDeviceFor_identity) (auto simp: shownIdentity_def)
  finally show ?thesis using shown(3) by simp
qed


section \<open>Readiness and the document\<close>

text \<open>What a refresh writes, if it comes to write: the specification and the file that holds it.\<close>

definition specFor :: "driver_env \<Rightarrow> cdiDriver \<Rightarrow> 'q refresh_input \<Rightarrow> CDISpec option" where
  "specFor V d input =
     (if cdMode d = OutputDemo then Some demoCDISpec
      else if \<not> cdHasClient d then None
      else case riClaims input of Inl _ \<Rightarrow> None | Inr claims \<Rightarrow> Some (buildCDISpec (deUnicode V) (deHash V) claims (cdNodeName d)))"

definition documentFile :: "driver_env \<Rightarrow> CDISpec \<Rightarrow> os_file option" where
  "documentFile V spec =
     (case deMarshal V spec of
        Inl _ \<Rightarrow> None
      | Inr json \<Rightarrow> Some \<lparr>fileKind = RegularFile, fileMode = mode0644, fileOwner = osEuid (deOs V), fileData = json @ [CHR 0x0A]\<rparr>)"

lemma Refresh_Some: "specFor V d input = Some spec \<Longrightarrow> Refresh V d input st = writeSpec V d spec (riNow input) st"
  by (auto simp: Refresh_def specFor_def split: if_splits sum.splits)

lemma Refresh_None:
  assumes "specFor V d input = None" and "Refresh V d input st = (err, st')"
  shows "err \<noteq> None \<and> stFiles st' = stFiles st \<and> \<not> drvReady (stStatus st')"
  using assms by (auto simp: Refresh_def specFor_def MarkFailure_def split: if_splits sum.splits)

lemma writeSpec_wpr:
  assumes dir: "dir \<noteq> ''''" "cdPath d = dir @ ''/'' @ cdiFileName" and doc: "documentFile V spec = Some doc"
    and run: "writeSpec V d spec now st = (err, st')"
  shows "(\<exists>moments. fsHistory (stFiles st') = fsHistory (stFiles st) @ moments \<and>
            list_all (\<lambda>files. files (cdPath d) = fsFiles (stFiles st) (cdPath d) \<or> files (cdPath d) = Some doc) moments) \<and>
         (fsFiles (stFiles st') (cdPath d) = fsFiles (stFiles st) (cdPath d) \<or> fsFiles (stFiles st') (cdPath d) = Some doc) \<and>
         drvReady (stStatus st') = (err = None) \<and>
         (err = None \<longrightarrow> fsFiles (stFiles st') (cdPath d) = Some doc \<and> drvDevices (stStatus st') = int (length (cdiDevices spec)))"
proof -
  obtain json where json: "deMarshal V spec = Inr json"
    and doc': "doc = \<lparr>fileKind = RegularFile, fileMode = mode0644, fileOwner = osEuid (deOs V), fileData = json @ [CHR 0x0A]\<rparr>"
    using doc by (auto simp: documentFile_def split: sum.splits)
  obtain res fs where w: "cdiWrite (deOs V) (deMarshal V) (cdPath d) spec (stFiles st) = (res, fs)" by fastforce
  define F where "F = fsFiles (stFiles st)"
  note facts = wprD [OF wpr_cdiWrite [where marshal = "deMarshal V" and spec = spec and bytes = json and dir = dir and F = F,
        OF dir(1) json _ refl, folded dir(2), folded doc'] w]
  show ?thesis
    using facts run by (cases res) (auto simp: doc' F_def writeSpec_def w seen_def MarkFailure_def MarkReady_def)
qed

definition refreshAll :: "driver_env \<Rightarrow> cdiDriver \<Rightarrow> 'q refresh_input list \<Rightarrow> driver_state \<Rightarrow> driver_state" where
  "refreshAll V d inputs st = fold (\<lambda>input st. snd (Refresh V d input st)) inputs st"

text \<open>The documents that a sequence of refreshes may install.\<close>

definition documentsOf :: "driver_env \<Rightarrow> cdiDriver \<Rightarrow> 'q refresh_input list \<Rightarrow> os_file set" where
  "documentsOf V d inputs = {doc. \<exists>input \<in> set inputs. \<exists>spec. specFor V d input = Some spec \<and> documentFile V spec = Some doc}"

lemma Refresh_step:
  assumes "dir \<noteq> ''''" and "cdPath d = dir @ ''/'' @ cdiFileName" and "\<And>spec. documentFile V spec \<noteq> None"
    and "Refresh V d input st = (err, st')"
  shows "(\<exists>moments. fsHistory (stFiles st') = fsHistory (stFiles st) @ moments \<and>
            list_all (\<lambda>files. files (cdPath d) \<in> insert (fsFiles (stFiles st) (cdPath d)) (Some ` documentsOf V d [input])) moments) \<and>
         fsFiles (stFiles st') (cdPath d) \<in> insert (fsFiles (stFiles st) (cdPath d)) (Some ` documentsOf V d [input]) \<and>
         drvReady (stStatus st') = (err = None) \<and>
         (err = None \<longrightarrow> (\<exists>spec. specFor V d input = Some spec \<and> fsFiles (stFiles st') (cdPath d) = documentFile V spec \<and>
            drvDevices (stStatus st') = int (length (cdiDevices spec))))"
proof (cases "specFor V d input")
  case None
  with Refresh_None [OF None assms(4)] show ?thesis by auto
next
  case (Some spec)
  obtain doc where doc: "documentFile V spec = Some doc" using assms(3) by blast
  have run: "writeSpec V d spec (riNow input) st = (err, st')" using assms(4) Refresh_Some [OF Some] by metis
  have "doc \<in> documentsOf V d [input]" using Some doc by (auto simp: documentsOf_def)
  with writeSpec_wpr [OF assms(1,2) doc run] Some doc show ?thesis by (auto simp: list_all_iff)
qed

text \<open>
  C18. The driver's document is always one of its own, and readiness means that it is current. Over any sequence of
  refreshes, whatever the API and the file system do: at every moment the path holds what it held at the start or a
  complete document of one of the refreshes; and when \<^verbatim>\<open>/readyz\<close> answers 200 after them, the last refresh has
  installed its document, and the payload has its number of devices.
\<close>

theorem refreshAll_document:
  assumes "dir \<noteq> ''''" and "cdPath d = dir @ ''/'' @ cdiFileName" and "\<And>spec. documentFile V spec \<noteq> None"
    and "refreshAll V d inputs st = st'"
  shows "(\<exists>moments. fsHistory (stFiles st') = fsHistory (stFiles st) @ moments \<and>
            (\<forall>files \<in> set moments. files (cdPath d) \<in> insert (fsFiles (stFiles st) (cdPath d)) (Some ` documentsOf V d inputs))) \<and>
         (inputs \<noteq> [] \<and> fst (readyzResponse (stStatus st')) = 200 \<longrightarrow>
            (\<exists>spec. specFor V d (last inputs) = Some spec \<and> fsFiles (stFiles st') (cdPath d) = documentFile V spec \<and>
               plDevices (snd (readyzResponse (stStatus st'))) = int (length (cdiDevices spec))))"
proof -
  have "(\<exists>moments. fsHistory (stFiles st') = fsHistory (stFiles st) @ moments \<and>
            (\<forall>files \<in> set moments. files (cdPath d) \<in> insert (fsFiles (stFiles st) (cdPath d)) (Some ` documentsOf V d inputs))) \<and>
        fsFiles (stFiles st') (cdPath d) \<in> insert (fsFiles (stFiles st) (cdPath d)) (Some ` documentsOf V d inputs) \<and>
        (inputs \<noteq> [] \<and> drvReady (stStatus st') \<longrightarrow>
            (\<exists>spec. specFor V d (last inputs) = Some spec \<and> fsFiles (stFiles st') (cdPath d) = documentFile V spec \<and>
               drvDevices (stStatus st') = int (length (cdiDevices spec))))"
    using assms(4)
  proof (induction inputs arbitrary: st' rule: rev_induct)
    case Nil
    then show ?case by (simp add: refreshAll_def)
  next
    case (snoc input inputs)
    define st1 where "st1 = refreshAll V d inputs st"
    obtain err where run: "Refresh V d input st1 = (err, st')"
      using snoc.prems by (metis (no_types, lifting) refreshAll_def st1_def fold_append fold_simps comp_apply prod.collapse)
    have docs: "documentsOf V d (inputs @ [input]) = documentsOf V d inputs \<union> documentsOf V d [input]"
      by (auto simp: documentsOf_def)
    from snoc.IH [OF st1_def [symmetric]] obtain m1 where m1: "fsHistory (stFiles st1) = fsHistory (stFiles st) @ m1"
        "\<forall>files \<in> set m1. files (cdPath d) \<in> insert (fsFiles (stFiles st) (cdPath d)) (Some ` documentsOf V d inputs)"
      and now1: "fsFiles (stFiles st1) (cdPath d) \<in> insert (fsFiles (stFiles st) (cdPath d)) (Some ` documentsOf V d inputs)" by blast
    from Refresh_step [OF assms(1-3) run] obtain m2 where m2: "fsHistory (stFiles st') = fsHistory (stFiles st1) @ m2"
        "list_all (\<lambda>files. files (cdPath d) \<in> insert (fsFiles (stFiles st1) (cdPath d)) (Some ` documentsOf V d [input])) m2"
      and now2: "fsFiles (stFiles st') (cdPath d) \<in> insert (fsFiles (stFiles st1) (cdPath d)) (Some ` documentsOf V d [input])"
      and ready: "drvReady (stStatus st') \<longrightarrow> (\<exists>spec. specFor V d input = Some spec \<and> fsFiles (stFiles st') (cdPath d) = documentFile V spec \<and>
            drvDevices (stStatus st') = int (length (cdiDevices spec)))" by blast
    have "fsHistory (stFiles st') = fsHistory (stFiles st) @ m1 @ m2" using m1(1) m2(1) by simp
    moreover have "\<forall>files \<in> set (m1 @ m2). files (cdPath d) \<in> insert (fsFiles (stFiles st) (cdPath d)) (Some ` documentsOf V d (inputs @ [input]))"
      using m1(2) m2(2) now1 unfolding docs list_all_iff by auto
    moreover have "fsFiles (stFiles st') (cdPath d) \<in> insert (fsFiles (stFiles st) (cdPath d)) (Some ` documentsOf V d (inputs @ [input]))"
      using now1 now2 unfolding docs by auto
    ultimately show ?case using ready by auto
  qed
  then show ?thesis by (simp add: readyzResponse_def statusSnapshot_def)
qed

definition exampleEnv :: driver_env where
  "exampleEnv = \<lparr>deUnicode = asciiUnicode, deHash = exampleHash, deMarshal = (\<lambda>_. Inr ''{}''), deOs = exampleOs (\<lambda>_. None)\<rparr>"

definition demoDriver :: cdiDriver where
  "demoDriver = \<lparr>cdMode = OutputDemo, cdHasClient = False, cdNodeName = ''n'', cdPath = ''/cdi'' @ ''/'' @ cdiFileName\<rparr>"

definition demoInput :: "rat refresh_input" where
  "demoInput = \<lparr>riClaims = Inr [], riNow = 7\<rparr>"

definition demoStart :: driver_state where
  "demoStart = \<lparr>stFiles = exampleFs, stStatus = newDriverStatus OutputDemo\<rparr>"

theorem refreshAll_document_witness:
  "fst (readyzResponse (stStatus (refreshAll exampleEnv demoDriver [demoInput] demoStart))) = 200 \<and>
   fsFiles (stFiles (refreshAll exampleEnv demoDriver [demoInput] demoStart)) (''/cdi'' @ ''/'' @ cdiFileName) =
     documentFile exampleEnv demoCDISpec"
proof -
  obtain fs where "cdiWrite (deOs exampleEnv) (deMarshal exampleEnv) (cdPath demoDriver) demoCDISpec exampleFs = (Inr (), fs)"
    using example_write [of demoCDISpec]
    by (cases "cdiWrite (deOs exampleEnv) (deMarshal exampleEnv) (cdPath demoDriver) demoCDISpec exampleFs")
      (simp add: exampleEnv_def demoDriver_def)
  then have ready: "fst (readyzResponse (stStatus (refreshAll exampleEnv demoDriver [demoInput] demoStart))) = 200"
    by (simp add: refreshAll_def Refresh_def demoDriver_def writeSpec_def demoStart_def MarkReady_def readyzResponse_def statusSnapshot_def)
  have "documentFile exampleEnv spec \<noteq> None" for spec by (simp add: documentFile_def exampleEnv_def)
  then show ?thesis
    using refreshAll_document [where dir = "''/cdi''" and d = demoDriver and V = exampleEnv and inputs = "[demoInput]" and st = demoStart, OF _ _ _ refl] ready
    by (simp add: demoDriver_def specFor_def)
qed

section \<open>Operators of a node selector\<close>

text \<open>The operator of a requirement is not looked at: a selector that keeps a claim away from a node shows it there.\<close>

lemma allocationMatchesNode_operator:
  "allocationMatchesNode
     \<lparr>allocResults = [], allocNodeSelector = Some [\<lparr>matchFields = [\<lparr>req_key = ''metadata.name'', req_operator = ''NotIn'', req_values = [''n'']\<rparr>],
        matchExpressions = []\<rparr>]\<rparr> ''n''"
  by (simp add: allocationMatchesNode_def termNamesNode_def)

end
