(* ===== verification/Step_System.thy ===== *)
theory Step_System
  imports Main
begin

text \<open>
  Programs whose goroutines interleave are step relations here. The locale is what an invariant of such a relation promises: it holds
  at the start, and every step keeps it; then it holds in every reachable state, and what the steps keep under it stays.
\<close>

locale step_system =
  fixes step :: "'s \<Rightarrow> 's \<Rightarrow> bool" and start :: 's and invariant :: "'s \<Rightarrow> bool"
  assumes start_invariant: "invariant start"
    and step_invariant: "step s s' \<Longrightarrow> invariant s \<Longrightarrow> invariant s'"
begin

lemma run_invariant: "step\<^sup>*\<^sup>* start s \<Longrightarrow> invariant s"
  by (induction rule: rtranclp_induct) (simp_all add: start_invariant step_invariant)

lemma run_stays:
  assumes "step\<^sup>*\<^sup>* start s" "step\<^sup>*\<^sup>* s s'" "P s" "\<And>t t'. step t t' \<Longrightarrow> invariant t \<Longrightarrow> P t \<Longrightarrow> P t'"
  shows "P s' \<and> invariant s'"
proof -
  have "invariant s" by (rule run_invariant [OF assms(1)])
  with assms(2,3) show ?thesis by (induction rule: rtranclp_induct) (auto intro: assms(4) step_invariant)
qed

end

end
