(* ===== verification/Server_Stream.thy ===== *)
theory Server_Stream
  imports Prelude Step_System "HOL-Library.Sublist"
begin

text \<open>
  The event stream of the API server, \<^verbatim>\<open>internal/server/server.go\<close>: \<^verbatim>\<open>handleStream\<close>, one goroutine per request,
  \<^verbatim>\<open>runSSEBroadcaster\<close> with \<^verbatim>\<open>broadcast\<close>, and the map \<^verbatim>\<open>clients\<close> they share under a mutex, as a step relation over
  all interleavings. A channel is the number of its request; its buffer, whether it is closed, and the events offered to it and
  written from it are functions of that number; \<open>ssBroadcasts\<close> records every broadcast with the clients registered when it took the
  mutex. A send on a closed channel and a second close panic in Go: the flag
  \<open>ssPanicked\<close> records them. The critical sections of one statement are one step; \<^verbatim>\<open>broadcast\<close> holds the mutex over its loop,
  so it is taken exactly while the broadcaster is in \<open>Sending\<close>.
\<close>

section \<open>State\<close>

datatype stream_phase =
    Registering
  | SendingInitial
  | Selecting
  | WritingEvent string
  | Leaving
  | ClosingChannel
  | StreamReturned
  | Refused

datatype broadcaster_phase =
    AwaitingTick
  | BuildingGraph
  | Broadcasting string
  | Sending string "nat set"
  | BroadcasterStopped

record sse_state =
  ssStreams :: "nat \<Rightarrow> stream_phase option"
  ssClients :: "nat set"
  ssBuffer :: "nat \<Rightarrow> string list"
  ssClosed :: "nat set"
  ssBroadcaster :: broadcaster_phase
  ssPanicked :: bool
  ssBroadcasts :: "(string \<times> nat set) list"
  ssOffered :: "nat \<Rightarrow> string list"
  ssWritten :: "nat \<Rightarrow> string list"

definition sseStart :: sse_state where
  "sseStart =
     \<lparr>ssStreams = (\<lambda>_. None), ssClients = {}, ssBuffer = (\<lambda>_. []), ssClosed = {}, ssBroadcaster = AwaitingTick,
      ssPanicked = False, ssBroadcasts = [], ssOffered = (\<lambda>_. []), ssWritten = (\<lambda>_. [])\<rparr>"

definition mutexFree :: "sse_state \<Rightarrow> bool" where
  "mutexFree s = (case ssBroadcaster s of Sending _ _ \<Rightarrow> False | _ \<Rightarrow> True)"

definition setPhase :: "nat \<Rightarrow> stream_phase \<Rightarrow> sse_state \<Rightarrow> sse_state" where
  "setPhase c p s = s\<lparr>ssStreams := (ssStreams s)(c := Some p)\<rparr>"

section \<open>The handler\<close>

text \<open>The write deadline: an error other than \<^verbatim>\<open>ErrNotSupported\<close> ends the request before a channel is registered.\<close>

definition configureStream :: "nat \<Rightarrow> bool \<Rightarrow> sse_state \<Rightarrow> sse_state" where
  "configureStream c deadlineFails s = setPhase c (if deadlineFails then Refused else Registering) s"

definition registerClient :: "nat \<Rightarrow> sse_state \<Rightarrow> sse_state" where
  "registerClient c s = setPhase c SendingInitial (s\<lparr>ssClients := insert c (ssClients s)\<rparr>)"

text \<open>The first graph: not sent when it cannot be built or encoded; \<open>writeFails\<close> is the outcome of \<^verbatim>\<open>writeSSEEvent\<close>.\<close>

definition sendInitial :: "nat \<Rightarrow> bool \<Rightarrow> bool \<Rightarrow> sse_state \<Rightarrow> sse_state" where
  "sendInitial c built writeFails s = setPhase c (if built \<and> writeFails then Leaving else Selecting) s"

text \<open>The two cases of the \<^verbatim>\<open>select\<close>: a closed channel with an empty buffer delivers the zero value with \<^verbatim>\<open>ok\<close> false.\<close>

definition receiveEvent :: "nat \<Rightarrow> sse_state \<Rightarrow> sse_state" where
  "receiveEvent c s =
     (case ssBuffer s c of
        [] \<Rightarrow> setPhase c Leaving s
      | m # rest \<Rightarrow> setPhase c (WritingEvent m) (s\<lparr>ssBuffer := (ssBuffer s)(c := rest)\<rparr>))"

definition writeEvent :: "nat \<Rightarrow> string \<Rightarrow> bool \<Rightarrow> sse_state \<Rightarrow> sse_state" where
  "writeEvent c m writeFails s =
     (if writeFails then setPhase c Leaving s
      else setPhase c Selecting (s\<lparr>ssWritten := (ssWritten s)(c := ssWritten s c @ [m])\<rparr>))"

text \<open>The deferred function: remove the channel under the mutex, then close it.\<close>

definition unregisterClient :: "nat \<Rightarrow> sse_state \<Rightarrow> sse_state" where
  "unregisterClient c s = setPhase c ClosingChannel (s\<lparr>ssClients := ssClients s - {c}\<rparr>)"

definition closeChannel :: "nat \<Rightarrow> sse_state \<Rightarrow> sse_state" where
  "closeChannel c s =
     setPhase c StreamReturned (s\<lparr>ssPanicked := (ssPanicked s \<or> c \<in> ssClosed s), ssClosed := insert c (ssClosed s)\<rparr>)"

section \<open>The broadcaster\<close>

definition tick :: "sse_state \<Rightarrow> sse_state" where
  "tick s = s\<lparr>ssBroadcaster := (if ssClients s = {} then AwaitingTick else BuildingGraph)\<rparr>"

definition graphBuilt :: "string option \<Rightarrow> sse_state \<Rightarrow> sse_state" where
  "graphBuilt data s = s\<lparr>ssBroadcaster := (case data of None \<Rightarrow> AwaitingTick | Some m \<Rightarrow> Broadcasting m)\<rparr>"

definition lockClients :: "string \<Rightarrow> sse_state \<Rightarrow> sse_state" where
  "lockClients m s = s\<lparr>ssBroadcaster := Sending m (ssClients s), ssBroadcasts := ssBroadcasts s @ [(m, ssClients s)]\<rparr>"

text \<open>One turn of the loop over the clients: a send that does not block, on a channel with one place.\<close>

definition offerEvent :: "nat \<Rightarrow> string \<Rightarrow> nat set \<Rightarrow> sse_state \<Rightarrow> sse_state" where
  "offerEvent c m remaining s =
     (let s' = s\<lparr>ssBroadcaster := Sending m (remaining - {c}), ssOffered := (ssOffered s)(c := ssOffered s c @ [m])\<rparr>
      in if c \<in> ssClosed s then s'\<lparr>ssPanicked := True\<rparr>
         else if length (ssBuffer s c) < 1 then s'\<lparr>ssBuffer := (ssBuffer s)(c := ssBuffer s c @ [m])\<rparr>
         else s')"

section \<open>All interleavings\<close>

inductive sse_step :: "sse_state \<Rightarrow> sse_state \<Rightarrow> bool" where
  request: "ssStreams s c = None \<Longrightarrow> sse_step s (configureStream c deadlineFails s)"
| register: "ssStreams s c = Some Registering \<Longrightarrow> mutexFree s \<Longrightarrow> sse_step s (registerClient c s)"
| initial: "ssStreams s c = Some SendingInitial \<Longrightarrow> sse_step s (sendInitial c built writeFails s)"
| context_done: "ssStreams s c = Some Selecting \<Longrightarrow> sse_step s (setPhase c Leaving s)"
| receive: "ssStreams s c = Some Selecting \<Longrightarrow> ssBuffer s c \<noteq> [] \<or> c \<in> ssClosed s \<Longrightarrow> sse_step s (receiveEvent c s)"
| event_written: "ssStreams s c = Some (WritingEvent m) \<Longrightarrow> sse_step s (writeEvent c m writeFails s)"
| unregister: "ssStreams s c = Some Leaving \<Longrightarrow> mutexFree s \<Longrightarrow> sse_step s (unregisterClient c s)"
| close_channel: "ssStreams s c = Some ClosingChannel \<Longrightarrow> sse_step s (closeChannel c s)"
| ticked: "ssBroadcaster s = AwaitingTick \<Longrightarrow> sse_step s (tick s)"
| built: "ssBroadcaster s = BuildingGraph \<Longrightarrow> sse_step s (graphBuilt data s)"
| locked: "ssBroadcaster s = Broadcasting m \<Longrightarrow> sse_step s (lockClients m s)"
| offered: "ssBroadcaster s = Sending m remaining \<Longrightarrow> c \<in> remaining \<Longrightarrow> sse_step s (offerEvent c m remaining s)"
| unlocked: "ssBroadcaster s = Sending m {} \<Longrightarrow> sse_step s (s\<lparr>ssBroadcaster := AwaitingTick\<rparr>)"
| stopped: "ssBroadcaster s = AwaitingTick \<Longrightarrow> sse_step s (s\<lparr>ssBroadcaster := BroadcasterStopped\<rparr>)"

inductive_cases sse_stepE: "sse_step s s'"

lemmas sse_operations =
  configureStream_def registerClient_def sendInitial_def receiveEvent_def writeEvent_def unregisterClient_def closeChannel_def
  tick_def graphBuilt_def lockClients_def offerEvent_def setPhase_def

section \<open>Invariant\<close>

fun registered :: "stream_phase option \<Rightarrow> bool" where
  "registered None = False"
| "registered (Some Registering) = False"
| "registered (Some SendingInitial) = True"
| "registered (Some Selecting) = True"
| "registered (Some (WritingEvent m)) = True"
| "registered (Some Leaving) = True"
| "registered (Some ClosingChannel) = False"
| "registered (Some StreamReturned) = False"
| "registered (Some Refused) = False"

fun inHand :: "stream_phase option \<Rightarrow> string list" where
  "inHand (Some (WritingEvent m)) = [m]"
| "inHand _ = []"

text \<open>The channels: registered exactly while the handler is between its two critical sections, closed exactly after it.\<close>

definition channelsInv :: "sse_state \<Rightarrow> bool" where
  "channelsInv s \<longleftrightarrow>
     \<not> ssPanicked s \<and>
     (\<forall>c. c \<in> ssClients s \<longleftrightarrow> registered (ssStreams s c)) \<and>
     (\<forall>c. c \<in> ssClosed s \<longleftrightarrow> ssStreams s c = Some StreamReturned) \<and>
     (case ssBroadcaster s of Sending m remaining \<Rightarrow> remaining \<subseteq> ssClients s | _ \<Rightarrow> True)"

lemma channelsInv_step: "sse_step s s' \<Longrightarrow> channelsInv s \<Longrightarrow> channelsInv s'"
proof (induction rule: sse_step.induct)
  case (offered s m remaining c)
  then have "c \<notin> ssClosed s" by (auto simp: channelsInv_def)
  with offered show ?case by (auto simp: channelsInv_def sse_operations Let_def)
qed (auto simp: channelsInv_def sse_operations mutexFree_def split: broadcaster_phase.splits list.splits option.split if_splits)

text \<open>
  The events: a buffer holds at most one, and what has been written, is in hand and is buffered for a client is an ordered
  selection of what was offered to it.
\<close>

definition deliveryInv :: "sse_state \<Rightarrow> bool" where
  "deliveryInv s \<longleftrightarrow>
     (\<forall>c. length (ssBuffer s c) \<le> 1 \<and> subseq (ssWritten s c @ inHand (ssStreams s c) @ ssBuffer s c) (ssOffered s c))"

lemma subseq_drop_middle: "subseq (xs @ ys @ zs) os \<Longrightarrow> subseq (xs @ zs) os"
  by (rule subseq_order.order_trans [of _ "xs @ ys @ zs"]) (simp_all add: subseq_append' subseq_drop_many)

lemma subseq_offer: "subseq xs os \<Longrightarrow> subseq (xs @ [m]) (os @ [m])"
  by (simp add: list_emb_append_mono)

lemma deliveryInv_setPhase: "deliveryInv s \<Longrightarrow> inHand (Some p) = inHand (ssStreams s c) \<Longrightarrow> deliveryInv (setPhase c p s)"
  by (auto simp: deliveryInv_def setPhase_def)

lemma deliveryInv_other [simp]:
  "deliveryInv (s\<lparr>ssClients := cs\<rparr>) = deliveryInv s" "deliveryInv (s\<lparr>ssBroadcaster := b\<rparr>) = deliveryInv s"
  "deliveryInv (s\<lparr>ssBroadcasts := bs\<rparr>) = deliveryInv s"
  "deliveryInv (s\<lparr>ssClosed := cl\<rparr>) = deliveryInv s" "deliveryInv (s\<lparr>ssPanicked := p\<rparr>) = deliveryInv s"
  by (simp_all add: deliveryInv_def)

lemma deliveryInv_step: "sse_step s s' \<Longrightarrow> deliveryInv s \<Longrightarrow> deliveryInv s'"
proof (induction rule: sse_step.induct)
  case (event_written s c m writeFails)
  then have "subseq (ssWritten s c @ [m] @ ssBuffer s c) (ssOffered s c)"
    unfolding deliveryInv_def by (metis inHand.simps(1))
  with event_written show ?case
    using subseq_drop_middle [of "ssWritten s c" "[m]" "ssBuffer s c"] by (auto simp: deliveryInv_def sse_operations)
next
  case (offered s m remaining c)
  then have "subseq (ssWritten s c @ inHand (ssStreams s c) @ ssBuffer s c) (ssOffered s c)"
    by (simp add: deliveryInv_def)
  from subseq_offer [OF this, of m] subseq_rev_drop_many [OF this, of "[m]"] offered show ?case
    by (auto simp: deliveryInv_def sse_operations Let_def)
next
  case (receive s c)
  show ?case
  proof (cases "ssBuffer s c")
    case Nil
    then show ?thesis using receive by (simp add: receiveEvent_def deliveryInv_setPhase)
  next
    case (Cons m rest)
    have "length (ssBuffer s c) \<le> 1 \<and> subseq (ssWritten s c @ inHand (ssStreams s c) @ ssBuffer s c) (ssOffered s c)"
      using receive(3) unfolding deliveryInv_def by blast
    then have "rest = [] \<and> subseq (ssWritten s c @ [m]) (ssOffered s c)" using Cons receive(1) by auto
    then show ?thesis using receive(3) Cons by (simp add: receiveEvent_def deliveryInv_def setPhase_def)
  qed
qed (simp_all add: deliveryInv_setPhase configureStream_def registerClient_def sendInitial_def unregisterClient_def
      closeChannel_def tick_def graphBuilt_def lockClients_def)

text \<open>The broadcasts: a client has been offered every event of a broadcast it was registered for, but the one whose loop has not come to it.\<close>

definition broadcastTo :: "nat \<Rightarrow> sse_state \<Rightarrow> string list" where
  "broadcastTo c s = map fst (filter (\<lambda>b. c \<in> snd b) (ssBroadcasts s))"

definition offerPending :: "nat \<Rightarrow> sse_state \<Rightarrow> string list" where
  "offerPending c s = (case ssBroadcaster s of Sending m remaining \<Rightarrow> if c \<in> remaining then [m] else [] | _ \<Rightarrow> [])"

definition offersInv :: "sse_state \<Rightarrow> bool" where
  "offersInv s \<longleftrightarrow> (\<forall>c. ssOffered s c @ offerPending c s = broadcastTo c s)"

lemma offersInv_step: "sse_step s s' \<Longrightarrow> offersInv s \<Longrightarrow> offersInv s'"
proof (induction rule: sse_step.induct)
  case (offered s m remaining c)
  then have old: "broadcastTo c' s = ssOffered s c' @ (if c' \<in> remaining then [m] else [])" for c'
    by (simp add: offersInv_def offerPending_def)
  have "broadcastTo c' (offerEvent c m remaining s) = broadcastTo c' s" for c' by (simp add: broadcastTo_def offerEvent_def Let_def)
  with offered(2) show ?case by (simp add: offersInv_def offerPending_def offerEvent_def Let_def old)
qed (auto simp: offersInv_def offerPending_def broadcastTo_def configureStream_def registerClient_def sendInitial_def receiveEvent_def
    writeEvent_def unregisterClient_def closeChannel_def tick_def graphBuilt_def lockClients_def setPhase_def split: list.split option.split)

interpretation sse: step_system sse_step sseStart "\<lambda>s. channelsInv s \<and> deliveryInv s \<and> offersInv s"
  by unfold_locales (simp add: channelsInv_def deliveryInv_def offersInv_def offerPending_def broadcastTo_def sseStart_def,
    simp add: channelsInv_step deliveryInv_step offersInv_step)

lemmas sse_run_inv = sse.run_invariant

section \<open>What clients and broadcaster can rely on\<close>

text \<open>
  C21. The stream is safe under every interleaving of requests, ticks and disconnects. No send meets a closed channel and no
  channel is closed twice, so nothing panics; a channel is registered exactly between the two critical sections of its handler, and
  a handler that has returned leaves its channel unregistered and closed, so nothing leaks; and a handler that waits never sees its
  channel closed. The broadcaster never waits for a client: whatever the buffers hold, each turn of its loop can be taken and
  leaves one client fewer.
\<close>

theorem sse_safe:
  assumes "sse_step\<^sup>*\<^sup>* sseStart s"
  shows "\<not> ssPanicked s \<and>
    (\<forall>c. c \<in> ssClients s \<longleftrightarrow> registered (ssStreams s c)) \<and>
    (\<forall>c. c \<in> ssClosed s \<longleftrightarrow> ssStreams s c = Some StreamReturned) \<and>
    (\<forall>m remaining c. ssBroadcaster s = Sending m remaining \<longrightarrow> c \<in> remaining \<longrightarrow>
       c \<in> ssClients s \<and> sse_step s (offerEvent c m remaining s) \<and>
       ssBroadcaster (offerEvent c m remaining s) = Sending m (remaining - {c}))"
proof -
  have offer: "ssBroadcaster (offerEvent c m remaining s) = Sending m (remaining - {c})" for c m remaining
    by (simp add: offerEvent_def Let_def)
  have "c \<in> ssClients s" if "ssBroadcaster s = Sending m remaining" "c \<in> remaining" for c m remaining
    using sse_run_inv [OF assms] that unfolding channelsInv_def by auto
  then show ?thesis
    using sse_run_inv [OF assms] offer unfolding channelsInv_def by (blast intro: sse_step.offered)
qed

text \<open>
  C22. What a client gets: the events offered to it are exactly those of the broadcasts it was registered for, in their order, none
  skipped because of another client and none twice, the event of a broadcast that is under way excepted until its loop comes to the
  client. What has been written to it, is being written and waits for it are of these, in order; at most one waits. An offer is
  left out only for a client that still has an event waiting: a client whose buffer is empty gets the event, and the loop goes on to
  the others in either case.
\<close>

theorem sse_delivery:
  assumes "sse_step\<^sup>*\<^sup>* sseStart s"
  shows "\<forall>c. ssOffered s c @ (case ssBroadcaster s of Sending m remaining \<Rightarrow> if c \<in> remaining then [m] else [] | _ \<Rightarrow> []) =
      map fst (filter (\<lambda>b. c \<in> snd b) (ssBroadcasts s)) \<and>
    subseq (ssWritten s c @ inHand (ssStreams s c) @ ssBuffer s c) (ssOffered s c) \<and>
    length (ssBuffer s c) \<le> 1 \<and>
    (\<forall>m remaining. ssBroadcaster s = Sending m remaining \<longrightarrow> c \<in> remaining \<longrightarrow>
       ssBuffer (offerEvent c m remaining s) c = (if ssBuffer s c = [] then [m] else ssBuffer s c) \<and>
       ssBroadcaster (offerEvent c m remaining s) = Sending m (remaining - {c}))"
proof -
  have "ssBuffer (offerEvent c m remaining s) c = (if ssBuffer s c = [] then [m] else ssBuffer s c) \<and>
      ssBroadcaster (offerEvent c m remaining s) = Sending m (remaining - {c})"
    if "ssBroadcaster s = Sending m remaining" "c \<in> remaining" for c m remaining
  proof -
    have "c \<notin> ssClosed s" using sse_run_inv [OF assms] that by (auto simp: channelsInv_def)
    then show ?thesis by (simp add: offerEvent_def Let_def)
  qed
  then show ?thesis using sse_run_inv [OF assms] by (auto simp: deliveryInv_def offersInv_def offerPending_def broadcastTo_def)
qed

text \<open>
  A slow client: it connects, the first graph is written, two broadcasts are made and the second one finds the first event still
  in the buffer.
\<close>

definition slowClientSteps :: "(sse_state \<Rightarrow> sse_state) list" where
  "slowClientSteps =
     [configureStream 0 False, registerClient 0, sendInitial 0 True False,
      tick, graphBuilt (Some ''g1''), lockClients ''g1'', offerEvent 0 ''g1'' {0}, ssBroadcaster_update (\<lambda>_. AwaitingTick),
      tick, graphBuilt (Some ''g2''), lockClients ''g2'']"

definition slowClient :: sse_state where
  "slowClient = fold (\<lambda>f s. f s) slowClientSteps sseStart"

lemma slowClient_run: "sse_step\<^sup>*\<^sup>* sseStart slowClient"
proof -
  define s1 where "s1 = configureStream 0 False sseStart"
  define s2 where "s2 = registerClient 0 s1"
  define s3 where "s3 = sendInitial 0 True False s2"
  define s4 where "s4 = tick s3"
  define s5 where "s5 = graphBuilt (Some ''g1'') s4"
  define s6 where "s6 = lockClients ''g1'' s5"
  define s7 where "s7 = offerEvent 0 ''g1'' {0} s6"
  define s8 where "s8 = s7\<lparr>ssBroadcaster := AwaitingTick\<rparr>"
  define s9 where "s9 = tick s8"
  define s10 where "s10 = graphBuilt (Some ''g2'') s9"
  note defs = s1_def s2_def s3_def s4_def s5_def s6_def s7_def s8_def s9_def s10_def
  note eval = sse_operations Let_def sseStart_def mutexFree_def
  have "sse_step sseStart s1" unfolding s1_def by (rule sse_step.request) (simp add: eval)
  moreover have "sse_step s1 s2" unfolding s2_def by (rule sse_step.register) (simp_all add: s1_def eval)
  moreover have "sse_step s2 s3" unfolding s3_def by (rule sse_step.initial) (simp add: defs eval)
  moreover have "sse_step s3 s4" unfolding s4_def by (rule sse_step.ticked) (simp add: defs eval)
  moreover have "sse_step s4 s5" unfolding s5_def by (rule sse_step.built) (simp add: defs eval)
  moreover have "sse_step s5 s6" unfolding s6_def by (rule sse_step.locked) (simp add: defs eval)
  moreover have "sse_step s6 s7" unfolding s7_def by (rule sse_step.offered) (simp_all add: defs eval)
  moreover have "sse_step s7 s8" unfolding s8_def by (rule sse_step.unlocked [of _ "''g1''"]) (simp add: defs eval)
  moreover have "sse_step s8 s9" unfolding s9_def by (rule sse_step.ticked) (simp add: defs eval)
  moreover have "sse_step s9 s10" unfolding s10_def by (rule sse_step.built) (simp add: defs eval)
  moreover have "sse_step s10 slowClient"
  proof -
    have "slowClient = lockClients ''g2'' s10" by (simp add: slowClient_def slowClientSteps_def defs)
    moreover have "ssBroadcaster s10 = Broadcasting ''g2''" by (simp add: defs eval)
    ultimately show ?thesis using sse_step.locked by metis
  qed
  ultimately show ?thesis by (meson converse_rtranclp_into_rtranclp rtranclp.rtrancl_refl)
qed

lemma slowClient_state:
  "ssBroadcaster slowClient = Sending ''g2'' {0} \<and> ssBuffer slowClient 0 = [''g1''] \<and> ssStreams slowClient 0 = Some Selecting"
  by (simp add: slowClient_def slowClientSteps_def sse_operations Let_def sseStart_def)

theorem sse_safe_witness: "\<not> ssPanicked slowClient \<and> 0 \<in> ssClients slowClient \<and> sse_step slowClient (offerEvent 0 ''g2'' {0} slowClient)"
  using sse_safe [OF slowClient_run] slowClient_state by simp

theorem sse_delivery_witness:
  "ssBuffer (offerEvent 0 ''g2'' {0} slowClient) 0 = [''g1''] \<and>
   ssOffered slowClient 0 @ [''g2''] = map fst (filter (\<lambda>b. 0 \<in> snd b) (ssBroadcasts slowClient))"
  using sse_delivery [OF slowClient_run, THEN spec, of 0] slowClient_state by simp

end
