(* ===== verification/Redaction.thy ===== *)
theory Redaction
  imports API_Monad
begin

text \<open>
  Redaction, \<^verbatim>\<open>internal/redaction/redact.go\<close>. The five patterns of \<^verbatim>\<open>RedactString\<close> are written as matchers: what the
  leftmost-first semantics of package \<^verbatim>\<open>regexp\<close> consumes at the head of a text. None of them leaves a choice: in each, the class
  that is repeated does not contain the character that has to follow, or contains all that may follow. With the flag \<^verbatim>\<open>i\<close> the
  letters \<open>k\<close> and \<open>s\<close> also match the Kelvin sign and the long s, which are three and two bytes. A value decoded into
  \<^verbatim>\<open>interface{}\<close> is a \<open>json_value\<close>.
\<close>

section \<open>Matchers\<close>

type_synonym matcher = "string \<Rightarrow> (string \<times> nat) option"

text \<open>\<^verbatim>\<open>ReplaceAllString\<close>: \<open>m\<close> gives the replacement and the bytes consumed, at least one.\<close>

function replaceAll :: "matcher \<Rightarrow> string \<Rightarrow> string" where
  "replaceAll m [] = []"
| "replaceAll m (c # cs) =
     (case m (c # cs) of
        None \<Rightarrow> c # replaceAll m cs
      | Some (r, n) \<Rightarrow> r @ replaceAll m (drop (n - 1) cs))"
  by pat_completeness auto

termination by (relation "measure (\<lambda>(_, s). length s)") auto

definition byteIn :: "char \<Rightarrow> char \<Rightarrow> char \<Rightarrow> bool" where
  "byteIn lo hi c \<longleftrightarrow> (of_char lo :: nat) \<le> of_char c \<and> of_char c \<le> (of_char hi :: nat)"

definition alphaNum :: "char \<Rightarrow> bool" where
  "alphaNum c \<longleftrightarrow> byteIn (CHR ''A'') (CHR ''Z'') c \<or> byteIn (CHR ''a'') (CHR ''z'') c \<or> byteIn (CHR ''0'') (CHR ''9'') c"

definition lowerHex :: "char \<Rightarrow> bool" where
  "lowerHex c \<longleftrightarrow> byteIn (CHR ''a'') (CHR ''f'') c \<or> byteIn (CHR ''0'') (CHR ''9'') c"

definition isDOToken :: "string \<Rightarrow> bool" where
  "isDOToken t \<longleftrightarrow> length t = 71 \<and> take 7 t = ''dop_v1_'' \<and> list_all lowerHex (drop 7 t)"

definition doTokenRegex :: matcher where
  "doTokenRegex s = (if isDOToken (take 71 s) then Some (''[REDACTED_DIGITALOCEAN_TOKEN]'', 71) else None)"

definition jwtChar :: "char \<Rightarrow> bool" where
  "jwtChar c \<longleftrightarrow> alphaNum c \<or> c \<in> {CHR ''-'', CHR ''_'', CHR ''=''}"

definition jwtTailChar :: "char \<Rightarrow> bool" where
  "jwtTailChar c \<longleftrightarrow> jwtChar c \<or> c \<in> {CHR ''.'', CHR ''+'', CHR ''/''}"

definition jwtRegex :: matcher where
  "jwtRegex s =
     (if \<not> prefix ''eyJhbGciOi'' s then None
      else let head = takeWhile jwtChar (drop 10 s); rest = dropWhile jwtChar (drop 10 s)
           in case rest of
                dot # body \<Rightarrow>
                  if dot = CHR ''.'' \<and> head \<noteq> [] \<and> body \<noteq> [] \<and> jwtChar (hd body)
                  then Some (''[REDACTED_JWT_TOKEN]'', 10 + length head + 1 + length (takeWhile jwtTailChar body)) else None
              | _ \<Rightarrow> None)"

text \<open>A line of a PEM block, as the bytes consumed; the search for the first closing line, as the bytes up to its end.\<close>

definition privateKeyLine :: "string \<Rightarrow> string \<Rightarrow> nat option" where
  "privateKeyLine start s =
     (if \<not> prefix start s then None
      else let words = takeWhile (\<lambda>c. byteIn (CHR ''A'') (CHR ''Z'') c \<or> c = CHR '' '') (drop (length start) s);
               rest = drop (length start + length words) s
           in if suffix ''PRIVATE KEY'' words \<and> prefix ''-----'' rest then Some (length start + length words + 5) else None)"

definition literalLine :: "string \<Rightarrow> string \<Rightarrow> nat option" where
  "literalLine text s = (if prefix text s then Some (length text) else None)"

fun searchEnd :: "(string \<Rightarrow> nat option) \<Rightarrow> string \<Rightarrow> nat option" where
  "searchEnd m [] = m []"
| "searchEnd m (c # cs) = (case m (c # cs) of Some n \<Rightarrow> Some n | None \<Rightarrow> map_option Suc (searchEnd m cs))"

definition blockMatch :: "(string \<Rightarrow> nat option) \<Rightarrow> (string \<Rightarrow> nat option) \<Rightarrow> string \<Rightarrow> matcher" where
  "blockMatch opening closing replacement s =
     (case opening s of
        None \<Rightarrow> None
      | Some n \<Rightarrow> (case searchEnd closing (drop n s) of None \<Rightarrow> None | Some k \<Rightarrow> Some (replacement, n + k)))"

definition pemPrivateRegex :: matcher where
  "pemPrivateRegex = blockMatch (privateKeyLine ''-----BEGIN '') (privateKeyLine ''-----END '') ''[REDACTED_PRIVATE_KEY]''"

definition pemCertRegex :: matcher where
  "pemCertRegex =
     blockMatch (literalLine ''-----BEGIN CERTIFICATE-----'') (literalLine ''-----END CERTIFICATE-----'') ''[REDACTED_CERTIFICATE]''"

section \<open>Case folding\<close>

definition lowerASCII :: "char \<Rightarrow> char" where
  "lowerASCII c = (if byteIn (CHR ''A'') (CHR ''Z'') c then char_of (of_char c + 32 :: nat) else c)"

text \<open>The bytes at the head of a text that match a lower-case pattern character.\<close>

definition foldChar :: "char \<Rightarrow> string \<Rightarrow> nat option" where
  "foldChar p s =
     (case s of
        [] \<Rightarrow> None
      | c # _ \<Rightarrow>
          if lowerASCII c = p then Some 1
          else if p = CHR ''k'' \<and> prefix [CHR 0xE2, CHR 0x84, CHR 0xAA] s then Some 3
          else if p = CHR ''s'' \<and> prefix [CHR 0xC5, CHR 0xBF] s then Some 2
          else None)"

fun foldWord :: "string \<Rightarrow> string \<Rightarrow> nat option" where
  "foldWord [] s = Some 0"
| "foldWord (p # ps) s = (case foldChar p s of None \<Rightarrow> None | Some n \<Rightarrow> map_option ((+) n) (foldWord ps (drop n s)))"

definition base64Bytes :: "string \<Rightarrow> nat" where
  "base64Bytes s =
     (case s of
        [] \<Rightarrow> 0
      | c # _ \<Rightarrow>
          if alphaNum c \<or> c \<in> {CHR ''+'', CHR ''/'', CHR ''=''} then 1
          else if prefix [CHR 0xE2, CHR 0x84, CHR 0xAA] s then 3
          else if prefix [CHR 0xC5, CHR 0xBF] s then 2
          else 0)"

function base64Run :: "string \<Rightarrow> nat" where
  "base64Run s = (if s = [] \<or> base64Bytes s = 0 then 0 else base64Bytes s + base64Run (drop (base64Bytes s) s))"
  by pat_completeness auto

termination by (relation "measure length") auto

declare base64Run.simps [simp del]

definition kubeconfigKeys :: "string list" where
  "kubeconfigKeys = [''client-certificate-data'', ''client-key-data'', ''certificate-authority-data'']"

definition blank :: "char \<Rightarrow> bool" where
  "blank c \<longleftrightarrow> c \<in> {CHR 0x09, CHR 0x0A, CHR 0x0C, CHR 0x0D, CHR 0x20}"

definition kubeconfigRegex :: matcher where
  "kubeconfigRegex s =
     (case List.map_filter (\<lambda>word. foldWord word s) kubeconfigKeys of
        [] \<Rightarrow> None
      | n # _ \<Rightarrow>
          (case drop n s of
             colon # rest \<Rightarrow>
               (let blanks = length (takeWhile blank rest); run = base64Run (drop blanks rest)
                in if colon \<noteq> CHR '':'' \<or> run = 0 then None else Some (take n s @ '': [REDACTED_BASE64_DATA]'', n + 1 + blanks + run))
           | _ \<Rightarrow> None))"

section \<open>Redaction\<close>

definition RedactString :: "string \<Rightarrow> string" where
  "RedactString input =
     (if input = '''' then ''''
      else replaceAll kubeconfigRegex (replaceAll pemCertRegex (replaceAll pemPrivateRegex (replaceAll jwtRegex
             (replaceAll doTokenRegex input)))))"

definition keyWords :: "string list" where
  "keyWords = [''token'', ''password'', ''secret'', ''key'', ''auth'', ''cert'', ''credential'', ''private'', ''pass'', ''pwd'']"

fun keyRegex :: "string \<Rightarrow> bool" where
  "keyRegex [] = False"
| "keyRegex (c # cs) = (list_ex (\<lambda>word. foldWord word (c # cs) \<noteq> None) keyWords \<or> keyRegex cs)"

datatype json_value =
    JNilMap
  | JMap "(string \<times> json_value) list"
  | JString string
  | JList "json_value list"
  | JScalar string

text \<open>The body of the loop of \<^verbatim>\<open>RedactMap\<close>: what becomes of a value whose key is not sensitive.\<close>

fun RedactMap :: "json_value \<Rightarrow> json_value" where
  "RedactMap JNilMap = JNilMap"
| "RedactMap (JMap m) = JMap (map (\<lambda>(k, v). (k, if keyRegex k then JString ''[REDACTED]'' else RedactMap v)) m)"
| "RedactMap (JString t) = JString (RedactString t)"
| "RedactMap (JList vs) = JList vs"
| "RedactMap (JScalar t) = JScalar t"

section \<open>Maps\<close>

fun lookupPath :: "json_value \<Rightarrow> string list \<Rightarrow> json_value option" where
  "lookupPath v [] = Some v"
| "lookupPath (JMap m) (k # ks) = (case map_of m k of None \<Rightarrow> None | Some v \<Rightarrow> lookupPath v ks)"
| "lookupPath _ (k # ks) = None"

lemma map_of_RedactMap:
  "map_of (map (\<lambda>(k, v). (k, if keyRegex k then JString ''[REDACTED]'' else RedactMap v)) m) k =
     map_option (\<lambda>v. if keyRegex k then JString ''[REDACTED]'' else RedactMap v) (map_of m k)"
  by (induction m) auto

text \<open>
  Redaction of a map reaches every nested map: behind a path of keys, the redacted value has \<^verbatim>\<open>[REDACTED]\<close> exactly where the
  last key is the first sensitive one, nothing where an earlier key is sensitive, and otherwise the redaction of the value that was
  there. So no value below a sensitive key survives, whatever its type, and no other key is lost.
\<close>

theorem RedactMap_paths:
  "lookupPath (RedactMap v) (ks @ [k]) =
     (if list_ex keyRegex ks then None
      else if keyRegex k then map_option (\<lambda>_. JString ''[REDACTED]'') (lookupPath v (ks @ [k]))
      else map_option RedactMap (lookupPath v (ks @ [k])))"
proof (induction ks arbitrary: v)
  case Nil
  show ?case by (cases v) (auto simp: map_of_RedactMap split: option.split)
next
  case (Cons k' ks)
  have scalar: "lookupPath (JString t) (xs @ [k]) = None" for t xs by (cases xs) simp_all
  show ?case by (cases v) (auto simp: map_of_RedactMap Cons.IH scalar split: option.split)
qed

text \<open>Lists are copied as they are: a secret in a map inside a list survives.\<close>

lemma RedactMap_lists:
  "RedactMap (JMap [(''users'', JList [JMap [(''password'', JString ''hunter2'')]])]) =
     JMap [(''users'', JList [JMap [(''password'', JString ''hunter2'')]])]"
proof -
  have "\<not> keyRegex ''users''" by code_simp
  then show ?thesis by simp
qed

section \<open>Tokens\<close>

text \<open>
  A replacement that is a part of what it replaces, followed by a bracket or colon and a note shorter than the text looked for, cannot
  produce a text without brackets and colons that was not there before.
\<close>

definition bracketed :: "nat \<Rightarrow> matcher \<Rightarrow> bool" where
  "bracketed b m \<longleftrightarrow>
     (\<forall>s r n. m s = Some (r, n) \<longrightarrow>
        (\<exists>p c remark. r = p @ c # remark @ '']'' \<and> c \<in> set ''[:'' \<and> prefix p s \<and> length remark < b))"

lemma sublist_note:
  assumes "sublist t (p @ c # remark @ d # rest)" "c \<notin> set t" "d \<notin> set t" "length remark < length t"
  shows "sublist t p \<or> sublist t rest"
proof -
  have cut: "sublist t (xs @ x # ys) \<Longrightarrow> x \<notin> set t \<Longrightarrow> sublist t xs \<or> sublist t ys" for xs x ys
  proof -
    assume "sublist t (xs @ x # ys)" "x \<notin> set t"
    then obtain a b where ab: "xs @ x # ys = a @ t @ b" by (auto simp: sublist_def)
    then consider us where "xs = a @ us" "us @ x # ys = t @ b" | us where "a = xs @ us" "x # ys = us @ t @ b"
      by (auto simp: append_eq_append_conv2)
    then show ?thesis
    proof cases
      case 1
      then consider vs where "us = t @ vs" | vs where "t = us @ vs" "x # ys = vs @ b" by (auto simp: append_eq_append_conv2)
      then show ?thesis
      proof cases
        case 1
        with \<open>xs = a @ us\<close> show ?thesis by (metis sublist_appendI)
      next
        case 2
        with \<open>x \<notin> set t\<close> have "vs = []" by (cases vs) auto
        with 2 \<open>xs = a @ us\<close> show ?thesis by (metis append.right_neutral suffix_imp_sublist suffixI)
      qed
    next
      case 2
      show ?thesis
      proof (cases us)
        case Nil
        with 2 \<open>x \<notin> set t\<close> have "t = []" by (cases t) auto
        then show ?thesis by simp
      next
        case (Cons u us')
        with 2 show ?thesis by (metis append_Cons list.inject sublist_appendI)
      qed
    qed
  qed
  from cut [OF assms(1,2)] show ?thesis
  proof
    assume "sublist t (remark @ d # rest)"
    from cut [OF this assms(3)] show ?thesis
      using assms(4) by (auto dest: sublist_length_le)
  qed blast
qed

lemma prefix_replaceAll:
  assumes "bracketed b m" "set t \<inter> set ''[:]'' = {}" "prefix t (replaceAll m s)"
  shows "prefix t s"
  using assms
proof (induction m s arbitrary: t rule: replaceAll.induct)
  case (2 m c cs)
  show ?case
  proof (cases "m (c # cs)")
    case None
    with 2 show ?thesis by (cases t) auto
  next
    case (Some rn)
    obtain r n where rn: "rn = (r, n)" by (cases rn)
    with Some "2.prems"(1) obtain p d remark where r: "r = p @ d # remark @ '']''" "d \<in> set ''[:''" "prefix p (c # cs)"
      unfolding bracketed_def by blast
    have "prefix t (p @ d # (remark @ '']'' @ replaceAll m (drop (n - 1) cs)))"
      using "2.prems"(3) Some rn r(1) by simp
    moreover have "d \<notin> set t" using r(2) "2.prems"(2) by auto
    ultimately have "prefix t p"
      by (auto simp: prefix_append prefix_Cons)
    then show ?thesis using r(3) by (rule prefix_order.trans)
  qed
qed simp

lemma sublist_replaceAll:
  assumes "bracketed b m" "set t \<inter> set ''[:]'' = {}" "b \<le> length t" "sublist t (replaceAll m s)"
  shows "sublist t s"
  using assms
proof (induction m s rule: replaceAll.induct)
  case (2 m c cs)
  show ?case
  proof (cases "m (c # cs)")
    case None
    then consider "prefix t (replaceAll m (c # cs))" | "sublist t (replaceAll m cs)"
      using "2.prems"(4) by (auto simp: sublist_Cons_right)
    then show ?thesis
    proof cases
      case 1
      then show ?thesis using prefix_replaceAll [OF "2.prems"(1,2)] by blast
    next
      case 2
      then show ?thesis using "2.IH"(1) [OF None "2.prems"(1-3)] by (simp add: sublist_Cons_right)
    qed
  next
    case (Some rn)
    obtain r n where rn: "rn = (r, n)" by (cases rn)
    with Some "2.prems"(1) obtain p d remark where r: "r = p @ d # remark @ '']''" "d \<in> set ''[:''" "prefix p (c # cs)" "length remark < b"
      unfolding bracketed_def by blast
    have "sublist t (p @ d # remark @ CHR '']'' # replaceAll m (drop (n - 1) cs))"
      using "2.prems"(4) Some rn r(1) by simp
    moreover have "d \<notin> set t" "CHR '']'' \<notin> set t" using r(2) "2.prems"(2) by auto
    ultimately consider "sublist t p" | "sublist t (replaceAll m (drop (n - 1) cs))"
      using sublist_note [of t p d remark] r(4) "2.prems"(3) by fastforce
    then show ?thesis
    proof cases
      case 1
      then show ?thesis using r(3) by (meson prefix_imp_sublist sublist_order.order_trans)
    next
      case 2
      then have "sublist t (drop (n - 1) cs)" using "2.IH"(2) [OF Some rn [symmetric] "2.prems"(1-3)] by blast
      then show ?thesis by (meson sublist_Cons_right sublist_drop sublist_order.order_trans)
    qed
  qed
qed simp

lemma bracketedI:
  assumes "\<And>s r n. m s = Some (r, n) \<Longrightarrow> \<exists>k c. r = take k s @ c # remark @ '']'' \<and> c \<in> set ''[:''" and "length remark < b"
  shows "bracketed b m"
  unfolding bracketed_def
proof (intro allI impI)
  fix s r n assume "m s = Some (r, n)"
  from assms(1) [OF this] obtain k c where "r = take k s @ c # remark @ '']''" "c \<in> set ''[:''" by blast
  then show "\<exists>p c remark. r = p @ c # remark @ '']'' \<and> c \<in> set ''[:'' \<and> prefix p s \<and> length remark < b"
    using assms(2) take_is_prefix by blast
qed

lemma bracketed_jwt: "bracketed 40 jwtRegex"
proof (rule bracketedI [of _ "''REDACTED_JWT_TOKEN''"])
  fix s r n assume "jwtRegex s = Some (r, n)"
  then have "r = ''[REDACTED_JWT_TOKEN]''" by (auto simp: jwtRegex_def Let_def split: if_splits list.splits)
  then show "\<exists>k c. r = take k s @ c # ''REDACTED_JWT_TOKEN'' @ '']'' \<and> c \<in> set ''[:''"
    by (intro exI [of _ 0]) simp
qed simp

lemma bracketed_block: "length remark < b \<Longrightarrow> bracketed b (blockMatch opening closing (CHR ''['' # remark @ '']''))"
  by (rule bracketedI [of _ remark]) (auto simp: blockMatch_def intro!: exI [of _ 0] split: option.splits)

lemma bracketed_pem: "bracketed 40 pemPrivateRegex" "bracketed 40 pemCertRegex"
  using bracketed_block [of "''REDACTED_PRIVATE_KEY''" 40] bracketed_block [of "''REDACTED_CERTIFICATE''" 40]
  by (simp_all add: pemPrivateRegex_def pemCertRegex_def)

lemma bracketed_kubeconfig: "bracketed 40 kubeconfigRegex"
proof (rule bracketedI [of _ "'' [REDACTED_BASE64_DATA''"])
  fix s r n assume "kubeconfigRegex s = Some (r, n)"
  then obtain k where "r = take k s @ '': [REDACTED_BASE64_DATA]''"
    by (auto simp: kubeconfigRegex_def Let_def split: list.splits if_splits)
  then show "\<exists>k c. r = take k s @ c # '' [REDACTED_BASE64_DATA'' @ '']'' \<and> c \<in> set ''[:''"
    by (intro exI [of _ k] exI [of _ "CHR '':''"]) simp
qed simp

text \<open>A pass of this kind over a text that does not contain \<open>t\<close>.\<close>

locale harmless_pass =
  fixes m :: matcher and b :: nat
  assumes bracketed: "bracketed b m"
begin

lemma keeps_out: "\<not> sublist t s \<Longrightarrow> set t \<inter> set ''[:]'' = {} \<Longrightarrow> b \<le> length t \<Longrightarrow> \<not> sublist t (replaceAll m s)"
  using sublist_replaceAll [OF bracketed] by blast

end

interpretation jwt: harmless_pass jwtRegex 40
  by unfold_locales (rule bracketed_jwt)

interpretation pemPrivate: harmless_pass pemPrivateRegex 40
  by unfold_locales (rule bracketed_pem)

interpretation pemCert: harmless_pass pemCertRegex 40
  by unfold_locales (rule bracketed_pem)

interpretation kubeconfig: harmless_pass kubeconfigRegex 40
  by unfold_locales (rule bracketed_kubeconfig)

lemma token_characters: "isDOToken t \<Longrightarrow> set t \<inter> set ''[:]'' = {}"
proof -
  assume t: "isDOToken t"
  have "set t = set (take 7 t) \<union> set (drop 7 t)" by (metis append_take_drop_id set_append)
  moreover have "set (drop 7 t) \<inter> set ''[:]'' = {}"
    using t by (auto simp: isDOToken_def list_all_iff lowerHex_def byteIn_def)
  ultimately show ?thesis using t by (auto simp: isDOToken_def)
qed

lemma first_pass: "isDOToken t \<Longrightarrow> \<not> sublist t (replaceAll doTokenRegex s)"
proof (induction doTokenRegex s rule: replaceAll.induct)
  case 1
  then show ?case by (auto simp: isDOToken_def)
next
  case (2 c cs)
  have pass: "bracketed 40 doTokenRegex"
    by (rule bracketedI [of _ "''REDACTED_DIGITALOCEAN_TOKEN''"]) (auto simp: doTokenRegex_def intro!: exI [of _ 0] split: if_splits)
  show ?case
  proof (cases "isDOToken (take 71 (c # cs))")
    case False
    then have none: "doTokenRegex (c # cs) = None" by (simp add: doTokenRegex_def)
    have "\<not> prefix t (replaceAll doTokenRegex (c # cs))"
    proof
      assume "prefix t (replaceAll doTokenRegex (c # cs))"
      then have "prefix t (c # cs)" by (rule prefix_replaceAll [OF pass token_characters [OF "2.prems"]])
      moreover have "length t = 71" using "2.prems" by (simp add: isDOToken_def)
      ultimately have "take 71 (c # cs) = t" by (metis append_eq_conv_conj prefixE)
      with False "2.prems" show False by simp
    qed
    then show ?thesis using none "2.hyps"(1) [OF none "2.prems"] by (simp add: sublist_Cons_right)
  next
    case True
    then have some: "doTokenRegex (c # cs) = Some (''[REDACTED_DIGITALOCEAN_TOKEN]'', 71)" by (simp add: doTokenRegex_def)
    show ?thesis
    proof
      assume "sublist t (replaceAll doTokenRegex (c # cs))"
      then have "sublist t ([] @ CHR ''['' # ''REDACTED_DIGITALOCEAN_TOKEN'' @ CHR '']'' # replaceAll doTokenRegex (drop 70 cs))"
        using some by simp
      moreover have "CHR ''['' \<notin> set t" "CHR '']'' \<notin> set t" using token_characters [OF "2.prems"] by auto
      ultimately have "t = [] \<or> sublist t (replaceAll doTokenRegex (drop 70 cs))"
        using sublist_note [of t "[]" "CHR ''[''" "''REDACTED_DIGITALOCEAN_TOKEN''" "CHR '']''"] "2.prems" by (auto simp: isDOToken_def)
      then show False using "2.hyps"(2) [OF some refl "2.prems"] "2.prems" by (auto simp: isDOToken_def)
    qed
  qed
qed

text \<open>
  C33. No access token of DigitalOcean survives: the text that \<^verbatim>\<open>RedactString\<close> returns contains no such token anywhere, and the later
  passes, which remove other text around it, cannot put one together.
\<close>

theorem RedactString_no_token:
  assumes "isDOToken t"
  shows "\<not> sublist t (RedactString s)"
proof -
  have t: "set t \<inter> set ''[:]'' = {}" "40 \<le> length t" "\<not> sublist t ''''"
    using token_characters [OF assms] assms by (auto simp: isDOToken_def)
  show ?thesis
    using kubeconfig.keeps_out [OF pemCert.keeps_out [OF pemPrivate.keeps_out [OF jwt.keeps_out [OF first_pass [OF assms]]]]] t
    by (simp add: RedactString_def)
qed

definition exampleToken :: string where
  "exampleToken = ''dop_v1_'' @ replicate 64 (CHR ''a'')"

theorem RedactString_no_token_witness: "\<not> sublist exampleToken (RedactString (''token='' @ exampleToken))"
proof -
  have "isDOToken exampleToken" by code_simp
  then show ?thesis by (rule RedactString_no_token)
qed

end
