(* ===== verification/E2E_Check.thy ===== *)
theory E2E_Check
  imports API_Monad
begin

text \<open>
  The check of end-to-end results, \<^verbatim>\<open>internal/e2echeck/check.go\<close> and \<^verbatim>\<open>cmd/draforge-e2e-check/main.go\<close>. The scanner of
  \<^verbatim>\<open>bufio\<close> delivers the lines and perhaps an error after them; \<^verbatim>\<open>json.Unmarshal\<close> of a line is the parameter \<open>unmarshal\<close>, \<open>None\<close> for a
  line that is not an event.
\<close>

record Summary =
  smExecuted :: int
  smPassed :: int
  smFailed :: int
  smSkipped :: int
  smRequiredRan :: bool
  smRequiredPassed :: bool

record testEvent =
  teAction :: string
  teTest :: string
  teOutput :: string

definition containsNoPackagesMessage :: "string \<Rightarrow> bool" where
  "containsNoPackagesMessage val \<longleftrightarrow> strings_Contains val ''no packages to test'' \<or> strings_Contains val ''matched no packages''"

text \<open>The event, if it is one of a test, and whether the line says that there are no packages.\<close>

definition parseTestEvent :: "(string \<Rightarrow> testEvent option) \<Rightarrow> string \<Rightarrow> testEvent option \<times> bool" where
  "parseTestEvent unmarshal line =
     (case unmarshal line of
        None \<Rightarrow> (None, containsNoPackagesMessage line)
      | Some event \<Rightarrow>
          (if teTest event \<noteq> '''' then Some event else None,
           containsNoPackagesMessage line \<or> containsNoPackagesMessage (teOutput event)))"

definition applyTestEvent :: "string \<Rightarrow> testEvent \<Rightarrow> Summary \<Rightarrow> Summary" where
  "applyTestEvent requiredTest event summary =
     (if teAction event = ''run''
      then summary\<lparr>smExecuted := smExecuted summary + 1, smRequiredRan := (smRequiredRan summary \<or> teTest event = requiredTest)\<rparr>
      else if teAction event = ''pass''
      then summary\<lparr>smPassed := smPassed summary + 1, smRequiredPassed := (smRequiredPassed summary \<or> teTest event = requiredTest)\<rparr>
      else if teAction event = ''fail'' then summary\<lparr>smFailed := smFailed summary + 1\<rparr>
      else if teAction event = ''skip'' then summary\<lparr>smSkipped := smSkipped summary + 1\<rparr>
      else summary)"

definition emptySummary :: Summary where
  "emptySummary = \<lparr>smExecuted = 0, smPassed = 0, smFailed = 0, smSkipped = 0, smRequiredRan = False, smRequiredPassed = False\<rparr>"

fun scanLines :: "(string \<Rightarrow> testEvent option) \<Rightarrow> string \<Rightarrow> string list \<Rightarrow> Summary \<Rightarrow> bool \<Rightarrow> Summary \<times> bool" where
  "scanLines unmarshal requiredTest [] summary sawNoPackages = (summary, sawNoPackages)"
| "scanLines unmarshal requiredTest (line # lines) summary sawNoPackages =
     (case parseTestEvent unmarshal line of
        (event, lineHasNoPackages) \<Rightarrow>
          scanLines unmarshal requiredTest lines
            (case event of None \<Rightarrow> summary | Some e \<Rightarrow> applyTestEvent requiredTest e summary)
            (sawNoPackages \<or> lineHasNoPackages))"

definition scanTestEvents ::
  "(string \<Rightarrow> testEvent option) \<Rightarrow> string list \<Rightarrow> api_error option \<Rightarrow> string \<Rightarrow> Summary \<times> bool \<times> api_error option" where
  "scanTestEvents unmarshal lines scanErr requiredTest =
     (case scanLines unmarshal requiredTest lines emptySummary False of
        (summary, sawNoPackages) \<Rightarrow> (summary, sawNoPackages, map_option (wrapError ''read go test JSON'') scanErr))"

definition validateSummary :: "Summary \<Rightarrow> string \<Rightarrow> bool \<Rightarrow> Summary \<times> api_error option" where
  "validateSummary summary requiredTest sawNoPackages =
     (summary,
      if sawNoPackages then Some (plainError ''no packages to test'')
      else if smExecuted summary = 0 then Some (plainError ''zero tests executed'')
      else if smPassed summary = 0 \<and> smSkipped summary = smExecuted summary then Some (plainError ''all executed tests were skipped'')
      else if \<not> smRequiredRan summary \<or> \<not> smRequiredPassed summary
      then Some (plainError (''required test '' @ requiredTest @ '' did not pass''))
      else if smFailed summary > 0 then Some (plainError (decimalInt (smFailed summary) @ '' tests failed''))
      else None)"

definition checkResults ::
  "(string \<Rightarrow> testEvent option) \<Rightarrow> string list \<Rightarrow> api_error option \<Rightarrow> string \<Rightarrow> Summary \<times> api_error option" where
  "checkResults unmarshal lines scanErr requiredTest =
     (case scanTestEvents unmarshal lines scanErr requiredTest of
        (summary, sawNoPackages, err) \<Rightarrow>
          (case err of Some e \<Rightarrow> (summary, Some e) | None \<Rightarrow> validateSummary summary requiredTest sawNoPackages))"

text \<open>
  \<^verbatim>\<open>run\<close> after the flags are parsed (\<open>None\<close> when that fails): the exit code, for the outcome of opening the file, its lines and the
  outcome of closing it.
\<close>

definition runE2ECheck ::
  "(string \<Rightarrow> testEvent option) \<Rightarrow> (string \<times> string) option \<Rightarrow> (string \<Rightarrow> api_error + string list \<times> api_error option) \<Rightarrow>
   api_error option \<Rightarrow> nat" where
  "runE2ECheck unmarshal flags openFile closeErr =
     (case flags of
        None \<Rightarrow> 2
      | Some (filePath, requiredTest) \<Rightarrow>
          if filePath = '''' then 2
          else (case openFile filePath of
                  Inl _ \<Rightarrow> 2
                | Inr (lines, scanErr) \<Rightarrow>
                    if closeErr \<noteq> None then 2
                    else if snd (checkResults unmarshal lines scanErr requiredTest) \<noteq> None then 1 else 0))"

section \<open>What is accepted\<close>

definition testEvents :: "(string \<Rightarrow> testEvent option) \<Rightarrow> string list \<Rightarrow> testEvent list" where
  "testEvents unmarshal lines = filter (\<lambda>e. teTest e \<noteq> '''') (List.map_filter unmarshal lines)"

definition mentionsNoPackages :: "(string \<Rightarrow> testEvent option) \<Rightarrow> string \<Rightarrow> bool" where
  "mentionsNoPackages unmarshal line \<longleftrightarrow>
     containsNoPackagesMessage line \<or> (case unmarshal line of None \<Rightarrow> False | Some e \<Rightarrow> containsNoPackagesMessage (teOutput e))"

lemma scanLines_events:
  "scanLines unmarshal requiredTest lines summary saw =
     (fold (applyTestEvent requiredTest) (testEvents unmarshal lines) summary, saw \<or> list_ex (mentionsNoPackages unmarshal) lines)"
  by (induction lines arbitrary: summary saw)
     (auto simp: parseTestEvent_def testEvents_def mentionsNoPackages_def List.map_filter_simps split: option.splits)

definition countAction :: "string \<Rightarrow> testEvent list \<Rightarrow> int" where
  "countAction action events = int (length (filter (\<lambda>e. teAction e = action) events))"

lemma fold_applyTestEvent:
  "fold (applyTestEvent requiredTest) events summary =
     \<lparr>smExecuted = smExecuted summary + countAction ''run'' events, smPassed = smPassed summary + countAction ''pass'' events,
      smFailed = smFailed summary + countAction ''fail'' events, smSkipped = smSkipped summary + countAction ''skip'' events,
      smRequiredRan = (smRequiredRan summary \<or> list_ex (\<lambda>e. teAction e = ''run'' \<and> teTest e = requiredTest) events),
      smRequiredPassed = (smRequiredPassed summary \<or> list_ex (\<lambda>e. teAction e = ''pass'' \<and> teTest e = requiredTest) events)\<rparr>"
  by (induction events arbitrary: summary) (auto simp: applyTestEvent_def countAction_def)

text \<open>
  C40. What the check accepts: a stream that was read to its end is accepted exactly when no line says that there are no packages, the
  required test has started and has passed, and no test has failed; the two checks for runs with no executed and with only skipped
  tests refuse nothing more. Events without a test name, such as the failure of a package, have no influence.
\<close>

theorem checkResults_exact:
  "snd (checkResults unmarshal lines None requiredTest) = None \<longleftrightarrow>
     \<not> list_ex (mentionsNoPackages unmarshal) lines \<and>
     list_ex (\<lambda>e. teAction e = ''run'' \<and> teTest e = requiredTest) (testEvents unmarshal lines) \<and>
     list_ex (\<lambda>e. teAction e = ''pass'' \<and> teTest e = requiredTest) (testEvents unmarshal lines) \<and>
     \<not> list_ex (\<lambda>e. teAction e = ''fail'') (testEvents unmarshal lines)"
proof -
  let ?events = "testEvents unmarshal lines"
  have some: "countAction action ?events > 0 \<longleftrightarrow> list_ex (\<lambda>e. teAction e = action) ?events" for action
    by (auto simp: countAction_def list_ex_iff filter_empty_conv)
  have "countAction ''run'' ?events \<noteq> 0" if "list_ex (\<lambda>e. teAction e = ''run'' \<and> teTest e = requiredTest) ?events"
    using that some [of "''run''"] by (auto simp: list_ex_iff)
  moreover have "countAction ''pass'' ?events \<noteq> 0" if "list_ex (\<lambda>e. teAction e = ''pass'' \<and> teTest e = requiredTest) ?events"
    using that some [of "''pass''"] by (auto simp: list_ex_iff)
  ultimately show ?thesis
    by (auto simp: checkResults_def scanTestEvents_def scanLines_events validateSummary_def fold_applyTestEvent emptySummary_def some)
qed

end
