(* ===== verification/Doctor.thy ===== *)
theory Doctor
  imports Discovery API_Monad
begin

text \<open>
  The diagnostics, \<^verbatim>\<open>internal/doctor/doctor.go\<close>: the six checks and the registry that runs them. A check is its
  identity and a function of what the API answers while it runs; the answers are lists or the text of an error.
\<close>

section \<open>Reports\<close>

datatype DoctorCheckStatus = StatusPass | StatusWarn | StatusFail | StatusSkip | StatusUnknown

definition statusText :: "DoctorCheckStatus \<Rightarrow> string" where
  "statusText s =
     (case s of StatusPass \<Rightarrow> ''PASS'' | StatusWarn \<Rightarrow> ''WARN'' | StatusFail \<Rightarrow> ''FAIL'' | StatusSkip \<Rightarrow> ''SKIP''
      | StatusUnknown \<Rightarrow> ''UNKNOWN'')"

record DoctorCheckResult =
  crID :: string
  crCheckName :: string
  crCategory :: string
  crStatus :: DoctorCheckStatus
  crSeverity :: string
  crEvidence :: string
  crRemediation :: string
  crDocReference :: string

record DoctorReport =
  reportTimestamp :: int
  reportSummary :: "(string, int) gomap"
  reportResults :: "DoctorCheckResult list"

definition docBase :: string where
  "docBase = ''https://kubernetes.io/docs/concepts/extend-kubernetes/compute-resource-sharing/''"

section \<open>What the API answers\<close>

record APIGroup =
  groupName :: string
  groupVersions :: "string list"

record VersionInfo =
  viMajor :: string
  viMinor :: string
  viGitVersion :: string

record KubeNode =
  knName :: string
  knConditions :: "(string \<times> string) list"

record 'q doctor_view =
  vwGroups :: "string + APIGroup list"
  vwVersion :: "string + VersionInfo"
  vwClaims :: "string + 'q live_claim list"
  vwSlices :: "string + 'q live_slice list"
  vwPods :: "string + Pod list"
  vwNodes :: "string + KubeNode list"

record 'q Check_interface =
  checkID :: string
  checkName :: string
  checkCategory :: string
  checkRun :: "'q doctor_view \<Rightarrow> DoctorCheckResult"

section \<open>API availability\<close>

definition apiAvailabilityRun :: "'q doctor_view \<Rightarrow> DoctorCheckResult" where
  "apiAvailabilityRun view =
     (let res = \<lparr>crID = ''DRA-001'', crCheckName = ''DRA API Availability'', crCategory = ''cluster'', crStatus = StatusPass,
                 crSeverity = ''critical'', crEvidence = ''resource.k8s.io/v1 or v1beta1 API group is active.'',
                 crRemediation = ''No action required.'', crDocReference = docBase\<rparr>
      in case vwGroups view of
           Inl err \<Rightarrow> res\<lparr>crStatus := StatusFail, crEvidence := ''Failed to query API server groups: '' @ err,
                         crRemediation := ''Verify cluster connectivity and API server health.''\<rparr>
         | Inr groups \<Rightarrow>
             if list_ex (\<lambda>g. groupName g = ''resource.k8s.io'' \<and> list_ex (\<lambda>v. v = ''v1beta1'' \<or> v = ''v1'') (groupVersions g)) groups
             then res
             else res\<lparr>crStatus := StatusFail, crEvidence := ''resource.k8s.io/v1 API group is missing from the API server.'',
                      crRemediation := ''Enable or upgrade to a Kubernetes version that serves resource.k8s.io/v1 DRA APIs (v1.34+).''\<rparr>)"

section \<open>Kubernetes version\<close>

text \<open>
  \<^verbatim>\<open>strconv.Atoi\<close> on a 64-bit machine: an optional sign and decimal digits; the digits are accumulated up to the range
  of \<^verbatim>\<open>uint64\<close> and the result is checked against that of \<^verbatim>\<open>int64\<close>.
\<close>

datatype num_error = ErrSyntax | ErrRange

fun parseDigits :: "string \<Rightarrow> int \<Rightarrow> num_error + int" where
  "parseDigits [] n = Inr n"
| "parseDigits (c # cs) n =
     (let d = int (of_char c) - 48
      in if d < 0 \<or> 9 < d then Inl ErrSyntax
         else if 10 * n + d > 2 ^ 64 - 1 then Inl ErrRange
         else parseDigits cs (10 * n + d))"

definition parseUnsigned :: "string \<Rightarrow> num_error + int" where
  "parseUnsigned s = (if s = '''' then Inl ErrSyntax else parseDigits s 0)"

definition Atoi :: "string \<Rightarrow> num_error + int" where
  "Atoi s =
     (case s of
        CHR ''-'' # ds \<Rightarrow> (case parseUnsigned ds of Inl e \<Rightarrow> Inl e | Inr n \<Rightarrow> if n > 2 ^ 63 then Inl ErrRange else Inr (- n))
      | CHR ''+'' # ds \<Rightarrow> (case parseUnsigned ds of Inl e \<Rightarrow> Inl e | Inr n \<Rightarrow> if n \<ge> 2 ^ 63 then Inl ErrRange else Inr n)
      | _ \<Rightarrow> (case parseUnsigned s of Inl e \<Rightarrow> Inl e | Inr n \<Rightarrow> if n \<ge> 2 ^ 63 then Inl ErrRange else Inr n))"

definition atoiErrorText :: "string \<Rightarrow> num_error \<Rightarrow> string" where
  "atoiErrorText s e =
     ''strconv.Atoi: parsing '' @ goQuote s @ '': '' @
     (case e of ErrSyntax \<Rightarrow> ''invalid syntax'' | ErrRange \<Rightarrow> ''value out of range'')"

definition trimPlus :: "string \<Rightarrow> string" where
  "trimPlus s = (if s \<noteq> [] \<and> last s = CHR ''+'' then butlast s else s)"

text \<open>The evidence of the warning has an en dash, three bytes in UTF-8.\<close>

definition kubernetesVersionRun :: "'q doctor_view \<Rightarrow> DoctorCheckResult" where
  "kubernetesVersionRun view =
     (let res = \<lparr>crID = ''DRA-002'', crCheckName = ''Kubernetes Version Compatibility'', crCategory = ''cluster'', crStatus = StatusPass,
                 crSeverity = ''high'', crEvidence = ''Kubernetes version is compatible.'', crRemediation = ''No action required.'',
                 crDocReference = docBase\<rparr>
      in case vwVersion view of
           Inl err \<Rightarrow> res\<lparr>crStatus := StatusUnknown, crEvidence := ''Failed to fetch cluster version: '' @ err,
                         crRemediation := ''Verify cluster connectivity.''\<rparr>
         | Inr info \<Rightarrow>
             (let res1 = res\<lparr>crEvidence := ''Detected Kubernetes version '' @ viGitVersion info @ ''.''\<rparr>;
                  majorRaw = viMajor info; minorRaw = trimPlus (viMinor info)
              in case Atoi majorRaw of
                   Inl err \<Rightarrow> res1\<lparr>crStatus := StatusUnknown, crEvidence :=
                     ''Failed to parse Kubernetes major version '' @ goQuote majorRaw @ '': '' @ atoiErrorText majorRaw err\<rparr>
                 | Inr major \<Rightarrow>
                     (case Atoi minorRaw of
                        Inl err \<Rightarrow> res1\<lparr>crStatus := StatusUnknown, crEvidence :=
                          ''Failed to parse Kubernetes minor version '' @ goQuote minorRaw @ '': '' @ atoiErrorText minorRaw err\<rparr>
                      | Inr minor \<Rightarrow>
                          if major < 1 \<or> (major = 1 \<and> minor < 32)
                          then res1\<lparr>crStatus := StatusFail, crEvidence :=
                                 ''Kubernetes version '' @ majorRaw @ ''.'' @ minorRaw @ '' is older than v1.32. DRAForge requires DRA beta or GA.'',
                                 crRemediation := ''Upgrade to Kubernetes v1.34+ which ships resource.k8s.io/v1 DRA API by default.''\<rparr>
                          else if major = 1 \<and> minor < 34
                          then res1\<lparr>crStatus := StatusWarn, crEvidence :=
                                 ''Kubernetes version '' @ majorRaw @ ''.'' @ minorRaw @ '' runs DRA in beta (v1.32'' @ [CHR 0xE2, CHR 0x80, CHR 0x93] @
                                 ''v1.33). The v1 API is available but consider upgrading to v1.34+ for GA stability.'',
                                 crRemediation := ''Upgrade to Kubernetes v1.34+ for GA DRA support.''\<rparr>
                          else res1)))"

section \<open>Orphaned claims\<close>

text \<open>\<open>DiscoverDRA\<close> returns no error: when a list fails, discovery reports what it has and the status, which is dropped here.\<close>

definition orphanedClaimsRun :: "go_unicode \<Rightarrow> 'q quantity_api \<Rightarrow> 'q doctor_view \<Rightarrow> DoctorCheckResult" where
  "orphanedClaimsRun G Q view =
     (let res = \<lparr>crID = ''DRA-003'', crCheckName = ''Orphaned ResourceClaims'', crCategory = ''claim'', crStatus = StatusPass,
                 crSeverity = ''medium'', crEvidence = ''No orphaned ResourceClaims found.'', crRemediation = ''No action required.'',
                 crDocReference = docBase @ ''#resourceclaim''\<rparr>;
          claims = dvClaims (DiscoverDRAWithStatus G Q (vwClaims view) (vwSlices view) (vwPods view));
          orphans = map (\<lambda>cl. ciNamespace cl @ ''/'' @ ciName cl) (filter (\<lambda>cl. ciOwnerPodName cl = '''') claims)
      in if orphans \<noteq> []
         then res\<lparr>crStatus := StatusWarn,
                  crEvidence := ''Found '' @ decimal (length orphans) @ '' ResourceClaims without consuming pods: '' @ strings_Join orphans '', '',
                  crRemediation := ''Delete unused ResourceClaims to free up cluster/node capacity.''\<rparr>
         else res)"

section \<open>References of pods\<close>

definition reservedForMap :: "'q live_claim list \<Rightarrow> (string, string list) gomap" where
  "reservedForMap claims =
     fold (\<lambda>cl. gomap_put (claimNamespace cl @ ''/'' @ claimName cl) (claimReservedFor cl)) claims []"

definition podInvalidRef :: "(string, string list) gomap \<Rightarrow> Pod \<Rightarrow> PodResourceClaim \<Rightarrow> string list" where
  "podInvalidRef reservedFor pod pc =
     (case prcResourceClaimName pc of
        None \<Rightarrow> []
      | Some name \<Rightarrow>
          (case map_of reservedFor (podNamespace pod @ ''/'' @ name) of
             None \<Rightarrow> [podNamespace pod @ ''/'' @ podName pod @ '' -> '' @ name @ '' (claim not found)'']
           | Some names \<Rightarrow>
               if podName pod \<in> set names then []
               else [podNamespace pod @ ''/'' @ podName pod @ '' -> '' @ name @ '' (pod not in claim ReservedFor list)'']))"

definition podReferenceRun :: "'q doctor_view \<Rightarrow> DoctorCheckResult" where
  "podReferenceRun view =
     (let res = \<lparr>crID = ''DRA-004'', crCheckName = ''Pod Claim References'', crCategory = ''claim'', crStatus = StatusPass,
                 crSeverity = ''high'', crEvidence = ''All pod claim references are valid.'', crRemediation = ''No action required.'',
                 crDocReference = docBase\<rparr>
      in case vwPods view of
           Inl err \<Rightarrow> res\<lparr>crStatus := StatusUnknown, crEvidence := ''Failed to list pods: '' @ err\<rparr>
         | Inr pods \<Rightarrow>
             (case vwClaims view of
                Inl err \<Rightarrow> res\<lparr>crStatus := StatusUnknown, crEvidence := ''Failed to list API claims for reference check: '' @ err\<rparr>
              | Inr claims \<Rightarrow>
                  (let invalidRefs =
                         concat (map (\<lambda>pod. concat (map (podInvalidRef (reservedForMap claims) pod) (podResourceClaims pod))) pods)
                   in if invalidRefs \<noteq> []
                      then res\<lparr>crStatus := StatusFail,
                               crEvidence := ''Found pods referencing non-existent ResourceClaims: '' @ strings_Join invalidRefs '', '',
                               crRemediation := ''Ensure referenced ResourceClaims are created before deploying consuming pods.''\<rparr>
                      else res)))"


section \<open>Slices\<close>

definition nodeReady :: "KubeNode \<Rightarrow> bool" where
  "nodeReady n = list_ex (\<lambda>(t, s). t = ''Ready'' \<and> s = ''True'') (knConditions n)"

text \<open>
  The maps \<^verbatim>\<open>nodeMap\<close> and \<^verbatim>\<open>nodeReadyMap\<close> have the same keys and are filled together: one map from the node's name to
  whether it is ready. A failed list leaves it empty.
\<close>

definition nodeReadyMap :: "string + KubeNode list \<Rightarrow> (string, bool) gomap" where
  "nodeReadyMap nodeList =
     (case nodeList of Inl _ \<Rightarrow> [] | Inr nodes \<Rightarrow> fold (\<lambda>n. gomap_put (knName n) (nodeReady n)) nodes [])"

definition sliceInconsistent :: "'q live_slice \<Rightarrow> string list" where
  "sliceInconsistent sl = (if sliceDriver sl = '''' then [sliceName sl @ '' (empty driver)''] else [])"

definition sliceStale :: "(string, bool) gomap \<Rightarrow> 'q live_slice \<Rightarrow> string list" where
  "sliceStale nodes sl =
     (case sliceNodeName sl of
        None \<Rightarrow> []
      | Some n \<Rightarrow>
          if nodes \<noteq> [] \<and> map_of nodes n = None
          then [sliceName sl @ '' (references non-existent node '' @ goQuote n @ '')''] else [])"

definition sliceNotReady :: "(string, bool) gomap \<Rightarrow> 'q live_slice \<Rightarrow> string list" where
  "sliceNotReady nodes sl =
     (case sliceNodeName sl of
        None \<Rightarrow> []
      | Some n \<Rightarrow> if map_of nodes n = Some False then [sliceName sl @ '' (node '' @ goQuote n @ '' is not Ready)''] else [])"

definition sliceUnhealthy :: "'q live_slice \<Rightarrow> string list" where
  "sliceUnhealthy sl =
     (case map_of (sliceLabels sl) ''draforge.oaslananka/health'' of
        None \<Rightarrow> []
      | Some v \<Rightarrow> if v \<noteq> ''healthy'' \<and> v \<noteq> '''' then [sliceName sl @ '' (health is '' @ goQuote v @ '')''] else [])"

definition staleResourceSliceRun :: "'q doctor_view \<Rightarrow> DoctorCheckResult" where
  "staleResourceSliceRun view =
     (let res = \<lparr>crID = ''DRA-005'', crCheckName = ''ResourceSlice Consistency'', crCategory = ''driver'', crStatus = StatusPass,
                 crSeverity = ''medium'', crEvidence = ''All ResourceSlices are consistent and active.'',
                 crRemediation = ''No action required.'', crDocReference = docBase @ ''#resourceslice''\<rparr>
      in case vwSlices view of
           Inl err \<Rightarrow> res\<lparr>crStatus := StatusUnknown, crEvidence := ''Failed to list ResourceSlices: '' @ err\<rparr>
         | Inr slices \<Rightarrow>
             (let nodes = nodeReadyMap (vwNodes view);
                  inconsistentSlices = concat (map sliceInconsistent slices);
                  staleSlices = concat (map (sliceStale nodes) slices);
                  unavailableSlices = concat (map (\<lambda>sl. sliceNotReady nodes sl @ sliceUnhealthy sl) slices);
                  status = (if inconsistentSlices \<noteq> [] \<or> staleSlices \<noteq> [] then StatusFail
                            else if unavailableSlices \<noteq> [] then StatusWarn else StatusPass);
                  evidence =
                    (if inconsistentSlices \<noteq> [] then [''Found inconsistent ResourceSlices: '' @ strings_Join inconsistentSlices '', ''] else []) @
                    (if staleSlices \<noteq> [] then [''Found stale ResourceSlices referencing non-existent nodes: '' @ strings_Join staleSlices '', ''] else []) @
                    (if unavailableSlices \<noteq> [] then [''Found unavailable ResourceSlices: '' @ strings_Join unavailableSlices '', ''] else []);
                  remediation =
                    (if inconsistentSlices \<noteq> [] then
                       [''Check driver status and ensure the controller publishes valid ResourceSlices with non-empty driver names.''] else []) @
                    (if staleSlices \<noteq> [] then
                       [''Delete the orphaned/stale ResourceSlices or ensure their respective nodes are properly re-joined to the cluster.''] else []) @
                    (if unavailableSlices \<noteq> [] then
                       [''Check physical/simulated device status, verify worker node health, and restart the driver daemonset if necessary.''] else [])
              in if evidence \<noteq> []
                 then res\<lparr>crStatus := status, crEvidence := strings_Join evidence ''; '', crRemediation := strings_Join remediation '' ''\<rparr>
                 else res))"

section \<open>Advanced features\<close>

definition requestFeatures :: "'q DeviceRequest \<Rightarrow> string list" where
  "requestFeatures req =
     (case drExactly req of
        None \<Rightarrow> []
      | Some e \<Rightarrow> (if exTolerations e \<noteq> [] then [''ResourceClaim request tolerations''] else []) @
                  (if exCapacity e \<noteq> None then [''request capacity requirements''] else [])) @
     concat (map (\<lambda>s. (if subTolerations s \<noteq> [] then [''ResourceClaim request tolerations''] else []) @
                      (if subCapacity s \<noteq> None then [''request capacity requirements''] else []))
       (drFirstAvailable req))"

definition deviceFeatures :: "'q Device \<Rightarrow> string list" where
  "deviceFeatures dev =
     (if taints dev \<noteq> [] then [''ResourceSlice spec.devices[].taints''] else []) @
     (if bindsToNode dev = Some True then [''ResourceSlice bindsToNode''] else []) @
     (if bindingConditions dev \<noteq> [] then [''bindingConditions''] else []) @
     (if bindingFailureConditions dev \<noteq> [] then [''bindingFailureConditions''] else []) @
     (if allowMultipleAllocations dev = Some True then [''allowMultipleAllocations''] else []) @
     (if consumesCounters dev \<noteq> [] then [''consumesCounters''] else []) @
     (if nodeAllocatableResourceMappings dev \<noteq> [] then [''nodeAllocatableResourceMappings''] else [])"

fun dedupFeatures :: "string list \<Rightarrow> string list \<Rightarrow> string list" where
  "dedupFeatures [] deduped = deduped"
| "dedupFeatures (f # fs) deduped = dedupFeatures fs (if f \<in> set deduped then deduped else deduped @ [f])"

definition v136FeatureUsageRun :: "'q doctor_view \<Rightarrow> DoctorCheckResult" where
  "v136FeatureUsageRun view =
     (let res = \<lparr>crID = ''DRA-006'', crCheckName = ''Advanced DRA Features Usage'', crCategory = ''cluster'', crStatus = StatusPass,
                 crSeverity = ''info'',
                 crEvidence = ''No advanced v1.36 features (Taints, Tolerations, BindingConditions, etc.) detected.'',
                 crRemediation = ''No action required.'', crDocReference = docBase\<rparr>
      in case vwClaims view of
           Inl err \<Rightarrow> res\<lparr>crStatus := StatusUnknown, crEvidence := ''Failed to list ResourceClaims: '' @ err\<rparr>
         | Inr claims \<Rightarrow>
             (case vwSlices view of
                Inl err \<Rightarrow> res\<lparr>crStatus := StatusUnknown, crEvidence := ''Failed to list ResourceSlices: '' @ err\<rparr>
              | Inr slices \<Rightarrow>
                  (let foundFeatures =
                         concat (map (\<lambda>claim. concat (map requestFeatures (claimRequests claim))) claims) @
                         concat (map (\<lambda>sl. concat (map deviceFeatures (sliceDevices sl))) slices)
                   in if foundFeatures \<noteq> []
                      then res\<lparr>crStatus := StatusWarn, crSeverity := ''medium'',
                               crEvidence := ''Found usage of advanced v1.36+ features: '' @
                                 strings_Join (dedupFeatures foundFeatures []) '', '' @ ''.'',
                               crRemediation := ''DRAForge simulator and explain engine only partially model these advanced scheduler semantics. Results may be incomplete.''\<rparr>
                      else res)))"

section \<open>The registry\<close>

type_synonym 'q Registry = "'q Check_interface list"

definition Register :: "'q Registry \<Rightarrow> 'q Check_interface \<Rightarrow> 'q Registry" where
  "Register r c = r @ [c]"

definition APIAvailabilityCheck :: "'q Check_interface" where
  "APIAvailabilityCheck = \<lparr>checkID = ''DRA-001'', checkName = ''DRA API Availability'', checkCategory = ''cluster'', checkRun = apiAvailabilityRun\<rparr>"

definition KubernetesVersionCheck :: "'q Check_interface" where
  "KubernetesVersionCheck = \<lparr>checkID = ''DRA-002'', checkName = ''Kubernetes Version Compatibility'', checkCategory = ''cluster'', checkRun = kubernetesVersionRun\<rparr>"

definition OrphanedClaimsCheck :: "go_unicode \<Rightarrow> 'q quantity_api \<Rightarrow> 'q Check_interface" where
  "OrphanedClaimsCheck G Q = \<lparr>checkID = ''DRA-003'', checkName = ''Orphaned ResourceClaims'', checkCategory = ''claim'', checkRun = orphanedClaimsRun G Q\<rparr>"

definition PodReferenceCheck :: "'q Check_interface" where
  "PodReferenceCheck = \<lparr>checkID = ''DRA-004'', checkName = ''Pod Claim References'', checkCategory = ''claim'', checkRun = podReferenceRun\<rparr>"

definition StaleResourceSliceCheck :: "'q Check_interface" where
  "StaleResourceSliceCheck = \<lparr>checkID = ''DRA-005'', checkName = ''ResourceSlice Consistency'', checkCategory = ''driver'', checkRun = staleResourceSliceRun\<rparr>"

definition V136FeatureUsageCheck :: "'q Check_interface" where
  "V136FeatureUsageCheck = \<lparr>checkID = ''DRA-006'', checkName = ''Advanced DRA Features Usage'', checkCategory = ''cluster'', checkRun = v136FeatureUsageRun\<rparr>"

definition NewRegistry :: "go_unicode \<Rightarrow> 'q quantity_api \<Rightarrow> 'q Registry" where
  "NewRegistry G Q =
     fold (\<lambda>c r. Register r c)
       [APIAvailabilityCheck, KubernetesVersionCheck, OrphanedClaimsCheck G Q, PodReferenceCheck, StaleResourceSliceCheck,
        V136FeatureUsageCheck] []"

text \<open>\<open>view i\<close> is what the API answers while the \<open>i\<close>-th check runs: the cluster may change in between.\<close>

fun diagnosticsLoop :: "nat \<Rightarrow> (nat \<Rightarrow> 'q doctor_view) \<Rightarrow> 'q Check_interface list \<Rightarrow> DoctorReport \<Rightarrow> DoctorReport" where
  "diagnosticsLoop i view [] report = report"
| "diagnosticsLoop i view (check # checks) report =
     (let res = checkRun check (view i)
      in diagnosticsLoop (Suc i) view checks
           (report\<lparr>reportResults := reportResults report @ [res],
                   reportSummary := gomap_put (statusText (crStatus res))
                     (gomap_get 0 (reportSummary report) (statusText (crStatus res)) + 1) (reportSummary report)\<rparr>))"

definition RunDiagnostics :: "'q Registry \<Rightarrow> int \<Rightarrow> (nat \<Rightarrow> 'q doctor_view) \<Rightarrow> DoctorReport" where
  "RunDiagnostics r now view = diagnosticsLoop 0 view r \<lparr>reportTimestamp = now, reportSummary = [], reportResults = []\<rparr>"


section \<open>Reports are consistent\<close>

lemma diagnosticsLoop_results:
  "reportResults (diagnosticsLoop i view checks report) =
     reportResults report @ map (\<lambda>(j, c). checkRun c (view j)) (enumerate i checks)"
  by (induction checks arbitrary: i report) (simp_all add: Let_def)

lemma diagnosticsLoop_summary:
  "gomap_get 0 (reportSummary (diagnosticsLoop i view checks report)) t =
     gomap_get 0 (reportSummary report) t +
     int (length (filter (\<lambda>(j, c). statusText (crStatus (checkRun c (view j))) = t) (enumerate i checks)))"
  by (induction checks arbitrary: i report) (simp_all add: Let_def)

lemma statusText_inject [simp]: "statusText a = statusText b \<longleftrightarrow> a = b"
  by (cases a; cases b) (simp_all add: statusText_def)

lemma run_identity:
  "crID (checkRun c view) = checkID c \<and> crCheckName (checkRun c view) = checkName c \<and> crCategory (checkRun c view) = checkCategory c"
  if "c \<in> set (NewRegistry G Q)"
  using that
  by (auto simp: NewRegistry_def Register_def APIAvailabilityCheck_def KubernetesVersionCheck_def OrphanedClaimsCheck_def
      PodReferenceCheck_def StaleResourceSliceCheck_def V136FeatureUsageCheck_def
      apiAvailabilityRun_def kubernetesVersionRun_def orphanedClaimsRun_def podReferenceRun_def staleResourceSliceRun_def
      v136FeatureUsageRun_def Let_def split: sum.splits)

text \<open>
  A diagnostics report is consistent, whatever the API answers and however it changes while the checks run: it has one
  result per check in the order of the registry, each carrying the check's own identifier, name and category, and the summary
  counts under every status exactly the results that have it.
\<close>

theorem RunDiagnostics_consistent:
  fixes view :: "nat \<Rightarrow> 'q doctor_view"
  shows "let checks = NewRegistry G Q; report = RunDiagnostics checks now view
         in length (reportResults report) = 6 \<and>
            map crID (reportResults report) = [''DRA-001'', ''DRA-002'', ''DRA-003'', ''DRA-004'', ''DRA-005'', ''DRA-006''] \<and>
            map crCheckName (reportResults report) = map checkName checks \<and>
            map crCategory (reportResults report) = map checkCategory checks \<and>
            map crStatus (reportResults report) = map (\<lambda>i. crStatus (checkRun (checks ! i) (view i))) [0..<6] \<and>
            (\<forall>s. gomap_get 0 (reportSummary report) (statusText s) = int (length (filter (\<lambda>r. crStatus r = s) (reportResults report))))"
proof -
  define checks :: "'q Registry" where "checks = NewRegistry G Q"
  define report where "report = RunDiagnostics checks now view"
  have six: "length checks = 6" and ids: "map checkID checks = [''DRA-001'', ''DRA-002'', ''DRA-003'', ''DRA-004'', ''DRA-005'', ''DRA-006'']"
    by (simp_all add: checks_def NewRegistry_def Register_def APIAvailabilityCheck_def KubernetesVersionCheck_def
        OrphanedClaimsCheck_def PodReferenceCheck_def StaleResourceSliceCheck_def V136FeatureUsageCheck_def)
  have results: "reportResults report = map (\<lambda>(j, c). checkRun c (view j)) (enumerate 0 checks)"
    by (simp add: report_def RunDiagnostics_def diagnosticsLoop_results)
  have same: "map f (reportResults report) = map g checks"
    if "\<And>c v. c \<in> set checks \<Longrightarrow> f (checkRun c v) = g c" for f :: "DoctorCheckResult \<Rightarrow> 'b" and g
    unfolding results by (rule nth_equalityI) (simp_all add: nth_enumerate_eq that)
  have own: "map crID (reportResults report) = map checkID checks" "map crCheckName (reportResults report) = map checkName checks"
      "map crCategory (reportResults report) = map checkCategory checks"
    by (rule same; simp add: checks_def run_identity)+
  have "map crStatus (reportResults report) = map (\<lambda>i. crStatus (checkRun (checks ! i) (view i))) [0..<6]"
    unfolding results by (rule nth_equalityI) (simp_all add: nth_enumerate_eq six)
  moreover have "gomap_get 0 (reportSummary report) (statusText s) = int (length (filter (\<lambda>r. crStatus r = s) (reportResults report)))" for s
    unfolding results
    by (simp add: report_def RunDiagnostics_def diagnosticsLoop_summary filter_map o_def case_prod_unfold)
  moreover have "length (reportResults report) = 6" using results six by simp
  ultimately show ?thesis using own ids by (simp add: Let_def checks_def report_def)
qed

section \<open>The version verdict\<close>

lemma digit_code: "n < 10 \<Longrightarrow> int (of_char (char_of (48 + n) :: char)) = 48 + int n"
  by simp

lemma parseDigits_append:
  "parseDigits (xs @ ys) n = (case parseDigits xs n of Inl e \<Rightarrow> Inl e | Inr m \<Rightarrow> parseDigits ys m)"
  by (induction xs arbitrary: n) (simp_all add: Let_def)

lemma parseDigits_decimal: "int n < 2 ^ 64 \<Longrightarrow> parseDigits (decimal n) 0 = Inr (int n)"
proof (induction n rule: decimal.induct)
  case (1 n)
  show ?case
  proof (cases "n < 10")
    case True
    then show ?thesis by (simp add: decimal.simps [of n] Let_def)
  next
    case False
    have "parseDigits (decimal (n div 10)) 0 = Inr (int (n div 10))"
      using 1 False by linarith
    moreover have "10 * int (n div 10) + int (n mod 10) = int n" by presburger
    moreover have "\<not> 9 < n mod 10" by simp
    ultimately show ?thesis
      using False 1(2) by (simp add: decimal.simps [of n] parseDigits_append Let_def)
  qed
qed


lemma decimal_not_Nil [simp]: "decimal n \<noteq> []"
  by (simp add: decimal.simps [of n])

lemma Atoi_decimal: "int n < 2 ^ 63 \<Longrightarrow> Atoi (decimal n) = Inr (int n)"
proof -
  assume n: "int n < 2 ^ 63"
  obtain c cs where d: "decimal n = c # cs" by (cases "decimal n") auto
  have "48 \<le> (of_char c :: nat)" using decimal_digits [of c n] d by simp
  then have "c \<noteq> CHR ''-''" "c \<noteq> CHR ''+''" by auto
  moreover have "parseUnsigned (decimal n) = Inr (int n)"
    using n parseDigits_decimal [of n] by (simp add: parseUnsigned_def)
  moreover have "Atoi (c # cs) =
      (case parseUnsigned (c # cs) of Inl e \<Rightarrow> Inl e | Inr n \<Rightarrow> if n \<ge> 2 ^ 63 then Inl ErrRange else Inr n)"
    if "c \<noteq> CHR ''-''" "c \<noteq> CHR ''+''"
    unfolding Atoi_def list.case using that by (simp split: char.split bool.split)
  ultimately show ?thesis using n d by simp
qed


lemma trimPlus_decimal: "trimPlus (decimal n) = decimal n" "trimPlus (decimal n @ ''+'') = decimal n"
proof -
  have "CHR ''+'' \<notin> set (decimal n)"
    using decimal_digits [of "CHR ''+''" n] by auto
  then show "trimPlus (decimal n) = decimal n" "trimPlus (decimal n @ ''+'') = decimal n"
    by (auto simp: trimPlus_def) (metis decimal_not_Nil last_in_set)
qed

text \<open>
  The verdict on the version: for a server that reports its major and minor number in decimal, with or without the
  trailing plus of the managed offerings, the check fails below 1.32, warns for 1.32 and 1.33 and passes from 1.34 on, for
  every number that fits an \<^verbatim>\<open>int\<close>.
\<close>

theorem kubernetesVersionRun_exact:
  assumes "vwVersion view = Inr info" "viMajor info = decimal major" "viMinor info \<in> {decimal minor, decimal minor @ ''+''}"
    and "int major < 2 ^ 63" "int minor < 2 ^ 63"
  shows "crStatus (kubernetesVersionRun view) =
    (if major = 0 \<or> (major = 1 \<and> minor < 32) then StatusFail
     else if major = 1 \<and> minor < 34 then StatusWarn
     else StatusPass)"
proof -
  have "trimPlus (viMinor info) = decimal minor" using assms(3) trimPlus_decimal by auto
  with assms show ?thesis
    by (simp add: kubernetesVersionRun_def Let_def Atoi_decimal)
qed

definition exampleView :: "string \<Rightarrow> 'q doctor_view" where
  "exampleView minor =
     \<lparr>vwGroups = Inr [\<lparr>groupName = ''resource.k8s.io'', groupVersions = [''v1'']\<rparr>],
      vwVersion = Inr \<lparr>viMajor = ''1'', viMinor = minor, viGitVersion = ''v1'' @ minor\<rparr>,
      vwClaims = Inr [], vwSlices = Inr [], vwPods = Inr [], vwNodes = Inr []\<rparr>"

theorem kubernetesVersionRun_exact_witness:
  "crStatus (kubernetesVersionRun (exampleView ''33+'' :: unit doctor_view)) = StatusWarn"
proof -
  have 1: "vwVersion (exampleView ''33+'' :: unit doctor_view) = Inr \<lparr>viMajor = ''1'', viMinor = ''33+'', viGitVersion = ''v1'' @ ''33+''\<rparr>"
    by (simp add: exampleView_def)
  have 2: "decimal 1 = ''1''" "decimal 33 @ ''+'' = ''33+''" by code_simp+
  show ?thesis
    using kubernetesVersionRun_exact [OF 1, of 1 33] 2 by simp
qed

section \<open>References\<close>

lemma map_of_fold_put:
  "map_of (fold (\<lambda>x. gomap_put (f x) (g x)) xs m) = map_of m ++ map_of (rev (map (\<lambda>x. (f x, g x)) xs))"
  by (induction xs arbitrary: m) simp_all

definition referenceHolds :: "'q live_claim list \<Rightarrow> Pod \<Rightarrow> string \<Rightarrow> bool" where
  "referenceHolds claims pod name =
     list_ex (\<lambda>cl. claimNamespace cl = podNamespace pod \<and> claimName cl = name \<and> podName pod \<in> set (claimReservedFor cl)) claims"

lemma podInvalidRef_exact:
  assumes "distinct (map (\<lambda>cl. (claimNamespace cl, claimName cl)) claims)"
    and "\<And>cl. cl \<in> set claims \<Longrightarrow> CHR ''/'' \<notin> set (claimNamespace cl)" and "CHR ''/'' \<notin> set (podNamespace pod)"
  shows "podInvalidRef (reservedForMap claims) pod pc = [] \<longleftrightarrow>
    (case prcResourceClaimName pc of None \<Rightarrow> True | Some name \<Rightarrow> referenceHolds claims pod name)"
proof -
  define entries where "entries = rev (map (\<lambda>cl. (claimNamespace cl @ ''/'' @ claimName cl, claimReservedFor cl)) claims)"
  have key: "claimNamespace cl @ ''/'' @ claimName cl = podNamespace pod @ ''/'' @ n \<longleftrightarrow> claimNamespace cl = podNamespace pod \<and> claimName cl = n"
    if "cl \<in> set claims" for cl n
    using separated_append_inject [OF assms(2) [OF that] assms(3), of "claimName cl" n] by auto
  have unique: "cl = cl'"
    if "cl \<in> set claims" "cl' \<in> set claims" "claimNamespace cl = claimNamespace cl'" "claimName cl = claimName cl'" for cl cl'
    using assms(1) that by (auto simp: distinct_map dest: inj_onD)
  have lookup: "map_of (reservedForMap claims) k = map_of entries k" for k
    unfolding reservedForMap_def map_of_fold_put entries_def by simp
  have holds: "(case map_of entries (podNamespace pod @ ''/'' @ name) of None \<Rightarrow> False | Some names \<Rightarrow> podName pod \<in> set names) \<longleftrightarrow>
      referenceHolds claims pod name" for name
  proof (cases "map_of entries (podNamespace pod @ ''/'' @ name)")
    case None
    have "map_of entries (claimNamespace cl @ ''/'' @ claimName cl) \<noteq> None" if "cl \<in> set claims" for cl
    proof -
      have "(claimNamespace cl @ ''/'' @ claimName cl, claimReservedFor cl) \<in> set entries"
        unfolding entries_def set_rev set_map using that by (rule imageI)
      then show ?thesis by (auto dest: weak_map_of_SomeI)
    qed
    then have "\<not> referenceHolds claims pod name"
      using None unfolding referenceHolds_def list_ex_iff by metis
    with None show ?thesis by (simp only: option.case)
  next
    case (Some names)
    have "(podNamespace pod @ ''/'' @ name, names) \<in> (\<lambda>cl. (claimNamespace cl @ ''/'' @ claimName cl, claimReservedFor cl)) ` set claims"
      using map_of_SomeD [OF Some] unfolding entries_def set_rev set_map .
    then obtain cl where "cl \<in> set claims" "claimNamespace cl = podNamespace pod" "claimName cl = name" "names = claimReservedFor cl"
      using key by (elim imageE Pair_inject) metis
    with unique [of cl] show ?thesis unfolding Some option.case referenceHolds_def list_ex_iff by metis
  qed
  show ?thesis
    by (simp add: podInvalidRef_def lookup holds [symmetric] split: option.split)
qed


text \<open>
  The references of pods are judged exactly. With the names Kubernetes guarantees (no two claims of one name in a namespace, no
  slash in a namespace), the check fails when a pod names a claim that its namespace does not have, or that is not reserved for
  the pod, and passes when every claim a pod names is there and reserved for it. When a list fails it says so.
\<close>

theorem podReferenceRun_exact:
  assumes "vwPods view = Inr pods" "vwClaims view = Inr claims"
    and "distinct (map (\<lambda>cl. (claimNamespace cl, claimName cl)) claims)"
    and "list_all (\<lambda>cl. CHR ''/'' \<notin> set (claimNamespace cl)) claims" "list_all (\<lambda>pod. CHR ''/'' \<notin> set (podNamespace pod)) pods"
  shows "crStatus (podReferenceRun view) =
    (if \<exists>pod \<in> set pods. \<exists>pc \<in> set (podResourceClaims pod). \<exists>name. prcResourceClaimName pc = Some name \<and> \<not> referenceHolds claims pod name
     then StatusFail else StatusPass)"
proof -
  have exact: "podInvalidRef (reservedForMap claims) pod pc = [] \<longleftrightarrow>
      (case prcResourceClaimName pc of None \<Rightarrow> True | Some name \<Rightarrow> referenceHolds claims pod name)"
    if "pod \<in> set pods" for pod pc
    using podInvalidRef_exact [OF assms(3)] assms(4,5) that by (auto simp: list_all_iff)
  have "concat (map (\<lambda>pod. concat (map (podInvalidRef (reservedForMap claims) pod) (podResourceClaims pod))) pods) = [] \<longleftrightarrow>
      \<not> (\<exists>pod \<in> set pods. \<exists>pc \<in> set (podResourceClaims pod). \<exists>name. prcResourceClaimName pc = Some name \<and> \<not> referenceHolds claims pod name)"
    by (auto simp: exact split: option.splits)
  then show ?thesis
    using assms(1,2) by (simp add: podReferenceRun_def Let_def)
qed


definition doctorClaim :: "string list \<Rightarrow> unit live_claim" where
  "doctorClaim reservedFor =
     \<lparr>claimName = ''shared'', claimNamespace = ''team'', claimRequests = [], claimConstraints = [], claimAllocation = None,
      claimReservedFor = reservedFor, claimCreated = 0\<rparr>"

definition exampleReferences :: "unit doctor_view" where
  "exampleReferences = (exampleView ''34'')\<lparr>vwClaims := Inr [doctorClaim [''web'']], vwPods := Inr examplePods\<rparr>"

theorem podReferenceRun_exact_witness: "crStatus (podReferenceRun exampleReferences) = StatusFail"
proof -
  have 1: "vwPods exampleReferences = Inr examplePods" "vwClaims exampleReferences = Inr [doctorClaim [''web'']]"
    by (simp_all add: exampleReferences_def)
  have 2: "distinct (map (\<lambda>cl. (claimNamespace cl, claimName cl)) [doctorClaim [''web'']])"
      "list_all (\<lambda>cl. CHR ''/'' \<notin> set (claimNamespace cl)) [doctorClaim [''web'']]"
      "list_all (\<lambda>pod. CHR ''/'' \<notin> set (podNamespace pod)) examplePods"
    by (simp_all add: doctorClaim_def examplePods_def)
  have "\<exists>pod \<in> set examplePods. \<exists>pc \<in> set (podResourceClaims pod). \<exists>name. prcResourceClaimName pc = Some name \<and>
      \<not> referenceHolds [doctorClaim [''web'']] pod name"
    by (simp add: examplePods_def doctorClaim_def referenceHolds_def)
  with podReferenceRun_exact [OF 1 2] show ?thesis by simp
qed

section \<open>Slices\<close>

lemma nodeReadyMap_lookup:
  assumes "distinct (map knName nodes)"
  shows "map_of (nodeReadyMap (Inr nodes)) = map_of (map (\<lambda>n. (knName n, nodeReady n)) nodes)"
  using assms
  by (simp add: nodeReadyMap_def map_of_fold_put) (rule map_of_wf_cong, simp_all add: gomap_wf_def rev_map [symmetric] o_def)


lemma nodeReadyMap_empty: "nodeReadyMap (Inr nodes) = [] \<longleftrightarrow> nodes = []"
proof -
  have "fold (\<lambda>n. gomap_put (knName n) (nodeReady n)) nodes m = [] \<longleftrightarrow> nodes = [] \<and> m = []" for m
    by (induction nodes arbitrary: m) (auto simp: gomap_put_def neq_Nil_conv)
  then show ?thesis by (simp add: nodeReadyMap_def)
qed

definition listedNodes :: "string + KubeNode list \<Rightarrow> KubeNode list" where
  "listedNodes nodeList = (case nodeList of Inl _ \<Rightarrow> [] | Inr nodes \<Rightarrow> nodes)"

definition sliceBroken :: "KubeNode list \<Rightarrow> 'q live_slice \<Rightarrow> bool" where
  "sliceBroken nodes sl \<longleftrightarrow>
     sliceDriver sl = '''' \<or> (nodes \<noteq> [] \<and> (case sliceNodeName sl of None \<Rightarrow> False | Some n \<Rightarrow> n \<notin> knName ` set nodes))"

definition sliceDegraded :: "KubeNode list \<Rightarrow> 'q live_slice \<Rightarrow> bool" where
  "sliceDegraded nodes sl \<longleftrightarrow>
     list_ex (\<lambda>n. sliceNodeName sl = Some (knName n) \<and> \<not> nodeReady n) nodes \<or>
     gomap_get '''' (sliceLabels sl) ''draforge.oaslananka/health'' \<notin> {'''', ''healthy''}"

lemma slice_lists:
  fixes sl :: "'q live_slice"
  assumes "distinct (map knName (listedNodes nodeList))"
  shows "sliceInconsistent sl = [] \<and> sliceStale (nodeReadyMap nodeList) sl = [] \<longleftrightarrow> \<not> sliceBroken (listedNodes nodeList) sl"
    and "sliceNotReady (nodeReadyMap nodeList) sl = [] \<and> sliceUnhealthy sl = [] \<longleftrightarrow> \<not> sliceDegraded (listedNodes nodeList) sl"
proof -
  define nodes where "nodes = listedNodes nodeList"
  have lookup: "map_of (nodeReadyMap nodeList) = map_of (map (\<lambda>n. (knName n, nodeReady n)) nodes)"
      and empty: "nodeReadyMap nodeList = [] \<longleftrightarrow> nodes = []"
    using nodeReadyMap_lookup [of nodes] nodeReadyMap_empty [of nodes] assms
    by (cases nodeList; simp add: nodes_def listedNodes_def nodeReadyMap_def)+
  have missing: "map_of (map (\<lambda>n. (knName n, nodeReady n)) nodes) k = None \<longleftrightarrow> k \<notin> knName ` set nodes" for k
    by (simp add: map_of_eq_None_iff image_image)
  have found: "map_of (map (\<lambda>n. (knName n, nodeReady n)) nodes) k = Some r \<longleftrightarrow> (\<exists>n \<in> set nodes. k = knName n \<and> r = nodeReady n)" for k r
    using assms by (subst map_of_eq_Some_iff) (auto simp: nodes_def o_def)
  show "sliceInconsistent sl = [] \<and> sliceStale (nodeReadyMap nodeList) sl = [] \<longleftrightarrow> \<not> sliceBroken (listedNodes nodeList) sl"
    unfolding nodes_def [symmetric]
    by (auto simp: sliceInconsistent_def sliceStale_def sliceBroken_def lookup empty missing split: option.splits)
  have "sliceUnhealthy sl = [] \<longleftrightarrow> gomap_get '''' (sliceLabels sl) ''draforge.oaslananka/health'' \<in> {'''', ''healthy''}"
    unfolding sliceUnhealthy_def gomap_get_def by (simp split: option.split)
  moreover have "sliceNotReady (nodeReadyMap nodeList) sl = [] \<longleftrightarrow>
      \<not> list_ex (\<lambda>n. sliceNodeName sl = Some (knName n) \<and> \<not> nodeReady n) nodes"
    by (auto simp: sliceNotReady_def lookup found list_ex_iff split: option.splits)
  ultimately show "sliceNotReady (nodeReadyMap nodeList) sl = [] \<and> sliceUnhealthy sl = [] \<longleftrightarrow> \<not> sliceDegraded (listedNodes nodeList) sl"
    unfolding sliceDegraded_def nodes_def [symmetric] by blast
qed

text \<open>
  C38. The verdict on the slices is exact. Where the slices can be listed, the check fails exactly when a slice has no driver or is
  published for a node the cluster does not have, warns exactly when none is broken so and one is on a node that is not ready or
  carries a health label other than healthy, and passes otherwise. Nodes that cannot be listed, like a cluster that has none, take
  the node conditions out of the verdict.
\<close>

theorem staleResourceSliceRun_exact:
  assumes "vwSlices view = Inr slices" "distinct (map knName (listedNodes (vwNodes view)))"
  shows "crStatus (staleResourceSliceRun view) =
    (if list_ex (sliceBroken (listedNodes (vwNodes view))) slices then StatusFail
     else if list_ex (sliceDegraded (listedNodes (vwNodes view))) slices then StatusWarn
     else StatusPass)"
proof -
  let ?nodes = "nodeReadyMap (vwNodes view)"
  have broken: "concat (map sliceInconsistent slices) = [] \<and> concat (map (sliceStale ?nodes) slices) = [] \<longleftrightarrow>
      \<not> list_ex (sliceBroken (listedNodes (vwNodes view))) slices"
    using slice_lists(1) [OF assms(2)] by (auto simp: list_ex_iff)
  have degraded: "concat (map (\<lambda>sl. sliceNotReady ?nodes sl @ sliceUnhealthy sl) slices) = [] \<longleftrightarrow>
      \<not> list_ex (sliceDegraded (listedNodes (vwNodes view))) slices"
    using slice_lists(2) [OF assms(2)] by (auto simp: list_ex_iff)
  have "crStatus (staleResourceSliceRun view) =
      (if \<not> (concat (map sliceInconsistent slices) = [] \<and> concat (map (sliceStale ?nodes) slices) = []) then StatusFail
       else if concat (map (\<lambda>sl. sliceNotReady ?nodes sl @ sliceUnhealthy sl) slices) \<noteq> [] then StatusWarn else StatusPass)"
    unfolding staleResourceSliceRun_def assms(1) sum.case Let_def by (simp del: concat_eq_Nil_conv)
  then show ?thesis unfolding broken degraded by simp
qed


definition doctorSlice :: "string \<Rightarrow> unit live_slice" where
  "doctorSlice node =
     \<lparr>sliceName = ''slice'', sliceLabels = [], sliceDriver = ''gpu'', poolName = ''pool'', poolGeneration = 1, resourceSliceCount = 1,
      sliceNodeName = Some node, sliceNodeSelector = None, sliceAllNodes = None, perDeviceNodeSelection = None, sharedCounters = [],
      sliceDevices = [], sliceCreated = 0\<rparr>"

definition exampleNodes :: "KubeNode list" where
  "exampleNodes =
     [\<lparr>knName = ''node-a'', knConditions = [(''Ready'', ''True'')]\<rparr>, \<lparr>knName = ''node-b'', knConditions = [(''Ready'', ''Unknown'')]\<rparr>]"

theorem staleResourceSliceRun_exact_witness:
  "crStatus (staleResourceSliceRun ((exampleView ''34'')\<lparr>vwSlices := Inr [doctorSlice ''node-a'', doctorSlice ''node-b''],
      vwNodes := Inr exampleNodes\<rparr>)) = StatusWarn"
proof -
  let ?view = "(exampleView ''34'')\<lparr>vwSlices := Inr [doctorSlice ''node-a'', doctorSlice ''node-b''], vwNodes := Inr exampleNodes\<rparr>"
  have 1: "vwSlices ?view = Inr [doctorSlice ''node-a'', doctorSlice ''node-b'']" by simp
  have 2: "distinct (map knName (listedNodes (vwNodes ?view)))" by (simp add: listedNodes_def exampleNodes_def)
  have "\<not> list_ex (sliceBroken exampleNodes) [doctorSlice ''node-a'', doctorSlice ''node-b'']"
      "list_ex (sliceDegraded exampleNodes) [doctorSlice ''node-a'', doctorSlice ''node-b'']"
    by (simp_all add: sliceBroken_def sliceDegraded_def doctorSlice_def exampleNodes_def nodeReady_def)
  then show ?thesis using staleResourceSliceRun_exact [OF 1 2] by (simp add: listedNodes_def)
qed

section \<open>Orphans\<close>

lemma withOwner_orphan:
  assumes "list_all (\<lambda>r. snd r \<noteq> '''') references"
  shows "ciOwnerPodName (withOwner references c) = '''' \<longleftrightarrow> ciOwnerPodName c = '''' \<and> infoKey c \<notin> fst ` set references"
proof (cases "map_of (rev references) (infoKey c)")
  case None
  then have "infoKey c \<notin> fst ` set references" by (simp add: map_of_eq_None_iff)
  with None show ?thesis by (simp add: withOwner_def)
next
  case (Some owner)
  from map_of_SomeD [OF this] have "(infoKey c, owner) \<in> set references" by simp
  with assms Some show ?thesis by (force simp: withOwner_def list_all_iff)
qed

text \<open>
  The claims nobody consumes, as the API lists claims and pods: those no pod of their namespace names, directly or through a
  template. Where the pods cannot be listed no claim is seen to be consumed.
\<close>

definition unconsumedClaims :: "'q doctor_view \<Rightarrow> 'q live_claim list" where
  "unconsumedClaims view =
     filter (\<lambda>c. case vwPods view of
                    Inl _ \<Rightarrow> True
                  | Inr pods \<Rightarrow> claimKey (claimNamespace c) (claimName c) \<notin> fst ` set (podReferences pods))
       (case vwClaims view of Inl _ \<Rightarrow> [] | Inr claims \<Rightarrow> claims)"

definition claimPath :: "'q live_claim \<Rightarrow> string" where
  "claimPath c = claimNamespace c @ ''/'' @ claimName c"

lemma map_insort_key: "map f (insort_key (\<lambda>x. g (f x)) x xs) = insort_key g (f x) (map f xs)"
  by (induction xs) simp_all

lemma sort_key_map: "sort_key g (map f xs) = map f (sort_key (\<lambda>x. g (f x)) xs)"
  by (induction xs) (simp_all add: map_insort_key)

lemma withOwner_name [simp]:
  "ciNamespace (withOwner references c) = ciNamespace c" "ciName (withOwner references c) = ciName c"
  by (simp_all add: withOwner_def split: option.split)

lemma discovered_orphans:
  assumes "distinct (map (\<lambda>c. claimKey (claimNamespace c) (claimName c)) (case vwClaims view of Inl _ \<Rightarrow> [] | Inr cs \<Rightarrow> cs))"
    and "list_all (\<lambda>pod. podName pod \<noteq> '''') (case vwPods view of Inl _ \<Rightarrow> [] | Inr pods \<Rightarrow> pods)"
  shows "map (\<lambda>cl. ciNamespace cl @ ''/'' @ ciName cl)
      (filter (\<lambda>cl. ciOwnerPodName cl = '''') (dvClaims (DiscoverDRAWithStatus G Q (vwClaims view) (vwSlices view) (vwPods view))))
    = map claimPath (sort_key (\<lambda>c. [claimNamespace c, claimName c]) (unconsumedClaims view))"
proof -
  define claims where "claims = (case vwClaims view of Inl _ \<Rightarrow> [] | Inr cs \<Rightarrow> cs)"
  define owner where "owner = (case vwPods view of Inl _ \<Rightarrow> (\<lambda>c. c) | Inr pods \<Rightarrow> withOwner (podReferences pods))"
  have key: "infoKey (mapResourceClaim c) = claimKey (claimNamespace c) (claimName c)" and fresh: "ciOwnerPodName (mapResourceClaim c) = ''''"
    and name: "ciNamespace (mapResourceClaim c) = claimNamespace c" "ciName (mapResourceClaim c) = claimName c" for c
    by (simp_all add: infoKey_def mapResourceClaim_def Let_def)
  have same: "ciNamespace (owner c) = ciNamespace c" "ciName (owner c) = ciName c" for c by (simp_all add: owner_def split: sum.split)
  have dist: "distinct (map infoKey (map mapResourceClaim claims))" using assms(1) by (simp add: claims_def o_def key)
  have attached: "fst (attachClaimOwners (vwPods view) (map mapResourceClaim claims)) = map (\<lambda>c. owner (mapResourceClaim c)) claims"
    using fold_attachReference [OF dist]
    by (simp add: attachClaimOwners_def attachClaimOwners_references owner_def split: sum.split)
  have "fst (discoverClaims (vwClaims view)) = map mapResourceClaim claims"
    by (simp add: discoverClaims_def claims_def split: sum.split)
  then have found: "dvClaims (DiscoverDRAWithStatus G Q (vwClaims view) (vwSlices view) (vwPods view)) =
      map (\<lambda>c. owner (mapResourceClaim c)) (sort_key (\<lambda>c. [claimNamespace c, claimName c]) claims)"
    using attached by (auto simp: DiscoverDRAWithStatus_def sort_key_map same name split: prod.splits)
  have "ciOwnerPodName (owner (mapResourceClaim c)) = '''' \<longleftrightarrow>
      (case vwPods view of Inl _ \<Rightarrow> True | Inr pods \<Rightarrow> claimKey (claimNamespace c) (claimName c) \<notin> fst ` set (podReferences pods))" if "c \<in> set claims" for c
    using assms(2) by (auto simp: owner_def fresh key podReferences_def list_all_iff withOwner_orphan split: sum.splits)
  then have "filter (\<lambda>c. ciOwnerPodName (owner (mapResourceClaim c)) = '''') claims = unconsumedClaims view"
    unfolding unconsumedClaims_def claims_def [symmetric] by (rule filter_cong [OF refl])
  then show ?thesis
    by (simp add: found filter_map o_def filter_sort claimPath_def [abs_def] same name)
qed

text \<open>
  C39. What the check for orphans reports: it passes where no claim is left unconsumed, and otherwise warns with the number of the
  unconsumed claims and the path of every one of them, ordered by namespace and name. Where the pods cannot be listed these are all
  claims, which it then advises to delete; where the claims cannot be listed it says that no orphan was found.
\<close>

theorem orphanedClaimsRun_exact:
  assumes "distinct (map (\<lambda>c. claimKey (claimNamespace c) (claimName c)) (case vwClaims view of Inl _ \<Rightarrow> [] | Inr cs \<Rightarrow> cs))"
    and "list_all (\<lambda>pod. podName pod \<noteq> '''') (case vwPods view of Inl _ \<Rightarrow> [] | Inr pods \<Rightarrow> pods)"
  shows "let r = orphanedClaimsRun G Q view; orphans = sort_key (\<lambda>c. [claimNamespace c, claimName c]) (unconsumedClaims view)
    in if unconsumedClaims view = []
       then crStatus r = StatusPass \<and> crEvidence r = ''No orphaned ResourceClaims found.'' \<and> crRemediation r = ''No action required.''
       else crStatus r = StatusWarn \<and>
            crEvidence r = ''Found '' @ decimal (length orphans) @ '' ResourceClaims without consuming pods: '' @
              strings_Join (map claimPath orphans) '', '' \<and>
            crRemediation r = ''Delete unused ResourceClaims to free up cluster/node capacity.''"
proof -
  have "sort_key (\<lambda>c. [claimNamespace c, claimName c]) (unconsumedClaims view) = [] \<longleftrightarrow> unconsumedClaims view = []"
    by (metis length_0_conv length_sort)
  then show ?thesis
    unfolding orphanedClaimsRun_def Let_def discovered_orphans [OF assms] by (simp only: map_is_Nil_conv) simp
qed

theorem orphanedClaimsRun_exact_witness:
  "\<forall>Q. (let view = (exampleView ''34'')\<lparr>vwClaims := Inr [(doctorClaim [])\<lparr>claimName := ''z''\<rparr>, doctorClaim [], (doctorClaim [])\<lparr>claimName := ''a''\<rparr>],
                     vwPods := Inr examplePods\<rparr>;
            r = orphanedClaimsRun asciiUnicode Q view
        in crStatus r = StatusWarn \<and> crEvidence r = ''Found 2 ResourceClaims without consuming pods: team/a, team/z'') \<and>
   crStatus (orphanedClaimsRun asciiUnicode Q ((exampleView ''34'')\<lparr>vwClaims := Inr [doctorClaim []], vwPods := Inr examplePods\<rparr>)) = StatusPass \<and>
   crStatus (orphanedClaimsRun asciiUnicode Q ((exampleView ''34'')\<lparr>vwClaims := Inr [doctorClaim []], vwPods := Inl ''timeout''\<rparr>)) = StatusWarn"
proof -
  let ?a = "(doctorClaim [])\<lparr>claimName := ''a''\<rparr>" and ?z = "(doctorClaim [])\<lparr>claimName := ''z''\<rparr>"
  let ?view = "\<lambda>cs pods. (exampleView ''34'')\<lparr>vwClaims := Inr cs, vwPods := pods\<rparr>"
  have three: "unconsumedClaims (?view [?z, doctorClaim [], ?a] (Inr examplePods)) = [?z, ?a]"
    and none: "unconsumedClaims (?view [doctorClaim []] (Inr examplePods)) = []"
    and all: "unconsumedClaims (?view [doctorClaim []] (Inl ''timeout'')) = [doctorClaim []]"
    by (simp_all add: unconsumedClaims_def doctorClaim_def podReferences_def examplePods_def podClaimName_def claimKey_def)
  have order: "sort_key (\<lambda>c. [claimNamespace c, claimName c]) [?z, ?a] = [?a, ?z]" by (simp add: doctorClaim_def)
  have dist: "distinct (map (\<lambda>c. claimKey (claimNamespace c) (claimName c)) [?z, doctorClaim [], ?a])"
    by (simp add: doctorClaim_def claimKey_def)
  have named: "list_all (\<lambda>pod. podName pod \<noteq> '''') examplePods" by (simp add: examplePods_def)
  have paths: "strings_Join (map claimPath [?a, ?z]) '', '' = ''team/a, team/z''"
    by (simp add: claimPath_def doctorClaim_def strings_Join_Cons)
  have two: "decimal (Suc (Suc 0)) = ''2''" by code_simp
  show ?thesis
  proof (intro allI conjI)
    fix Q :: "unit quantity_api"
    show "let view = ?view [?z, doctorClaim [], ?a] (Inr examplePods); r = orphanedClaimsRun asciiUnicode Q view
        in crStatus r = StatusWarn \<and> crEvidence r = ''Found 2 ResourceClaims without consuming pods: team/a, team/z''"
      using orphanedClaimsRun_exact [of "?view [?z, doctorClaim [], ?a] (Inr examplePods)" asciiUnicode Q] dist named
      unfolding three Let_def order paths by (simp add: two)
    show "crStatus (orphanedClaimsRun asciiUnicode Q (?view [doctorClaim []] (Inr examplePods))) = StatusPass"
      using orphanedClaimsRun_exact [of "?view [doctorClaim []] (Inr examplePods)" asciiUnicode Q] named
      by (simp add: none Let_def)
    show "crStatus (orphanedClaimsRun asciiUnicode Q (?view [doctorClaim []] (Inl ''timeout''))) = StatusWarn"
      using orphanedClaimsRun_exact [of "?view [doctorClaim []] (Inl ''timeout'')" asciiUnicode Q]
      by (simp add: all Let_def)
  qed
qed

end
