(* ===== verification/Terminal_UI.thy ===== *)
theory Terminal_UI
  imports Doctor
begin

text \<open>
  The terminal UI, \<^verbatim>\<open>internal/tui/tui.go\<close>: the state, \<^verbatim>\<open>Update\<close> with the command it returns, what a refresh reads, and the text of
  \<^verbatim>\<open>View\<close>. The event loop is Bubble Tea's: it delivers key presses and, some time after a refresh command was returned, its result,
  one message at a time. A time is its nanoseconds and prints through \<open>clockText\<close>, \<^verbatim>\<open>Format("15:04:05")\<close>.
\<close>

section \<open>Text\<close>

text \<open>The verb \<^verbatim>\<open>%-ns\<close> pads by runes; in UTF-8 a rune has one byte outside 0x80 to 0xBF.\<close>

definition runeCount :: "string \<Rightarrow> nat" where
  "runeCount s = length (filter (\<lambda>c. (of_char c :: nat) < 128 \<or> (of_char c :: nat) \<ge> 192) s)"

definition padRight :: "nat \<Rightarrow> string \<Rightarrow> string" where
  "padRight n s = s @ replicate (n - runeCount s) (CHR '' '')"

definition nl :: string where "nl = [CHR 0x0A]"

definition row :: "(nat \<times> string) list \<Rightarrow> string" where
  "row cells = strings_Join (map (\<lambda>(n, s). padRight n s) cells) '' ''"

definition boxBar :: string where "boxBar = concat (replicate 56 [CHR 0xE2, CHR 0x94, CHR 0x80])"

definition escape :: "string \<Rightarrow> string" where "escape code = [CHR 0x1B] @ ''['' @ code @ ''m''"

section \<open>State\<close>

datatype activeView = ViewSummary | ViewPools | ViewDevices | ViewClaims | ViewDoctor

record 'q modelState =
  msActiveTab :: activeView
  msPools :: "DevicePool list"
  msDevices :: "'q model_device list"
  msClaims :: "ResourceClaimInfo list"
  msDocReport :: DoctorReport
  msErr :: "string option"
  msLoading :: bool
  msLastRefreshed :: "int option"

definition emptyReport :: DoctorReport where
  "emptyReport = \<lparr>reportTimestamp = 0, reportSummary = [], reportResults = []\<rparr>"

definition NewModel :: "'q modelState" where
  "NewModel =
     \<lparr>msActiveTab = ViewSummary, msPools = [], msDevices = [], msClaims = [], msDocReport = emptyReport, msErr = None,
      msLoading = True, msLastRefreshed = None\<rparr>"

datatype tea_cmd = NoCommand | QuitCommand | RefreshCommand

record 'q refreshMsg =
  rmPools :: "DevicePool list"
  rmDevices :: "'q model_device list"
  rmClaims :: "ResourceClaimInfo list"
  rmDocReport :: DoctorReport
  rmErr :: "string option"

datatype 'q tea_msg = KeyMsg string | RefreshDone "'q refreshMsg" int | OtherMsg

definition Init :: tea_cmd where "Init = RefreshCommand"

definition Update :: "'q tea_msg \<Rightarrow> 'q modelState \<Rightarrow> 'q modelState \<times> tea_cmd" where
  "Update msg m =
     (case msg of
        KeyMsg k \<Rightarrow>
          if k = ''q'' \<or> k = ''ctrl+c'' then (m, QuitCommand)
          else if k = ''r'' then (m\<lparr>msLoading := True\<rparr>, RefreshCommand)
          else if k = ''1'' then (m\<lparr>msActiveTab := ViewSummary\<rparr>, NoCommand)
          else if k = ''2'' then (m\<lparr>msActiveTab := ViewPools\<rparr>, NoCommand)
          else if k = ''3'' then (m\<lparr>msActiveTab := ViewDevices\<rparr>, NoCommand)
          else if k = ''4'' then (m\<lparr>msActiveTab := ViewClaims\<rparr>, NoCommand)
          else if k = ''5'' then (m\<lparr>msActiveTab := ViewDoctor\<rparr>, NoCommand)
          else (m, NoCommand)
      | RefreshDone r now \<Rightarrow>
          (let m1 = m\<lparr>msLoading := False, msLastRefreshed := Some now\<rparr>
           in (case rmErr r of
                 Some err \<Rightarrow> m1\<lparr>msErr := Some err\<rparr>
               | None \<Rightarrow> m1\<lparr>msPools := rmPools r, msDevices := rmDevices r, msClaims := rmClaims r, msDocReport := rmDocReport r, msErr := None\<rparr>,
               NoCommand))
      | OtherMsg \<Rightarrow> (m, NoCommand))"

text \<open>What a refresh reads: the three lists of discovery, which returns no error, then the diagnostics.\<close>

definition refreshCmd ::
  "go_unicode \<Rightarrow> 'q quantity_api \<Rightarrow> string + 'q live_claim list \<Rightarrow> string + 'q live_slice list \<Rightarrow> string + Pod list \<Rightarrow> int \<Rightarrow>
   (nat \<Rightarrow> 'q doctor_view) \<Rightarrow> 'q refreshMsg" where
  "refreshCmd G Q claimList sliceList podList now view =
     (let d = DiscoverDRAWithStatus G Q claimList sliceList podList
      in \<lparr>rmPools = dvPools d, rmDevices = dvDevices d, rmClaims = dvClaims d,
          rmDocReport = RunDiagnostics (NewRegistry G Q) now view, rmErr = None\<rparr>)"

section \<open>View\<close>

definition viewHeader :: string where
  "viewHeader =
     [CHR 0xE2, CHR 0x94, CHR 0x8C] @ boxBar @ [CHR 0xE2, CHR 0x94, CHR 0x90] @ nl @
     [CHR 0xE2, CHR 0x94, CHR 0x82] @ ''                   DRAForge Terminal UI                 '' @ [CHR 0xE2, CHR 0x94, CHR 0x82] @ nl @
     [CHR 0xE2, CHR 0x94, CHR 0x94] @ boxBar @ [CHR 0xE2, CHR 0x94, CHR 0x98] @ nl @ nl"

definition tabList :: "(activeView \<times> string) list" where
  "tabList = [(ViewSummary, ''[1] Summary''), (ViewPools, ''[2] Pools''), (ViewDevices, ''[3] Devices''), (ViewClaims, ''[4] Claims''), (ViewDoctor, ''[5] Doctor'')]"

definition viewTabs :: "activeView \<Rightarrow> string" where
  "viewTabs active =
     concat (map (\<lambda>(v, t). if v = active then '' > '' @ escape ''1;36'' @ t @ escape ''0'' @ '' < '' else ''   '' @ t @ ''   '') tabList) @ nl @ nl"

definition viewSummaryText :: "(int option \<Rightarrow> string) \<Rightarrow> 'q modelState \<Rightarrow> string" where
  "viewSummaryText clockText m =
     ''== Cluster Overview =='' @ nl @
     ''  Active Device Pools: '' @ decimal (length (msPools m)) @ nl @
     ''  Discovered Devices:  '' @ decimal (length (msDevices m)) @ nl @
     ''  Resource Claims:     '' @ decimal (length (msClaims m)) @ nl @
     ''  Diagnostics Run:     '' @ clockText (msLastRefreshed m) @ nl"

definition viewPoolsText :: "'q modelState \<Rightarrow> string" where
  "viewPoolsText m =
     ''== Simulated Resource Pools =='' @ nl @
     (if msPools m = [] then ''  No active device pools found.'' @ nl
      else ''  '' @ row [(25, ''NAME''), (15, ''DRIVER''), (15, ''NODE''), (10, ''DEVICES'')] @ nl @ replicate 70 (CHR ''-'') @ nl @
           concat (map (\<lambda>p. ''  '' @ row [(25, dpName p), (15, dpDriverName p), (15, dpNodeName p), (10, decimalInt (dpDeviceCount p))] @ nl) (msPools m)))"

definition truncateName :: "string \<Rightarrow> string" where
  "truncateName s = (if length s > 25 then take 22 s @ ''...'' else s)"

definition viewDevicesText :: "'q modelState \<Rightarrow> string" where
  "viewDevicesText m =
     ''== Discovered Devices =='' @ nl @
     (if msDevices m = [] then ''  No devices published. Activate SimulatedDevicePools.'' @ nl
      else ''  '' @ row [(25, ''DEVICE ID''), (12, ''TYPE''), (15, ''NODE''), (10, ''STATUS'')] @ nl @ replicate 70 (CHR ''-'') @ nl @
           concat (map (\<lambda>d. ''  '' @ row [(25, truncateName (mdName d)), (12, mdType d), (15, mdNodeName d), (10, mdStatus d)] @ nl) (msDevices m)))"

definition viewClaimsText :: "'q modelState \<Rightarrow> string" where
  "viewClaimsText m =
     ''== Resource Claims =='' @ nl @
     (if msClaims m = [] then ''  No active ResourceClaims found.'' @ nl
      else ''  '' @ row [(25, ''CLAIM NAME''), (15, ''NAMESPACE''), (35, ''CLASSES''), (12, ''ALLOCATIONS''), (15, ''STATUS'')] @ nl @ replicate 110 (CHR ''-'') @ nl @
           concat (map (\<lambda>c. let classes = strings_Join (RequestedClassNames c) '','' in
               ''  '' @ row [(25, ciName c), (15, ciNamespace c), (35, if classes = '''' then ''-'' else classes),
                 (12, decimal (length (EffectiveAllocations c))), (15, ciStatus c)] @ nl) (msClaims m)))"

definition statusColor :: "DoctorCheckStatus \<Rightarrow> string" where
  "statusColor s = (case s of StatusFail \<Rightarrow> escape ''31'' | StatusWarn \<Rightarrow> escape ''33'' | _ \<Rightarrow> escape ''32'')"

definition viewDoctorText :: "'q modelState \<Rightarrow> string" where
  "viewDoctorText m =
     ''== Diagnostics (Doctor) =='' @ nl @
     (if reportResults (msDocReport m) = [] then ''  No diagnostic runs available.'' @ nl
      else concat (map (\<lambda>res. ''  ['' @ statusColor (crStatus res) @ statusText (crStatus res) @ escape ''0'' @ ''] '' @ crID res @ '': '' @ crCheckName res @ nl @
               ''        Evidence: '' @ crEvidence res @ nl @ nl) (reportResults (msDocReport m))))"

definition View :: "(int option \<Rightarrow> string) \<Rightarrow> 'q modelState \<Rightarrow> string" where
  "View clockText m =
     viewHeader @ viewTabs (msActiveTab m) @
     (if msLoading m then '' Loading cluster data from DigitalOcean...'' @ nl
      else case msErr m of
             Some err \<Rightarrow> '' '' @ escape ''1;31'' @ ''Error connecting to cluster:'' @ escape ''0'' @ '' '' @ err @ nl @ nl @
                         '' Press '' @ [CHR 0x27] @ ''r'' @ [CHR 0x27] @ '' to retry or '' @ [CHR 0x27] @ ''q'' @ [CHR 0x27] @ '' to quit.'' @ nl
           | None \<Rightarrow>
               (case msActiveTab m of
                  ViewSummary \<Rightarrow> viewSummaryText clockText m
                | ViewPools \<Rightarrow> viewPoolsText m
                | ViewDevices \<Rightarrow> viewDevicesText m
                | ViewClaims \<Rightarrow> viewClaimsText m
                | ViewDoctor \<Rightarrow> viewDoctorText m) @ nl @ '' [r] Refresh Data  |  [q] Quit TUI'' @ nl)"

section \<open>What the screen shows\<close>

text \<open>The messages of a session, as they are delivered.\<close>

definition runSession :: "'q tea_msg list \<Rightarrow> 'q modelState" where
  "runSession msgs = fold (\<lambda>msg m. fst (Update msg m)) msgs NewModel"

definition lastGood :: "'q tea_msg list \<Rightarrow> 'q refreshMsg option" where
  "lastGood msgs =
     (case rev (filter (\<lambda>msg. case msg of RefreshDone r _ \<Rightarrow> rmErr r = None | _ \<Rightarrow> False) msgs) of
        RefreshDone r _ # _ \<Rightarrow> Some r | _ \<Rightarrow> None)"

lemma runSession_snoc: "runSession (msgs @ [msg]) = fst (Update msg (runSession msgs))"
  by (simp add: runSession_def)

lemma lastGood_snoc:
  "lastGood (msgs @ [msg]) = (case msg of RefreshDone r _ \<Rightarrow> if rmErr r = None then Some r else lastGood msgs | _ \<Rightarrow> lastGood msgs)"
  by (cases msg) (simp_all add: lastGood_def)

text \<open>
  The screen never mixes refreshes: pools, devices, claims and diagnostics are together those of the last refresh that succeeded, or all
  empty before the first; a failed refresh keeps them and shows its error until the next one succeeds.
\<close>

lemma runSession_consistent:
  "case lastGood msgs of
     None \<Rightarrow> msPools (runSession msgs) = [] \<and> msDevices (runSession msgs) = [] \<and> msClaims (runSession msgs) = [] \<and>
             msDocReport (runSession msgs) = emptyReport
   | Some r \<Rightarrow> msPools (runSession msgs) = rmPools r \<and> msDevices (runSession msgs) = rmDevices r \<and> msClaims (runSession msgs) = rmClaims r \<and>
               msDocReport (runSession msgs) = rmDocReport r"
proof (induction msgs rule: rev_induct)
  case Nil
  show ?case by (simp add: lastGood_def runSession_def NewModel_def)
next
  case (snoc msg msgs)
  show ?case
  proof (cases msg)
    case (RefreshDone r now)
    with snoc.IH show ?thesis
      by (cases "rmErr r") (simp_all add: lastGood_snoc runSession_snoc Update_def Let_def split: option.splits)
  next
    case (KeyMsg k)
    have "msPools (fst (Update msg m)) = msPools m \<and> msDevices (fst (Update msg m)) = msDevices m \<and>
        msClaims (fst (Update msg m)) = msClaims m \<and> msDocReport (fst (Update msg m)) = msDocReport m" for m
      using KeyMsg by (simp add: Update_def)
    with snoc.IH KeyMsg show ?thesis by (simp add: lastGood_snoc runSession_snoc split: option.splits)
  next
    case OtherMsg
    with snoc.IH show ?thesis by (simp add: lastGood_snoc runSession_snoc Update_def split: option.splits)
  qed
qed

end
