(* ===== verification/Explain.thy ===== *)
theory Explain
  imports Discovery Draeval API_Monad
begin

text \<open>
  The reasoning engine, \<^verbatim>\<open>internal/explain/explain.go\<close>: why a claim is or is not allocated, as a tree of reasons and a
  list of remedies. The objects the API returns are inputs, the CEL evaluator is the one of \<open>Draeval\<close>, and \<open>redact\<close> is
  \<^verbatim>\<open>redaction.RedactString\<close>, which \<open>Redaction\<close> models. The helpers that append to \<^verbatim>\<open>root.Children\<close> and to
  \<^verbatim>\<open>result.Remedy\<close> pass both lists on as an \<open>explanation\<close>.
\<close>

datatype ReasonNode = ReasonNode
  (rnMessage: string) (rnConfidence: string) (rnEvidence: string) (rnSourceType: string) (rnFieldPath: string)
  (rnChildren: "ReasonNode list")

record ExplainResult =
  erTargetName :: string
  erTargetType :: string
  erAllocated :: bool
  erReasonTree :: ReasonNode
  erRemedy :: "string list"

record explanation =
  exChildren :: "ReasonNode list"
  exRemedy :: "string list"

definition addReason :: "ReasonNode \<Rightarrow> explanation \<Rightarrow> explanation" where
  "addReason node x = x\<lparr>exChildren := exChildren x @ [node]\<rparr>"

definition addRemedy :: "string \<Rightarrow> explanation \<Rightarrow> explanation" where
  "addRemedy text x = x\<lparr>exRemedy := exRemedy x @ [text]\<rparr>"

definition claimRequestsFieldPath :: string where "claimRequestsFieldPath = ''.spec.devices.requests''"

section \<open>Texts\<close>

definition formatAllocation :: "ClaimAllocation \<Rightarrow> string" where
  "formatAllocation a =
     (if caRequest a = '''' then ''unknown-request'' else caRequest a) @ '': '' @ caDriverName a @ ''/'' @ caPoolName a @ ''/'' @
     caDeviceName a @ '' on '' @ (if caNodeName a = '''' then ''unknown-node'' else caNodeName a)"

definition formatAllocations :: "ClaimAllocation list \<Rightarrow> string" where
  "formatAllocations as = (if as = [] then ''none'' else strings_Join (map formatAllocation as) ''; '')"

text \<open>\<open>claimReservedFor\<close> has the names of the references.\<close>

definition formatConsumers :: "string list \<Rightarrow> string" where
  "formatConsumers names = (if names = [] then ''none'' else strings_Join names '', '')"

definition selectorErrorText :: "selector_error \<Rightarrow> string" where
  "selectorErrorText err =
     (case err of
        CELRequired si i \<Rightarrow> ''unsupported selector at set '' @ decimal si @ '' index '' @ decimal i @ '': CEL selector is required''
      | CompileSelector si i e \<Rightarrow> ''compile selector at set '' @ decimal si @ '' index '' @ decimal i @ '': '' @ e
      | EvaluateSelector si i e \<Rightarrow> ''evaluate selector at set '' @ decimal si @ '' index '' @ decimal i @ '': '' @ e)"

section \<open>Candidates\<close>

text \<open>The device the selectors see: what discovery kept of it, all other fields unset.\<close>

definition selectorDevice :: "'q model_device \<Rightarrow> 'q Device" where
  "selectorDevice d =
     \<lparr>devName = mdName d, devAttributes = mdDRAAttributes d, devCapacity = mdDRACapacity d, consumesCounters = [],
      devNodeName = None, devNodeSelector = None, devAllNodes = None, taints = [], bindsToNode = None, bindingConditions = [],
      bindingFailureConditions = [], allowMultipleAllocations = mdDRAAllowMultipleAllocations d, nodeAllocatableResourceMappings = []\<rparr>"

definition matchesDeviceClass :: "'q cel_api \<Rightarrow> 'q model_device \<Rightarrow> DeviceClass \<Rightarrow> selector_error + bool" where
  "matchesDeviceClass cel d deviceClass = Matches cel (mdDriverName d) (selectorDevice d) [classSelectors deviceClass]"

fun matchesClasses ::
  "'q cel_api \<Rightarrow> 'q model_device \<Rightarrow> DeviceClass list \<Rightarrow> selector_error option \<Rightarrow> bool \<times> selector_error option" where
  "matchesClasses cel d [] lastError = (False, lastError)"
| "matchesClasses cel d (c # cs) lastError =
     (case matchesDeviceClass cel d c of
        Inl err \<Rightarrow> matchesClasses cel d cs (Some err)
      | Inr matches \<Rightarrow> if matches then (True, None) else matchesClasses cel d cs lastError)"

definition matchesAnyRequestedClass ::
  "'q cel_api \<Rightarrow> 'q model_device \<Rightarrow> DeviceClass list \<Rightarrow> bool \<Rightarrow> bool \<times> selector_error option" where
  "matchesAnyRequestedClass cel d classes noClassRequested =
     (if noClassRequested then (True, None) else matchesClasses cel d classes None)"

definition allocationMatchesDevice :: "ClaimAllocation \<Rightarrow> 'q model_device \<Rightarrow> bool" where
  "allocationMatchesDevice a d \<longleftrightarrow>
     caDeviceName a = mdName d \<and> (caDriverName a = '''' \<or> caDriverName a = mdDriverName d) \<and>
     (caPoolName a = '''' \<or> caPoolName a = mdPoolName d) \<and> (caNodeName a = '''' \<or> caNodeName a = mdNodeName d)"

definition deviceAllocated :: "'q model_device \<Rightarrow> ResourceClaimInfo list \<Rightarrow> bool" where
  "deviceAllocated d claims \<longleftrightarrow>
     list_ex (\<lambda>c. ciStatus c = ''Allocated'' \<and> list_ex (\<lambda>a. allocationMatchesDevice a d) (EffectiveAllocations c)) claims"

record candidateStats =
  selectorPassed :: int
  capacityMatched :: int
  unhealthyCount :: int
  selectorErrors :: int
  lastSelectorError :: "selector_error option"

definition evaluateDevice ::
  "'q cel_api \<Rightarrow> ResourceClaimInfo list \<Rightarrow> DeviceClass list \<Rightarrow> bool \<Rightarrow> 'q model_device \<Rightarrow> candidateStats \<Rightarrow> candidateStats" where
  "evaluateDevice cel claims classes noClass d stats =
     (case matchesAnyRequestedClass cel d classes noClass of
        (passed, selectorErr) \<Rightarrow>
          let stats1 = (case selectorErr of
                          None \<Rightarrow> stats
                        | Some err \<Rightarrow> stats\<lparr>selectorErrors := selectorErrors stats + 1, lastSelectorError := Some err\<rparr>)
          in if \<not> passed then stats1
             else let stats2 = stats1\<lparr>selectorPassed := selectorPassed stats1 + 1\<rparr>
                  in if mdStatus d \<noteq> '''' \<and> mdStatus d \<noteq> ''healthy'' then stats2\<lparr>unhealthyCount := unhealthyCount stats2 + 1\<rparr>
                     else if deviceAllocated d claims then stats2
                     else stats2\<lparr>capacityMatched := capacityMatched stats2 + 1\<rparr>)"

definition evaluateCandidates ::
  "'q cel_api \<Rightarrow> 'q model_device list \<Rightarrow> ResourceClaimInfo list \<Rightarrow> DeviceClass list \<Rightarrow> bool \<Rightarrow> candidateStats" where
  "evaluateCandidates cel devices claims classes noClass =
     fold (evaluateDevice cel claims classes noClass) devices
       \<lparr>selectorPassed = 0, capacityMatched = 0, unhealthyCount = 0, selectorErrors = 0, lastSelectorError = None\<rparr>"

definition falseSelectors :: "int \<Rightarrow> candidateStats \<Rightarrow> int" where
  "falseSelectors totalDevices stats = totalDevices - selectorPassed stats - selectorErrors stats"

definition unavailableCount :: "candidateStats \<Rightarrow> int" where
  "unavailableCount stats = selectorPassed stats - unhealthyCount stats - capacityMatched stats"

definition candidateSummary :: "int \<Rightarrow> candidateStats \<Rightarrow> ReasonNode" where
  "candidateSummary totalDevices stats =
     ReasonNode (decimalInt totalDevices @ '' candidate devices evaluated'') ''inferred''
       (''Evaluated '' @ decimalInt totalDevices @ '' devices: '' @ decimalInt (totalDevices - selectorPassed stats) @ '' rejected due to selector mismatch.'')
       ''ResourceSlice'' ''''
       ((if falseSelectors totalDevices stats > 0
         then [ReasonNode (decimalInt (falseSelectors totalDevices stats) @ '' rejected because selector evaluated to false'') ''confirmed'' '''' ''DeviceClass'' '''' []]
         else []) @
        (if unhealthyCount stats > 0
         then [ReasonNode (decimalInt (unhealthyCount stats) @ '' rejected because device health status was unhealthy or degraded'') ''confirmed'' '''' ''ResourceSlice'' '''' []]
         else []) @
        (if unavailableCount stats > 0
         then [ReasonNode (decimalInt (unavailableCount stats) @ '' rejected because requested capacity (already allocated) was unavailable'') ''inferred'' '''' ''ResourceSlice'' '''' []]
         else []) @
        (if selectorErrors stats > 0
         then [ReasonNode (decimalInt (selectorErrors stats) @ '' rejected because selector expression failed or was unsupported'') ''confirmed''
                 (case lastSelectorError stats of Some err \<Rightarrow> selectorErrorText err | None \<Rightarrow> '''') ''DeviceClass'' '''' []]
         else []))"

definition appendCandidateReason :: "int \<Rightarrow> candidateStats \<Rightarrow> explanation \<Rightarrow> explanation" where
  "appendCandidateReason totalDevices stats x =
     (if totalDevices = 0
      then addRemedy ''Register a DRA driver or deploy a SimulatedDevicePool scenario.''
             (addReason (ReasonNode ''No devices discovered in the cluster.'' ''confirmed'' ''ResourceSlice query returned 0 devices.'' ''ResourceSlice'' '''' []) x)
      else let x1 = addReason (candidateSummary totalDevices stats) x;
               x2 = (if unhealthyCount stats > 0
                     then addRemedy ''Inspect and resolve health/degradation states for the unhealthy simulated devices.'' x1 else x1)
           in if capacityMatched stats = 0 \<and> unhealthyCount stats = 0
              then addRemedy ''Release existing allocations or increase device counts in the pool.'' x2 else x2)"

text \<open>
  In \<open>candidateSummary\<close> the source dereferences \<^verbatim>\<open>lastSelectorError\<close> only when an error has been counted; the theorem
  on the counts shows that there is one then.
\<close>

section \<open>The other reasons\<close>

definition usesAdvancedFeatures :: "'q live_claim \<Rightarrow> bool" where
  "usesAdvancedFeatures claim \<longleftrightarrow>
     list_ex (\<lambda>request.
       (case drExactly request of None \<Rightarrow> False | Some e \<Rightarrow> exTolerations e \<noteq> [] \<or> exCapacity e \<noteq> None) \<or>
       list_ex (\<lambda>alternative. subTolerations alternative \<noteq> [] \<or> subCapacity alternative \<noteq> None) (drFirstAvailable request))
     (claimRequests claim)"

definition appendAdvancedFeatureReason :: "'q live_claim \<Rightarrow> explanation \<Rightarrow> explanation" where
  "appendAdvancedFeatureReason claim x =
     (if \<not> usesAdvancedFeatures claim then x
      else addReason (ReasonNode ''Claim uses advanced v1.36 features (e.g. Tolerations, Capacity) which are only partially modeled.''
             ''informational'' '''' ''ResourceClaim'' claimRequestsFieldPath []) x)"

definition appendNodeSelectorReason :: "'q live_claim \<Rightarrow> explanation \<Rightarrow> explanation" where
  "appendNodeSelectorReason claim x =
     (case claimAllocation claim of
        None \<Rightarrow> x
      | Some a \<Rightarrow>
          if allocNodeSelector a = None then x
          else addReason (ReasonNode ''Node selector computed, pending final allocation'' ''confirmed''
                 ''Claim has an active node selector indicating preliminary scheduling.'' ''ResourceClaim'' ''.status.allocation.nodeSelector'' []) x)"

definition listDeviceClasses :: "string + DeviceClass list \<Rightarrow> string \<Rightarrow> DeviceClass option" where
  "listDeviceClasses classList =
     (case classList of Inl _ \<Rightarrow> Map.empty | Inr items \<Rightarrow> fold (\<lambda>c m. m(className c \<mapsto> c)) items Map.empty)"

definition missingClassRemedy :: "string \<Rightarrow> string" where
  "missingClassRemedy name = ''Create the missing DeviceClass '' @ [CHR 0x27] @ name @ [CHR 0x27] @ '' in the cluster.''"

definition appendMissingClassReason :: "string \<Rightarrow> explanation \<Rightarrow> explanation" where
  "appendMissingClassReason name x =
     addRemedy (missingClassRemedy name)
       (addReason (ReasonNode (''Requested DeviceClass '' @ [CHR 0x27] @ name @ [CHR 0x27] @ '' does not exist in the cluster.'') ''confirmed''
          ''DeviceClass list query returned no match for this request alternative.'' ''DeviceClass'' claimRequestsFieldPath []) x)"

fun resolveClasses ::
  "(string \<Rightarrow> DeviceClass option) \<Rightarrow> string list \<Rightarrow> explanation \<Rightarrow> DeviceClass list \<times> explanation" where
  "resolveClasses available [] x = ([], x)"
| "resolveClasses available (name # names) x =
     (case available name of
        Some c \<Rightarrow> (case resolveClasses available names x of (cs, x') \<Rightarrow> (c # cs, x'))
      | None \<Rightarrow> resolveClasses available names (appendMissingClassReason name x))"

definition resolveRequestedClasses ::
  "string + DeviceClass list \<Rightarrow> ResourceClaimInfo \<Rightarrow> explanation \<Rightarrow> DeviceClass list \<times> explanation" where
  "resolveRequestedClasses classList target x =
     (let classNames = RequestedClassNames target;
          x1 = (if classNames = [] then x
                else addReason (ReasonNode (''Claim requests DeviceClasses: '' @ strings_Join classNames '', '') ''confirmed''
                       (''Preserved '' @ decimal (length classNames) @ '' request alternatives from '' @ claimRequestsFieldPath @ ''.'')
                       ''ResourceClaim'' claimRequestsFieldPath []) x)
      in resolveClasses (listDeviceClasses classList) classNames x1)"

record cluster_event =
  ceObjectName :: string
  ceObjectKind :: string
  ceReason :: string
  ceType :: string
  ceMessage :: string

definition appendEventReasons :: "(string \<Rightarrow> string) \<Rightarrow> string + cluster_event list \<Rightarrow> string \<Rightarrow> explanation \<Rightarrow> explanation" where
  "appendEventReasons redact eventList claim x =
     (case eventList of
        Inl _ \<Rightarrow> x
      | Inr events \<Rightarrow>
          fold (\<lambda>event. addReason (ReasonNode (''Cluster Event: '' @ ceReason event) ''probable''
                  (''['' @ ceType event @ ''] '' @ redact (ceMessage event)) ''Event'' '''' []))
            (filter (\<lambda>event. ceObjectName event = claim \<and> ceObjectKind event = ''ResourceClaim'') events) x)"

definition appendConsumerReason :: "string list \<Rightarrow> explanation \<Rightarrow> explanation" where
  "appendConsumerReason references x =
     (if references = []
      then addRemedy ''Deploy a Pod referencing this ResourceClaim to trigger allocation.''
             (addReason (ReasonNode ''Claim uses delayed allocation, waiting for first consumer pod.'' ''confirmed''
                ''status.reservedFor is empty, no active pod has claimed this resource.'' ''ResourceClaim'' ''.status.reservedFor'' []) x)
      else addReason (ReasonNode ''Claim has active consumers but allocation is pending.'' ''confirmed''
             (''Reserved for consumers: '' @ formatConsumers references) ''ResourceClaim'' ''.status.reservedFor'' []) x)"

section \<open>The explanation of a claim\<close>

definition allocatedReason :: "ResourceClaimInfo \<Rightarrow> 'q live_claim \<Rightarrow> ReasonNode" where
  "allocatedReason target liveClaim =
     ReasonNode ''ResourceClaim successfully allocated.'' ''confirmed''
       (''Claim status is Allocated. Allocations: '' @ formatAllocations (EffectiveAllocations target) @
        ''. Reserved for consumers: '' @ formatConsumers (claimReservedFor liveClaim))
       ''ResourceClaim'' ''.status.allocation.devices.results'' []"

text \<open>What the engine reads besides the lists of discovery.\<close>

record 'q explain_input =
  xiLiveClaim :: "api_error + 'q live_claim"
  xiClasses :: "string + DeviceClass list"
  xiEvents :: "string + cluster_event list"

definition pendingReason ::
  "'q cel_api \<Rightarrow> (string \<Rightarrow> string) \<Rightarrow> 'q explain_input \<Rightarrow> ResourceClaimInfo \<Rightarrow> 'q live_claim \<Rightarrow> 'q model_device list \<Rightarrow>
   ResourceClaimInfo list \<Rightarrow> explanation" where
  "pendingReason cel redact input target liveClaim devices claims =
     (let x1 = appendAdvancedFeatureReason liveClaim \<lparr>exChildren = [], exRemedy = []\<rparr>;
          x2 = appendNodeSelectorReason liveClaim x1
      in case resolveRequestedClasses (xiClasses input) target x2 of
           (requested, x3) \<Rightarrow>
             let stats = evaluateCandidates cel devices claims requested (RequestedClassNames target = []);
                 x4 = appendCandidateReason (int (length devices)) stats x3;
                 x5 = appendEventReasons redact (xiEvents input) (claimName liveClaim) x4
             in appendConsumerReason (claimReservedFor liveClaim) x5)"

definition findClaim :: "ResourceClaimInfo list \<Rightarrow> string \<Rightarrow> string \<Rightarrow> ResourceClaimInfo option" where
  "findClaim claims namespace name = find (\<lambda>c. ciName c = name \<and> ciNamespace c = namespace) claims"

definition ExplainClaim ::
  "'q cel_api \<Rightarrow> (string \<Rightarrow> string) \<Rightarrow> 'q discovered \<Rightarrow> 'q explain_input \<Rightarrow> string \<Rightarrow> string \<Rightarrow> api_error + ExplainResult" where
  "ExplainClaim cel redact d input namespace name =
     (case xiLiveClaim input of
        Inl err \<Rightarrow> Inl (wrapError (''failed to get ResourceClaim '' @ namespace @ ''/'' @ name) err)
      | Inr liveClaim \<Rightarrow>
          (case findClaim (dvClaims d) namespace name of
             None \<Rightarrow> Inl (plainError (''ResourceClaim '' @ namespace @ ''/'' @ name @ '' not found''))
           | Some target \<Rightarrow>
               if ciStatus target = ''Allocated''
               then Inr \<lparr>erTargetName = name, erTargetType = ''claim'', erAllocated = True,
                         erReasonTree = allocatedReason target liveClaim, erRemedy = []\<rparr>
               else let x = pendingReason cel redact input target liveClaim (dvDevices d) (dvClaims d)
                    in Inr \<lparr>erTargetName = name, erTargetType = ''claim'', erAllocated = False,
                            erReasonTree = ReasonNode ''Claim could not be allocated.'' ''confirmed'' ''Claim status is Pending.''
                              ''ResourceClaim'' ''.status.allocation'' (exChildren x),
                            erRemedy = exRemedy x\<rparr>))"


section \<open>What the counts mean\<close>

text \<open>
  The meaning of the verdicts, without the loops: a device passes when no class is asked for or one of the classes that exist
  accepts it, that is, all selectors of the class hold of it; it fails when none accepts it and one of them cannot be
  evaluated.
\<close>

definition classAccepts :: "'q cel_api \<Rightarrow> 'q model_device \<Rightarrow> DeviceClass \<Rightarrow> bool" where
  "classAccepts cel d c \<longleftrightarrow> list_all (selectorHolds cel (celInput (mdDriverName d) (selectorDevice d))) (classSelectors c)"

definition passesSelectors :: "'q cel_api \<Rightarrow> DeviceClass list \<Rightarrow> bool \<Rightarrow> 'q model_device \<Rightarrow> bool" where
  "passesSelectors cel classes noClass d \<longleftrightarrow> noClass \<or> list_ex (classAccepts cel d) classes"

definition selectorsFail :: "'q cel_api \<Rightarrow> DeviceClass list \<Rightarrow> bool \<Rightarrow> 'q model_device \<Rightarrow> bool" where
  "selectorsFail cel classes noClass d \<longleftrightarrow>
     \<not> passesSelectors cel classes noClass d \<and> list_ex (\<lambda>c. isl (matchesDeviceClass cel d c)) classes"

definition isUnhealthy :: "'q model_device \<Rightarrow> bool" where
  "isUnhealthy d \<longleftrightarrow> mdStatus d \<notin> {'''', ''healthy''}"

lemma matchesDeviceClass_accepts: "matchesDeviceClass cel d c = Inr True \<longleftrightarrow> classAccepts cel d c"
  by (simp add: matchesDeviceClass_def Matches_True_iff classAccepts_def list_all_iff)

lemma matchesClasses_exact:
  "fst (matchesClasses cel d classes e) \<longleftrightarrow> list_ex (classAccepts cel d) classes"
  by (induction classes arbitrary: e) (auto split: sum.splits simp flip: matchesDeviceClass_accepts)

lemma matchesClasses_errors:
  "snd (matchesClasses cel d classes None) = None \<longleftrightarrow>
     list_ex (classAccepts cel d) classes \<or> \<not> list_ex (\<lambda>c. isl (matchesDeviceClass cel d c)) classes"
proof -
  have "snd (matchesClasses cel d classes e) = None \<longleftrightarrow>
          list_ex (classAccepts cel d) classes \<or> (e = None \<and> \<not> list_ex (\<lambda>c. isl (matchesDeviceClass cel d c)) classes)" for e
    by (induction classes arbitrary: e) (auto split: sum.splits simp flip: matchesDeviceClass_accepts)
  then show ?thesis by blast
qed

lemma matchesAnyRequestedClass_exact:
  "fst (matchesAnyRequestedClass cel d classes noClass) \<longleftrightarrow> passesSelectors cel classes noClass d"
  "snd (matchesAnyRequestedClass cel d classes noClass) = None \<longleftrightarrow> \<not> selectorsFail cel classes noClass d"
  by (auto simp: matchesAnyRequestedClass_def passesSelectors_def selectorsFail_def matchesClasses_exact matchesClasses_errors)

lemma evaluateDevice_counts:
  defines "step \<equiv> evaluateDevice"
  shows "selectorPassed (step cel claims classes noClass d s) =
           selectorPassed s + of_bool (passesSelectors cel classes noClass d)"
    and "selectorErrors (step cel claims classes noClass d s) = selectorErrors s + of_bool (selectorsFail cel classes noClass d)"
    and "unhealthyCount (step cel claims classes noClass d s) =
           unhealthyCount s + of_bool (passesSelectors cel classes noClass d \<and> isUnhealthy d)"
    and "capacityMatched (step cel claims classes noClass d s) =
           capacityMatched s + of_bool (passesSelectors cel classes noClass d \<and> \<not> isUnhealthy d \<and> \<not> deviceAllocated d claims)"
    and "lastSelectorError (step cel claims classes noClass d s) =
           (if selectorsFail cel classes noClass d then snd (matchesAnyRequestedClass cel d classes noClass) else lastSelectorError s)"
  using matchesAnyRequestedClass_exact [of cel d classes noClass]
  by (auto simp: step_def evaluateDevice_def isUnhealthy_def Let_def split: prod.splits option.splits)

lemma evaluateCandidates_fold:
  defines "run \<equiv> \<lambda>cel claims classes noClass. fold (evaluateDevice cel claims classes noClass)"
  shows "selectorPassed (run cel claims classes noClass devices s) =
           selectorPassed s + int (length (filter (passesSelectors cel classes noClass) devices))"
    and "selectorErrors (run cel claims classes noClass devices s) =
           selectorErrors s + int (length (filter (selectorsFail cel classes noClass) devices))"
    and "unhealthyCount (run cel claims classes noClass devices s) =
           unhealthyCount s + int (length (filter (\<lambda>d. passesSelectors cel classes noClass d \<and> isUnhealthy d) devices))"
    and "capacityMatched (run cel claims classes noClass devices s) =
           capacityMatched s + int (length (filter (\<lambda>d. passesSelectors cel classes noClass d \<and> \<not> isUnhealthy d \<and>
                                                          \<not> deviceAllocated d claims) devices))"
    and "lastSelectorError (run cel claims classes noClass devices s) = None \<longleftrightarrow>
           lastSelectorError s = None \<and> filter (selectorsFail cel classes noClass) devices = []"
  unfolding run_def
  by (induction devices arbitrary: s) (simp_all add: evaluateDevice_counts matchesAnyRequestedClass_exact(2))

text \<open>
  C35. The numbers in the explanation of a pending claim are exact. Every discovered device is counted under one of five
  verdicts, and each number is the number of devices with that verdict: the selectors of the requested classes are false of
  it, one of them failed and no class accepts it, a class accepts it and it is unhealthy, it is healthy and an allocated claim
  holds it, or it is free. So the five numbers are not negative and sum to the number of devices, and the error text that
  \<^verbatim>\<open>candidateSummary\<close> dereferences is there whenever an error has been counted.
\<close>

theorem evaluateCandidates_exact:
  fixes devices :: "'q model_device list"
  defines "passes \<equiv> passesSelectors :: 'q cel_api \<Rightarrow> DeviceClass list \<Rightarrow> bool \<Rightarrow> 'q model_device \<Rightarrow> bool"
  shows "let stats = evaluateCandidates cel devices claims classes noClass;
             number = (\<lambda>P. int (length (filter P devices)))
         in falseSelectors (int (length devices)) stats =
              number (\<lambda>d. \<not> passes cel classes noClass d \<and> \<not> selectorsFail cel classes noClass d) \<and>
            selectorErrors stats = number (selectorsFail cel classes noClass) \<and>
            unhealthyCount stats = number (\<lambda>d. passes cel classes noClass d \<and> isUnhealthy d) \<and>
            unavailableCount stats =
              number (\<lambda>d. passes cel classes noClass d \<and> \<not> isUnhealthy d \<and> deviceAllocated d claims) \<and>
            capacityMatched stats =
              number (\<lambda>d. passes cel classes noClass d \<and> \<not> isUnhealthy d \<and> \<not> deviceAllocated d claims) \<and>
            falseSelectors (int (length devices)) stats + selectorErrors stats + unhealthyCount stats + unavailableCount stats +
              capacityMatched stats = int (length devices) \<and>
            (lastSelectorError stats = None \<longleftrightarrow> selectorErrors stats = 0)"
proof -
  have "length (filter (\<lambda>d. \<not> passes cel classes noClass d \<and> \<not> selectorsFail cel classes noClass d) devices) +
        length (filter (passes cel classes noClass) devices) + length (filter (selectorsFail cel classes noClass) devices) = length devices"
    by (induction devices) (auto simp: selectorsFail_def passes_def)
  moreover have "length (filter (\<lambda>d. passes cel classes noClass d \<and> isUnhealthy d) devices) +
        length (filter (\<lambda>d. passes cel classes noClass d \<and> \<not> isUnhealthy d \<and> deviceAllocated d claims) devices) +
        length (filter (\<lambda>d. passes cel classes noClass d \<and> \<not> isUnhealthy d \<and> \<not> deviceAllocated d claims) devices) =
        length (filter (passes cel classes noClass) devices)"
    by (induction devices) auto
  ultimately show ?thesis
    by (simp add: evaluateCandidates_def Let_def falseSelectors_def unavailableCount_def evaluateCandidates_fold flip: passes_def)
qed

text \<open>
  The device that the selectors see is the published one as far as they can see it: discovery keeps the fields that the CEL
  environment reads.
\<close>

lemma selectorDevice_faithful:
  "celInput (mdDriverName d) (selectorDevice d) = celInput driver specification"
  if "d = mapDevice G Q sl specification driver pool node health"
  by (simp add: that selectorDevice_def celInput_def mapDevice_def split: prod.split)


lemma resolveClasses_found: "fst (resolveClasses available names x) = List.map_filter available names"
  by (induction names arbitrary: x) (auto simp: List.map_filter_simps split: option.splits prod.splits, metis fst_conv)

lemma resolveClasses_missing:
  "exRemedy (snd (resolveClasses available names x)) =
     exRemedy x @ map missingClassRemedy (filter (\<lambda>n. available n = None) names)"
proof (induction names arbitrary: x)
  case (Cons n names)
  have "exRemedy (appendMissingClassReason n x) = exRemedy x @ [missingClassRemedy n]"
    by (simp add: appendMissingClassReason_def addRemedy_def addReason_def)
  then show ?case
    using Cons.IH [of x] by (cases "resolveClasses available names x") (simp add: Cons.IH split: option.split)
qed simp

lemma listDeviceClasses_names: "listDeviceClasses (Inr items) n = None \<longleftrightarrow> n \<notin> className ` set items"
proof -
  have "fold (\<lambda>c m. m(className c \<mapsto> c)) items m n = None \<longleftrightarrow> m n = None \<and> n \<notin> className ` set items" for m
    by (induction items arbitrary: m) auto
  then show ?thesis by (simp add: listDeviceClasses_def)
qed

text \<open>
  The remedy \<^verbatim>\<open>Create the missing DeviceClass\<close> is proposed exactly for the requested names that no class of the
  cluster has, once per alternative and in the order of the requests, as far as the classes could be listed. When the list
  request fails, the engine proposes it for \<^emph>\<open>every\<close> requested class, whatever the cluster has.
\<close>

theorem resolveRequestedClasses_missing:
  "exRemedy (snd (resolveRequestedClasses classList target x)) =
     exRemedy x @ map missingClassRemedy
       (case classList of
          Inr items \<Rightarrow> filter (\<lambda>n. n \<notin> className ` set items) (RequestedClassNames target)
        | Inl _ \<Rightarrow> RequestedClassNames target)"
  by (cases classList)
     (simp_all add: resolveRequestedClasses_def Let_def resolveClasses_missing listDeviceClasses_names addReason_def,
      simp add: listDeviceClasses_def)

end
