(* ===== verification/Readiness.thy ===== *)
theory Readiness
  imports Prelude
begin

text \<open>
  The readiness probe, \<^verbatim>\<open>internal/health/readiness.go\<close>. A time is its nanoseconds; the zero \<^verbatim>\<open>time.Time\<close>,
  which stands for "never", is \<open>None\<close>. The dependency check, the clock and the context are inputs of a
  check: whether the context is done before and after, the check's error, and the time read. The mutex
  makes the rest of a check atomic.
\<close>

definition DefaultReadinessTimeout :: int where "DefaultReadinessTimeout = 2 * 1000000000"
definition DefaultReadinessGracePeriod :: int where "DefaultReadinessGracePeriod = 15 * 1000000000"
definition ReasonKubernetesAPIUnavailable :: string where "ReasonKubernetesAPIUnavailable = ''kubernetes_api_unavailable''"
definition ReasonCheckCanceled :: string where "ReasonCheckCanceled = ''readiness_check_canceled''"

record ReadinessResult =
  rrStatus :: string
  rrReady :: bool
  rrDegraded :: bool
  rrReason :: string
  rrMessage :: string
  rrCheckedAt :: int
  rrLastSuccess :: "int option"

record ReadinessProbe =
  rpTimeout :: int
  rpGrace :: int
  rpStartedAt :: int
  rpLastSuccess :: "int option"

definition NewReadinessProbe :: "int \<Rightarrow> int \<Rightarrow> int \<Rightarrow> ReadinessProbe" where
  "NewReadinessProbe timeout grace now =
     \<lparr>rpTimeout = (if timeout \<le> 0 then DefaultReadinessTimeout else timeout),
      rpGrace = (if grace < 0 then 0 else grace), rpStartedAt = now, rpLastSuccess = None\<rparr>"

text \<open>\<^verbatim>\<open>Time.Sub\<close> saturates at the bounds of a 64-bit duration.\<close>

definition timeSub :: "int \<Rightarrow> int \<Rightarrow> int" where
  "timeSub a b = max (- (2 ^ 63)) (min (2 ^ 63 - 1) (a - b))"

definition canceledResult :: "int \<Rightarrow> int option \<Rightarrow> ReadinessResult" where
  "canceledResult checkedAt lastSuccess =
     \<lparr>rrStatus = ''not_ready'', rrReady = False, rrDegraded = False, rrReason = ReasonCheckCanceled,
      rrMessage = ''Readiness check was canceled.'', rrCheckedAt = checkedAt, rrLastSuccess = lastSuccess\<rparr>"

text \<open>
  \<open>check\<close> is the outcome of the dependency check, \<open>None\<close> for success; a probe without a check function fails
  with an error of its own, so it is \<open>Some\<close> there.
\<close>

record check_input =
  ciCanceledBefore :: bool
  ciError :: "string option"
  ciCanceledAfter :: bool
  ciNow :: int

definition Check :: "check_input \<Rightarrow> ReadinessProbe \<Rightarrow> ReadinessResult \<times> ReadinessProbe" where
  "Check i p =
     (if ciCanceledBefore i then (canceledResult (ciNow i) None, p)
      else case ciError i of
        None \<Rightarrow>
          (\<lparr>rrStatus = ''ready'', rrReady = True, rrDegraded = False, rrReason = '''', rrMessage = '''',
            rrCheckedAt = ciNow i, rrLastSuccess = Some (ciNow i)\<rparr>,
           p\<lparr>rpLastSuccess := Some (ciNow i)\<rparr>)
      | Some err \<Rightarrow>
          (if ciCanceledAfter i then (canceledResult (ciNow i) (rpLastSuccess p), p)
           else let reference = (case rpLastSuccess p of None \<Rightarrow> rpStartedAt p | Some t \<Rightarrow> t);
                    withinGrace = (rpGrace p > 0 \<and> timeSub (ciNow i) reference < rpGrace p)
           in if withinGrace
              then (\<lparr>rrStatus = ''degraded'', rrReady = True, rrDegraded = True, rrReason = ReasonKubernetesAPIUnavailable,
                     rrMessage = ''Kubernetes API is temporarily unavailable within the readiness grace period.'',
                     rrCheckedAt = ciNow i, rrLastSuccess = rpLastSuccess p\<rparr>, p)
              else (\<lparr>rrStatus = ''not_ready'', rrReady = False, rrDegraded = False, rrReason = ReasonKubernetesAPIUnavailable,
                     rrMessage = ''Kubernetes API readiness check failed.'',
                     rrCheckedAt = ciNow i, rrLastSuccess = rpLastSuccess p\<rparr>, p)))"

definition serveStatus :: "ReadinessResult \<Rightarrow> nat" where
  "serveStatus result = (if \<not> rrReady result then 503 else 200)"

section \<open>A history of checks\<close>

fun runChecks :: "check_input list \<Rightarrow> ReadinessProbe \<Rightarrow> ReadinessProbe" where
  "runChecks [] p = p"
| "runChecks (i # is) p = runChecks is (snd (Check i p))"

definition succeeded :: "check_input \<Rightarrow> bool" where
  "succeeded i \<longleftrightarrow> \<not> ciCanceledBefore i \<and> ciError i = None"

text \<open>The time of the last check that succeeded, if there was one.\<close>

definition lastSuccessTime :: "check_input list \<Rightarrow> int option" where
  "lastSuccessTime is = (case filter succeeded is of [] \<Rightarrow> None | _ \<Rightarrow> Some (ciNow (last (filter succeeded is))))"

lemma Check_probe:
  "snd (Check i p) = (if succeeded i then p\<lparr>rpLastSuccess := Some (ciNow i)\<rparr> else p)"
  by (auto simp: Check_def succeeded_def Let_def split: option.splits)

lemma runChecks_probe:
  "runChecks is p = (case lastSuccessTime is of None \<Rightarrow> p | Some t \<Rightarrow> p\<lparr>rpLastSuccess := Some t\<rparr>)"
  by (induction "is" arbitrary: p) (auto simp: lastSuccessTime_def Check_probe split: list.splits)

lemma timeSub_less: "0 < g \<Longrightarrow> g < 2 ^ 63 \<Longrightarrow> timeSub a b < g \<longleftrightarrow> a - b < g"
  by (auto simp: timeSub_def)

text \<open>
  C26. Readiness after any history of checks, with the reference time that of the last check that succeeded, or the start of the probe if none
  did. A check answers 200 exactly when its dependency check succeeds, or when that fails, the context is not canceled, the grace period
  is positive and less than that has passed since the reference time; in the second case, and in no other, the answer is degraded. Every
  other check answers 503: a check whose context was canceled before it, or during it without success, whatever the grace period,
  and these alone say that they were canceled; and a failure without grace. The answer names the time of the last success, its own if it succeeded.
\<close>

theorem readiness_exact:
  assumes "grace < 2 ^ 63"
  shows "let result = fst (Check i (runChecks history (NewReadinessProbe timeout grace startTime)));
             reference = (case lastSuccessTime history of None \<Rightarrow> startTime | Some t \<Rightarrow> t);
             success = (\<not> ciCanceledBefore i \<and> ciError i = None);
             canceled = (ciCanceledBefore i \<or> ciError i \<noteq> None \<and> ciCanceledAfter i);
             degraded = (\<not> success \<and> \<not> canceled \<and> 0 < grace \<and> ciNow i - reference < grace)
         in serveStatus result = (if success \<or> degraded then 200 else 503) \<and> rrDegraded result = degraded \<and>
            (rrReason result = ReasonCheckCanceled \<longleftrightarrow> canceled) \<and>
            (\<not> ciCanceledBefore i \<longrightarrow> rrLastSuccess result = (if success then Some (ciNow i) else lastSuccessTime history))"
proof -
  let ?p = "runChecks history (NewReadinessProbe timeout grace startTime)"
  have probe: "rpGrace ?p = max 0 grace" "rpStartedAt ?p = startTime" "rpLastSuccess ?p = lastSuccessTime history"
    by (auto simp: runChecks_probe NewReadinessProbe_def split: option.splits)
  have "rpGrace ?p > 0 \<and> timeSub (ciNow i) t < rpGrace ?p \<longleftrightarrow> 0 < grace \<and> ciNow i - t < grace" for t
    using timeSub_less [of grace "ciNow i" t] assms by (auto simp: probe)
  moreover have "ReasonKubernetesAPIUnavailable \<noteq> ReasonCheckCanceled" "[] \<noteq> ReasonCheckCanceled"
    by (simp_all add: ReasonKubernetesAPIUnavailable_def ReasonCheckCanceled_def)
  ultimately show ?thesis
    by (auto simp: Check_def canceledResult_def Let_def serveStatus_def probe split: option.splits)
qed

definition probeInput :: "string option \<Rightarrow> int \<Rightarrow> check_input" where
  "probeInput err now = \<lparr>ciCanceledBefore = False, ciError = err, ciCanceledAfter = False, ciNow = now\<rparr>"

theorem readiness_exact_witness:
  "serveStatus (fst (Check (probeInput (Some ''down'') 40) (runChecks [probeInput None 10, probeInput (Some ''down'') 20]
     (NewReadinessProbe 0 15 0)))) = 503"
  using readiness_exact [of 15 "probeInput (Some ''down'') 40" "[probeInput None 10, probeInput (Some ''down'') 20]" 0 0]
  by (simp add: probeInput_def lastSuccessTime_def succeeded_def Let_def)

end
