(* ===== verification/Go_Text.thy ===== *)
theory Go_Text
  imports API_Monad
begin

text \<open>
  The functions of package \<^verbatim>\<open>strings\<close> that server, command line and redaction use, on the bytes of a string:
  \<^verbatim>\<open>Split\<close> at a byte, and \<^verbatim>\<open>TrimSpace\<close>, which strips the white space of Unicode, here by its UTF-8 encodings.
\<close>

section \<open>Splitting\<close>

fun splitChar :: "char \<Rightarrow> string \<Rightarrow> string list" where
  "splitChar c [] = [[]]"
| "splitChar c (x # xs) =
     (if x = c then [] # splitChar c xs
      else case splitChar c xs of [] \<Rightarrow> [[x]] | p # ps \<Rightarrow> (x # p) # ps)"

lemma splitChar_Nil: "splitChar c s \<noteq> []"
  by (induction s) (auto split: list.split)

lemma splitChar_Join: "strings_Join (splitChar c s) [c] = s"
proof (induction s)
  case (Cons x xs)
  show ?case
  proof (cases "splitChar c xs")
    case Nil
    then show ?thesis by (simp add: splitChar_Nil)
  next
    case (Cons p ps)
    with \<open>strings_Join (splitChar c xs) [c] = xs\<close> show ?thesis by (cases ps) auto
  qed
qed simp

lemma splitChar_parts: "p \<in> set (splitChar c s) \<Longrightarrow> c \<notin> set p"
  by (induction s arbitrary: p) (auto split: list.splits if_splits)

section \<open>White space\<close>

definition whiteSpace :: "string list" where
  "whiteSpace =
     [[CHR 0x09], [CHR 0x0A], [CHR 0x0B], [CHR 0x0C], [CHR 0x0D], [CHR 0x20], [CHR 0xC2, CHR 0x85],
      [CHR 0xC2, CHR 0xA0], [CHR 0xE1, CHR 0x9A, CHR 0x80], [CHR 0xE2, CHR 0x80, CHR 0x80],
      [CHR 0xE2, CHR 0x80, CHR 0x81], [CHR 0xE2, CHR 0x80, CHR 0x82], [CHR 0xE2, CHR 0x80, CHR 0x83],
      [CHR 0xE2, CHR 0x80, CHR 0x84], [CHR 0xE2, CHR 0x80, CHR 0x85], [CHR 0xE2, CHR 0x80, CHR 0x86],
      [CHR 0xE2, CHR 0x80, CHR 0x87], [CHR 0xE2, CHR 0x80, CHR 0x88], [CHR 0xE2, CHR 0x80, CHR 0x89],
      [CHR 0xE2, CHR 0x80, CHR 0x8A], [CHR 0xE2, CHR 0x80, CHR 0xA8], [CHR 0xE2, CHR 0x80, CHR 0xA9],
      [CHR 0xE2, CHR 0x80, CHR 0xAF], [CHR 0xE2, CHR 0x81, CHR 0x9F], [CHR 0xE3, CHR 0x80, CHR 0x80]]"

function dropAny :: "string list \<Rightarrow> string \<Rightarrow> string" where
  "dropAny patterns s =
     (case find (\<lambda>e. e \<noteq> [] \<and> prefix e s) patterns of
        None \<Rightarrow> s
      | Some e \<Rightarrow> dropAny patterns (drop (length e) s))"
  by pat_completeness auto

termination
  by (relation "measure (\<lambda>(_, s). length s)") (auto simp: find_Some_iff prefix_def)

declare dropAny.simps [simp del]

definition strings_TrimSpace :: "string \<Rightarrow> string" where
  "strings_TrimSpace s = rev (dropAny (map rev whiteSpace) (rev (dropAny whiteSpace s)))"

lemma dropAny_keep: "dropAny patterns s = s" if "\<And>e. e \<in> set patterns \<Longrightarrow> e \<noteq> [] \<Longrightarrow> \<not> prefix e s"
proof -
  have "find (\<lambda>e. e \<noteq> [] \<and> prefix e s) patterns = None" using that by (auto simp: find_None_iff)
  then show ?thesis by (simp add: dropAny.simps)
qed

definition strings_HasPrefix :: "string \<Rightarrow> string \<Rightarrow> bool" where
  "strings_HasPrefix s start = prefix start s"

text \<open>\<^verbatim>\<open>%t\<close>.\<close>

definition boolText :: "bool \<Rightarrow> string" where
  "boolText b = (if b then ''true'' else ''false'')"

end
