(* ===== verification/Server.thy ===== *)
theory Server
  imports Graph Explain Doctor Readiness Go_Text
begin

text \<open>
  The HTTP API server, \<^verbatim>\<open>internal/server/server.go\<close>, without the event stream's concurrency, which is
  \<open>Server_Stream\<close>. A handler is the list of what it does with its \<^verbatim>\<open>http.ResponseWriter\<close>; \<open>serve\<close> is what
  \<^verbatim>\<open>net/http\<close> makes of it. \<^verbatim>\<open>json.NewEncoder(w).Encode(x)\<close> writes the value \<open>x\<close>, whose rendering is
  \<^verbatim>\<open>encoding/json\<close>. The answers of the API, the environment and the clock are the fields of a \<open>server_env\<close>; the files of
  the frontend are a function of the path. Request paths are in the canonical form to which the multiplexer redirects.
\<close>

section \<open>Requests and responses\<close>

record http_request =
  reqMethod :: string
  reqPath :: string
  reqRawQuery :: string
  reqQuery :: "string \<Rightarrow> string"
  reqOrigin :: string

datatype 'q json_payload =
    JSummary int int int "(string, int) gomap" int DiscoveryStatus
  | JVersion string string
  | JPools "DevicePool list"
  | JDevices "'q model_device list"
  | JClaims "ResourceClaimInfo list"
  | JGraph ResourceGraph
  | JExplain ExplainResult
  | JDoctor DoctorReport
  | JReadiness ReadinessResult
  | JError string string

datatype 'q body_part = BodyText string | BodyJSON "'q json_payload"

datatype 'q http_command = SetHeader string string | WriteHeader int | WriteBody "'q body_part"

text \<open>The headers are sent as they are when the status is; \<^verbatim>\<open>Write\<close> without a status sends 200.\<close>

record 'q response =
  respHeaders :: "(string, string) gomap"
  respSent :: "(int \<times> (string, string) gomap) option"
  respBody :: "'q body_part list"

fun http_apply :: "'q http_command \<Rightarrow> 'q response \<Rightarrow> 'q response" where
  "http_apply (SetHeader k v) w = w\<lparr>respHeaders := gomap_put k v (respHeaders w)\<rparr>"
| "http_apply (WriteHeader code) w =
     (case respSent w of None \<Rightarrow> w\<lparr>respSent := Some (code, respHeaders w)\<rparr> | Some _ \<Rightarrow> w)"
| "http_apply (WriteBody part) w =
     (let w' = (case respSent w of None \<Rightarrow> w\<lparr>respSent := Some (200, respHeaders w)\<rparr> | Some _ \<Rightarrow> w)
      in w'\<lparr>respBody := respBody w' @ [part]\<rparr>)"

definition http_run :: "'q http_command list \<Rightarrow> 'q response \<Rightarrow> 'q response" where
  "http_run commands w = fold http_apply commands w"

text \<open>What the client gets: a handler that returns without a status has sent 200.\<close>

definition serve :: "'q http_command list \<Rightarrow> int \<times> (string, string) gomap \<times> 'q body_part list" where
  "serve commands =
     (let w = http_run commands \<lparr>respHeaders = [], respSent = None, respBody = []\<rparr>
      in case respSent w of
           None \<Rightarrow> (200, respHeaders w, respBody w)
         | Some (code, headers) \<Rightarrow> (code, headers, respBody w))"

definition http_Error :: "string \<Rightarrow> int \<Rightarrow> 'q http_command list" where
  "http_Error message code =
     [SetHeader ''Content-Type'' ''text/plain; charset=utf-8'', SetHeader ''X-Content-Type-Options'' ''nosniff'', WriteHeader code,
      WriteBody (BodyText (message @ newline))]"

section \<open>Configuration\<close>

definition DefaultShutdownTimeout :: int where "DefaultShutdownTimeout = 5 * 1000000000"

record ServerOptions =
  soReadinessTimeout :: int
  soReadinessGracePeriod :: int
  soShutdownTimeout :: int

definition DefaultServerOptions :: ServerOptions where
  "DefaultServerOptions =
     \<lparr>soReadinessTimeout = DefaultReadinessTimeout, soReadinessGracePeriod = DefaultReadinessGracePeriod,
      soShutdownTimeout = DefaultShutdownTimeout\<rparr>"

record Server =
  svPort :: int
  svVersion :: string
  svCommit :: string
  svAllowedOrigins :: string
  svAllowedOriginsParsed :: "string list option"
  svReadiness :: "ReadinessProbe option"
  svShutdownTimeout :: int

definition parseOrigins :: "string \<Rightarrow> string list" where
  "parseOrigins allowedOrigins = map strings_TrimSpace (splitChar (CHR '','') allowedOrigins)"

definition NewServerWithOptions :: "(string \<Rightarrow> string) \<Rightarrow> int \<Rightarrow> int \<Rightarrow> ServerOptions \<Rightarrow> Server" where
  "NewServerWithOptions getenv now port options =
     (let readinessTimeout = (if soReadinessTimeout options \<le> 0 then DefaultReadinessTimeout else soReadinessTimeout options);
          gracePeriod = (if soReadinessGracePeriod options < 0 then 0 else soReadinessGracePeriod options);
          shutdownTimeout = (if soShutdownTimeout options \<le> 0 then DefaultShutdownTimeout else soShutdownTimeout options);
          allowedOrigins = (if getenv ''CORS_ALLOWED_ORIGINS'' = '''' then ''*'' else getenv ''CORS_ALLOWED_ORIGINS'')
      in \<lparr>svPort = port, svVersion = ''dev'', svCommit = ''dev'', svAllowedOrigins = allowedOrigins,
          svAllowedOriginsParsed = (if allowedOrigins \<noteq> ''*'' then Some (parseOrigins allowedOrigins) else None),
          svReadiness = Some (NewReadinessProbe readinessTimeout gracePeriod now), svShutdownTimeout = shutdownTimeout\<rparr>)"

definition NewServer :: "(string \<Rightarrow> string) \<Rightarrow> int \<Rightarrow> int \<Rightarrow> Server" where
  "NewServer getenv now port = NewServerWithOptions getenv now port DefaultServerOptions"

definition SetBuildInfo :: "string \<Rightarrow> string \<Rightarrow> Server \<Rightarrow> Server" where
  "SetBuildInfo version commit s =
     s\<lparr>svVersion := (if version \<noteq> '''' then version else svVersion s), svCommit := (if commit \<noteq> '''' then commit else svCommit s)\<rparr>"

section \<open>Middleware\<close>

definition securityHeaders :: "'q http_command list \<Rightarrow> 'q http_command list" where
  "securityHeaders next =
     [SetHeader ''Content-Security-Policy''
        (''default-src '' @ [CHR 0x27] @ ''self'' @ [CHR 0x27] @ ''; script-src '' @ [CHR 0x27] @ ''self'' @ [CHR 0x27] @ '' '' @ [CHR 0x27] @
         ''unsafe-inline'' @ [CHR 0x27] @ ''; style-src '' @ [CHR 0x27] @ ''self'' @ [CHR 0x27] @ '' '' @ [CHR 0x27] @ ''unsafe-inline'' @ [CHR 0x27] @
         ''; img-src '' @ [CHR 0x27] @ ''self'' @ [CHR 0x27] @ '' data:; connect-src '' @ [CHR 0x27] @ ''self'' @ [CHR 0x27] @ '' ws: wss:;''),
      SetHeader ''X-Frame-Options'' ''DENY'', SetHeader ''X-Content-Type-Options'' ''nosniff'',
      SetHeader ''Referrer-Policy'' ''strict-origin-when-cross-origin'',
      SetHeader ''Permissions-Policy'' ''geolocation=(), microphone=(), camera=(), payment=(), usb=()''] @ next"

definition corsOrigin :: "Server \<Rightarrow> string \<Rightarrow> 'q http_command list" where
  "corsOrigin s origin =
     (if svAllowedOrigins s = ''*'' then [SetHeader ''Access-Control-Allow-Origin'' ''*'']
      else if origin \<noteq> '''' then
        (let origins = (case svAllowedOriginsParsed s of Some os \<Rightarrow> os | None \<Rightarrow> parseOrigins (svAllowedOrigins s))
         in if origin \<in> set origins then [SetHeader ''Access-Control-Allow-Origin'' origin, SetHeader ''Vary'' ''Origin''] else [])
      else [])"

definition cors :: "Server \<Rightarrow> http_request \<Rightarrow> 'q http_command list \<Rightarrow> 'q http_command list" where
  "cors s r next =
     corsOrigin s (reqOrigin r) @
     [SetHeader ''Access-Control-Allow-Methods'' ''GET, OPTIONS'', SetHeader ''Access-Control-Allow-Headers'' ''Content-Type''] @
     (if reqMethod r = ''OPTIONS'' then [WriteHeader 200] else SetHeader ''Content-Type'' ''application/json'' # next)"

text \<open>The writer that the logging puts around the one it is given: what it forwards and what it keeps.\<close>

record loggingResponseWriter =
  lrwStatusCode :: int
  lrwWroteHeader :: bool

fun lrwForward :: "'q http_command \<Rightarrow> loggingResponseWriter \<Rightarrow> 'q http_command list \<times> loggingResponseWriter" where
  "lrwForward (SetHeader k v) lrw = ([SetHeader k v], lrw)"
| "lrwForward (WriteHeader code) lrw =
     (if lrwWroteHeader lrw then ([], lrw) else ([WriteHeader code], \<lparr>lrwStatusCode = code, lrwWroteHeader = True\<rparr>))"
| "lrwForward (WriteBody part) lrw =
     (if lrwWroteHeader lrw then ([WriteBody part], lrw)
      else ([WriteHeader 200, WriteBody part], \<lparr>lrwStatusCode = 200, lrwWroteHeader = True\<rparr>))"

fun lrwRun :: "'q http_command list \<Rightarrow> loggingResponseWriter \<Rightarrow> 'q http_command list \<times> loggingResponseWriter" where
  "lrwRun [] lrw = ([], lrw)"
| "lrwRun (c # cs) lrw =
     (case lrwForward c lrw of (forwarded, lrw') \<Rightarrow> (case lrwRun cs lrw' of (rest, lrw'') \<Rightarrow> (forwarded @ rest, lrw'')))"

text \<open>The response and the line logged; \<open>duration\<close> is the time taken, as \<^verbatim>\<open>%s\<close> prints it.\<close>

definition requestLogging :: "http_request \<Rightarrow> string \<Rightarrow> 'q http_command list \<Rightarrow> 'q http_command list \<times> string" where
  "requestLogging r duration next =
     (case lrwRun next \<lparr>lrwStatusCode = 200, lrwWroteHeader = False\<rparr> of
        (forwarded, lrw) \<Rightarrow>
          (forwarded,
           ''['' @ reqMethod r @ ''] '' @ reqPath r @ '' '' @ reqRawQuery r @ '' - '' @ decimalInt (lrwStatusCode lrw) @ '' ('' @ duration @ '')'' @ newline))"


section \<open>Handlers\<close>

record 'q server_env =
  seUnicode :: go_unicode
  seQuantity :: "'q quantity_api"
  seCel :: "'q cel_api"
  seRedact :: "string \<Rightarrow> string"
  seOrder :: "string list \<Rightarrow> string list"
  seClaims :: "string + 'q live_claim list"
  seSlices :: "string + 'q live_slice list"
  sePods :: "string + Pod list"
  seClasses :: "string + DeviceClass list"
  seExplainInput :: "string \<Rightarrow> string \<Rightarrow> 'q explain_input"
  seDoctorView :: "nat \<Rightarrow> 'q doctor_view"
  seNow :: int
  seReadinessInput :: check_input
  seMetricsDetail :: string
  seVisit :: "(string, int) gomap \<Rightarrow> (string, int) gomap"
  seDeadlineFails :: bool
  seStreamEvents :: "string list"
  seStatic :: "string \<Rightarrow> 'q http_command list"
  seDuration :: string

definition serverDiscovery :: "'q server_env \<Rightarrow> 'q discovered" where
  "serverDiscovery E = DiscoverDRAWithStatus (seUnicode E) (seQuantity E) (seClaims E) (seSlices E) (sePods E)"

definition respondJSON :: "'q json_payload \<Rightarrow> 'q http_command list" where
  "respondJSON payload = [WriteBody (BodyJSON payload)]"

definition respondError :: "string \<Rightarrow> int \<Rightarrow> 'q http_command list" where
  "respondError message code =
     [WriteHeader code,
      WriteBody (BodyJSON (JError message (if code \<ge> 400 \<and> code < 500 then ''bad_request'' else ''internal_error'')))]"

definition handleHealthz :: "'q http_command list" where
  "handleHealthz = [WriteHeader 200, WriteBody (BodyText ''ok'')]"

definition handleReadyz :: "Server \<Rightarrow> check_input \<Rightarrow> 'q http_command list" where
  "handleReadyz s input =
     (case svReadiness s of
        None \<Rightarrow> http_Error ''readiness probe is not configured'' 503
      | Some probe \<Rightarrow>
          (let result = fst (Check input probe)
           in [SetHeader ''Content-Type'' ''application/json'', WriteHeader (int (serveStatus result)), WriteBody (BodyJSON (JReadiness result))]))"

text \<open>Discovery returns no error, so the branches for it in the handlers below are never taken and have no counterpart.\<close>

definition handleSummary :: "'q server_env \<Rightarrow> 'q http_command list" where
  "handleSummary E =
     (let d = serverDiscovery E; report = RunDiagnostics (NewRegistry (seUnicode E) (seQuantity E)) (seNow E) (seDoctorView E)
      in respondJSON (JSummary (int (length (dvPools d))) (int (length (dvDevices d))) (int (length (dvClaims d)))
           (reportSummary report) (seNow E) (dvStatus d)))"

definition handleVersion :: "Server \<Rightarrow> 'q http_command list" where
  "handleVersion s = respondJSON (JVersion (svVersion s) (svCommit s))"

definition handlePools :: "'q server_env \<Rightarrow> 'q http_command list" where
  "handlePools E = respondJSON (JPools (dvPools (serverDiscovery E)))"

definition handleDevices :: "'q server_env \<Rightarrow> 'q http_command list" where
  "handleDevices E = respondJSON (JDevices (dvDevices (serverDiscovery E)))"

definition handleClaims :: "'q server_env \<Rightarrow> 'q http_command list" where
  "handleClaims E = respondJSON (JClaims (dvClaims (serverDiscovery E)))"

definition serverGraph :: "'q server_env \<Rightarrow> ResourceGraph" where
  "serverGraph E =
     BuildGraph (seUnicode E) (seQuantity E) (seOrder E) (seClaims E) (seSlices E) (sePods E) (seClasses E) '''' ''''"

definition handleGraph :: "'q server_env \<Rightarrow> 'q http_command list" where
  "handleGraph E = respondJSON (JGraph (serverGraph E))"

definition handleExplain :: "'q server_env \<Rightarrow> http_request \<Rightarrow> 'q http_command list" where
  "handleExplain E r =
     (let claim = reqQuery r ''claim''; namespace = reqQuery r ''namespace''
      in if claim = '''' \<or> namespace = ''''
         then respondError (''parameters '' @ [CHR 0x27] @ ''claim'' @ [CHR 0x27] @ '' and '' @ [CHR 0x27] @ ''namespace'' @ [CHR 0x27] @ '' are required'') 400
         else case ExplainClaim (seCel E) (seRedact E) (serverDiscovery E) (seExplainInput E namespace claim) namespace claim of
                Inl err \<Rightarrow> respondError (errText err) 500
              | Inr res \<Rightarrow> respondJSON (JExplain res))"

definition handleDoctor :: "'q server_env \<Rightarrow> 'q http_command list" where
  "handleDoctor E = respondJSON (JDoctor (RunDiagnostics (NewRegistry (seUnicode E) (seQuantity E)) (seNow E) (seDoctorView E)))"

text \<open>The stream as far as its response goes: \<open>seStreamEvents\<close> are the events written to it.\<close>

definition sseEvent :: "string \<Rightarrow> 'q http_command" where
  "sseEvent data = WriteBody (BodyText (''data: '' @ data @ newline @ newline))"

definition streamResponse :: "'q server_env \<Rightarrow> 'q http_command list" where
  "streamResponse E =
     [SetHeader ''Content-Type'' ''text/event-stream'', SetHeader ''Cache-Control'' ''no-cache'', SetHeader ''Connection'' ''keep-alive''] @
     (if seDeadlineFails E then http_Error ''Unable to configure streaming deadline'' 500 else map sseEvent (seStreamEvents E))"

section \<open>Metrics\<close>

definition detailedMetricsEnabled :: "go_unicode \<Rightarrow> string \<Rightarrow> bool" where
  "detailedMetricsEnabled G detail \<longleftrightarrow> toLower G (strings_TrimSpace detail) \<in> {''1'', ''true'', ''yes'', ''on''}"

definition metricHeader :: "string \<Rightarrow> string \<Rightarrow> string list" where
  "metricHeader name help = [''# HELP '' @ name @ '' '' @ help @ newline, ''# TYPE '' @ name @ '' gauge'' @ newline]"

definition gauge :: "string \<Rightarrow> string \<Rightarrow> int \<Rightarrow> string list" where
  "gauge name help n = metricHeader name help @ [name @ '' '' @ decimalInt n @ newline]"

definition poolMetric :: "DevicePool \<Rightarrow> string" where
  "poolMetric p =
     ''draforge_pools_total{pool='' @ goQuote (dpName p) @ '',driver='' @ goQuote (dpDriverName p) @ '',node='' @ goQuote (dpNodeName p) @
     '',synthetic='' @ boolText (dpIsSynthetic p) @ '',health='' @ goQuote (dpHealth p) @ ''} 1'' @ newline"

definition deviceMetric :: "'q model_device \<Rightarrow> string" where
  "deviceMetric d =
     ''draforge_devices_total{device='' @ goQuote (mdName d) @ '',pool='' @ goQuote (mdPoolName d) @ '',node='' @ goQuote (mdNodeName d) @
     '',type='' @ goQuote (mdType d) @ '',status='' @ goQuote (mdStatus d) @ '',synthetic='' @ boolText (mdIsSynthetic d) @ ''} 1'' @ newline"

definition claimMetric :: "ResourceClaimInfo \<Rightarrow> string" where
  "claimMetric c =
     ''draforge_claims_total{claim='' @ goQuote (ciName c) @ '',namespace='' @ goQuote (ciNamespace c) @ '',class='' @ goQuote (ciDeviceClassName c) @
     '',classes='' @ goQuote (strings_Join (RequestedClassNames c) '','') @ '',allocation_count='' @ dquote @
     decimal (length (EffectiveAllocations c)) @ dquote @ '',status='' @ goQuote (ciStatus c) @ ''} 1'' @ newline"

definition claimStatusCounts :: "ResourceClaimInfo list \<Rightarrow> (string, int) gomap" where
  "claimStatusCounts claims = fold (\<lambda>c counts. gomap_put (ciStatus c) (gomap_get 0 counts (ciStatus c) + 1) counts) claims []"

definition faultCount :: "DevicePool list \<Rightarrow> int" where
  "faultCount pools = int (length (filter (\<lambda>p. dpHealth p \<noteq> ''healthy'') pools))"

definition metricsLines :: "'q server_env \<Rightarrow> 'q discovered \<Rightarrow> string list" where
  "metricsLines E d =
     (if detailedMetricsEnabled (seUnicode E) (seMetricsDetail E)
      then metricHeader ''draforge_pools_total'' ''Total number of device pools'' @ map poolMetric (dvPools d) @
           metricHeader ''draforge_devices_total'' ''Total number of devices'' @ map deviceMetric (dvDevices d) @
           metricHeader ''draforge_claims_total'' ''Total number of ResourceClaims'' @ map claimMetric (dvClaims d)
      else []) @
     gauge ''draforge_pools_count'' ''Total device pools'' (int (length (dvPools d))) @
     gauge ''draforge_devices_count'' ''Total devices across all pools'' (int (length (dvDevices d))) @
     gauge ''draforge_claims_count'' ''Total resource claims'' (int (length (dvClaims d))) @
     map (\<lambda>(status, n). ''draforge_claims_by_status{status='' @ goQuote status @ ''} '' @ decimalInt n @ newline)
       (seVisit E (claimStatusCounts (dvClaims d))) @
     gauge ''draforge_active_faults_total'' ''Total number of active faults'' (faultCount (dvPools d))"

definition handleMetrics :: "'q server_env \<Rightarrow> 'q http_command list" where
  "handleMetrics E =
     [SetHeader ''Content-Type'' ''text/plain; version=0.0.4; charset=utf-8'', WriteHeader 200] @
     map (\<lambda>line. WriteBody (BodyText line)) (metricsLines E (serverDiscovery E))"

section \<open>Routes\<close>

definition handleStatic :: "'q server_env \<Rightarrow> http_request \<Rightarrow> 'q http_command list" where
  "handleStatic E r =
     (if \<not> strings_HasPrefix (reqPath r) ''/api'' \<and> \<not> strings_Contains (reqPath r) ''.''
      then seStatic E ''./web/dist/index.html'' else seStatic E (''./web/dist'' @ reqPath r))"

text \<open>The handlers behind \<^verbatim>\<open>cors\<close>, by path.\<close>

definition apiHandler :: "Server \<Rightarrow> 'q server_env \<Rightarrow> http_request \<Rightarrow> 'q http_command list option" where
  "apiHandler s E r =
     (if reqPath r = ''/api/summary'' then Some (handleSummary E)
      else if reqPath r = ''/api/version'' then Some (handleVersion s)
      else if reqPath r = ''/api/pools'' then Some (handlePools E)
      else if reqPath r = ''/api/devices'' then Some (handleDevices E)
      else if reqPath r = ''/api/claims'' then Some (handleClaims E)
      else if reqPath r = ''/api/graph'' then Some (handleGraph E)
      else if reqPath r = ''/api/explain'' then Some (handleExplain E r)
      else if reqPath r = ''/api/doctor'' then Some (handleDoctor E)
      else if reqPath r = ''/api/stream'' then Some (streamResponse E)
      else None)"

text \<open>A request with the lines it logs. A preflight request ends in \<^verbatim>\<open>cors\<close>, before the logging.\<close>

definition handler :: "Server \<Rightarrow> 'q server_env \<Rightarrow> http_request \<Rightarrow> 'q http_command list \<times> string list" where
  "handler s E r =
     (if reqPath r = ''/healthz'' then (handleHealthz, [])
      else if reqPath r = ''/readyz'' then (handleReadyz s (seReadinessInput E), [])
      else if reqPath r = ''/metrics'' then (case requestLogging r (seDuration E) (handleMetrics E) of (cs, line) \<Rightarrow> (cs, [line]))
      else case apiHandler s E r of
             Some next \<Rightarrow>
               (case requestLogging r (seDuration E) next of
                  (cs, line) \<Rightarrow> (cors s r cs, if reqMethod r = ''OPTIONS'' then [] else [line]))
           | None \<Rightarrow>
               (case requestLogging r (seDuration E) (handleStatic E r) of (cs, line) \<Rightarrow> (securityHeaders cs, [line])))"

section \<open>The life of the server\<close>

record server_error =
  svErrText :: string
  svErrClosed :: bool

text \<open>
  What the \<^verbatim>\<open>select\<close> of \<^verbatim>\<open>runHTTPServer\<close> meets: the server's own end, or the end of the context with what
  \<^verbatim>\<open>Shutdown\<close> and, if it is called, \<^verbatim>\<open>Close\<close> return.
\<close>

datatype server_end =
    ServeReturned "server_error option"
  | ContextDone "server_error option" "server_error option"

datatype server_action = CancelRequests | CallShutdown | CallClose

definition wrapServerError :: "string \<Rightarrow> server_error \<Rightarrow> server_error" where
  "wrapServerError what err = err\<lparr>svErrText := what @ '': '' @ svErrText err\<rparr>"

definition joinErrors :: "server_error \<Rightarrow> server_error \<Rightarrow> server_error" where
  "joinErrors a b = \<lparr>svErrText = svErrText a @ newline @ svErrText b, svErrClosed = (svErrClosed a \<or> svErrClosed b)\<rparr>"

definition runHTTPServer :: "server_end \<Rightarrow> server_error option \<times> server_action list" where
  "runHTTPServer e =
     (case e of
        ServeReturned err \<Rightarrow>
          ((case err of Some x \<Rightarrow> if svErrClosed x then None else Some x | None \<Rightarrow> None), [CancelRequests])
      | ContextDone shutdownErr closeErr \<Rightarrow>
          (case shutdownErr of
             None \<Rightarrow> (None, [CancelRequests, CallShutdown])
           | Some err \<Rightarrow>
               if svErrClosed err then (None, [CancelRequests, CallShutdown])
               else (case closeErr of
                       Some err' \<Rightarrow> (Some (joinErrors (wrapServerError ''graceful shutdown'' err) (wrapServerError ''force close'' err')),
                                     [CancelRequests, CallShutdown, CallClose])
                     | None \<Rightarrow> (Some (wrapServerError ''graceful shutdown'' err), [CancelRequests, CallShutdown, CallClose]))))"

text \<open>\<^verbatim>\<open>http.Server\<close> as the two servers of the program configure it; the times are nanoseconds.\<close>

record 'h http_server =
  hsAddr :: string
  hsHandler :: 'h
  hsReadHeaderTimeout :: int
  hsReadTimeout :: int
  hsWriteTimeout :: int
  hsIdleTimeout :: int

definition newHTTPServer :: "Server \<Rightarrow> 'q server_env \<Rightarrow> (http_request \<Rightarrow> 'q http_command list \<times> string list) http_server" where
  "newHTTPServer s E =
     \<lparr>hsAddr = '':'' @ decimalInt (svPort s), hsHandler = handler s E, hsReadHeaderTimeout = 5000000000,
      hsReadTimeout = 10000000000, hsWriteTimeout = 10000000000, hsIdleTimeout = 60000000000\<rparr>"

text \<open>
  \<^verbatim>\<open>Start\<close>: the printed line, the error returned and what is done with the server; the deferred \<^verbatim>\<open>cancelRequests\<close> runs
  last. The broadcaster it starts is \<open>Server_Stream\<close>.
\<close>

definition Start :: "Server \<Rightarrow> server_end \<Rightarrow> string \<times> server_error option \<times> server_action list" where
  "Start s e =
     (case runHTTPServer e of
        (err, actions) \<Rightarrow>
          (''API Server listening on port '' @ decimalInt (svPort s) @ ''...'' @ newline, err, actions @ [CancelRequests]))"


section \<open>Logging does not change the response\<close>

definition lrwAgrees :: "loggingResponseWriter \<Rightarrow> 'q response \<Rightarrow> bool" where
  "lrwAgrees lrw w \<longleftrightarrow>
     (case respSent w of
        None \<Rightarrow> \<not> lrwWroteHeader lrw \<and> lrwStatusCode lrw = 200
      | Some (code, _) \<Rightarrow> lrwWroteHeader lrw \<and> lrwStatusCode lrw = code)"

lemma lrwForward_agrees:
  assumes "lrwAgrees lrw w" "lrwForward c lrw = (forwarded, lrw')"
  shows "http_run forwarded w = http_apply c w \<and> lrwAgrees lrw' (http_apply c w)"
  using assms
  by (cases c) (auto simp: http_run_def lrwAgrees_def Let_def split: option.splits if_splits)

lemma http_run_append: "http_run (a @ b) w = http_run b (http_run a w)"
  by (simp add: http_run_def)

lemma lrwRun_agrees:
  "lrwAgrees lrw w \<Longrightarrow> lrwRun cs lrw = (forwarded, lrw') \<Longrightarrow>
     http_run forwarded w = http_run cs w \<and> lrwAgrees lrw' (http_run cs w)"
proof (induction cs arbitrary: lrw w forwarded)
  case Nil
  then show ?case by (simp add: http_run_def)
next
  case (Cons c cs)
  obtain f1 lrw1 f2 where step: "lrwForward c lrw = (f1, lrw1)" "lrwRun cs lrw1 = (f2, lrw')" "forwarded = f1 @ f2"
    using Cons.prems(2) by (auto split: prod.splits)
  with lrwForward_agrees [OF Cons.prems(1)] Cons.IH show ?case
    by (metis http_run_append http_run_def fold_simps(2))
qed

definition onlyHeaders :: "'q http_command list \<Rightarrow> bool" where
  "onlyHeaders = list_all (\<lambda>c. case c of SetHeader _ _ \<Rightarrow> True | _ \<Rightarrow> False)"

lemma http_run_headers: "onlyHeaders hs \<Longrightarrow> respSent w = None \<Longrightarrow> respSent (http_run hs w) = None \<and> respBody (http_run hs w) = respBody w"
  by (induction hs arbitrary: w) (auto simp: http_run_def onlyHeaders_def split: http_command.splits)

lemma requestLogging_serve:
  assumes "onlyHeaders hs"
  shows "serve (hs @ fst (requestLogging r duration next)) = serve (hs @ next) \<and>
    snd (requestLogging r duration next) =
      ''['' @ reqMethod r @ ''] '' @ reqPath r @ '' '' @ reqRawQuery r @ '' - '' @ decimalInt (fst (serve (hs @ next))) @ '' ('' @ duration @ '')'' @ newline"
proof -
  obtain forwarded lrw where run: "lrwRun next \<lparr>lrwStatusCode = 200, lrwWroteHeader = False\<rparr> = (forwarded, lrw)"
    by (cases "lrwRun next \<lparr>lrwStatusCode = 200, lrwWroteHeader = False\<rparr>")
  have "lrwAgrees \<lparr>lrwStatusCode = 200, lrwWroteHeader = False\<rparr> (http_run hs \<lparr>respHeaders = [], respSent = None, respBody = []\<rparr>)"
    using http_run_headers [OF assms] by (simp add: lrwAgrees_def)
  from lrwRun_agrees [OF this run] show ?thesis
    by (auto simp: requestLogging_def run serve_def Let_def lrwAgrees_def http_run_append split: option.split prod.split)
qed

text \<open>
  The logging middleware is transparent and truthful: for every handler, the client gets the status, the headers and the body
  it would get without the middleware, and the status in the line logged is the one the client gets. The line also has the raw query, with every
  parameter.
\<close>

theorem requestLogging_transparent:
  "serve (fst (requestLogging r duration next)) = serve next \<and>
   snd (requestLogging r duration next) =
     ''['' @ reqMethod r @ ''] '' @ reqPath r @ '' '' @ reqRawQuery r @ '' - '' @ decimalInt (fst (serve next)) @ '' ('' @ duration @ '')'' @ newline"
  using requestLogging_serve [of "[]" r duration "next"] by (simp add: onlyHeaders_def)


section \<open>Cross-origin access\<close>

definition allowedOrigin :: "Server \<Rightarrow> string \<Rightarrow> bool" where
  "allowedOrigin s origin \<longleftrightarrow> origin \<noteq> '''' \<and> origin \<in> set (map strings_TrimSpace (splitChar (CHR '','') (svAllowedOrigins s)))"

definition header :: "string \<Rightarrow> int \<times> (string, string) gomap \<times> 'q body_part list \<Rightarrow> string option" where
  "header name response = map_of (fst (snd response)) name"

definition setsHeader :: "string \<Rightarrow> 'q http_command \<Rightarrow> bool" where
  "setsHeader name c = (case c of SetHeader k _ \<Rightarrow> k = name | _ \<Rightarrow> False)"

definition headerIs :: "string \<Rightarrow> string option \<Rightarrow> 'q response \<Rightarrow> bool" where
  "headerIs name h w \<longleftrightarrow>
     map_of (respHeaders w) name = h \<and> (case respSent w of None \<Rightarrow> True | Some (code, sent) \<Rightarrow> map_of sent name = h)"

lemma headerIs_apply: "headerIs name h w \<Longrightarrow> \<not> setsHeader name c \<Longrightarrow> headerIs name h (http_apply c w)"
  by (cases c) (auto simp: headerIs_def setsHeader_def Let_def split: option.splits prod.splits)

lemma headerIs_run: "headerIs name h w \<Longrightarrow> list_all (\<lambda>c. \<not> setsHeader name c) cs \<Longrightarrow> headerIs name h (http_run cs w)"
  by (induction cs arbitrary: w) (simp_all add: http_run_def headerIs_apply)

lemma header_serve:
  assumes "onlyHeaders hs" "list_all (\<lambda>c. \<not> setsHeader name c) cs"
  shows "header name (serve (hs @ cs)) = map_of (respHeaders (http_run hs \<lparr>respHeaders = [], respSent = None, respBody = []\<rparr>)) name"
proof -
  let ?w = "http_run hs \<lparr>respHeaders = [], respSent = None, respBody = []\<rparr>"
  have "headerIs name (map_of (respHeaders ?w) name) ?w"
    using http_run_headers [OF assms(1)] by (simp add: headerIs_def)
  from headerIs_run [OF this assms(2)] show ?thesis
    by (auto simp: serve_def header_def Let_def http_run_append headerIs_def split: option.splits prod.splits)
qed

text \<open>What \<open>NewServerWithOptions\<close> establishes: the parsed origins are those of the configured text.\<close>

definition originsParsed :: "Server \<Rightarrow> bool" where
  "originsParsed s \<longleftrightarrow> (case svAllowedOriginsParsed s of None \<Rightarrow> True | Some os \<Rightarrow> os = parseOrigins (svAllowedOrigins s))"

lemma NewServerWithOptions_parsed: "originsParsed (SetBuildInfo version commit (NewServerWithOptions getenv now port options))"
  by (simp add: originsParsed_def NewServerWithOptions_def SetBuildInfo_def Let_def)

lemma apiHandler_keeps_origin:
  "apiHandler s E r = Some next \<Longrightarrow> list_all (\<lambda>c. \<not> setsHeader ''Access-Control-Allow-Origin'' c) next"
  by (auto simp: apiHandler_def handleSummary_def handleVersion_def handlePools_def handleDevices_def handleClaims_def handleGraph_def
      handleExplain_def handleDoctor_def streamResponse_def respondJSON_def respondError_def http_Error_def sseEvent_def setsHeader_def
      Let_def list_all_iff split: if_splits sum.splits)

lemma apiHandler_handler:
  assumes "apiHandler s E r = Some next"
  shows "handler s E r =
    (cors s r (fst (requestLogging r (seDuration E) next)),
     if reqMethod r = ''OPTIONS'' then [] else [snd (requestLogging r (seDuration E) next)])"
proof -
  have "reqPath r \<notin> {''/healthz'', ''/readyz'', ''/metrics''}"
    using assms by (auto simp: apiHandler_def split: if_splits)
  then show ?thesis using assms by (simp add: handler_def split: prod.split)
qed

definition corsHeaders :: "Server \<Rightarrow> http_request \<Rightarrow> 'q http_command list" where
  "corsHeaders s r =
     corsOrigin s (reqOrigin r) @
     [SetHeader ''Access-Control-Allow-Methods'' ''GET, OPTIONS'', SetHeader ''Access-Control-Allow-Headers'' ''Content-Type''] @
     (if reqMethod r = ''OPTIONS'' then [] else [SetHeader ''Content-Type'' ''application/json''])"

lemma cors_split:
  "cors s r next = corsHeaders s r @ (if reqMethod r = ''OPTIONS'' then [WriteHeader 200] else next)" "onlyHeaders (corsHeaders s r)"
  by (simp_all add: cors_def corsHeaders_def corsOrigin_def onlyHeaders_def Let_def)

lemma corsHeaders_origin:
  assumes "originsParsed s"
  shows "map_of (respHeaders (http_run (corsHeaders s r) \<lparr>respHeaders = [], respSent = None, respBody = []\<rparr>)) ''Access-Control-Allow-Origin'' =
    (if svAllowedOrigins s = ''*'' then Some ''*'' else if allowedOrigin s (reqOrigin r) then Some (reqOrigin r) else None)"
proof -
  have "(case svAllowedOriginsParsed s of Some os \<Rightarrow> os | None \<Rightarrow> parseOrigins (svAllowedOrigins s)) = parseOrigins (svAllowedOrigins s)"
    using assms by (auto simp: originsParsed_def split: option.splits)
  moreover have "allowedOrigin s (reqOrigin r) \<longleftrightarrow> reqOrigin r \<noteq> '''' \<and> reqOrigin r \<in> set (parseOrigins (svAllowedOrigins s))"
    by (simp add: allowedOrigin_def parseOrigins_def)
  ultimately show ?thesis
    by (simp add: corsHeaders_def corsOrigin_def http_run_def Let_def)
qed

text \<open>
  C36. An API response carries an allowed origin exactly when the configuration says so: the star for the default configuration, otherwise the
  origin of the request when it is one of the configured ones, blanks around it disregarded, and nothing for any other. That holds for
  every endpoint and method, and a preflight request is answered with 200 before any handler runs.
\<close>

theorem cors_exact:
  fixes E :: "'q server_env"
  assumes "apiHandler s E r \<noteq> None" and "originsParsed s"
  shows "header ''Access-Control-Allow-Origin'' (serve (fst (handler s E r))) =
      (if svAllowedOrigins s = ''*'' then Some ''*'' else if allowedOrigin s (reqOrigin r) then Some (reqOrigin r) else None) \<and>
    (reqMethod r = ''OPTIONS'' \<longrightarrow> fst (serve (fst (handler s E r))) = 200 \<and> snd (snd (serve (fst (handler s E r)))) = [] \<and> snd (handler s E r) = [])"
proof -
  obtain "next" where api: "apiHandler s E r = Some next" using assms(1) by blast
  let ?log = "fst (requestLogging r (seDuration E) next)"
  have h: "fst (handler s E r) = cors s r ?log" and lines: "reqMethod r = ''OPTIONS'' \<longrightarrow> snd (handler s E r) = []"
    using apiHandler_handler [OF api] by simp_all
  have "header ''Access-Control-Allow-Origin'' (serve (cors s r ?log)) =
      map_of (respHeaders (http_run (corsHeaders s r) (\<lparr>respHeaders = [], respSent = None, respBody = []\<rparr> :: 'q response)))
        ''Access-Control-Allow-Origin''"
  proof (cases "reqMethod r = ''OPTIONS''")
    case True
    then show ?thesis
      unfolding cors_split(1) by (simp add: header_serve [OF cors_split(2)] setsHeader_def)
  next
    case False
    have "serve (cors s r ?log) = serve (corsHeaders s r @ next)"
      using requestLogging_serve [OF cors_split(2) [of s r], of r "seDuration E" "next"] False
      unfolding cors_split(1) by (simp only: if_False)
    then show ?thesis using header_serve [OF cors_split(2) apiHandler_keeps_origin [OF api]] by simp
  qed
  moreover have "fst (serve (cors s r ?log)) = 200 \<and> snd (snd (serve (cors s r ?log))) = []" if "reqMethod r = ''OPTIONS''"
    using http_run_headers [OF cors_split(2) [of s r], of "\<lparr>respHeaders = [], respSent = None, respBody = []\<rparr> :: 'q response"] that
    unfolding cors_split(1) serve_def http_run_append by (simp add: Let_def http_run_def)
  ultimately show ?thesis using h lines corsHeaders_origin [where ?'a = 'q and s = s and r = r, OF assms(2)] by simp
qed


text \<open>A server for one configured origin, with a blank before it, and a cluster whose API answers nothing but errors.\<close>

definition exampleServer :: Server where
  "exampleServer = NewServer (\<lambda>name. if name = ''CORS_ALLOWED_ORIGINS'' then ''a.io, b.io'' else '''') 0 8080"

definition serverExampleEnv :: "rat server_env" where
  "serverExampleEnv =
     \<lparr>seUnicode = asciiUnicode, seQuantity = exact_quantity,
      seCel = \<lparr>celCompileError = (\<lambda>_. None), celDeviceMatches = (\<lambda>_ _. Inr True)\<rparr>, seRedact = (\<lambda>t. t), seOrder = (\<lambda>xs. xs), seClaims = Inl ''down'',
      seSlices = Inl ''down'', sePods = Inl ''down'', seClasses = Inl ''down'',
      seExplainInput = (\<lambda>_ _. \<lparr>xiLiveClaim = Inl (plainError ''down''), xiClasses = Inl ''down'', xiEvents = Inl ''down''\<rparr>),
      seDoctorView = (\<lambda>_. exampleView ''34''), seNow = 0,
      seReadinessInput = \<lparr>ciCanceledBefore = False, ciError = None, ciCanceledAfter = False, ciNow = 0\<rparr>,
      seMetricsDetail = '''', seVisit = (\<lambda>m. m), seDeadlineFails = False, seStreamEvents = [], seStatic = (\<lambda>_. []), seDuration = ''1ms''\<rparr>"

definition serverExampleRequest :: "string \<Rightarrow> string \<Rightarrow> http_request" where
  "serverExampleRequest path origin =
     \<lparr>reqMethod = ''GET'', reqPath = path, reqRawQuery = '''', reqQuery = (\<lambda>_. ''''), reqOrigin = origin\<rparr>"

theorem cors_exact_witness:
  "header ''Access-Control-Allow-Origin'' (serve (fst (handler exampleServer serverExampleEnv (serverExampleRequest ''/api/version'' ''b.io'')))) =
     Some ''b.io'' \<and>
   header ''Access-Control-Allow-Origin'' (serve (fst (handler exampleServer serverExampleEnv (serverExampleRequest ''/api/version'' ''c.io'')))) = None"
proof -
  have 1: "apiHandler exampleServer serverExampleEnv (serverExampleRequest ''/api/version'' origin) \<noteq> None" for origin
    by (simp add: apiHandler_def serverExampleRequest_def)
  have 2: "originsParsed exampleServer"
    using NewServerWithOptions_parsed [of "''''" "''''"] by (simp add: exampleServer_def NewServer_def SetBuildInfo_def)
  have 3: "svAllowedOrigins exampleServer = ''a.io, b.io''"
    by (simp add: exampleServer_def NewServer_def NewServerWithOptions_def Let_def)
  have "map strings_TrimSpace (splitChar (CHR '','') ''a.io, b.io'') = [''a.io'', ''b.io'']"
    by (simp add: strings_TrimSpace_def whiteSpace_def dropAny.simps)
  then have 4: "allowedOrigin exampleServer ''b.io''" "\<not> allowedOrigin exampleServer ''c.io''"
    unfolding allowedOrigin_def 3 by simp_all
  show ?thesis
    using cors_exact [OF 1 2, of "''b.io''"] cors_exact [OF 1 2, of "''c.io''"] 3 4
    by (simp add: serverExampleRequest_def)
qed

section \<open>Status codes\<close>

definition statusOf :: "'q response \<Rightarrow> int" where
  "statusOf w = (case respSent w of None \<Rightarrow> 200 | Some (code, _) \<Rightarrow> code)"

lemma statusOf_write: "statusOf (http_apply (WriteBody part) w) = statusOf w"
  by (simp add: statusOf_def Let_def split: option.split)

lemma statusOf_events: "statusOf (http_run (map sseEvent events) w) = statusOf w"
  by (induction events arbitrary: w) (simp_all add: http_run_def sseEvent_def statusOf_write del: http_apply.simps)

lemma serve_status: "fst (serve cs) = statusOf (http_run cs \<lparr>respHeaders = [], respSent = None, respBody = []\<rparr>)"
  by (simp add: serve_def statusOf_def Let_def split: option.split prod.split)

text \<open>
  C37. The status of every API endpoint, in a cluster in any state: 200, with an error envelope for \<^verbatim>\<open>/api/explain\<close> only, whose status
  is 400 exactly when a parameter is missing and 500 exactly when the claim cannot be explained. In particular a partial
  outage of the Kubernetes API is not an error of these endpoints. The one other failure is a stream whose deadline cannot be
  configured.
\<close>

theorem handler_status:
  fixes E :: "'q server_env"
  assumes "apiHandler s E r = Some next" and "reqMethod r \<noteq> ''OPTIONS''"
  shows "fst (serve (fst (handler s E r))) =
    (if reqPath r = ''/api/explain''
     then (if reqQuery r ''claim'' = '''' \<or> reqQuery r ''namespace'' = '''' then 400
           else case ExplainClaim (seCel E) (seRedact E) (serverDiscovery E) (seExplainInput E (reqQuery r ''namespace'') (reqQuery r ''claim''))
                       (reqQuery r ''namespace'') (reqQuery r ''claim'') of Inl _ \<Rightarrow> 500 | Inr _ \<Rightarrow> 200)
     else if reqPath r = ''/api/stream'' \<and> seDeadlineFails E then 500
     else 200)"
proof -
  have "serve (fst (handler s E r)) = serve (corsHeaders s r @ next)"
    using requestLogging_serve [OF cors_split(2) [of s r], of r "seDuration E" "next"] apiHandler_handler [OF assms(1)] assms(2)
    by (simp add: cors_split(1))
  then have status: "fst (serve (fst (handler s E r))) =
      statusOf (http_run next (http_run (corsHeaders s r) \<lparr>respHeaders = [], respSent = None, respBody = []\<rparr>))"
    by (simp add: serve_status http_run_append)
  define w :: "'q response" where "w = http_run (corsHeaders s r) \<lparr>respHeaders = [], respSent = None, respBody = []\<rparr>"
  have fresh: "respSent w = None"
    unfolding w_def using http_run_headers [OF cors_split(2) [of s r], of "\<lparr>respHeaders = [], respSent = None, respBody = []\<rparr> :: 'q response"] by simp
  have json: "statusOf (http_run (respondJSON payload) w) = 200" for payload
    using fresh by (simp add: respondJSON_def http_run_def statusOf_def Let_def)
  have error: "statusOf (http_run (respondError message code) w) = code" for message code
    using fresh by (simp add: respondError_def http_run_def statusOf_def Let_def)
  have stream: "statusOf (http_run (streamResponse E) w) = (if seDeadlineFails E then 500 else 200)"
  proof (cases "seDeadlineFails E")
    case True
    then show ?thesis using fresh by (simp add: streamResponse_def http_Error_def http_run_def statusOf_def Let_def)
  next
    case False
    define v where "v = http_run [SetHeader ''Content-Type'' ''text/event-stream'', SetHeader ''Cache-Control'' ''no-cache'', SetHeader ''Connection'' ''keep-alive''] w"
    have "statusOf v = 200" using fresh by (simp add: v_def http_run_def statusOf_def)
    then show ?thesis using False statusOf_events [of "seStreamEvents E" v] by (simp only: streamResponse_def http_run_append v_def if_False)
  qed
  have "statusOf (http_run next w) =
    (if reqPath r = ''/api/explain'' then statusOf (http_run (handleExplain E r) w)
     else if reqPath r = ''/api/stream'' \<and> seDeadlineFails E then 500 else 200)"
    using assms(1)
    by (auto simp: apiHandler_def json stream handleSummary_def handleVersion_def handlePools_def handleDevices_def handleClaims_def
        handleGraph_def handleDoctor_def Let_def split: if_splits)
  then show ?thesis
    unfolding status w_def [symmetric] by (simp add: handleExplain_def Let_def error json split: sum.split)
qed


theorem handler_status_witness:
  "fst (serve (fst (handler exampleServer serverExampleEnv (serverExampleRequest ''/api/explain'' '''')))) = 400 \<and>
   fst (serve (fst (handler exampleServer serverExampleEnv (serverExampleRequest ''/api/claims'' '''')))) = 200"
proof -
  have 1: "apiHandler exampleServer serverExampleEnv (serverExampleRequest ''/api/explain'' '''') = Some (handleExplain serverExampleEnv (serverExampleRequest ''/api/explain'' ''''))"
      "apiHandler exampleServer serverExampleEnv (serverExampleRequest ''/api/claims'' '''') = Some (handleClaims serverExampleEnv)"
    by (simp_all add: apiHandler_def serverExampleRequest_def)
  have 2: "reqMethod (serverExampleRequest path origin) \<noteq> ''OPTIONS''" for path origin by (simp add: serverExampleRequest_def)
  show ?thesis
    using handler_status [OF 1(1) 2] handler_status [OF 1(2) 2] by (simp add: serverExampleRequest_def)
qed

section \<open>Metrics and the end of the server\<close>

lemma claimStatusCounts_exact: "gomap_get 0 (claimStatusCounts claims) status = int (length (filter (\<lambda>c. ciStatus c = status) claims))"
proof -
  have "gomap_get 0 (fold (\<lambda>c counts. gomap_put (ciStatus c) (gomap_get 0 counts (ciStatus c) + 1) counts) claims m) status =
      gomap_get 0 m status + int (length (filter (\<lambda>c. ciStatus c = status) claims))" for m
    by (induction claims arbitrary: m) simp_all
  then show ?thesis by (simp add: claimStatusCounts_def)
qed

text \<open>
  However the server ends, the requests are cancelled first; \<^verbatim>\<open>Close\<close> is called exactly when the graceful shutdown fails for another
  reason than a server that is closed already; and no error is returned exactly when the server was closed or shut down in time.
\<close>

lemma runHTTPServer_outcome:
  "hd (snd (runHTTPServer e)) = CancelRequests"
  "CallClose \<in> set (snd (runHTTPServer e)) \<longleftrightarrow> (\<exists>err closeErr. e = ContextDone (Some err) closeErr \<and> \<not> svErrClosed err)"
  "fst (runHTTPServer e) = None \<longleftrightarrow>
     (case e of ServeReturned err \<Rightarrow> (case err of None \<Rightarrow> True | Some x \<Rightarrow> svErrClosed x)
      | ContextDone err _ \<Rightarrow> (case err of None \<Rightarrow> True | Some x \<Rightarrow> svErrClosed x))"
  by (auto simp: runHTTPServer_def split: server_end.split option.split)

lemma Start_cancels:
  "hd (snd (snd (Start s e))) = CancelRequests" "last (snd (snd (Start s e))) = CancelRequests"
  by (simp_all add: Start_def runHTTPServer_def split: server_end.split option.split)

end
