(* ===== verification/Graph_Mermaid.thy ===== *)
theory Graph_Mermaid
  imports Graph
begin

text \<open>
  The Mermaid text of the graph, \<^verbatim>\<open>mermaidID\<close> and \<^verbatim>\<open>ToMermaid\<close> of \<^verbatim>\<open>internal/graph/graph.go\<close>: FNV-1a of package \<^verbatim>\<open>hash/fnv\<close>
  on 32-bit words, and the range over the runes of a string, decoded from UTF-8 as Go does it. Whether a rune outside ASCII is a letter or
  a digit is in the Unicode tables, the parameter \<open>letterOrDigit\<close> on the bytes of the rune.
\<close>

unbundle bit_operations_syntax

section \<open>Identifiers\<close>

definition fnv32a :: "string \<Rightarrow> 32 word" where
  "fnv32a raw = fold (\<lambda>c hash. (hash XOR of_nat (of_char c)) * 16777619) raw 2166136261"

definition hexDigit :: "nat \<Rightarrow> char" where
  "hexDigit n = ''0123456789abcdef'' ! n"

fun hexadecimal :: "nat \<Rightarrow> string" where
  "hexadecimal n = (if n < 16 then [hexDigit n] else hexadecimal (n div 16) @ [hexDigit (n mod 16)])"

declare hexadecimal.simps [simp del]

definition continuation :: "nat \<Rightarrow> nat \<Rightarrow> char \<Rightarrow> bool" where
  "continuation lo hi c \<longleftrightarrow> lo \<le> (of_char c :: nat) \<and> of_char c \<le> hi"

text \<open>The range of the second byte and the number of bytes, by the first.\<close>

definition runeShape :: "nat \<Rightarrow> (nat \<times> nat \<times> nat) option" where
  "runeShape b =
     (if 0xC2 \<le> b \<and> b \<le> 0xDF then Some (0x80, 0xBF, 2)
      else if b = 0xE0 then Some (0xA0, 0xBF, 3)
      else if b = 0xED then Some (0x80, 0x9F, 3)
      else if 0xE1 \<le> b \<and> b \<le> 0xEF then Some (0x80, 0xBF, 3)
      else if b = 0xF0 then Some (0x90, 0xBF, 4)
      else if b = 0xF4 then Some (0x80, 0x8F, 4)
      else if 0xF1 \<le> b \<and> b \<le> 0xF3 then Some (0x80, 0xBF, 4)
      else None)"

text \<open>The bytes of the rune at the head of a text, \<open>1\<close> for a byte that does not begin one.\<close>

definition runeWidth :: "char \<Rightarrow> string \<Rightarrow> nat" where
  "runeWidth c rest =
     (case runeShape (of_char c) of
        None \<Rightarrow> 1
      | Some (lo, hi, n) \<Rightarrow>
          (case take (n - 1) rest of
             b2 # bs \<Rightarrow>
               if length (b2 # bs) = n - 1 \<and> continuation lo hi b2 \<and> list_all (continuation 0x80 0xBF) bs then n else 1
           | [] \<Rightarrow> 1))"

definition asciiAlphaNum :: "char \<Rightarrow> bool" where
  "asciiAlphaNum c \<longleftrightarrow>
     (let b = (of_char c :: nat) in (48 \<le> b \<and> b \<le> 57) \<or> (65 \<le> b \<and> b \<le> 90) \<or> (97 \<le> b \<and> b \<le> 122))"

text \<open>An invalid byte is the rune U+FFFD, which is neither letter nor digit.\<close>

definition keptRune :: "(string \<Rightarrow> bool) \<Rightarrow> string \<Rightarrow> bool" where
  "keptRune letterOrDigit rune \<longleftrightarrow>
     (case rune of [c] \<Rightarrow> asciiAlphaNum c | _ \<Rightarrow> letterOrDigit rune)"

function mermaidRunes :: "(string \<Rightarrow> bool) \<Rightarrow> string \<Rightarrow> string" where
  "mermaidRunes letterOrDigit [] = []"
| "mermaidRunes letterOrDigit (c # rest) =
     (let rune = c # take (runeWidth c rest - 1) rest
      in (if keptRune letterOrDigit rune then rune else ''_'') @ mermaidRunes letterOrDigit (drop (runeWidth c rest - 1) rest))"
  by pat_completeness auto
termination by (relation "measure (\<lambda>(_, s). length s)") simp_all

definition mermaidID :: "(string \<Rightarrow> bool) \<Rightarrow> string \<Rightarrow> string" where
  "mermaidID letterOrDigit raw = ''n'' @ hexadecimal (unat (fnv32a raw)) @ ''_'' @ mermaidRunes letterOrDigit raw"

section \<open>The text\<close>

definition mermaidNode :: "(string \<Rightarrow> bool) \<Rightarrow> GraphNode \<Rightarrow> string" where
  "mermaidNode letterOrDigit n =
     ''  '' @ mermaidID letterOrDigit (gnID n) @ ''['' @ dquote @ replaceChar (CHR 0x22) '''' (gnLabel n) @ ''<br/>('' @ gnType n @ '')'' @ dquote @ '']'' @ newline"

definition mermaidEdge :: "(string \<Rightarrow> bool) \<Rightarrow> GraphEdge \<Rightarrow> string" where
  "mermaidEdge letterOrDigit e =
     ''  '' @ mermaidID letterOrDigit (geFrom e) @ '' -->|'' @ geType e @ ''| '' @ mermaidID letterOrDigit (geTo e) @ newline"

definition ToMermaid :: "(string \<Rightarrow> bool) \<Rightarrow> ResourceGraph \<Rightarrow> string" where
  "ToMermaid letterOrDigit g =
     ''graph LR'' @ newline @ concat (map (mermaidNode letterOrDigit) (rgNodes g)) @ newline @ concat (map (mermaidEdge letterOrDigit) (rgEdges g))"

section \<open>What an identifier keeps\<close>

lemma hexDigit_char: "n < 16 \<Longrightarrow> asciiAlphaNum (hexDigit n) \<and> hexDigit n \<noteq> CHR ''_''"
proof -
  have "\<forall>n \<in> set [0..<16]. asciiAlphaNum (hexDigit n) \<and> hexDigit n \<noteq> CHR ''_''" by code_simp
  then show "n < 16 \<Longrightarrow> asciiAlphaNum (hexDigit n) \<and> hexDigit n \<noteq> CHR ''_''" by simp
qed

lemma hexadecimal_chars: "list_all (\<lambda>c. asciiAlphaNum c \<and> c \<noteq> CHR ''_'') (hexadecimal n)"
proof (induction n rule: hexadecimal.induct)
  case (1 n)
  then show ?case by (simp add: hexadecimal.simps [of n] hexDigit_char)
qed

lemma hexDigit_inj: "a < 16 \<Longrightarrow> b < 16 \<Longrightarrow> hexDigit a = hexDigit b \<Longrightarrow> a = b"
proof -
  have "\<forall>a \<in> set [0..<16]. \<forall>b \<in> set [0..<16]. hexDigit a = hexDigit b \<longrightarrow> a = b" by code_simp
  then show "a < 16 \<Longrightarrow> b < 16 \<Longrightarrow> hexDigit a = hexDigit b \<Longrightarrow> a = b" by simp
qed

lemma hexadecimal_nonempty: "hexadecimal n \<noteq> []" "[] \<noteq> hexadecimal n"
  by (subst hexadecimal.simps, simp)+

lemma hexadecimal_inj: "hexadecimal a = hexadecimal b \<Longrightarrow> a = b"
proof (induction a arbitrary: b rule: hexadecimal.induct)
  case (1 a)
  have "a div 16 = b div 16 \<and> a mod 16 = b mod 16"
    using "1.prems" "1.IH" hexDigit_inj hexadecimal_nonempty
    by (auto simp: hexadecimal.simps [of a] hexadecimal.simps [of b] split: if_splits)
  then show ?case by (metis div_mult_mod_eq)
qed

text \<open>
  Identifiers that become equal in the Mermaid text have the same hash and the same letters and digits: the hash can be read back,
  since no underscore occurs before the one that ends it.
\<close>

lemma mermaidID_eq:
  assumes "mermaidID letterOrDigit a = mermaidID letterOrDigit b"
  shows "fnv32a a = fnv32a b \<and> mermaidRunes letterOrDigit a = mermaidRunes letterOrDigit b"
proof -
  have split: "takeWhile (\<lambda>c. c \<noteq> CHR ''_'') (hexadecimal n @ CHR ''_'' # rest) = hexadecimal n" for n rest
    using hexadecimal_chars [of n] by (subst takeWhile_append2) (auto simp: list_all_iff)
  from assms have "hexadecimal (unat (fnv32a a)) @ CHR ''_'' # mermaidRunes letterOrDigit a =
      hexadecimal (unat (fnv32a b)) @ CHR ''_'' # mermaidRunes letterOrDigit b" by (simp add: mermaidID_def)
  moreover from arg_cong [OF this, of "takeWhile (\<lambda>c. c \<noteq> CHR ''_'')"]
  have "hexadecimal (unat (fnv32a a)) = hexadecimal (unat (fnv32a b))" by (simp only: split)
  ultimately show ?thesis using hexadecimal_inj by (simp add: word_unat_eq_iff)
qed

text \<open>An identifier of ASCII text has only letters, digits and underscores, so it cannot end the node it names.\<close>

lemma mermaidID_ascii:
  assumes "list_all (\<lambda>c. (of_char c :: nat) < 128) raw"
  shows "list_all (\<lambda>c. asciiAlphaNum c \<or> c = CHR ''_'') (mermaidID letterOrDigit raw)"
proof -
  have "list_all (\<lambda>c. asciiAlphaNum c \<or> c = CHR ''_'') (mermaidRunes letterOrDigit raw)"
    using assms
    by (induction letterOrDigit raw rule: mermaidRunes.induct)
       (simp_all add: keptRune_def runeWidth_def runeShape_def)
  moreover have "asciiAlphaNum (CHR ''n'')" by code_simp
  ultimately show ?thesis
    using hexadecimal_chars [of "unat (fnv32a raw)"] by (auto simp: mermaidID_def list_all_iff)
qed

end
