(* ===== verification/Command_Line.thy ===== *)
theory Command_Line
  imports Terminal_UI Server Pool_Spec Graph_Mermaid
begin

text \<open>
  The command line, \<^verbatim>\<open>cmd/draforge/main.go\<close>: what every command does after cobra has parsed its flags and arguments. A command is
  a call on the state of the API server and of the output; \<open>OutJSON\<close> and \<open>OutYAML\<close> stand for the renderings of
  \<^verbatim>\<open>encoding/json\<close> and \<^verbatim>\<open>yaml.v3\<close>. The clients, the file and the dynamic client's operations on
  SimulatedDevicePools are inputs. \<^verbatim>\<open>SetNestedField\<close> is outside the repository: \<open>setHealth\<close> is what it makes of an object
  and a value for \<^verbatim>\<open>spec.health\<close>.
\<close>

section \<open>Output and flags\<close>

datatype 'q cli_payload =
    PDiscovery "DevicePool list" "'q model_device list" "ResourceClaimInfo list"
  | PClaims "ResourceClaimInfo list"
  | PGraph ResourceGraph
  | PExplain ExplainResult
  | PDoctor DoctorReport

datatype 'q cli_output = OutText string | OutJSON "'q cli_payload" | OutYAML "'q cli_payload"

record cli_flags =
  flNamespace :: string
  flOutput :: string
  flVersion :: string
  flCommit :: string

record ('s, 'q) cli_state =
  csServer :: 's
  csOut :: "'q cli_output list"

definition cli_print :: "'q cli_output \<Rightarrow> (('s, 'q) cli_state, unit) api" where
  "cli_print x = api_modify (\<lambda>s. s\<lparr>csOut := csOut s @ [x]\<rparr>)"

definition cli_call :: "('s, 'a) api \<Rightarrow> (('s, 'q) cli_state, 'a) api" where
  "cli_call m s = (case m (csServer s) of (r, s') \<Rightarrow> (r, s\<lparr>csServer := s'\<rparr>))"

text \<open>\<^verbatim>\<open>cluster.NewClientset\<close>: the error it returns, if any.\<close>

definition withClient :: "api_error option \<Rightarrow> ('s, 'a) api \<Rightarrow> ('s, 'a) api" where
  "withClient clientErr m = (case clientErr of Some err \<Rightarrow> api_fail err | None \<Rightarrow> m)"

definition seqPrint :: "'q cli_output list \<Rightarrow> (('s, 'q) cli_state, unit) api" where
  "seqPrint xs = api_modify (\<lambda>s. s\<lparr>csOut := csOut s @ xs\<rparr>)"

section \<open>Texts\<close>

definition formatClaimClasses :: "ResourceClaimInfo \<Rightarrow> string" where
  "formatClaimClasses claim =
     (let names = RequestedClassNames claim in if names = [] then ''-'' else strings_Join names '','')"

definition formatClaimAllocation :: "ClaimAllocation \<Rightarrow> string" where
  "formatClaimAllocation a =
     (if caRequest a = '''' then ''request'' else caRequest a) @ ''='' @ caDriverName a @ ''/'' @ caPoolName a @ ''/'' @ caDeviceName a @ ''@'' @
     (if caNodeName a = '''' then ''unknown-node'' else caNodeName a)"

definition formatClaimAllocations :: "ResourceClaimInfo \<Rightarrow> string" where
  "formatClaimAllocations claim =
     (let allocations = EffectiveAllocations claim
      in if allocations = [] then ''Pending'' else strings_Join (map formatClaimAllocation allocations) '';'')"

text \<open>The two symbols are U+2714 and U+2716.\<close>

fun printReasonNode :: "nat \<Rightarrow> ReasonNode \<Rightarrow> string list" where
  "printReasonNode depth (ReasonNode message confidence evidence sourceType fieldPath children) =
     (concat (replicate depth ''  '') @
      (if confidence = ''confirmed'' then [CHR 0xE2, CHR 0x9C, CHR 0x96] else [CHR 0xE2, CHR 0x9C, CHR 0x94]) @
      '' '' @ message @ '' ('' @ confidence @ '')'' @ nl) #
     concat (map (printReasonNode (Suc depth)) children)"

section \<open>Reading commands\<close>

definition versionCommand :: "cli_flags \<Rightarrow> (('s, 'q) cli_state, unit) api" where
  "versionCommand fl = cli_print (OutText (''DRAForge '' @ flVersion fl @ '' (Commit: '' @ flCommit fl @ '')'' @ nl))"

definition discoverCommand :: "cli_flags \<Rightarrow> api_error option \<Rightarrow> 'q discovered \<Rightarrow> (('s, 'q) cli_state, unit) api" where
  "discoverCommand fl clientErr d =
     withClient clientErr
       (let payload = PDiscovery (dvPools d) (dvDevices d) (dvClaims d)
        in if flOutput fl = ''json'' then cli_print (OutJSON payload)
           else if flOutput fl = ''yaml'' then cli_print (OutYAML payload)
           else cli_print (OutText (''Discovered '' @ decimal (length (dvPools d)) @ '' Device Pools, '' @ decimal (length (dvDevices d)) @
                  '' Devices, '' @ decimal (length (dvClaims d)) @ '' ResourceClaims'' @ nl)))"

definition claimRow :: "ResourceClaimInfo \<Rightarrow> string" where
  "claimRow claim =
     row [(25, ciName claim), (15, ciNamespace claim), (35, formatClaimClasses claim), (55, formatClaimAllocations claim), (15, ciStatus claim)] @ nl"

definition claimsCommand :: "cli_flags \<Rightarrow> api_error option \<Rightarrow> 'q discovered \<Rightarrow> (('s, 'q) cli_state, unit) api" where
  "claimsCommand fl clientErr d =
     withClient clientErr
       (if flOutput fl = ''json'' then cli_print (OutJSON (PClaims (dvClaims d)))
        else seqPrint ([OutText (row [(25, ''CLAIM NAME''), (15, ''NAMESPACE''), (35, ''CLASSES''), (55, ''ALLOCATIONS''), (15, ''STATUS'')] @ nl),
                        OutText (replicate 150 (CHR ''-'') @ nl)] @
                       map (\<lambda>c. OutText (claimRow c)) (dvClaims d)))"

definition graphCommand :: "cli_flags \<Rightarrow> api_error option \<Rightarrow> (string \<Rightarrow> bool) \<Rightarrow> (string \<Rightarrow> ResourceGraph) \<Rightarrow> (('s, 'q) cli_state, unit) api" where
  "graphCommand fl clientErr letterOrDigit buildGraph =
     withClient clientErr
       (let g = buildGraph (flNamespace fl)
        in if flOutput fl = ''dot'' then cli_print (OutText (ToDOT g @ nl))
           else if flOutput fl = ''mermaid'' then cli_print (OutText (ToMermaid letterOrDigit g @ nl))
           else cli_print (OutJSON (PGraph g)))"

fun numberedRemedies :: "nat \<Rightarrow> string list \<Rightarrow> string list" where
  "numberedRemedies i [] = []"
| "numberedRemedies i (r # rs) = (''  '' @ decimal (Suc i) @ ''. '' @ r @ nl) # numberedRemedies (Suc i) rs"

definition explainCommand :: "cli_flags \<Rightarrow> api_error option \<Rightarrow> api_error + ExplainResult \<Rightarrow> (('s, 'q) cli_state, unit) api" where
  "explainCommand fl clientErr result =
     withClient clientErr
       (case result of
          Inl err \<Rightarrow> api_fail err
        | Inr res \<Rightarrow>
            if flOutput fl = ''json'' then cli_print (OutJSON (PExplain res))
            else seqPrint (map OutText
                   ([''Claim: '' @ erTargetName res @ '' (Allocated: '' @ boolText (erAllocated res) @ '')'' @ nl, ''Reason Tree:'' @ nl] @
                    printReasonNode 0 (erReasonTree res) @
                    (if erRemedy res \<noteq> [] then (nl @ ''Suggested Remedies:'' @ nl) # numberedRemedies 0 (erRemedy res) else []))))"

definition doctorLines :: "DoctorCheckResult \<Rightarrow> string list" where
  "doctorLines res =
     [''['' @ statusText (crStatus res) @ ''] '' @ crID res @ '': '' @ crCheckName res @ nl, ''      Evidence: '' @ crEvidence res @ nl] @
     (if crStatus res \<noteq> StatusPass then [''      Remediation: '' @ crRemediation res @ nl] else [])"

definition doctorCommand :: "cli_flags \<Rightarrow> api_error option \<Rightarrow> (int \<Rightarrow> string) \<Rightarrow> DoctorReport \<Rightarrow> (('s, 'q) cli_state, unit) api" where
  "doctorCommand fl clientErr rfc1123 report =
     withClient clientErr
       (if flOutput fl = ''json'' then cli_print (OutJSON (PDoctor report))
        else seqPrint (map OutText
               ([''Diagnostics Report ('' @ rfc1123 (reportTimestamp report) @ '')'' @ nl,
                 ''Summary: PASS='' @ decimalInt (gomap_get 0 (reportSummary report) ''PASS'') @ '' WARN='' @
                 decimalInt (gomap_get 0 (reportSummary report) ''WARN'') @ '' FAIL='' @
                 decimalInt (gomap_get 0 (reportSummary report) ''FAIL'') @ nl @ nl] @
                concat (map doctorLines (reportResults report)))))"

record serveOptions =
  srvPort :: int
  srvReadinessTimeout :: int
  srvReadinessGracePeriod :: int
  srvShutdownTimeout :: int

text \<open>\<^verbatim>\<open>runServeCommand\<close>: the server that is started, or the error of the client.\<close>

definition serveCommand :: "cli_flags \<Rightarrow> api_error option \<Rightarrow> (string \<Rightarrow> string) \<Rightarrow> int \<Rightarrow> serveOptions \<Rightarrow> api_error + Server" where
  "serveCommand fl clientErr getenv now opts =
     (case clientErr of
        Some err \<Rightarrow> Inl err
      | None \<Rightarrow> Inr (SetBuildInfo (flVersion fl) (flCommit fl)
          (NewServerWithOptions getenv now (srvPort opts)
             \<lparr>soReadinessTimeout = srvReadinessTimeout opts, soReadinessGracePeriod = srvReadinessGracePeriod opts,
              soShutdownTimeout = srvShutdownTimeout opts\<rparr>)))"

section \<open>Writing commands\<close>

record cli_pool = unstructured +
  uResourceVersion :: string

record 's dynamic_api =
  dynGet :: "string \<Rightarrow> string \<Rightarrow> ('s, cli_pool) api"
  dynCreate :: "string \<Rightarrow> cli_pool \<Rightarrow> ('s, unit) api"
  dynUpdate :: "string \<Rightarrow> cli_pool \<Rightarrow> ('s, unit) api"
  dynDelete :: "string \<Rightarrow> string \<Rightarrow> ('s, unit) api"
  dynList :: "string \<Rightarrow> ('s, cli_pool list) api"

text \<open>\<open>scenario\<close>: the outcome of reading the file and of parsing it.\<close>

definition scenarioApply ::
  "cli_flags \<Rightarrow> api_error option \<Rightarrow> 's dynamic_api \<Rightarrow> string \<Rightarrow> api_error + (api_error + cli_pool) \<Rightarrow> (('s, 'q) cli_state, unit) api" where
  "scenarioApply fl clientErr D scenarioFile scenario =
     (if scenarioFile = '''' then api_fail (plainError ''scenario file path must be specified via -f'')
      else withClient clientErr
        (case scenario of
           Inl err \<Rightarrow> api_fail (wrapError ''failed to read scenario file'' err)
         | Inr (Inl err) \<Rightarrow> api_fail (wrapError ''failed to parse scenario YAML'' err)
         | Inr (Inr obj) \<Rightarrow>
             (let ns = (if uNamespace obj = '''' then flNamespace fl else uNamespace obj); obj1 = obj\<lparr>uNamespace := ns\<rparr>
              in api_bind (api_try (cli_call (dynGet D ns (uName obj1)))) (\<lambda>r.
                   case r of
                     Inr existing \<Rightarrow>
                       api_bind (cli_call (dynUpdate D ns (obj1\<lparr>uResourceVersion := uResourceVersion existing\<rparr>)))
                         (\<lambda>_. cli_print (OutText (''Successfully updated scenario '' @ ns @ ''/'' @ uName obj1 @ nl)))
                   | Inl _ \<Rightarrow>
                       api_bind (cli_call (dynCreate D ns obj1))
                         (\<lambda>_. cli_print (OutText (''Successfully applied scenario '' @ ns @ ''/'' @ uName obj1 @ nl)))))))"

text \<open>The error of a deletion is dropped.\<close>

definition scenarioReset :: "cli_flags \<Rightarrow> api_error option \<Rightarrow> 's dynamic_api \<Rightarrow> (('s, 'q) cli_state, unit) api" where
  "scenarioReset fl clientErr D =
     withClient clientErr
       (api_bind (cli_call (dynList D (flNamespace fl))) (\<lambda>items.
          api_bind (api_forEach (\<lambda>item _.
              api_bind (cli_print (OutText (''Deleting SimulatedDevicePool scenario '' @ flNamespace fl @ ''/'' @ uName item @ ''...'' @ nl))) (\<lambda>_.
              api_bind (api_try (cli_call (dynDelete D (flNamespace fl) (uName item)))) (\<lambda>_. api_return ()))) items ())
          (\<lambda>_. cli_print (OutText (''All SimulatedDevicePool scenarios reset.'' @ nl)))))"

definition setPoolHealth ::
  "(object \<Rightarrow> string \<Rightarrow> api_error + object) \<Rightarrow> cli_flags \<Rightarrow> 's dynamic_api \<Rightarrow> string \<Rightarrow> string \<Rightarrow> (('s, 'q) cli_state, unit) api" where
  "setPoolHealth setHealth fl D pool health =
     api_bind (api_wrap (''failed to get pool '' @ flNamespace fl @ ''/'' @ pool) (cli_call (dynGet D (flNamespace fl) pool))) (\<lambda>sdp.
       case setHealth (uObject sdp) health of
         Inl err \<Rightarrow> api_fail err
       | Inr object \<Rightarrow> cli_call (dynUpdate D (flNamespace fl) (sdp\<lparr>uObject := object\<rparr>)))"

definition faultTypes :: "string list" where
  "faultTypes = [''unhealthy'', ''capacity-exhausted'', ''disappear'']"

definition injectFault ::
  "(object \<Rightarrow> string \<Rightarrow> api_error + object) \<Rightarrow> cli_flags \<Rightarrow> api_error option \<Rightarrow> 's dynamic_api \<Rightarrow> string \<Rightarrow> string \<Rightarrow>
   (('s, 'q) cli_state, unit) api" where
  "injectFault setHealth fl clientErr D pool fault =
     (if pool = '''' then api_fail (plainError ''--pool must be specified'')
      else if fault = '''' then api_fail (plainError ''--type must be specified (unhealthy, capacity-exhausted, disappear)'')
      else if fault \<notin> set faultTypes then api_fail (plainError (''invalid fault type: '' @ fault))
      else withClient clientErr
        (api_bind (setPoolHealth setHealth fl D pool fault) (\<lambda>_.
           cli_print (OutText (''Successfully injected fault '' @ goQuote fault @ '' into pool '' @ flNamespace fl @ ''/'' @ pool @ nl)))))"

definition clearFaults ::
  "(object \<Rightarrow> string \<Rightarrow> api_error + object) \<Rightarrow> cli_flags \<Rightarrow> api_error option \<Rightarrow> 's dynamic_api \<Rightarrow> string \<Rightarrow> (('s, 'q) cli_state, unit) api" where
  "clearFaults setHealth fl clientErr D pool =
     (if pool = '''' then api_fail (plainError ''--pool must be specified'')
      else withClient clientErr
        (api_bind (setPoolHealth setHealth fl D pool ''healthy'') (\<lambda>_.
           cli_print (OutText (''Successfully cleared faults from pool '' @ flNamespace fl @ ''/'' @ pool @ nl)))))"

text \<open>\<^verbatim>\<open>run\<close>: the exit code.\<close>

definition exitCode :: "(api_error + unit) \<times> ('s, 'q) cli_state \<Rightarrow> nat" where
  "exitCode r = (case fst r of Inl _ \<Rightarrow> 1 | Inr _ \<Rightarrow> 0)"

section \<open>Faults reach the controller\<close>

lemma wpr_cli_call [wpr_rules]:
  "wpr (cli_call m) Q E s \<longleftrightarrow> wpr m (\<lambda>x s'. Q x (s\<lparr>csServer := s'\<rparr>)) (\<lambda>err s'. E err (s\<lparr>csServer := s'\<rparr>)) (csServer s)"
  by (auto simp: wpr_def cli_call_def split: sum.splits prod.splits)

lemma wpr_cli_print [wpr_rules]: "wpr (cli_print x) Q E s \<longleftrightarrow> Q () (s\<lparr>csOut := csOut s @ [x]\<rparr>)"
  by (simp add: cli_print_def wpr_modify)

text \<open>What the code relies on in \<^verbatim>\<open>SetNestedField\<close>: the field it sets is there afterwards.\<close>

definition sets_health :: "'q object_api \<Rightarrow> (object \<Rightarrow> string \<Rightarrow> api_error + object) \<Rightarrow> bool" where
  "sets_health U setHealth \<longleftrightarrow>
     (\<forall>ob h ob'. setHealth ob h = Inr ob' \<longrightarrow> (\<exists>spec. nestedMap U ob' ''spec'' = (spec, True) \<and> nestedString U spec ''health'' = h))"

lemma decode_health:
  assumes "sets_health U setHealth" "setHealth ob h = Inr ob'" "h \<noteq> ''''" "uObject sdp = ob'"
  shows "map_option spHealth (decodeSimulatedDevicePoolSpec U sdp) = Some h"
  using assms unfolding sets_health_def decodeSimulatedDevicePoolSpec_def by (fastforce simp: Let_def)

text \<open>The pool that a successful command has written: read before, with the new health, in the state the read left.\<close>

definition healthWritten ::
  "'q object_api \<Rightarrow> 's dynamic_api \<Rightarrow> string \<Rightarrow> string \<Rightarrow> string \<Rightarrow> 's \<Rightarrow> 's \<Rightarrow> bool" where
  "healthWritten U D ns pool health before after \<longleftrightarrow>
     (\<exists>sdp s1 written. dynGet D ns pool before = (Inr sdp, s1) \<and> dynUpdate D ns written s1 = (Inr (), after) \<and>
        uName written = uName sdp \<and> uNamespace written = uNamespace sdp \<and> uResourceVersion written = uResourceVersion sdp \<and>
        map_option spHealth (decodeSimulatedDevicePoolSpec U (unstructured.truncate written)) = Some health)"

lemma setPoolHealth_wpr:
  fixes s :: "('s, 'p) cli_state"
  assumes "sets_health U setHealth" "health \<noteq> ''''"
  shows "wpr (setPoolHealth setHealth fl D pool health)
    (\<lambda>_ s'. healthWritten U D (flNamespace fl) pool health (csServer s) (csServer s') \<and> csOut s' = csOut s) (\<lambda>_ s'. csOut s' = csOut s) s"
proof (rule wprI)
  fix r s' assume run: "setPoolHealth setHealth fl D pool health s = (r, s')"
  obtain g s1 where get: "dynGet D (flNamespace fl) pool (csServer s) = (g, s1)" by (cases "dynGet D (flNamespace fl) pool (csServer s)")
  show "case r of Inl err \<Rightarrow> csOut s' = csOut s
    | Inr x \<Rightarrow> healthWritten U D (flNamespace fl) pool health (csServer s) (csServer s') \<and> csOut s' = csOut s"
  proof (cases g)
    case (Inl err)
    with run get show ?thesis by (auto simp: setPoolHealth_def api_bind_def api_wrap_def cli_call_def)
  next
    case (Inr sdp)
    show ?thesis
    proof (cases "setHealth (uObject sdp) health")
      case (Inl err)
      with run get Inr show ?thesis by (auto simp: setPoolHealth_def api_bind_def api_wrap_def cli_call_def api_fail_def)
    next
      case set: (Inr object)
      obtain u s2 where upd: "dynUpdate D (flNamespace fl) (sdp\<lparr>uObject := object\<rparr>) s1 = (u, s2)"
        by (cases "dynUpdate D (flNamespace fl) (sdp\<lparr>uObject := object\<rparr>) s1")
      have res: "r = u" "s' = s\<lparr>csServer := s2\<rparr>"
        using run get Inr set upd by (simp_all add: setPoolHealth_def api_bind_def api_wrap_def cli_call_def)
      have "uObject (unstructured.truncate (sdp\<lparr>uObject := object\<rparr>)) = object" by (simp add: unstructured.truncate_def)
      from decode_health [OF assms(1) set assms(2) this] get Inr upd res show ?thesis
        by (auto simp: healthWritten_def split: sum.split intro!: exI [of _ sdp] exI [of _ "sdp\<lparr>uObject := object\<rparr>"])
    qed
  qed
qed

text \<open>
  C34. \<^verbatim>\<open>inject-fault\<close> does what it says, or says that it did not. A fault type other than the three, or a missing pool, is
  refused before anything is read or written; a command that exits with 0 has written back the pool it read, under the same name and
  resource version, and the controller decodes the given fault from what was written; a command that fails reports no success.
\<close>

theorem injectFault_effect:
  fixes s :: "('s, 'p) cli_state"
  assumes "sets_health U setHealth" and "injectFault setHealth fl clientErr D pool fault s = (r, s')"
  shows "(pool = '''' \<or> fault \<notin> {''unhealthy'', ''capacity-exhausted'', ''disappear''} \<longrightarrow> exitCode (r, s') = 1 \<and> s' = s) \<and>
    (exitCode (r, s') = 0 \<longrightarrow> healthWritten U D (flNamespace fl) pool fault (csServer s) (csServer s') \<and> length (csOut s') = length (csOut s) + 1) \<and>
    (exitCode (r, s') = 1 \<longrightarrow> csOut s' = csOut s)"
proof (cases "pool = '''' \<or> fault \<notin> set faultTypes \<or> clientErr \<noteq> None")
  case True
  then obtain err where "(r, s') = (Inl err, s)"
    using assms(2) by (auto simp: injectFault_def withClient_def api_fail_def faultTypes_def split: if_splits)
  then show ?thesis by (simp add: exitCode_def)
next
  case False
  then have ok: "pool \<noteq> ''''" "fault \<in> {''unhealthy'', ''capacity-exhausted'', ''disappear''}" "fault \<noteq> ''''"
    by (auto simp: faultTypes_def)
  have "wpr (injectFault setHealth fl clientErr D pool fault)
      (\<lambda>_ s'. healthWritten U D (flNamespace fl) pool fault (csServer s) (csServer s') \<and> length (csOut s') = length (csOut s) + 1)
      (\<lambda>_ s'. csOut s' = csOut s) s"
  proof -
    have "(injectFault setHealth fl clientErr D pool fault :: (('s, 'p) cli_state, unit) api) =
        api_bind (setPoolHealth setHealth fl D pool fault) (\<lambda>_.
           cli_print (OutText (''Successfully injected fault '' @ goQuote fault @ '' into pool '' @ flNamespace fl @ ''/'' @ pool @ nl)))"
      using False ok by (simp add: injectFault_def withClient_def)
    then show ?thesis
      by (simp only:) (rule wpr_seq [OF setPoolHealth_wpr [OF assms(1) ok(3)]], auto simp: wpr_cli_print)
  qed
  from wprD [OF this assms(2)] ok show ?thesis by (cases r) (auto simp: exitCode_def)
qed

text \<open>A cluster with one pool, and the accessors and the setter on it.\<close>

definition cliObjects :: "unit object_api" where
  "cliObjects =
     \<lparr>nestedMap = (\<lambda>ob f. case map_of ob f of Some (AnyMap m) \<Rightarrow> (m, True) | _ \<Rightarrow> ([], False)),
      nestedString = (\<lambda>ob f. case map_of ob f of Some (AnyString v) \<Rightarrow> v | _ \<Rightarrow> ''''),
      nestedInt64 = (\<lambda>_ _. 0), nestedStringSlice = (\<lambda>_ _. []), setNestedMap = (\<lambda>ob m f. Inr (gomap_put f (AnyMap m) ob)),
      deepEqualObjects = (\<lambda>a b. a = b), parseQuantity = (\<lambda>v. Inr ())\<rparr>"

definition cliSetHealth :: "object \<Rightarrow> string \<Rightarrow> api_error + object" where
  "cliSetHealth ob h = Inr (gomap_put ''spec'' (AnyMap (gomap_put ''health'' (AnyString h) (fst (nestedMap cliObjects ob ''spec'')))) ob)"

definition cliPool :: cli_pool where
  "cliPool = \<lparr>uName = ''gpu'', uNamespace = ''default'', uUID = ''1'', uFinalizers = [], uDeletionTimestamp = None,
     uObject = [(''spec'', AnyMap [(''deviceCount'', AnyInt64 2)])], uResourceVersion = ''7''\<rparr>"

definition cliServer :: "cli_pool dynamic_api" where
  "cliServer =
     \<lparr>dynGet = (\<lambda>_ _ s. (Inr s, s)), dynCreate = (\<lambda>_ p _. (Inr (), p)), dynUpdate = (\<lambda>_ p _. (Inr (), p)),
      dynDelete = (\<lambda>_ _ s. (Inl (plainError ''forbidden''), s)), dynList = (\<lambda>_ s. (Inr [s], s))\<rparr>"

definition cliFlags :: cli_flags where
  "cliFlags = \<lparr>flNamespace = ''default'', flOutput = ''table'', flVersion = ''dev'', flCommit = ''unknown''\<rparr>"

definition cliStart :: "(cli_pool, unit) cli_state" where
  "cliStart = \<lparr>csServer = cliPool, csOut = []\<rparr>"

theorem injectFault_effect_witness:
  "healthWritten cliObjects cliServer ''default'' ''gpu'' ''disappear'' cliPool
     (csServer (snd (injectFault cliSetHealth cliFlags None cliServer ''gpu'' ''disappear'' cliStart)))"
proof -
  let ?run = "injectFault cliSetHealth cliFlags None cliServer ''gpu'' ''disappear'' cliStart"
  have law: "sets_health cliObjects cliSetHealth"
    by (auto simp: sets_health_def cliSetHealth_def cliObjects_def)
  have "exitCode ?run = 0"
    by (simp add: exitCode_def injectFault_def faultTypes_def withClient_def api_bind_def setPoolHealth_def api_wrap_def cli_call_def
        cliServer_def cliSetHealth_def cli_print_def api_modify_def)
  then show ?thesis
    using injectFault_effect [OF law, of cliFlags None cliServer "''gpu''" "''disappear''" cliStart "fst ?run" "snd ?run"]
    by (simp add: cliFlags_def cliStart_def)
qed

text \<open>\<^verbatim>\<open>scenario reset\<close> drops the errors of its deletions: it reports success and prints that all pools are gone while they are there.\<close>

lemma scenarioReset_ignores_errors:
  "exitCode (scenarioReset cliFlags None cliServer cliStart) = 0 \<and>
   last (csOut (snd (scenarioReset cliFlags None cliServer cliStart))) = OutText (''All SimulatedDevicePool scenarios reset.'' @ nl) \<and>
   csServer (snd (scenarioReset cliFlags None cliServer cliStart)) = cliPool"
  by (simp add: exitCode_def scenarioReset_def withClient_def api_bind_def cli_call_def cliServer_def cliStart_def cli_print_def api_modify_def
      api_try_def api_return_def)

end
