(* ===== verification/Event_Controller.thy ===== *)
theory Event_Controller
  imports API_Monad
begin

text \<open>
  The informer-driven controller, \<^verbatim>\<open>internal/simulator/event_controller.go\<close>, with the error policy of
  \<^verbatim>\<open>error_policy.go\<close> and the pipeline metrics of \<^verbatim>\<open>controller.go\<close>.

  The work queue is \<^verbatim>\<open>k8s.io/client-go/util/workqueue\<close>: a \<open>'w queue_api\<close> holds its operations, and
  \<open>queue_laws\<close> what its documentation says of the requeue counter. Two workers, one per pipeline, run
  beside the informers' event handlers: the step relation below interleaves them.
\<close>

section \<open>Error policy\<close>

definition maxControllerQueueRetries :: nat where
  "maxControllerQueueRetries = 8"

datatype controllerErrorDisposition = controllerErrorRetry | controllerErrorTerminal

definition isTerminalKubernetesError :: "api_error \<Rightarrow> bool" where
  "isTerminalKubernetesError err \<longleftrightarrow>
     isForbidden err \<or> isUnauthorized err \<or> isInvalid err \<or> isBadRequest err \<or> isNotFound err \<or>
     isMethodNotSupported err \<or> isRequestEntityTooLarge err"

definition classifyControllerError :: "api_error \<Rightarrow> nat \<Rightarrow> controllerErrorDisposition" where
  "classifyControllerError err requeues =
     (if isTerminalKubernetesError err \<or> requeues \<ge> maxControllerQueueRetries
      then controllerErrorTerminal else controllerErrorRetry)"

section \<open>State\<close>

datatype controllerPipeline = controllerPipelinePool | controllerPipelineAllocation

definition poolSyncKey :: string where "poolSyncKey = ''pool-sync''"

definition allocationSyncKey :: string where "allocationSyncKey = ''allocation-sync''"

definition syncKey :: "controllerPipeline \<Rightarrow> string" where
  "syncKey pipeline = (case pipeline of controllerPipelinePool \<Rightarrow> poolSyncKey | controllerPipelineAllocation \<Rightarrow> allocationSyncKey)"

record PipelineMetrics =
  Attempts :: int64
  DurationNanoseconds :: int64
  InFlight :: int64
  QueueDepth :: int64

record reconcilerMetrics =
  ReconcileErrorsCount :: int64
  ReconcileRetriesCount :: int64
  TerminalErrorsCount :: int64
  PoolMetrics :: PipelineMetrics
  AllocationMetrics :: PipelineMetrics

record 'w queue_api =
  wqAdd :: "string \<Rightarrow> 'w \<Rightarrow> 'w"
  wqLen :: "'w \<Rightarrow> nat"
  wqGet :: "'w \<Rightarrow> (string \<times> bool) \<times> 'w"
  wqDone :: "string \<Rightarrow> 'w \<Rightarrow> 'w"
  wqForget :: "string \<Rightarrow> 'w \<Rightarrow> 'w"
  wqNumRequeues :: "string \<Rightarrow> 'w \<Rightarrow> nat"
  wqAddRateLimited :: "string \<Rightarrow> 'w \<Rightarrow> 'w"
  wqShutDown :: "'w \<Rightarrow> 'w"

record 'w eventController =
  metrics :: reconcilerMetrics
  poolQueue :: 'w
  allocationQueue :: 'w
  synced :: bool

definition queueOf :: "controllerPipeline \<Rightarrow> 'w eventController \<Rightarrow> 'w" where
  "queueOf pipeline c =
     (case pipeline of controllerPipelinePool \<Rightarrow> poolQueue c | controllerPipelineAllocation \<Rightarrow> allocationQueue c)"

definition onQueue :: "controllerPipeline \<Rightarrow> ('w \<Rightarrow> 'w) \<Rightarrow> 'w eventController \<Rightarrow> 'w eventController" where
  "onQueue pipeline f c =
     (case pipeline of
        controllerPipelinePool \<Rightarrow> c\<lparr>poolQueue := f (poolQueue c)\<rparr>
      | controllerPipelineAllocation \<Rightarrow> c\<lparr>allocationQueue := f (allocationQueue c)\<rparr>)"

definition pipelineMetrics :: "controllerPipeline \<Rightarrow> reconcilerMetrics \<Rightarrow> PipelineMetrics" where
  "pipelineMetrics pipeline m =
     (if pipeline = controllerPipelineAllocation then AllocationMetrics m else PoolMetrics m)"

definition onPipelineMetrics ::
  "controllerPipeline \<Rightarrow> (PipelineMetrics \<Rightarrow> PipelineMetrics) \<Rightarrow> 'w eventController \<Rightarrow> 'w eventController" where
  "onPipelineMetrics pipeline f c =
     c\<lparr>metrics := (if pipeline = controllerPipelineAllocation
        then (metrics c)\<lparr>AllocationMetrics := f (AllocationMetrics (metrics c))\<rparr>
        else (metrics c)\<lparr>PoolMetrics := f (PoolMetrics (metrics c))\<rparr>)\<rparr>"

definition storeQueueDepth :: "'w queue_api \<Rightarrow> controllerPipeline \<Rightarrow> 'w eventController \<Rightarrow> 'w eventController" where
  "storeQueueDepth Q pipeline c =
     onPipelineMetrics pipeline (\<lambda>m. m\<lparr>QueueDepth := of_nat (wqLen Q (queueOf pipeline c))\<rparr>) c"

section \<open>Operations\<close>

definition enqueue :: "'w queue_api \<Rightarrow> controllerPipeline \<Rightarrow> string \<Rightarrow> 'w eventController \<Rightarrow> 'w eventController" where
  "enqueue Q pipeline key c = storeQueueDepth Q pipeline (onQueue pipeline (wqAdd Q key) c)"

definition shutDownQueues :: "'w queue_api \<Rightarrow> 'w eventController \<Rightarrow> 'w eventController" where
  "shutDownQueues Q c =
     c\<lparr>poolQueue := wqShutDown Q (poolQueue c), allocationQueue := wqShutDown Q (allocationQueue c),
       metrics := (metrics c)
         \<lparr>PoolMetrics := (PoolMetrics (metrics c))\<lparr>QueueDepth := 0\<rparr>,
          AllocationMetrics := (AllocationMetrics (metrics c))\<lparr>QueueDepth := 0\<rparr>\<rparr>\<rparr>"

text \<open>
  \<^verbatim>\<open>processQueueItem\<close> in its three parts: the counters before the synchronization, the disposition of its
  result, and the deferred function, which runs after every return.
\<close>

definition startItem :: "'w queue_api \<Rightarrow> controllerPipeline \<Rightarrow> 'w eventController \<Rightarrow> 'w eventController" where
  "startItem Q pipeline c =
     storeQueueDepth Q pipeline
       (onPipelineMetrics pipeline (\<lambda>m. m\<lparr>Attempts := Attempts m + 1, InFlight := InFlight m + 1\<rparr>) c)"

definition disposeItem ::
  "'w queue_api \<Rightarrow> bool \<Rightarrow> controllerPipeline \<Rightarrow> string \<Rightarrow> api_error option \<Rightarrow> 'w eventController \<Rightarrow> 'w eventController" where
  "disposeItem Q canceled pipeline key result c =
     (case result of
        None \<Rightarrow> onQueue pipeline (wqForget Q key) c
      | Some err \<Rightarrow>
          (if canceled then onQueue pipeline (wqForget Q key) c
           else let c1 = c\<lparr>metrics := (metrics c)\<lparr>ReconcileErrorsCount := ReconcileErrorsCount (metrics c) + 1\<rparr>\<rparr>;
                    requeues = wqNumRequeues Q key (queueOf pipeline c1)
           in if classifyControllerError err requeues = controllerErrorRetry
              then onQueue pipeline (wqAddRateLimited Q key)
                     (c1\<lparr>metrics := (metrics c1)\<lparr>ReconcileRetriesCount := ReconcileRetriesCount (metrics c1) + 1\<rparr>\<rparr>)
              else onQueue pipeline (wqForget Q key)
                     (c1\<lparr>metrics := (metrics c1)\<lparr>TerminalErrorsCount := TerminalErrorsCount (metrics c1) + 1\<rparr>\<rparr>)))"

definition deferredItem ::
  "'w queue_api \<Rightarrow> int64 \<Rightarrow> controllerPipeline \<Rightarrow> string \<Rightarrow> 'w eventController \<Rightarrow> 'w eventController" where
  "deferredItem Q elapsed pipeline key c =
     storeQueueDepth Q pipeline
       (onQueue pipeline (wqDone Q key)
         (onPipelineMetrics pipeline
           (\<lambda>m. m\<lparr>DurationNanoseconds := DurationNanoseconds m + elapsed, InFlight := InFlight m - 1\<rparr>) c))"

text \<open>
  \<open>syncFn\<close> is the synchronization, with whatever the event handlers do to the controller meanwhile;
  \<open>canceled\<close> says whether \<^verbatim>\<open>ctx.Err() != nil\<close> when it has returned.
\<close>

definition processQueueItem ::
  "'w queue_api \<Rightarrow> bool \<Rightarrow> int64 \<Rightarrow> controllerPipeline \<Rightarrow> string \<Rightarrow>
   ('w eventController \<Rightarrow> api_error option \<times> 'w eventController) \<Rightarrow> 'w eventController \<Rightarrow> 'w eventController" where
  "processQueueItem Q canceled elapsed pipeline key syncFn c =
     (case syncFn (startItem Q pipeline c) of
        (result, c') \<Rightarrow> deferredItem Q elapsed pipeline key (disposeItem Q canceled pipeline key result c'))"

section \<open>Event handlers\<close>

datatype informer = PoolInformer | NodeInformer | SliceInformer | ClaimInformer | ClassInformer

text \<open>
  The handlers \<^verbatim>\<open>newEventController\<close> registers, in its order, with the words of the error. An error of the
  n-th registration (\<open>registration n\<close>) shuts the queues down.
\<close>

definition handlers :: "(informer \<times> controllerPipeline \<times> string) list" where
  "handlers =
     [(PoolInformer, controllerPipelinePool, ''register SimulatedDevicePool event handler''),
      (NodeInformer, controllerPipelinePool, ''register Node event handler''),
      (SliceInformer, controllerPipelinePool, ''register ResourceSlice pool event handler''),
      (ClaimInformer, controllerPipelineAllocation, ''register ResourceClaim event handler''),
      (SliceInformer, controllerPipelineAllocation, ''register ResourceSlice allocation event handler''),
      (ClassInformer, controllerPipelineAllocation, ''register DeviceClass event handler'')]"

fun registerHandlers ::
  "(nat \<Rightarrow> api_error option) \<Rightarrow> nat \<Rightarrow> (informer \<times> controllerPipeline \<times> string) list \<Rightarrow> api_error option" where
  "registerHandlers registration n [] = None"
| "registerHandlers registration n ((source, pipeline, what) # rest) =
     (case registration n of
        Some err \<Rightarrow> Some (wrapError what err)
      | None \<Rightarrow> registerHandlers registration (Suc n) rest)"

definition newMetrics :: PipelineMetrics where
  "newMetrics = \<lparr>Attempts = 0, DurationNanoseconds = 0, InFlight = 0, QueueDepth = 0\<rparr>"

text \<open>The arguments say which of the reconciler and its two clients are set, and give the new queues.\<close>

definition newEventController ::
  "bool \<Rightarrow> bool \<Rightarrow> bool \<Rightarrow> (nat \<Rightarrow> api_error option) \<Rightarrow> reconcilerMetrics \<Rightarrow> 'w \<Rightarrow> 'w \<Rightarrow>
   api_error + 'w eventController" where
  "newEventController hasReconciler hasClientset hasDynamicClient registration m newPoolQueue newAllocationQueue =
     (if \<not> hasReconciler then Inl (plainError ''event controller requires a reconciler'')
      else if \<not> hasClientset then Inl (plainError ''event controller requires a Kubernetes client'')
      else if \<not> hasDynamicClient then Inl (plainError ''event controller requires a dynamic Kubernetes client'')
      else case registerHandlers registration 0 handlers of
             Some err \<Rightarrow> Inl err
           | None \<Rightarrow> Inr \<lparr>metrics = m, poolQueue = newPoolQueue, allocationQueue = newAllocationQueue, synced = False\<rparr>)"

section \<open>Running\<close>

text \<open>
  \<^verbatim>\<open>Run\<close> until the workers start: the caches have synchronized (\<open>cachesSynced\<close>), or the result is the
  context's error or one of its own.
\<close>

definition startRun ::
  "'w queue_api \<Rightarrow> bool \<Rightarrow> api_error option \<Rightarrow> 'w eventController \<Rightarrow> api_error option \<times> 'w eventController" where
  "startRun Q cachesSynced ctxErr c =
     (if \<not> cachesSynced
      then (case ctxErr of
              Some err \<Rightarrow> (Some err, shutDownQueues Q c)
            | None \<Rightarrow> (Some (plainError ''event controller informer caches did not sync''), shutDownQueues Q c))
      else (None, enqueue Q controllerPipelineAllocation allocationSyncKey
                    (enqueue Q controllerPipelinePool poolSyncKey (c\<lparr>synced := True\<rparr>))))"

text \<open>
  The goroutines of a run take turns at single operations on the queues and the counters. Beside the workers these are threads with a
  list of what they have still to do: \<^verbatim>\<open>Run\<close> itself, and one per event for every handler of the informer.
\<close>

datatype queue_action =
    CloseSynced
  | AddKey controllerPipeline string
  | LoadLen controllerPipeline
  | StoreDepth controllerPipeline nat
  | ShutDownQueue controllerPipeline

datatype thread_action = Act queue_action | StartWorker controllerPipeline | AwaitCancel

definition storeDepth :: "controllerPipeline \<Rightarrow> nat \<Rightarrow> 'w eventController \<Rightarrow> 'w eventController" where
  "storeDepth p n c = onPipelineMetrics p (\<lambda>m. m\<lparr>QueueDepth := of_nat n\<rparr>) c"

fun queue_act :: "'w queue_api \<Rightarrow> queue_action \<Rightarrow> 'w eventController \<Rightarrow> 'w eventController \<times> queue_action list" where
  "queue_act Q CloseSynced c = (c\<lparr>synced := True\<rparr>, [])"
| "queue_act Q (AddKey p key) c = (onQueue p (wqAdd Q key) c, [])"
| "queue_act Q (LoadLen p) c = (c, [StoreDepth p (wqLen Q (queueOf p c))])"
| "queue_act Q (StoreDepth p n) c = (storeDepth p n c, [])"
| "queue_act Q (ShutDownQueue p) c = (onQueue p (wqShutDown Q) c, [])"

definition enqueueActions :: "controllerPipeline \<Rightarrow> queue_action list" where
  "enqueueActions p = [AddKey p (syncKey p), LoadLen p]"

definition shutDownActions :: "queue_action list" where
  "shutDownActions =
     [ShutDownQueue controllerPipelinePool, ShutDownQueue controllerPipelineAllocation,
      StoreDepth controllerPipelinePool 0, StoreDepth controllerPipelineAllocation 0]"

text \<open>\<^verbatim>\<open>Run\<close> once the caches have synchronized.\<close>

definition runThread :: "thread_action list" where
  "runThread =
     map Act (CloseSynced # enqueueActions controllerPipelinePool @ enqueueActions controllerPipelineAllocation) @
     [StartWorker controllerPipelinePool, StartWorker controllerPipelineAllocation, AwaitCancel] @ map Act shutDownActions"

text \<open>An add, update or delete event of an informer runs its handlers, each in a goroutine of its own.\<close>

definition informerEvent :: "informer \<Rightarrow> thread_action list list" where
  "informerEvent source =
     map (\<lambda>(_, pipeline, _). map Act (enqueueActions pipeline)) (filter (\<lambda>(source', _). source' = source) handlers)"

text \<open>
  The program counter of \<^verbatim>\<open>runWorker\<close> and of the \<^verbatim>\<open>processQueueItem\<close> it calls. Each constructor but the first stands before one operation
  of the code; the argument is the key, with what has been read since.
\<close>

datatype worker_pc =
    NotStarted
  | Getting
  | CountingAttempt string
  | EnteringFlight string
  | ReadingDepth string
  | StoringDepth string nat
  | Synchronizing string
  | CheckingContext string api_error
  | CountingError string api_error
  | ReadingRequeues string api_error
  | CountingRetry string
  | Requeueing string
  | CountingTerminal string
  | Forgetting string
  | CountingDuration string
  | LeavingFlight string
  | MarkingDone string
  | ReadingLastDepth
  | StoringLastDepth nat

text \<open>
  One operation of a worker that has a key. \<open>ctxDone\<close> is \<^verbatim>\<open>ctx.Err() != nil\<close>; \<open>elapsed\<close> and \<open>result\<close> are what \<^verbatim>\<open>time.Since\<close> and
  \<^verbatim>\<open>syncFn\<close> return where they are called.
\<close>

fun worker_act ::
  "'w queue_api \<Rightarrow> bool \<Rightarrow> int64 \<Rightarrow> api_error option \<Rightarrow> controllerPipeline \<Rightarrow> worker_pc \<Rightarrow> 'w eventController \<Rightarrow>
   worker_pc \<times> 'w eventController" where
  "worker_act Q ctxDone elapsed result p (CountingAttempt key) c =
     (EnteringFlight key, onPipelineMetrics p (\<lambda>m. m\<lparr>Attempts := Attempts m + 1\<rparr>) c)"
| "worker_act Q ctxDone elapsed result p (EnteringFlight key) c =
     (ReadingDepth key, onPipelineMetrics p (\<lambda>m. m\<lparr>InFlight := InFlight m + 1\<rparr>) c)"
| "worker_act Q ctxDone elapsed result p (ReadingDepth key) c = (StoringDepth key (wqLen Q (queueOf p c)), c)"
| "worker_act Q ctxDone elapsed result p (StoringDepth key n) c = (Synchronizing key, storeDepth p n c)"
| "worker_act Q ctxDone elapsed result p (Synchronizing key) c =
     ((case result of None \<Rightarrow> Forgetting key | Some err \<Rightarrow> CheckingContext key err), c)"
| "worker_act Q ctxDone elapsed result p (CheckingContext key err) c =
     ((if ctxDone then Forgetting key else CountingError key err), c)"
| "worker_act Q ctxDone elapsed result p (CountingError key err) c =
     (ReadingRequeues key err, c\<lparr>metrics := (metrics c)\<lparr>ReconcileErrorsCount := ReconcileErrorsCount (metrics c) + 1\<rparr>\<rparr>)"
| "worker_act Q ctxDone elapsed result p (ReadingRequeues key err) c =
     ((if classifyControllerError err (wqNumRequeues Q key (queueOf p c)) = controllerErrorRetry
       then CountingRetry key else CountingTerminal key), c)"
| "worker_act Q ctxDone elapsed result p (CountingRetry key) c =
     (Requeueing key, c\<lparr>metrics := (metrics c)\<lparr>ReconcileRetriesCount := ReconcileRetriesCount (metrics c) + 1\<rparr>\<rparr>)"
| "worker_act Q ctxDone elapsed result p (Requeueing key) c = (CountingDuration key, onQueue p (wqAddRateLimited Q key) c)"
| "worker_act Q ctxDone elapsed result p (CountingTerminal key) c =
     (Forgetting key, c\<lparr>metrics := (metrics c)\<lparr>TerminalErrorsCount := TerminalErrorsCount (metrics c) + 1\<rparr>\<rparr>)"
| "worker_act Q ctxDone elapsed result p (Forgetting key) c = (CountingDuration key, onQueue p (wqForget Q key) c)"
| "worker_act Q ctxDone elapsed result p (CountingDuration key) c =
     (LeavingFlight key, onPipelineMetrics p (\<lambda>m. m\<lparr>DurationNanoseconds := DurationNanoseconds m + elapsed\<rparr>) c)"
| "worker_act Q ctxDone elapsed result p (LeavingFlight key) c =
     (MarkingDone key, onPipelineMetrics p (\<lambda>m. m\<lparr>InFlight := InFlight m - 1\<rparr>) c)"
| "worker_act Q ctxDone elapsed result p (MarkingDone key) c = (ReadingLastDepth, onQueue p (wqDone Q key) c)"
| "worker_act Q ctxDone elapsed result p ReadingLastDepth c = (StoringLastDepth (wqLen Q (queueOf p c)), c)"
| "worker_act Q ctxDone elapsed result p (StoringLastDepth n) c = (Getting, storeDepth p n c)"
| "worker_act Q ctxDone elapsed result p NotStarted c = (NotStarted, c)"
| "worker_act Q ctxDone elapsed result p Getting c = (Getting, c)"

record 'w running =
  ctl :: "'w eventController"
  workers :: "controllerPipeline \<Rightarrow> worker_pc"
  threads :: "thread_action list list"
  ctxDone :: bool

inductive controller_step :: "'w queue_api \<Rightarrow> 'w running \<Rightarrow> 'w running \<Rightarrow> bool" for Q where
  event: "controller_step Q s (s\<lparr>threads := threads s @ informerEvent source\<rparr>)"
| cancel: "controller_step Q s (s\<lparr>ctxDone := True\<rparr>)"
| act: "threads s = before @ (Act a # rest) # after \<Longrightarrow> queue_act Q a (ctl s) = (c', follow) \<Longrightarrow>
    controller_step Q s (s\<lparr>ctl := c', threads := before @ (map Act follow @ rest) # after\<rparr>)"
| start_worker: "threads s = before @ (StartWorker p # rest) # after \<Longrightarrow>
    controller_step Q s (s\<lparr>workers := (workers s)(p := Getting), threads := before @ rest # after\<rparr>)"
| canceled: "threads s = before @ (AwaitCancel # rest) # after \<Longrightarrow> ctxDone s \<Longrightarrow>
    controller_step Q s (s\<lparr>threads := before @ rest # after\<rparr>)"
| get: "workers s p = Getting \<Longrightarrow> wqGet Q (queueOf p (ctl s)) = ((key, False), q') \<Longrightarrow>
    controller_step Q s (s\<lparr>ctl := onQueue p (\<lambda>_. q') (ctl s), workers := (workers s)(p := CountingAttempt key)\<rparr>)"
| work: "workers s p \<notin> {NotStarted, Getting} \<Longrightarrow> worker_act Q (ctxDone s) elapsed result p (workers s p) (ctl s) = (pc', c') \<Longrightarrow>
    controller_step Q s (s\<lparr>ctl := c', workers := (workers s)(p := pc')\<rparr>)"

inductive_cases controller_stepE: "controller_step Q s s'"

definition runStart :: "'w eventController \<Rightarrow> 'w running" where
  "runStart c = \<lparr>ctl = c, workers = (\<lambda>_. NotStarted), threads = [runThread], ctxDone = False\<rparr>"

section \<open>The queue's contract\<close>

text \<open>
  \<^verbatim>\<open>NumRequeues\<close> counts the \<^verbatim>\<open>AddRateLimited\<close> calls for a key since it was last forgotten; nothing else
  changes it.
\<close>

definition queue_laws :: "'w queue_api \<Rightarrow> bool" where
  "queue_laws Q \<longleftrightarrow>
     (\<forall>k k' q. wqNumRequeues Q k (wqAdd Q k' q) = wqNumRequeues Q k q) \<and>
     (\<forall>k q. wqNumRequeues Q k (snd (wqGet Q q)) = wqNumRequeues Q k q) \<and>
     (\<forall>k k' q. wqNumRequeues Q k (wqDone Q k' q) = wqNumRequeues Q k q) \<and>
     (\<forall>k k' q. wqNumRequeues Q k (wqForget Q k' q) = (if k = k' then 0 else wqNumRequeues Q k q)) \<and>
     (\<forall>k k' q. wqNumRequeues Q k (wqAddRateLimited Q k' q) = (if k = k' then Suc (wqNumRequeues Q k q) else wqNumRequeues Q k q)) \<and>
     (\<forall>k q. wqNumRequeues Q k (wqShutDown Q q) = wqNumRequeues Q k q)"

lemma queue_lawsD:
  assumes "queue_laws Q"
  shows "wqNumRequeues Q k (wqAdd Q k' q) = wqNumRequeues Q k q"
    "wqGet Q q = (x, q') \<Longrightarrow> wqNumRequeues Q k q' = wqNumRequeues Q k q"
    "wqNumRequeues Q k (wqDone Q k' q) = wqNumRequeues Q k q"
    "wqNumRequeues Q k (wqForget Q k' q) = (if k = k' then 0 else wqNumRequeues Q k q)"
    "wqNumRequeues Q k (wqAddRateLimited Q k' q) = (if k = k' then Suc (wqNumRequeues Q k q) else wqNumRequeues Q k q)"
    "wqNumRequeues Q k (wqShutDown Q q) = wqNumRequeues Q k q"
  using assms by (auto simp: queue_laws_def) (metis snd_conv)

section \<open>What the operations leave alone\<close>

lemma queueOf_onQueue [simp]: "queueOf p (onQueue p' f c) = (if p = p' then f (queueOf p c) else queueOf p c)"
  by (cases p; cases p') (simp_all add: queueOf_def onQueue_def)

lemma metrics_onQueue [simp]: "metrics (onQueue p f c) = metrics c"
  by (cases p) (simp_all add: onQueue_def)

lemma queueOf_onPipelineMetrics [simp]: "queueOf p (onPipelineMetrics p' f c) = queueOf p c"
  by (cases p) (simp_all add: queueOf_def onPipelineMetrics_def)

lemma queueOf_metrics [simp]: "queueOf p (c\<lparr>metrics := m\<rparr>) = queueOf p c"
  by (cases p) (simp_all add: queueOf_def)

lemma pipelineMetrics_on [simp]:
  "pipelineMetrics p (metrics (onPipelineMetrics p' f c)) =
     (if p = p' then f (pipelineMetrics p (metrics c)) else pipelineMetrics p (metrics c))"
  by (cases p; cases p') (simp_all add: pipelineMetrics_def onPipelineMetrics_def)

lemma counters_onPipelineMetrics [simp]:
  "ReconcileErrorsCount (metrics (onPipelineMetrics p f c)) = ReconcileErrorsCount (metrics c)"
  "ReconcileRetriesCount (metrics (onPipelineMetrics p f c)) = ReconcileRetriesCount (metrics c)"
  "TerminalErrorsCount (metrics (onPipelineMetrics p f c)) = TerminalErrorsCount (metrics c)"
  by (simp_all add: onPipelineMetrics_def)

lemma pipelineMetrics_counters [simp]:
  "pipelineMetrics p (m\<lparr>ReconcileErrorsCount := a\<rparr>) = pipelineMetrics p m"
  "pipelineMetrics p (m\<lparr>ReconcileRetriesCount := a\<rparr>) = pipelineMetrics p m"
  "pipelineMetrics p (m\<lparr>TerminalErrorsCount := a\<rparr>) = pipelineMetrics p m"
  by (simp_all add: pipelineMetrics_def)

lemma onPipelineMetrics_comp: "onPipelineMetrics p f (onPipelineMetrics p g c) = onPipelineMetrics p (\<lambda>m. f (g m)) c"
  by (simp add: onPipelineMetrics_def)

lemmas operation_defs = enqueue_def startItem_def disposeItem_def deferredItem_def storeQueueDepth_def Let_def

lemma shutDownQueues_simps [simp]:
  "queueOf p (shutDownQueues Q c) = wqShutDown Q (queueOf p c)"
  "InFlight (pipelineMetrics p (metrics (shutDownQueues Q c))) = InFlight (pipelineMetrics p (metrics c))"
  "ReconcileErrorsCount (metrics (shutDownQueues Q c)) = ReconcileErrorsCount (metrics c)"
  "ReconcileRetriesCount (metrics (shutDownQueues Q c)) = ReconcileRetriesCount (metrics c)"
  "TerminalErrorsCount (metrics (shutDownQueues Q c)) = TerminalErrorsCount (metrics c)"
  by (cases p; simp add: shutDownQueues_def queueOf_def pipelineMetrics_def)+

section \<open>The functions and their operations\<close>

text \<open>Left alone, a worker that has a key does with the controller what \<^verbatim>\<open>processQueueItem\<close> says, and is back at \<^verbatim>\<open>Get\<close>.\<close>

lemma processQueueItem_operations:
  "\<exists>n. ((\<lambda>(pc, c). worker_act Q canceled elapsed result p pc c) ^^ n) (CountingAttempt key, c) =
     (Getting, processQueueItem Q canceled elapsed p key (\<lambda>c. (result, c)) c)"
proof -
  let ?act = "\<lambda>(pc, c). worker_act Q canceled elapsed result p pc c"
  have start: "(?act ^^ 4) (CountingAttempt key, c) = (Synchronizing key, startItem Q p c)"
    by (simp add: numeral_eq_Suc startItem_def storeQueueDepth_def storeDepth_def onPipelineMetrics_comp)
  have dispose: "\<exists>n. (?act ^^ n) (Synchronizing key, c) = (CountingDuration key, disposeItem Q canceled p key result c)" for c
  proof (cases result)
    case None
    then have "(?act ^^ 2) (Synchronizing key, c) = (CountingDuration key, disposeItem Q canceled p key result c)"
      by (simp add: numeral_eq_Suc disposeItem_def)
    then show ?thesis by blast
  next
    case (Some err)
    then have "(?act ^^ (if canceled then 3 else 6)) (Synchronizing key, c) = (CountingDuration key, disposeItem Q canceled p key result c)"
      by (simp add: numeral_eq_Suc disposeItem_def Let_def)
    then show ?thesis by blast
  qed
  have deferred: "(?act ^^ 5) (CountingDuration key, c) = (Getting, deferredItem Q elapsed p key c)" for c
    by (simp add: numeral_eq_Suc deferredItem_def storeQueueDepth_def storeDepth_def onPipelineMetrics_comp)
  from dispose obtain n where "(?act ^^ n) (Synchronizing key, startItem Q p c) =
    (CountingDuration key, disposeItem Q canceled p key result (startItem Q p c))" by blast
  with start deferred have "(?act ^^ (5 + (n + 4))) (CountingAttempt key, c) =
      (Getting, deferredItem Q elapsed p key (disposeItem Q canceled p key result (startItem Q p c)))"
    by (simp only: funpow_add o_apply)
  then show ?thesis by (auto simp: processQueueItem_def)
qed

text \<open>The threads' lists are \<^verbatim>\<open>enqueue\<close>, \<^verbatim>\<open>shutDownQueues\<close> and the beginning of \<^verbatim>\<open>Run\<close>.\<close>

fun runActions :: "'w queue_api \<Rightarrow> nat \<Rightarrow> queue_action list \<Rightarrow> 'w eventController \<Rightarrow> 'w eventController" where
  "runActions Q (Suc n) (a # rest) c = (case queue_act Q a c of (c', follow) \<Rightarrow> runActions Q n (follow @ rest) c')"
| "runActions Q _ _ c = c"

lemma thread_operations:
  "runActions Q 3 (enqueueActions p) c = enqueue Q p (syncKey p) c"
  "runActions Q 4 shutDownActions c = shutDownQueues Q c"
  "startRun Q True ctxErr c =
     (None, runActions Q 7 (CloseSynced # enqueueActions controllerPipelinePool @ enqueueActions controllerPipelineAllocation) c)"
  by (simp_all add: numeral_eq_Suc enqueueActions_def shutDownActions_def enqueue_def storeQueueDepth_def storeDepth_def
      shutDownQueues_def startRun_def syncKey_def onQueue_def onPipelineMetrics_def)

section \<open>The invariant of a run\<close>

text \<open>Between the two additions to the in-flight gauge, and between the count of an error and the count of what became of it.\<close>

fun inFlight :: "worker_pc \<Rightarrow> bool" where
  "inFlight NotStarted = False"
| "inFlight Getting = False"
| "inFlight (CountingAttempt _) = False"
| "inFlight (EnteringFlight _) = False"
| "inFlight (MarkingDone _) = False"
| "inFlight ReadingLastDepth = False"
| "inFlight (StoringLastDepth _) = False"
| "inFlight _ = True"

fun undecided :: "worker_pc \<Rightarrow> nat" where
  "undecided (ReadingRequeues _ _) = 1"
| "undecided (CountingRetry _) = 1"
| "undecided (CountingTerminal _) = 1"
| "undecided _ = 0"

fun retrying :: "worker_pc \<Rightarrow> string option" where
  "retrying (CountingRetry key) = Some key"
| "retrying (Requeueing key) = Some key"
| "retrying _ = None"

text \<open>
  A gauge \<open>InFlight\<close> says whether its worker is between the two additions, every counted error was retried or terminal or is still
  undecided, no key has more than the allowed requeues, and a key about to be requeued has fewer.
\<close>

definition workerInv :: "'w queue_api \<Rightarrow> 'w eventController \<Rightarrow> controllerPipeline \<Rightarrow> worker_pc \<Rightarrow> bool" where
  "workerInv Q c p pc \<longleftrightarrow>
     InFlight (pipelineMetrics p (metrics c)) = (if inFlight pc then 1 else 0) \<and>
     (\<forall>k. wqNumRequeues Q k (queueOf p c) \<le> maxControllerQueueRetries) \<and>
     (\<forall>k. retrying pc = Some k \<longrightarrow> wqNumRequeues Q k (queueOf p c) < maxControllerQueueRetries)"

definition openErrors :: "reconcilerMetrics \<Rightarrow> int64" where
  "openErrors m = ReconcileErrorsCount m - (ReconcileRetriesCount m + TerminalErrorsCount m)"

definition controllerInv :: "'w queue_api \<Rightarrow> 'w eventController \<Rightarrow> (controllerPipeline \<Rightarrow> worker_pc) \<Rightarrow> bool" where
  "controllerInv Q c ws \<longleftrightarrow>
     (\<forall>p. workerInv Q c p (ws p)) \<and>
     openErrors (metrics c) = of_nat (undecided (ws controllerPipelinePool)) + of_nat (undecided (ws controllerPipelineAllocation))"

lemma storeDepth_simps [simp]:
  "queueOf p (storeDepth p' n c) = queueOf p c"
  "queueOf p (c\<lparr>synced := b\<rparr>) = queueOf p c"
  "InFlight (pipelineMetrics p (metrics (storeDepth p' n c))) = InFlight (pipelineMetrics p (metrics c))"
  "openErrors (metrics (storeDepth p' n c)) = openErrors (metrics c)"
  by (simp_all add: storeDepth_def openErrors_def) (cases p; simp add: queueOf_def)

lemma openErrors_onPipelineMetrics [simp]: "openErrors (metrics (onPipelineMetrics p f c)) = openErrors (metrics c)"
  by (simp add: openErrors_def)

lemma queue_act_inv:
  assumes "queue_laws Q" and "controllerInv Q c ws" and "queue_act Q a c = (c', follow)"
  shows "controllerInv Q c' ws"
  using assms by (cases a) (auto simp: controllerInv_def workerInv_def queue_lawsD)

text \<open>An operation of a worker keeps its own part, leaves the other's alone, and counts what it decides.\<close>

lemma worker_act_own:
  assumes "queue_laws Q" and "workerInv Q c p pc" and "worker_act Q canceled elapsed result p pc c = (pc', c')"
  shows "workerInv Q c' p pc'"
  using assms by (cases pc) (auto simp: workerInv_def queue_lawsD classifyControllerError_def Suc_le_eq split: option.splits if_splits)

lemma worker_act_other:
  assumes "worker_act Q canceled elapsed result p pc c = (pc', c')" and "p' \<noteq> p"
  shows "workerInv Q c' p' w \<longleftrightarrow> workerInv Q c p' w"
  using assms by (cases pc) (auto simp: workerInv_def)

lemma worker_act_errors:
  assumes "worker_act Q canceled elapsed result p pc c = (pc', c')"
  shows "openErrors (metrics c') = openErrors (metrics c) + (of_nat (undecided pc') - of_nat (undecided pc))"
  using assms by (cases pc) (auto simp: openErrors_def storeDepth_def split: option.splits)

lemma worker_act_inv:
  assumes "queue_laws Q" and "controllerInv Q c ws" and "worker_act Q canceled elapsed result p (ws p) c = (pc', c')"
  shows "controllerInv Q c' (ws(p := pc'))"
proof -
  have "workerInv Q c' p' ((ws(p := pc')) p')" for p'
    using assms(2) worker_act_own [OF assms(1) _ assms(3)] worker_act_other [OF assms(3)]
    by (cases "p' = p") (auto simp: controllerInv_def)
  moreover have "openErrors (metrics c') =
    of_nat (undecided ((ws(p := pc')) controllerPipelinePool)) + of_nat (undecided ((ws(p := pc')) controllerPipelineAllocation))"
    using assms(2) worker_act_errors [OF assms(3)] by (cases p) (auto simp: controllerInv_def)
  ultimately show ?thesis by (simp add: controllerInv_def)
qed

lemma get_inv:
  assumes "queue_laws Q" and "controllerInv Q c ws" and "ws p = Getting" and "wqGet Q (queueOf p c) = (x, q')"
  shows "controllerInv Q (onQueue p (\<lambda>_. q') c) (ws(p := CountingAttempt key))"
  using assms queue_lawsD(2) [OF assms(1,4)] by (cases p) (auto simp: controllerInv_def workerInv_def)

lemma start_worker_inv:
  assumes "controllerInv Q c ws" and "ws p = NotStarted"
  shows "controllerInv Q c (ws(p := Getting))"
  using assms by (cases p) (auto simp: controllerInv_def workerInv_def)

text \<open>Each worker is started once.\<close>

definition startsOf :: "controllerPipeline \<Rightarrow> thread_action list list \<Rightarrow> nat" where
  "startsOf p ts = length (filter (\<lambda>a. a = StartWorker p) (concat ts))"

definition runInv :: "'w queue_api \<Rightarrow> 'w running \<Rightarrow> bool" where
  "runInv Q s \<longleftrightarrow> controllerInv Q (ctl s) (workers s) \<and>
     (\<forall>p. startsOf p (threads s) = (if workers s p = NotStarted then 1 else 0))"

lemma startsOf_events: "startsOf p (ts @ informerEvent source) = startsOf p ts"
  by (cases source) (simp_all add: startsOf_def informerEvent_def handlers_def enqueueActions_def)

lemma startsOf_act: "startsOf p (before @ (map Act follow @ rest) # after) = startsOf p (before @ (Act a # rest) # after)"
  by (auto simp: startsOf_def filter_empty_conv)

lemma worker_act_started: "worker_act Q canceled elapsed result p pc c = (pc', c') \<Longrightarrow> pc \<noteq> NotStarted \<Longrightarrow> pc' \<noteq> NotStarted"
  by (cases pc) (auto split: option.splits if_splits)

lemma controller_step_inv:
  assumes "controller_step Q s s'" and "queue_laws Q" and "runInv Q s"
  shows "runInv Q s'"
  using assms
proof cases
  case (start_worker before p rest after)
  then have "startsOf p (threads s) \<noteq> 0" by (simp add: startsOf_def)
  with assms(3) have fresh: "workers s p = NotStarted" by (auto simp: runInv_def split: if_splits)
  have "startsOf p' (before @ rest # after) = (if p' = p then startsOf p' (threads s) - 1 else startsOf p' (threads s))" for p'
    using start_worker by (auto simp: startsOf_def)
  with assms(3) start_worker(1) fresh show ?thesis by (auto simp: runInv_def start_worker_inv)
next
  case (canceled before rest after)
  then have "startsOf p (before @ rest # after) = startsOf p (threads s)" for p by (simp add: startsOf_def)
  with assms(3) canceled(1) show ?thesis by (simp add: runInv_def)
next
  case (act before a rest after c' follow)
  with assms(2,3) show ?thesis by (auto simp: runInv_def startsOf_act [of _ before follow rest after a] dest: queue_act_inv)
next
  case (get p key q')
  with assms(2,3) show ?thesis by (auto simp: runInv_def get_inv)
next
  case (work p elapsed result pc' c')
  have "pc' \<noteq> NotStarted" using worker_act_started [OF work(3)] work(2) by auto
  with work assms(2,3) show ?thesis by (auto simp: runInv_def worker_act_inv)
qed (use assms(3) in \<open>auto simp: runInv_def startsOf_events\<close>)

section \<open>Guarantees\<close>

definition exampleQueue :: "((string \<Rightarrow> nat) \<times> string list) queue_api" where
  "exampleQueue =
     \<lparr>wqAdd = (\<lambda>k (n, q). (n, if k \<in> set q then q else q @ [k])), wqLen = (\<lambda>(n, q). length q),
      wqGet = (\<lambda>(n, q). case q of [] \<Rightarrow> (('''', True), (n, q)) | k # q' \<Rightarrow> ((k, False), (n, q'))),
      wqDone = (\<lambda>k q. q), wqForget = (\<lambda>k (n, q). (n(k := 0), q)), wqNumRequeues = (\<lambda>k (n, q). n k),
      wqAddRateLimited = (\<lambda>k (n, q). (n(k := Suc (n k)), q @ [k])), wqShutDown = (\<lambda>q. q)\<rparr>"

lemma exampleQueue_laws: "queue_laws exampleQueue"
  by (auto simp: queue_laws_def exampleQueue_def split: list.splits)

definition zeroMetrics :: reconcilerMetrics where
  "zeroMetrics = \<lparr>ReconcileErrorsCount = 0, ReconcileRetriesCount = 0, TerminalErrorsCount = 0,
     PoolMetrics = newMetrics, AllocationMetrics = newMetrics\<rparr>"

text \<open>
  C14. In every state of a run, whatever events, results and cancellations come and in whatever order the two workers, the event
  handlers and \<^verbatim>\<open>Run\<close> perform their single operations on queues and counters: each pipeline's in-flight gauge is 1 exactly while its
  worker is between the addition and the subtraction; the error counter is ahead of the sum of the retry and the terminal counter by the
  number of workers that have counted an error and not yet its outcome, so it is equal to the sum whenever no worker is at that point; and
  no key has been requeued more than eight times since it was last forgotten.
\<close>

theorem controller_run_invariant:
  assumes "queue_laws Q"
    and "newEventController True True True registration zeroMetrics q1 q2 = Inr c"
    and "\<forall>k. wqNumRequeues Q k q1 = 0 \<and> wqNumRequeues Q k q2 = 0"
    and "(controller_step Q)\<^sup>*\<^sup>* (runStart c) s"
  shows "InFlight (pipelineMetrics p (metrics (ctl s))) = (if inFlight (workers s p) then 1 else 0) \<and>
    ReconcileErrorsCount (metrics (ctl s)) = ReconcileRetriesCount (metrics (ctl s)) + TerminalErrorsCount (metrics (ctl s)) +
      of_nat (undecided (workers s controllerPipelinePool) + undecided (workers s controllerPipelineAllocation)) \<and>
    wqNumRequeues Q k (queueOf p (ctl s)) \<le> 8"
proof -
  have c: "c = \<lparr>metrics = zeroMetrics, poolQueue = q1, allocationQueue = q2, synced = False\<rparr>"
    using assms(2) by (simp add: newEventController_def split: option.splits)
  have "startsOf p [runThread] = 1" for p
    by (cases p) (simp_all add: startsOf_def runThread_def enqueueActions_def shutDownActions_def)
  then have start: "runInv Q (runStart c)"
    using assms(3) by (auto simp: runInv_def runStart_def controllerInv_def workerInv_def openErrors_def c zeroMetrics_def
        pipelineMetrics_def newMetrics_def queueOf_def split: controllerPipeline.splits)
  from assms(4) have "runInv Q s"
    by (induction rule: rtranclp_induct) (simp_all add: start controller_step_inv [OF _ assms(1)])
  then show ?thesis
    by (auto simp: runInv_def controllerInv_def workerInv_def openErrors_def maxControllerQueueRetries_def algebra_simps)
qed

definition exampleController :: "((string \<Rightarrow> nat) \<times> string list) eventController" where
  "exampleController = \<lparr>metrics = zeroMetrics, poolQueue = (\<lambda>_. 0, []), allocationQueue = (\<lambda>_. 0, []), synced = False\<rparr>"

text \<open>The pool worker has counted an error of its first key; the retry is not counted yet.\<close>

definition threadTurn :: "'w queue_api \<Rightarrow> 'w running \<Rightarrow> 'w running" where
  "threadTurn Q s =
     (case threads s of
        (Act a # rest) # others \<Rightarrow>
          (case queue_act Q a (ctl s) of (c', follow) \<Rightarrow> s\<lparr>ctl := c', threads := (map Act follow @ rest) # others\<rparr>)
      | (StartWorker p # rest) # others \<Rightarrow> s\<lparr>workers := (workers s)(p := Getting), threads := rest # others\<rparr>
      | _ \<Rightarrow> s)"

definition workerTurn :: "'w queue_api \<Rightarrow> api_error option \<Rightarrow> controllerPipeline \<Rightarrow> 'w running \<Rightarrow> 'w running" where
  "workerTurn Q result p s =
     (case workers s p of
        NotStarted \<Rightarrow> s
      | Getting \<Rightarrow>
          (case wqGet Q (queueOf p (ctl s)) of
             ((key, False), q') \<Rightarrow> s\<lparr>ctl := onQueue p (\<lambda>_. q') (ctl s), workers := (workers s)(p := CountingAttempt key)\<rparr>
           | _ \<Rightarrow> s)
      | pc \<Rightarrow>
          (case worker_act Q (ctxDone s) 0 result p pc (ctl s) of (pc', c') \<Rightarrow> s\<lparr>ctl := c', workers := (workers s)(p := pc')\<rparr>))"

lemma threadTurn_step: "(controller_step Q)\<^sup>*\<^sup>* s (threadTurn Q s)"
  using controller_step.act [of s "[]"] controller_step.start_worker [of s "[]"]
  by (auto simp: threadTurn_def split: list.split thread_action.split prod.split intro!: r_into_rtranclp)

lemma workerTurn_step: "(controller_step Q)\<^sup>*\<^sup>* s (workerTurn Q result p s)"
  using controller_step.get [of s p Q] controller_step.work [of s p Q 0 result]
  by (cases "workers s p") (auto simp: workerTurn_def split: prod.split bool.split intro!: r_into_rtranclp)

lemma turns_step:
  assumes "\<And>s. (controller_step Q)\<^sup>*\<^sup>* s (f s)"
  shows "(controller_step Q)\<^sup>*\<^sup>* s ((f ^^ n) s)"
  by (induction n) (auto intro: rtranclp_trans assms)

definition failingRun :: "((string \<Rightarrow> nat) \<times> string list) running" where
  "failingRun =
     (workerTurn exampleQueue (Some (plainError ''timeout'')) controllerPipelinePool ^^ 8)
       ((threadTurn exampleQueue ^^ 8) (runStart exampleController))"

lemma failingRun_worker: "workers failingRun = (\<lambda>_. NotStarted)(controllerPipelinePool := ReadingRequeues poolSyncKey (plainError ''timeout''))"
  by (simp add: failingRun_def numeral_eq_Suc runStart_def runThread_def enqueueActions_def shutDownActions_def threadTurn_def workerTurn_def
      exampleQueue_def exampleController_def queueOf_def onQueue_def onPipelineMetrics_def storeDepth_def syncKey_def poolSyncKey_def)

theorem controller_run_invariant_witness:
  "InFlight (pipelineMetrics controllerPipelinePool (metrics (ctl failingRun))) = 1 \<and>
   ReconcileErrorsCount (metrics (ctl failingRun)) =
     ReconcileRetriesCount (metrics (ctl failingRun)) + TerminalErrorsCount (metrics (ctl failingRun)) + 1"
proof -
  have start: "newEventController True True True (\<lambda>_. None) zeroMetrics (\<lambda>_. 0, []) (\<lambda>_. 0, []) = Inr exampleController"
    by (simp add: newEventController_def handlers_def exampleController_def)
  have "\<forall>k. wqNumRequeues exampleQueue k (\<lambda>_. 0, []) = 0 \<and> wqNumRequeues exampleQueue k (\<lambda>_. 0, []) = 0"
    by (simp add: exampleQueue_def)
  moreover have "(controller_step exampleQueue)\<^sup>*\<^sup>* (runStart exampleController) failingRun"
    unfolding failingRun_def by (intro rtranclp_trans [OF turns_step turns_step]) (rule threadTurn_step workerTurn_step)+
  ultimately show ?thesis
    using controller_run_invariant [OF exampleQueue_laws start, of failingRun controllerPipelinePool "''''"]
    by (simp add: failingRun_worker)
qed

text \<open>One attempt that fails.\<close>

definition failedAttempt ::
  "'w queue_api \<Rightarrow> controllerPipeline \<Rightarrow> string \<Rightarrow> api_error \<Rightarrow> 'w eventController \<Rightarrow> 'w eventController" where
  "failedAttempt Q p key err c = processQueueItem Q False 0 p key (\<lambda>c. (Some err, c)) c"

lemma failedAttempt_requeues:
  assumes "queue_laws Q" and "\<not> isTerminalKubernetesError err"
  shows "wqNumRequeues Q key (queueOf p (failedAttempt Q p key err c)) =
      (if wqNumRequeues Q key (queueOf p c) < 8 then Suc (wqNumRequeues Q key (queueOf p c)) else 0)"
    and "ReconcileRetriesCount (metrics (failedAttempt Q p key err c)) =
      ReconcileRetriesCount (metrics c) + (if wqNumRequeues Q key (queueOf p c) < 8 then 1 else 0)"
    and "TerminalErrorsCount (metrics (failedAttempt Q p key err c)) =
      TerminalErrorsCount (metrics c) + (if wqNumRequeues Q key (queueOf p c) < 8 then 0 else 1)"
  using assms
  by (simp_all add: failedAttempt_def processQueueItem_def operation_defs queue_lawsD classifyControllerError_def
      maxControllerQueueRetries_def)

lemma failedAttempts_requeues:
  assumes "queue_laws Q" and "\<not> isTerminalKubernetesError err" and "wqNumRequeues Q key (queueOf p c) = 0" and "n \<le> 8"
  shows "wqNumRequeues Q key (queueOf p ((failedAttempt Q p key err ^^ n) c)) = n \<and>
    ReconcileRetriesCount (metrics ((failedAttempt Q p key err ^^ n) c)) = ReconcileRetriesCount (metrics c) + of_nat n \<and>
    TerminalErrorsCount (metrics ((failedAttempt Q p key err ^^ n) c)) = TerminalErrorsCount (metrics c)"
  using assms(4) by (induction n) (simp_all add: failedAttempt_requeues [OF assms(1,2)] assms(3))

text \<open>
  C24. Retries end: a key whose synchronization keeps failing with an error that is not terminal is requeued
  at the first eight failures and dropped at the ninth, which is counted as terminal and resets the requeue
  counter. An error that is terminal is dropped at once.
\<close>

theorem retries_end:
  assumes "queue_laws Q" and "wqNumRequeues Q key (queueOf p c) = 0"
  shows "(\<not> isTerminalKubernetesError err \<longrightarrow>
      (let c8 = (failedAttempt Q p key err ^^ 8) c; c9 = failedAttempt Q p key err c8
       in wqNumRequeues Q key (queueOf p c8) = 8 \<and>
          ReconcileRetriesCount (metrics c8) = ReconcileRetriesCount (metrics c) + 8 \<and>
          TerminalErrorsCount (metrics c8) = TerminalErrorsCount (metrics c) \<and>
          wqNumRequeues Q key (queueOf p c9) = 0 \<and>
          ReconcileRetriesCount (metrics c9) = ReconcileRetriesCount (metrics c) + 8 \<and>
          TerminalErrorsCount (metrics c9) = TerminalErrorsCount (metrics c) + 1)) \<and>
    (isTerminalKubernetesError err \<longrightarrow>
      wqNumRequeues Q key (queueOf p (failedAttempt Q p key err c)) = 0 \<and>
      ReconcileRetriesCount (metrics (failedAttempt Q p key err c)) = ReconcileRetriesCount (metrics c) \<and>
      TerminalErrorsCount (metrics (failedAttempt Q p key err c)) = TerminalErrorsCount (metrics c) + 1)"
proof (cases "isTerminalKubernetesError err")
  case True
  then show ?thesis
    using assms by (simp add: failedAttempt_def processQueueItem_def operation_defs queue_lawsD classifyControllerError_def)
next
  case False
  from failedAttempts_requeues [OF assms(1) False assms(2), of 8] False show ?thesis
    using failedAttempt_requeues [OF assms(1) False] by (simp add: Let_def)
qed

theorem retries_end_witness:
  "TerminalErrorsCount (metrics (failedAttempt exampleQueue controllerPipelinePool poolSyncKey (plainError ''timeout'')
     ((failedAttempt exampleQueue controllerPipelinePool poolSyncKey (plainError ''timeout'') ^^ 8) exampleController))) = 1"
proof -
  have "wqNumRequeues exampleQueue poolSyncKey (queueOf controllerPipelinePool exampleController) = 0"
    by (simp add: exampleQueue_def exampleController_def queueOf_def)
  moreover have "\<not> isTerminalKubernetesError (plainError ''timeout'')"
    by (simp add: isTerminalKubernetesError_def plainError_def)
  moreover have "TerminalErrorsCount (metrics exampleController) = 0"
    by (simp add: exampleController_def zeroMetrics_def)
  ultimately show ?thesis
    using retries_end [OF exampleQueue_laws, of poolSyncKey controllerPipelinePool exampleController "plainError ''timeout''"]
    by (simp add: Let_def)
qed

end
