(* ===== verification/Leader_Election.thy ===== *)
theory Leader_Election
  imports Prelude Step_System
begin

text \<open>
  The controller's single-active lifecycle, \<^verbatim>\<open>cmd/draforge-controller/leader_election.go\<close>: the options and
  their validation, the lifecycle without a lease, and the lifecycle under a lease as a step relation, since
  the elector runs the callback that starts the active controller in its own goroutine, possibly after
  \<^verbatim>\<open>Run\<close> has returned.

  Outside the repository are the name validation of \<^verbatim>\<open>k8s.io/apimachinery\<close> and the elector of
  \<^verbatim>\<open>client-go\<close>: the first two fields of \<open>election_api\<close> are the errors the validation returns, the third is
  \<^verbatim>\<open>time.Duration(leaderelection.JitterFactor*float64(d))\<close>. Durations are nanoseconds.
\<close>

section \<open>Options\<close>

record election_api =
  dns1123SubdomainErrors :: "string \<Rightarrow> string list"
  dns1123LabelErrors :: "string \<Rightarrow> string list"
  jittered :: "int \<Rightarrow> int"

record leaderElectionOptions =
  Enabled :: bool
  LeaseName :: string
  LeaseNamespace :: string
  Identity :: string
  LeaseDuration :: int
  RenewDeadline :: int
  RetryPeriod :: int

definition second :: int where "second = 1000000000"

definition defaultLeaderLeaseName :: string where "defaultLeaderLeaseName = ''draforge-controller''"
definition defaultLeaderLeaseNamespace :: string where "defaultLeaderLeaseNamespace = ''default''"
definition defaultLeaderLeaseDuration :: int where "defaultLeaderLeaseDuration = 15 * second"
definition defaultLeaderRenewDeadline :: int where "defaultLeaderRenewDeadline = 10 * second"
definition defaultLeaderRetryPeriod :: int where "defaultLeaderRetryPeriod = 2 * second"

datatype election_error =
    InvalidLeaseName string string
  | InvalidLeaseNamespace string string
  | EmptyIdentity
  | IdentityTooLong
  | LeaseDurationTooShort
  | RenewDeadlineNotPositive
  | RetryPeriodNotPositive
  | LeaseNotAboveRenew
  | RenewNotAboveRetry
  | ResolveIdentity string
  | NilActiveCallback
  | NilClientset

definition validate :: "election_api \<Rightarrow> leaderElectionOptions \<Rightarrow> election_error option" where
  "validate E options =
     (if \<not> Enabled options then None
      else case dns1123SubdomainErrors E (LeaseName options) of
        e # _ \<Rightarrow> Some (InvalidLeaseName (LeaseName options) e)
      | [] \<Rightarrow>
     (case dns1123LabelErrors E (LeaseNamespace options) of
        e # _ \<Rightarrow> Some (InvalidLeaseNamespace (LeaseNamespace options) e)
      | [] \<Rightarrow>
          if Identity options = '''' then Some EmptyIdentity
          else if length (Identity options) > 128 then Some IdentityTooLong
          else if LeaseDuration options < second then Some LeaseDurationTooShort
          else if RenewDeadline options \<le> 0 then Some RenewDeadlineNotPositive
          else if RetryPeriod options \<le> 0 then Some RetryPeriodNotPositive
          else if LeaseDuration options \<le> RenewDeadline options then Some LeaseNotAboveRenew
          else if RenewDeadline options \<le> jittered E (RetryPeriod options) then Some RenewNotAboveRetry
          else None))"

text \<open>The fields left at their zero value, from the environment and the defaults.\<close>

definition orDefault :: "'a \<Rightarrow> 'a \<Rightarrow> 'a \<Rightarrow> 'a" where
  "orDefault zero fallback x = (if x = zero then fallback else x)"

definition resolveIdentity :: "(string \<Rightarrow> string) \<Rightarrow> string + string \<Rightarrow> leaderElectionOptions \<Rightarrow> string + string" where
  "resolveIdentity getenv hostname options =
     (if Identity options \<noteq> '''' then Inr (Identity options)
      else if getenv ''POD_NAME'' \<noteq> '''' then Inr (getenv ''POD_NAME'')
      else hostname)"

definition defaultedOptions :: "(string \<Rightarrow> string) \<Rightarrow> string \<Rightarrow> leaderElectionOptions \<Rightarrow> leaderElectionOptions" where
  "defaultedOptions getenv ident options =
     options\<lparr>LeaseName := orDefault '''' defaultLeaderLeaseName (LeaseName options),
             LeaseNamespace := orDefault '''' (orDefault '''' defaultLeaderLeaseNamespace (getenv ''POD_NAMESPACE''))
               (LeaseNamespace options),
             Identity := ident,
             LeaseDuration := orDefault 0 defaultLeaderLeaseDuration (LeaseDuration options),
             RenewDeadline := orDefault 0 defaultLeaderRenewDeadline (RenewDeadline options),
             RetryPeriod := orDefault 0 defaultLeaderRetryPeriod (RetryPeriod options)\<rparr>"

definition resolveLeaderElectionOptions ::
  "election_api \<Rightarrow> (string \<Rightarrow> string) \<Rightarrow> string + string \<Rightarrow> leaderElectionOptions \<Rightarrow>
   election_error + leaderElectionOptions" where
  "resolveLeaderElectionOptions E getenv hostname options =
     (if \<not> Enabled options then Inr options
      else case resolveIdentity getenv hostname options of
        Inl err \<Rightarrow> Inl (ResolveIdentity err)
      | Inr ident \<Rightarrow>
          (case validate E (defaultedOptions getenv ident options) of
             Some err \<Rightarrow> Inl err
           | None \<Rightarrow> Inr (defaultedOptions getenv ident options)))"

section \<open>The end of the active controller\<close>

text \<open>An error with what \<^verbatim>\<open>errors.Is\<close> says about the context's errors.\<close>

record active_error =
  aeText :: string
  aeCanceled :: bool
  aeDeadline :: bool

definition stoppedUnexpectedly :: active_error where
  "stoppedUnexpectedly = \<lparr>aeText = ''active controller stopped unexpectedly'', aeCanceled = False, aeDeadline = False\<rparr>"

definition activeControllerError :: "active_error \<Rightarrow> active_error" where
  "activeControllerError err = err\<lparr>aeText := ''active controller: '' @ aeText err\<rparr>"

definition normalizeActiveControllerError :: "active_error option \<Rightarrow> bool \<Rightarrow> active_error option" where
  "normalizeActiveControllerError err ctxDone =
     (case err of
        None \<Rightarrow> None
      | Some e \<Rightarrow> if ctxDone \<and> (aeCanceled e \<or> aeDeadline e) then None else Some e)"

section \<open>Without a lease\<close>

text \<open>
  \<open>active\<close> is the result of the active controller and whether the context is done by then. The result has
  the error returned and the values given to \<^verbatim>\<open>SetLeader\<close>, in order.
\<close>

definition runSingleControllerLifecycle :: "active_error option \<Rightarrow> bool \<Rightarrow> active_error option \<times> bool list" where
  "runSingleControllerLifecycle active ctxDone =
     (case normalizeActiveControllerError active ctxDone of
        Some e \<Rightarrow> (Some (activeControllerError e), [True, False])
      | None \<Rightarrow> if \<not> ctxDone then (Some stoppedUnexpectedly, [True, False]) else (None, [True, False]))"

text \<open>Which of the two lifecycles runs, if any.\<close>

datatype lifecycle = SingleLifecycle | LeaseLifecycle

definition runControllerLifecycle ::
  "election_api \<Rightarrow> bool \<Rightarrow> bool \<Rightarrow> leaderElectionOptions \<Rightarrow> election_error + lifecycle" where
  "runControllerLifecycle E hasClientset hasActive options =
     (case validate E options of
        Some err \<Rightarrow> Inl err
      | None \<Rightarrow>
          (if \<not> hasActive then Inl NilActiveCallback
           else if \<not> Enabled options then Inr SingleLifecycle
           else if \<not> hasClientset then Inl NilClientset
           else Inr LeaseLifecycle))"

section \<open>Under a lease\<close>

datatype main_pc = Electing | RunReturned | AwaitingActive | Returned "active_error option"

text \<open>
  The shared variable \<^verbatim>\<open>state\<close>, the leader gauge, the buffered channel \<^verbatim>\<open>activeDone\<close>, the program counter of
  \<^verbatim>\<open>runLeaseControllerLifecycle\<close>, how many callbacks have not started yet, how many are in the active
  controller, and whether \<^verbatim>\<open>cancelRun\<close> was called.
\<close>

record lease_state =
  lsState :: int
  lsLeader :: bool
  lsActiveDone :: "active_error option option"
  lsMain :: main_pc
  lsPending :: nat
  lsActive :: nat
  lsCanceled :: bool

definition leaseStart :: lease_state where
  "leaseStart = \<lparr>lsState = 0, lsLeader = False, lsActiveDone = None, lsMain = Electing, lsPending = 0, lsActive = 0, lsCanceled = False\<rparr>"

text \<open>What \<^verbatim>\<open>runActiveLeader\<close> does before and after the active controller.\<close>

definition activeLeaderStart :: "lease_state \<Rightarrow> lease_state" where
  "activeLeaderStart s =
     (if lsState s = 0 then s\<lparr>lsState := 1, lsLeader := True, lsPending := lsPending s - 1, lsActive := Suc (lsActive s)\<rparr>
      else s\<lparr>lsPending := lsPending s - 1\<rparr>)"

definition activeLeaderResult :: "active_error option \<Rightarrow> bool \<Rightarrow> active_error option" where
  "activeLeaderResult err ctxDone =
     (let activeErr = normalizeActiveControllerError err ctxDone
      in if activeErr = None \<and> \<not> ctxDone then Some stoppedUnexpectedly else activeErr)"

definition activeLeaderEnd :: "active_error option \<Rightarrow> bool \<Rightarrow> lease_state \<Rightarrow> lease_state" where
  "activeLeaderEnd err ctxDone s =
     s\<lparr>lsLeader := False, lsState := 2, lsActiveDone := Some (activeLeaderResult err ctxDone),
       lsActive := lsActive s - 1, lsCanceled := True\<rparr>"

text \<open>
  The elector may start a callback while it runs (\<open>spawn\<close>); the callback begins at any later time. \<^verbatim>\<open>Run\<close>
  returns when the lease is lost or the context is done. A send on the full channel would block.
\<close>

inductive lease_step :: "lease_state \<Rightarrow> lease_state \<Rightarrow> bool" where
  spawn: "lsMain s = Electing \<Longrightarrow> lease_step s (s\<lparr>lsPending := Suc (lsPending s)\<rparr>)"
| begin_active: "lsPending s > 0 \<Longrightarrow> lease_step s (activeLeaderStart s)"
| end_active: "lsActive s > 0 \<Longrightarrow> lsActiveDone s = None \<Longrightarrow> lease_step s (activeLeaderEnd err ctxDone s)"
| run_returns: "lsMain s = Electing \<Longrightarrow> lease_step s (s\<lparr>lsMain := RunReturned\<rparr>)"
| compare_swap: "lsMain s = RunReturned \<Longrightarrow>
    lease_step s (if lsState s = 0 then s\<lparr>lsState := 2, lsMain := Returned None\<rparr> else s\<lparr>lsMain := AwaitingActive\<rparr>)"
| receive: "lsMain s = AwaitingActive \<Longrightarrow> lsActiveDone s = Some result \<Longrightarrow>
    lease_step s (s\<lparr>lsActiveDone := None, lsMain := Returned (map_option activeControllerError result)\<rparr>)"

inductive_cases lease_stepE: "lease_step s s'"

text \<open>
  How the lock and the elector are built before \<^verbatim>\<open>elector.Run\<close>: the lock by its names, the periods from the options. The lease is not
  released when the context ends, so another replica waits for it to expire. \<open>resourcelock_New\<close> and \<open>NewLeaderElector\<close> are the constructors
  of \<^verbatim>\<open>client-go\<close>; the callbacks are the steps above and two log lines.
\<close>

record 'lock elector_config =
  ecLock :: 'lock
  ecLeaseDuration :: int
  ecRenewDeadline :: int
  ecRetryPeriod :: int
  ecReleaseOnCancel :: bool
  ecName :: string

definition newLeaseLock :: "(string \<Rightarrow> string \<Rightarrow> string \<Rightarrow> string + 'lock) \<Rightarrow> leaderElectionOptions \<Rightarrow> string + 'lock" where
  "newLeaseLock resourcelock_New options =
     (case resourcelock_New (LeaseNamespace options) (LeaseName options) (Identity options) of
        Inl err \<Rightarrow> Inl (''create leader-election lease lock: '' @ err)
      | Inr lock \<Rightarrow> Inr lock)"

definition newControllerLeaderElector ::
  "('lock elector_config \<Rightarrow> string + 'elector) \<Rightarrow> 'lock \<Rightarrow> leaderElectionOptions \<Rightarrow> string + 'elector" where
  "newControllerLeaderElector NewLeaderElector lock options =
     (case NewLeaderElector
        \<lparr>ecLock = lock, ecLeaseDuration = LeaseDuration options, ecRenewDeadline = RenewDeadline options,
         ecRetryPeriod = RetryPeriod options, ecReleaseOnCancel = False, ecName = LeaseName options\<rparr> of
        Inl err \<Rightarrow> Inl (''create leader elector: '' @ err)
      | Inr elector \<Rightarrow> Inr elector)"

definition buildElector ::
  "(string \<Rightarrow> string \<Rightarrow> string \<Rightarrow> string + 'lock) \<Rightarrow> ('lock elector_config \<Rightarrow> string + 'elector) \<Rightarrow> leaderElectionOptions \<Rightarrow> string + 'elector" where
  "buildElector resourcelock_New NewLeaderElector options =
     (case newLeaseLock resourcelock_New options of
        Inl err \<Rightarrow> Inl err
      | Inr lock \<Rightarrow> newControllerLeaderElector NewLeaderElector lock options)"

text \<open>
  \<^verbatim>\<open>NewLeaderElector\<close> refuses a configuration only for its periods or a lock without an identity. \<^verbatim>\<open>validate\<close> checks the same, so with
  valid options and a lock that bears the identity it was given, the lifecycle reaches \<^verbatim>\<open>elector.Run\<close>.
\<close>

lemma validate_elector:
  assumes valid: "validate E options = None" "Enabled options"
    and lock: "resourcelock_New (LeaseNamespace options) (LeaseName options) (Identity options) = Inr lock" "lockIdentity lock = Identity options"
    and elector: "\<And>c. ecRenewDeadline c < ecLeaseDuration c \<Longrightarrow> jittered E (ecRetryPeriod c) < ecRenewDeadline c \<Longrightarrow>
      0 < ecRetryPeriod c \<Longrightarrow> 0 < ecRenewDeadline c \<Longrightarrow> 0 < ecLeaseDuration c \<Longrightarrow> lockIdentity (ecLock c) \<noteq> '''' \<Longrightarrow>
      \<exists>e. NewLeaderElector c = Inr e"
  shows "\<exists>e. buildElector resourcelock_New NewLeaderElector options = Inr e"
proof -
  have "dns1123SubdomainErrors E (LeaseName options) = []" "dns1123LabelErrors E (LeaseNamespace options) = []"
    using valid by (auto simp: validate_def split: list.splits)
  with valid have "RenewDeadline options < LeaseDuration options" "jittered E (RetryPeriod options) < RenewDeadline options"
    "0 < RetryPeriod options" "0 < RenewDeadline options" "0 < LeaseDuration options" "Identity options \<noteq> ''''"
    by (auto simp: validate_def second_def split: if_splits)
  with elector [of "\<lparr>ecLock = lock, ecLeaseDuration = LeaseDuration options, ecRenewDeadline = RenewDeadline options,
      ecRetryPeriod = RetryPeriod options, ecReleaseOnCancel = False, ecName = LeaseName options\<rparr>"] lock
  show ?thesis by (auto simp: buildElector_def newLeaseLock_def newControllerLeaderElector_def)
qed

section \<open>The invariant of the lease lifecycle\<close>

definition leaseInv :: "lease_state \<Rightarrow> bool" where
  "leaseInv s \<longleftrightarrow>
     lsState s \<in> {0, 1, 2} \<and>
     (lsState s = 1 \<longleftrightarrow> lsActive s = 1) \<and> lsActive s \<le> 1 \<and>
     (lsLeader s \<longleftrightarrow> lsActive s = 1) \<and>
     (lsState s \<noteq> 2 \<longrightarrow> lsActiveDone s = None) \<and>
     (case lsMain s of
        Returned _ \<Rightarrow> lsState s = 2 \<and> lsActive s = 0
      | AwaitingActive \<Rightarrow> lsState s \<noteq> 0 \<and> (lsState s = 2 \<longrightarrow> lsActiveDone s \<noteq> None)
      | _ \<Rightarrow> lsState s = 2 \<longrightarrow> lsActiveDone s \<noteq> None)"

lemma leaseInv_start: "leaseInv leaseStart"
  by (simp add: leaseInv_def leaseStart_def)

lemma lease_step_inv: "lease_step s s' \<Longrightarrow> leaseInv s \<Longrightarrow> leaseInv s'"
  by (induction rule: lease_step.induct)
    (auto simp: leaseInv_def activeLeaderStart_def activeLeaderEnd_def split: main_pc.splits)

interpretation lease: step_system lease_step leaseStart leaseInv
  by unfold_locales (rule leaseInv_start, rule lease_step_inv)

lemma lease_step_returned: "lease_step l l' \<Longrightarrow> lsMain l = Returned r \<Longrightarrow> lsMain l' = Returned r"
  by (auto elim!: lease_stepE simp: activeLeaderStart_def activeLeaderEnd_def)

text \<open>
  C15. At most one active controller: in every interleaving of the election, the callbacks it starts and the
  lifecycle function, never more than one callback runs the active controller, the leader gauge is set
  exactly while it runs, and once the lifecycle has returned no active controller runs, now or in any later
  step, however late a callback starts.
\<close>

theorem lease_single_active:
  assumes "lease_step\<^sup>*\<^sup>* leaseStart s"
  shows "lsActive s \<le> 1 \<and> (lsLeader s \<longleftrightarrow> lsActive s = 1) \<and>
    (\<forall>result s'. lsMain s = Returned result \<longrightarrow> lease_step\<^sup>*\<^sup>* s s' \<longrightarrow> lsActive s' = 0 \<and> \<not> lsLeader s')"
proof -
  have "lsActive s' = 0 \<and> \<not> lsLeader s'" if "lsMain s = Returned result" and "lease_step\<^sup>*\<^sup>* s s'" for result s'
    using lease.run_stays [OF assms that(2), of "\<lambda>t. lsMain t = Returned result"] that(1) lease_step_returned
    by (auto simp: leaseInv_def)
  then show ?thesis using lease.run_invariant [OF assms] by (auto simp: leaseInv_def)
qed

text \<open>A run in which the callback starts only after \<^verbatim>\<open>Run\<close> has returned.\<close>

definition lateCallback :: lease_state where
  "lateCallback = \<lparr>lsState = 2, lsLeader = False, lsActiveDone = None, lsMain = Returned None, lsPending = 1, lsActive = 0, lsCanceled = False\<rparr>"

lemma lateCallback_reached: "lease_step\<^sup>*\<^sup>* leaseStart lateCallback"
proof -
  let ?s1 = "leaseStart\<lparr>lsPending := 1\<rparr>"
  have "lease_step leaseStart ?s1"
    using lease_step.spawn [of leaseStart] by (simp add: leaseStart_def)
  moreover have "lease_step ?s1 (?s1\<lparr>lsMain := RunReturned\<rparr>)"
    by (rule lease_step.run_returns) (simp add: leaseStart_def)
  moreover have "lease_step (?s1\<lparr>lsMain := RunReturned\<rparr>) lateCallback"
    using lease_step.compare_swap [of "?s1\<lparr>lsMain := RunReturned\<rparr>"] by (simp add: leaseStart_def lateCallback_def)
  ultimately show ?thesis by (meson converse_rtranclp_into_rtranclp rtranclp.rtrancl_refl)
qed

theorem lease_single_active_witness: "lsActive (activeLeaderStart lateCallback) = 0"
proof -
  have "lease_step\<^sup>*\<^sup>* lateCallback (activeLeaderStart lateCallback)"
    by (rule r_into_rtranclp, rule lease_step.begin_active) (simp add: lateCallback_def)
  moreover have "lsMain lateCallback = Returned None" by (simp add: lateCallback_def)
  ultimately show ?thesis using lease_single_active [OF lateCallback_reached] by blast
qed

text \<open>
  C25. The lifecycle does not hang on its own: in every reachable state where \<^verbatim>\<open>Run\<close> has returned and the
  lifecycle has not, either its next statement can be executed, or the active controller is still running
  and its end, which is possible at once, makes that so.
\<close>

theorem lease_progress:
  assumes "lease_step\<^sup>*\<^sup>* leaseStart s" and "lsMain s = RunReturned \<or> lsMain s = AwaitingActive"
  shows "(\<exists>s'. lease_step s s' \<and> lsMain s' \<noteq> lsMain s) \<or>
    (lsActive s = 1 \<and> (\<forall>err ctxDone. lease_step s (activeLeaderEnd err ctxDone s) \<and>
       (\<exists>s' result. lease_step (activeLeaderEnd err ctxDone s) s' \<and> lsMain s' = Returned result)))"
proof (cases "lsMain s = RunReturned")
  case True
  then have "lease_step s (if lsState s = 0 then s\<lparr>lsState := 2, lsMain := Returned None\<rparr> else s\<lparr>lsMain := AwaitingActive\<rparr>)"
    by (rule lease_step.compare_swap)
  then show ?thesis using True by (intro disjI1 exI conjI) (auto split: if_splits)
next
  case False
  then have waiting: "lsMain s = AwaitingActive" using assms(2) by simp
  have inv: "leaseInv s" by (rule lease.run_invariant [OF assms(1)])
  show ?thesis
  proof (cases "lsActiveDone s")
    case (Some result)
    have "lease_step s (s\<lparr>lsActiveDone := None, lsMain := Returned (map_option activeControllerError result)\<rparr>)"
      using waiting Some by (rule lease_step.receive)
    then show ?thesis using waiting by (intro disjI1 exI conjI) auto
  next
    case None
    then have active: "lsActive s = 1" using inv waiting by (auto simp: leaseInv_def)
    have "lease_step s (activeLeaderEnd err ctxDone s)" for err ctxDone
      using active None by (intro lease_step.end_active) auto
    moreover have "\<exists>s' result. lease_step (activeLeaderEnd err ctxDone s) s' \<and> lsMain s' = Returned result" for err ctxDone
      using lease_step.receive [of "activeLeaderEnd err ctxDone s" "activeLeaderResult err ctxDone"] waiting
      by (fastforce simp: activeLeaderEnd_def)
    ultimately show ?thesis using active by blast
  qed
qed

theorem lease_progress_witness:
  "\<exists>s'. lease_step (leaseStart\<lparr>lsMain := RunReturned\<rparr>) s' \<and> lsMain s' \<noteq> RunReturned"
proof -
  have "lease_step\<^sup>*\<^sup>* leaseStart (leaseStart\<lparr>lsMain := RunReturned\<rparr>)"
    by (rule r_into_rtranclp, rule lease_step.run_returns) (simp add: leaseStart_def)
  from lease_progress [OF this] show ?thesis by (auto simp: leaseStart_def)
qed

section \<open>Resolved options\<close>

text \<open>
  Options that resolve are valid, and resolving them again changes nothing, whatever the environment and
  the host name are by then.
\<close>

theorem resolveLeaderElectionOptions_stable:
  assumes "resolveLeaderElectionOptions E getenv hostname options = Inr resolved"
  shows "validate E resolved = None \<and> resolveLeaderElectionOptions E getenv' hostname' resolved = Inr resolved"
proof (cases "Enabled options")
  case False
  then show ?thesis using assms by (auto simp: resolveLeaderElectionOptions_def validate_def)
next
  case True
  then obtain ident where resolved: "resolved = defaultedOptions getenv ident options" and valid: "validate E resolved = None"
    using assms by (auto simp: resolveLeaderElectionOptions_def split: sum.splits option.splits)
  have enabled: "Enabled resolved" and names: "LeaseName resolved \<noteq> ''''" "LeaseNamespace resolved \<noteq> ''''"
    using True by (auto simp: resolved defaultedOptions_def orDefault_def defaultLeaderLeaseName_def defaultLeaderLeaseNamespace_def)
  have fields: "Identity resolved \<noteq> ''''" "LeaseDuration resolved \<noteq> 0" "RenewDeadline resolved \<noteq> 0" "RetryPeriod resolved \<noteq> 0"
    using enabled valid by (auto simp: validate_def second_def split: if_splits list.splits)
  have "resolveLeaderElectionOptions E getenv' hostname' resolved = Inr resolved"
    using enabled valid names fields by (simp add: resolveLeaderElectionOptions_def resolveIdentity_def defaultedOptions_def orDefault_def)
  with valid show ?thesis ..
qed

definition exampleElection :: election_api where
  "exampleElection = \<lparr>dns1123SubdomainErrors = (\<lambda>_. []), dns1123LabelErrors = (\<lambda>_. []), jittered = (\<lambda>d. d * 12 div 10)\<rparr>"

definition noOptions :: leaderElectionOptions where
  "noOptions = \<lparr>Enabled = True, LeaseName = '''', LeaseNamespace = '''', Identity = '''', LeaseDuration = 0, RenewDeadline = 0, RetryPeriod = 0\<rparr>"

theorem resolveLeaderElectionOptions_stable_witness:
  "validate exampleElection \<lparr>Enabled = True, LeaseName = ''draforge-controller'', LeaseNamespace = ''default'', Identity = ''host'',
     LeaseDuration = 15000000000, RenewDeadline = 10000000000, RetryPeriod = 2000000000\<rparr> = None"
  by (rule conjunct1 [OF resolveLeaderElectionOptions_stable
        [of exampleElection "\<lambda>_. ''''" "Inr ''host''" noOptions _ "\<lambda>_. ''''" "Inr ''host''"]])
    (simp add: resolveLeaderElectionOptions_def resolveIdentity_def defaultedOptions_def orDefault_def noOptions_def validate_def exampleElection_def second_def
      defaultLeaderLeaseName_def defaultLeaderLeaseNamespace_def defaultLeaderLeaseDuration_def
      defaultLeaderRenewDeadline_def defaultLeaderRetryPeriod_def)

end
