(* ===== verification/Controller_Process.thy ===== *)
theory Controller_Process
  imports Event_Controller Leader_Election Server
begin

text \<open>
  The controller process, \<^verbatim>\<open>cmd/draforge-controller/main.go\<close> and \<^verbatim>\<open>runtime.go\<close>, the part of the reconciler it creates and closes
  (\<^verbatim>\<open>internal/simulator/controller.go\<close>), and the choice of the client configuration (\<^verbatim>\<open>internal/cluster/client.go\<close>). The process is
  a step relation: signals, the end of the runtime server and the steps of the leader-election lifecycle happen in any order beside
  \<^verbatim>\<open>main\<close>. Parsing the flags is the standard library's.
\<close>

section \<open>Cluster clients\<close>

text \<open>
  What the code calls outside the repository: the configuration inside a cluster, the home directory (a clean path), \<^verbatim>\<open>os.Stat\<close> with what
  \<^verbatim>\<open>os.IsNotExist\<close> says about its error, the configuration from a file, and the two constructors of clients.
\<close>

record ('cfg, 'ts, 'dyn) client_api =
  inClusterConfig :: "api_error + 'cfg"
  homeDir :: string
  os_Stat :: "string \<Rightarrow> (api_error \<times> bool) option"
  buildConfigFromFlags :: "string \<Rightarrow> api_error + 'cfg"
  newTypedClient :: "'cfg \<Rightarrow> api_error + 'ts"
  newDynamicClient :: "'cfg \<Rightarrow> api_error + 'dyn"

definition kubeconfigFile :: "('cfg, 'ts, 'dyn) client_api \<Rightarrow> string \<Rightarrow> string" where
  "kubeconfigFile K kubeconfigPath =
     (if kubeconfigPath = '''' \<and> homeDir K \<noteq> ''''
      then (if last (homeDir K) = CHR ''/'' then homeDir K else homeDir K @ ''/'') @ ''.kube/config'' else kubeconfigPath)"

definition GetConfig :: "('cfg, 'ts, 'dyn) client_api \<Rightarrow> string \<Rightarrow> api_error + 'cfg" where
  "GetConfig K kubeconfigPath =
     (case inClusterConfig K of
        Inr config \<Rightarrow> Inr config
      | Inl _ \<Rightarrow>
          (let path = kubeconfigFile K kubeconfigPath
           in case os_Stat K path of
                Some (err, True) \<Rightarrow> Inl err
              | _ \<Rightarrow> buildConfigFromFlags K path))"

definition NewClientset :: "('cfg, 'ts, 'dyn) client_api \<Rightarrow> string \<Rightarrow> api_error + 'ts \<times> 'dyn \<times> 'cfg" where
  "NewClientset K kubeconfigPath =
     (case GetConfig K kubeconfigPath of
        Inl err \<Rightarrow> Inl err
      | Inr config \<Rightarrow>
          (case newTypedClient K config of
             Inl err \<Rightarrow> Inl err
           | Inr clientset \<Rightarrow>
               (case newDynamicClient K config of
                  Inl err \<Rightarrow> Inl err
                | Inr dynamicClient \<Rightarrow> Inr (clientset, dynamicClient, config))))"

text \<open>Both clients come from one configuration: inside a cluster from that of the cluster, whatever path is given.\<close>

lemma NewClientset_config:
  assumes "NewClientset K kubeconfigPath = Inr (clientset, dynamicClient, config)"
  shows "newTypedClient K config = Inr clientset \<and> newDynamicClient K config = Inr dynamicClient \<and>
    (case inClusterConfig K of Inr c \<Rightarrow> config = c | Inl _ \<Rightarrow> buildConfigFromFlags K (kubeconfigFile K kubeconfigPath) = Inr config)"
  using assms by (auto simp: NewClientset_def GetConfig_def Let_def split: sum.splits option.splits prod.splits bool.splits)

section \<open>The reconciler object\<close>

datatype event_recorder = SinkRecorder | FakeRecorder

record event_broadcaster =
  bcLogging :: bool
  bcRecording :: bool
  bcShutdowns :: nat

record reconciler_object =
  roRecorder :: event_recorder
  roBroadcaster :: event_broadcaster
  roCloseDone :: bool
  roLeader :: bool

definition newBroadcaster :: event_broadcaster where
  "newBroadcaster = \<lparr>bcLogging = False, bcRecording = False, bcShutdowns = 0\<rparr>"

definition newReconcilerWithBroadcaster :: "bool \<Rightarrow> event_broadcaster option \<Rightarrow> reconciler_object" where
  "newReconcilerWithBroadcaster hasClientset given =
     (let b = (case given of None \<Rightarrow> newBroadcaster | Some b \<Rightarrow> b)\<lparr>bcLogging := True\<rparr>
      in if hasClientset
         then \<lparr>roRecorder = SinkRecorder, roBroadcaster = b\<lparr>bcRecording := True\<rparr>, roCloseDone = False, roLeader = False\<rparr>
         else \<lparr>roRecorder = FakeRecorder, roBroadcaster = b, roCloseDone = False, roLeader = False\<rparr>)"

definition NewReconciler :: "bool \<Rightarrow> reconciler_object" where
  "NewReconciler hasClientset = newReconcilerWithBroadcaster hasClientset (Some newBroadcaster)"

definition Close :: "reconciler_object \<Rightarrow> reconciler_object" where
  "Close r =
     (if roCloseDone r then r
      else r\<lparr>roCloseDone := True, roBroadcaster := (roBroadcaster r)\<lparr>bcShutdowns := bcShutdowns (roBroadcaster r) + 1\<rparr>\<rparr>)"

definition SetLeader :: "bool \<Rightarrow> reconciler_object \<Rightarrow> reconciler_object" where
  "SetLeader leader r = r\<lparr>roLeader := leader\<rparr>"

definition IsLeader :: "reconciler_object \<Rightarrow> bool" where
  "IsLeader r = roLeader r"

section \<open>The runtime server\<close>

record runtime_counters =
  rcMetrics :: reconcilerMetrics
  rcAllocationsSimulated :: int64
  rcActiveFaults :: int64

definition okHandler :: "'q http_command list" where
  "okHandler = [WriteHeader 200, WriteBody (BodyText (''ok'' @ newline))]"

definition promHeader :: "string \<Rightarrow> string \<Rightarrow> string \<Rightarrow> string list" where
  "promHeader name help kind = [''# HELP '' @ name @ '' '' @ help @ newline, ''# TYPE '' @ name @ '' '' @ kind @ newline]"

definition metricSample :: "string \<Rightarrow> int64 \<Rightarrow> string" where
  "metricSample name n = name @ '' '' @ decimalInt (sint n) @ newline"

definition writePipelineMetricHeaders :: "string list" where
  "writePipelineMetricHeaders =
     promHeader ''draforge_controller_sync_attempts_total'' ''Total controller synchronization attempts by pipeline'' ''counter'' @
     promHeader ''draforge_controller_sync_duration_seconds_total'' ''Cumulative controller synchronization duration by pipeline'' ''counter'' @
     promHeader ''draforge_controller_sync_in_flight'' ''Controller synchronizations currently executing by pipeline'' ''gauge'' @
     promHeader ''draforge_controller_queue_depth'' ''Ready controller workqueue items by pipeline'' ''gauge''"

text \<open>\<open>seconds\<close> is the text of a number of nanoseconds as a float of seconds with nine digits.\<close>

definition writePipelineMetricSamples :: "(int64 \<Rightarrow> string) \<Rightarrow> string \<Rightarrow> PipelineMetrics \<Rightarrow> string list" where
  "writePipelineMetricSamples seconds pipeline m =
     (let label = ''{pipeline='' @ goQuote pipeline @ ''}''
      in [metricSample (''draforge_controller_sync_attempts_total'' @ label) (Attempts m),
          ''draforge_controller_sync_duration_seconds_total'' @ label @ '' '' @ seconds (DurationNanoseconds m) @ newline,
          metricSample (''draforge_controller_sync_in_flight'' @ label) (InFlight m),
          metricSample (''draforge_controller_queue_depth'' @ label) (QueueDepth m)])"

definition metricsText :: "(int64 \<Rightarrow> string) \<Rightarrow> runtime_counters \<Rightarrow> bool \<Rightarrow> string list" where
  "metricsText seconds r leader =
     promHeader ''draforge_controller_reconcile_errors_total'' ''Total number of reconciliation errors'' ''counter'' @
     [metricSample ''draforge_controller_reconcile_errors_total'' (ReconcileErrorsCount (rcMetrics r))] @
     promHeader ''draforge_controller_reconcile_retries_total'' ''Total number of rate-limited controller synchronization retries'' ''counter'' @
     [metricSample ''draforge_controller_reconcile_retries_total'' (ReconcileRetriesCount (rcMetrics r))] @
     promHeader ''draforge_controller_terminal_errors_total'' ''Total number of controller synchronization failures classified as terminal'' ''counter'' @
     [metricSample ''draforge_controller_terminal_errors_total'' (TerminalErrorsCount (rcMetrics r))] @
     writePipelineMetricHeaders @
     writePipelineMetricSamples seconds ''pool'' (PoolMetrics (rcMetrics r)) @
     writePipelineMetricSamples seconds ''allocation'' (AllocationMetrics (rcMetrics r)) @
     [metricSample ''draforge_controller_allocations_simulated_total'' (rcAllocationsSimulated r),
      metricSample ''draforge_controller_active_faults'' (rcActiveFaults r)] @
     promHeader ''draforge_controller_leader'' ''Whether this process currently owns the controller leader lease'' ''gauge'' @
     [metricSample ''draforge_controller_leader'' (if leader then 1 else 0)]"

definition metricsHandler :: "(int64 \<Rightarrow> string) \<Rightarrow> runtime_counters \<Rightarrow> bool \<Rightarrow> 'q http_command list" where
  "metricsHandler seconds r leader =
     [SetHeader ''Content-Type'' ''text/plain; version=0.0.4; charset=utf-8'', WriteHeader 200] @
     map (\<lambda>line. WriteBody (BodyText line)) (metricsText seconds r leader)"

text \<open>The multiplexer of \<^verbatim>\<open>newRuntimeServer\<close>, for request paths in canonical form.\<close>

definition runtimeMux ::
  "(int64 \<Rightarrow> string) \<Rightarrow> ReadinessProbe option \<Rightarrow> runtime_counters \<Rightarrow> bool \<Rightarrow> check_input \<Rightarrow> string \<Rightarrow> 'q http_command list" where
  "runtimeMux seconds readiness r leader check path =
     (if path = ''/healthz'' then okHandler
      else if path = ''/readyz'' then
        (case readiness of
           None \<Rightarrow> http_Error ''readiness probe is not configured'' 503
         | Some probe \<Rightarrow>
             (let result = fst (Check check probe)
              in [SetHeader ''Content-Type'' ''application/json'', WriteHeader (int (serveStatus result)), WriteBody (BodyJSON (JReadiness result))]))
      else if path = ''/metrics'' then metricsHandler seconds r leader
      else http_Error ''404 page not found'' 404)"

definition newRuntimeServer ::
  "string \<Rightarrow> (int64 \<Rightarrow> string) \<Rightarrow> ReadinessProbe option \<Rightarrow> runtime_counters \<Rightarrow> bool \<Rightarrow> check_input \<Rightarrow>
   (string \<Rightarrow> 'q http_command list) http_server" where
  "newRuntimeServer addr seconds readiness r leader check =
     \<lparr>hsAddr = addr, hsHandler = runtimeMux seconds readiness r leader check, hsReadHeaderTimeout = 5000000000,
      hsReadTimeout = 10000000000, hsWriteTimeout = 10000000000, hsIdleTimeout = 60000000000\<rparr>"

section \<open>The process\<close>

text \<open>
  The goroutine of \<^verbatim>\<open>runControllerLifecycle\<close>: before it has chosen a lifecycle, under a lease, with the active controller alone, or
  returned. Under a lease the callbacks of the elector outlive the function, so its state stays.
\<close>

datatype lifecycle_run = Launching | UnderLease lease_state | SingleActive | Ended "active_error option"

datatype runtime_phase = Listening | ServerFailed | ServerStopped

datatype process_main = Selecting | AwaitingLifecycle | Stopping | Exited

record process_state =
  psCanceled :: bool
  psServer :: runtime_phase
  psLifecycle :: lifecycle_run
  psDone :: "active_error option option"
  psMain :: process_main
  psReconciler :: reconciler_object
  psLog :: "string list"

text \<open>What \<^verbatim>\<open>main\<close> does before the select: it exits with 1 when the options or the clients are refused.\<close>

definition processStart :: process_state where
  "processStart =
     \<lparr>psCanceled = False, psServer = Listening, psLifecycle = Launching, psDone = None, psMain = Selecting,
      psReconciler = NewReconciler True, psLog = []\<rparr>"

datatype startup_error = InvalidElection election_error | NoClients api_error

definition startController ::
  "election_api \<Rightarrow> (string \<Rightarrow> string) \<Rightarrow> string + string \<Rightarrow> ('cfg, 'ts, 'dyn) client_api \<Rightarrow> string \<Rightarrow> leaderElectionOptions \<Rightarrow>
   startup_error + leaderElectionOptions \<times> process_state" where
  "startController E getenv hostname K kubeconfig options =
     (case resolveLeaderElectionOptions E getenv hostname options of
        Inl err \<Rightarrow> Inl (InvalidElection err)
      | Inr resolved \<Rightarrow>
          (case NewClientset K kubeconfig of
             Inl err \<Rightarrow> Inl (NoClients err)
           | Inr _ \<Rightarrow> Inr (resolved, processStart)))"

definition serverError :: "string \<Rightarrow> process_state \<Rightarrow> process_state" where
  "serverError err s =
     s\<lparr>psServer := ServerFailed, psCanceled := True, psLog := psLog s @ [''Controller runtime server error: '' @ err @ newline]\<rparr>"

definition lifecycleSends :: "active_error option \<Rightarrow> process_state \<Rightarrow> process_state" where
  "lifecycleSends result s = s\<lparr>psDone := Some result\<rparr>"

definition reportLifecycle :: "string \<Rightarrow> active_error option \<Rightarrow> string list" where
  "reportLifecycle what result =
     (case result of None \<Rightarrow> [] | Some err \<Rightarrow> [''Controller lifecycle '' @ what @ '': '' @ aeText err @ newline])"

text \<open>The two branches of the select, and the receive in the second.\<close>

definition selectLifecycle :: "active_error option \<Rightarrow> process_state \<Rightarrow> process_state" where
  "selectLifecycle result s =
     s\<lparr>psDone := None, psCanceled := True, psMain := Stopping, psLog := psLog s @ reportLifecycle ''error'' result\<rparr>"

definition awaitLifecycle :: "active_error option \<Rightarrow> process_state \<Rightarrow> process_state" where
  "awaitLifecycle result s =
     s\<lparr>psDone := None, psMain := Stopping, psLog := psLog s @ reportLifecycle ''stop error'' result\<rparr>"

text \<open>The shutdown of the server, the last line, and the deferred calls: \<^verbatim>\<open>cancel\<close>, \<^verbatim>\<open>reconciler.Close\<close>, \<^verbatim>\<open>stop\<close>.\<close>

definition stopProcess :: "string option \<Rightarrow> process_state \<Rightarrow> process_state" where
  "stopProcess shutdownErr s =
     s\<lparr>psServer := ServerStopped, psMain := Exited, psReconciler := Close (psReconciler s), psCanceled := True,
       psLog := psLog s @ (case shutdownErr of None \<Rightarrow> [] | Some err \<Rightarrow> [''Controller runtime server stop error: '' @ err @ newline]) @
         [''DRAForge Simulation Controller stopped.'' @ newline]\<rparr>"

definition setLifecycle :: "lifecycle_run \<Rightarrow> process_state \<Rightarrow> process_state" where
  "setLifecycle l s = s\<lparr>psLifecycle := l\<rparr>"

text \<open>Under a lease, the lock and the elector may be refused before the election begins.\<close>

inductive process_step :: "election_api \<Rightarrow> leaderElectionOptions \<Rightarrow> process_state \<Rightarrow> process_state \<Rightarrow> bool"
  for E :: election_api and options :: leaderElectionOptions where
  signal: "psMain s \<noteq> Exited \<Longrightarrow> process_step E options s (s\<lparr>psCanceled := True\<rparr>)"
| server_fails: "psMain s \<noteq> Exited \<Longrightarrow> psServer s = Listening \<Longrightarrow> process_step E options s (serverError err s)"
| launch_fails: "psMain s \<noteq> Exited \<Longrightarrow> psLifecycle s = Launching \<Longrightarrow> runControllerLifecycle E True True options \<noteq> Inr SingleLifecycle \<Longrightarrow>
    process_step E options s (lifecycleSends (Some err) (setLifecycle (Ended (Some err)) s))"
| launch_lease: "psMain s \<noteq> Exited \<Longrightarrow> psLifecycle s = Launching \<Longrightarrow> runControllerLifecycle E True True options = Inr LeaseLifecycle \<Longrightarrow>
    process_step E options s (setLifecycle (UnderLease leaseStart) s)"
| launch_single: "psMain s \<noteq> Exited \<Longrightarrow> psLifecycle s = Launching \<Longrightarrow> runControllerLifecycle E True True options = Inr SingleLifecycle \<Longrightarrow>
    process_step E options s (setLifecycle SingleActive s)"
| lease: "psMain s \<noteq> Exited \<Longrightarrow> psLifecycle s = UnderLease l \<Longrightarrow> lease_step l l' \<Longrightarrow> lsMain l' = lsMain l \<or> \<not> (\<exists>r. lsMain l' = Returned r) \<Longrightarrow>
    process_step E options s (setLifecycle (UnderLease l') s)"
| lease_returns: "psMain s \<noteq> Exited \<Longrightarrow> psLifecycle s = UnderLease l \<Longrightarrow> lease_step l l' \<Longrightarrow> lsMain l' \<noteq> lsMain l \<Longrightarrow> lsMain l' = Returned r \<Longrightarrow>
    process_step E options s (lifecycleSends r (setLifecycle (UnderLease l') s))"
| single_ends: "psMain s \<noteq> Exited \<Longrightarrow> psLifecycle s = SingleActive \<Longrightarrow> r = fst (runSingleControllerLifecycle err (psCanceled s)) \<Longrightarrow>
    process_step E options s (lifecycleSends r (setLifecycle (Ended r) s))"
| select_lifecycle: "psMain s = Selecting \<Longrightarrow> psDone s = Some r \<Longrightarrow> process_step E options s (selectLifecycle r s)"
| select_canceled: "psMain s = Selecting \<Longrightarrow> psCanceled s \<Longrightarrow> process_step E options s (s\<lparr>psMain := AwaitingLifecycle\<rparr>)"
| await_lifecycle: "psMain s = AwaitingLifecycle \<Longrightarrow> psDone s = Some r \<Longrightarrow> process_step E options s (awaitLifecycle r s)"
| stop_process: "psMain s = Stopping \<Longrightarrow> process_step E options s (stopProcess err s)"

section \<open>The end of the process\<close>

text \<open>What the lifecycle has returned, if it has, and whether an active controller runs or the leader gauge is set.\<close>

fun lifecycleResult :: "lifecycle_run \<Rightarrow> active_error option option" where
  "lifecycleResult (UnderLease l) = (case lsMain l of Returned r \<Rightarrow> Some r | _ \<Rightarrow> None)"
| "lifecycleResult (Ended r) = Some r"
| "lifecycleResult _ = None"

fun controllerActive :: "lifecycle_run \<Rightarrow> bool" where
  "controllerActive (UnderLease l) = (lsActive l > 0 \<or> lsLeader l)"
| "controllerActive SingleActive = True"
| "controllerActive _ = False"

definition reported :: "active_error option \<Rightarrow> string list \<Rightarrow> bool" where
  "reported result printed \<longleftrightarrow>
     (case result of None \<Rightarrow> True
      | Some err \<Rightarrow> list_ex (\<lambda>line. line \<in> {''Controller lifecycle error: '' @ aeText err @ newline, ''Controller lifecycle stop error: '' @ aeText err @ newline}) printed)"

definition processInv :: "process_state \<Rightarrow> bool" where
  "processInv s \<longleftrightarrow>
     (case psLifecycle s of UnderLease l \<Rightarrow> leaseInv l | _ \<Rightarrow> True) \<and>
     (if psMain s = Stopping \<or> psMain s = Exited
      then psDone s = None \<and> psCanceled s \<and> (\<exists>r. lifecycleResult (psLifecycle s) = Some r \<and> reported r (psLog s))
      else psDone s = lifecycleResult (psLifecycle s)) \<and>
     (psMain s = AwaitingLifecycle \<longrightarrow> psCanceled s) \<and>
     bcShutdowns (roBroadcaster (psReconciler s)) = (if psMain s = Exited then 1 else 0) \<and>
     (roCloseDone (psReconciler s) \<longleftrightarrow> psMain s = Exited) \<and>
     (psMain s = Exited \<longleftrightarrow> psServer s = ServerStopped)"

text \<open>With the options of a process that has started, the lifecycle is the one that was asked for; its own validation refuses nothing.\<close>

lemma startController_launches:
  assumes "startController E getenv hostname K kubeconfig options = Inr (resolved, s)"
  shows "s = processStart \<and> (Enabled resolved = Enabled options) \<and>
    runControllerLifecycle E True True resolved = Inr (if Enabled options then LeaseLifecycle else SingleLifecycle)"
proof -
  from assms have resolved: "resolveLeaderElectionOptions E getenv hostname options = Inr resolved" and s: "s = processStart"
    by (auto simp: startController_def split: sum.splits)
  have "Enabled resolved = Enabled options \<and> validate E resolved = None"
  proof (cases "Enabled options")
    case False
    with resolved show ?thesis by (simp add: resolveLeaderElectionOptions_def validate_def)
  next
    case True
    with resolved obtain ident where "resolved = defaultedOptions getenv ident options" "validate E resolved = None"
      by (auto simp: resolveLeaderElectionOptions_def split: sum.splits option.splits)
    then show ?thesis by (simp add: defaultedOptions_def)
  qed
  with s show ?thesis by (simp add: runControllerLifecycle_def)
qed

lemma processInv_start: "processInv processStart"
  by (simp add: processInv_def processStart_def NewReconciler_def newReconcilerWithBroadcaster_def newBroadcaster_def)

lemmas process_updates = serverError_def lifecycleSends_def setLifecycle_def selectLifecycle_def awaitLifecycle_def stopProcess_def

lemma reported_report: "what \<in> {''error'', ''stop error''} \<Longrightarrow> reported r (printed @ reportLifecycle what r)"
  by (auto simp: reported_def reportLifecycle_def split: option.split)

lemma reported_mono: "reported r printed \<Longrightarrow> reported r (printed @ lines)"
  by (auto simp: reported_def split: option.splits)

lemma process_step_inv: "process_step E options s s' \<Longrightarrow> processInv s \<Longrightarrow> processInv s'"
proof (induction rule: process_step.induct)
  case (lease s l l')
  have "lifecycleResult (UnderLease l') = lifecycleResult (UnderLease l)"
    using lease(3,4) lease_step_returned by (cases "lsMain l'"; cases "lsMain l") fastforce+
  with lease lease_step_inv [OF lease(3)] show ?case by (auto simp: processInv_def setLifecycle_def)
next
  case (lease_returns s l l' r)
  have "lifecycleResult (UnderLease l) = None"
    using lease_returns(3-5) lease_step_returned by (cases "lsMain l") fastforce+
  with lease_returns lease_step_inv [OF lease_returns(3)] show ?case by (auto simp: processInv_def process_updates)
next
  case (select_lifecycle s r)
  then show ?case by (auto simp: processInv_def selectLifecycle_def intro!: exI [of _ r] reported_report)
next
  case (await_lifecycle s r)
  then show ?case by (auto simp: processInv_def awaitLifecycle_def intro!: exI [of _ r] reported_report)
next
  case (stop_process s err)
  then show ?case by (auto simp: processInv_def stopProcess_def Close_def reported_mono)
qed (auto simp: processInv_def process_updates reported_mono leaseInv_start, simp_all add: leaseStart_def)

interpretation process: step_system "process_step E options" processStart processInv for E options
  by unfold_locales (rule processInv_start, rule process_step_inv)

text \<open>
  C16. The controller process ends in order: in every interleaving of signals, failures of the runtime server and the leader-election
  lifecycle, \<^verbatim>\<open>main\<close> goes on to stop the runtime server only after the lifecycle has returned, so no active controller runs and
  the leader gauge is clear from then on; an error of the lifecycle has been printed; and the event broadcaster is shut down exactly once,
  when the process ends and not before.
\<close>

theorem process_stops_last:
  assumes "(process_step E options)\<^sup>*\<^sup>* processStart s"
  shows "bcShutdowns (roBroadcaster (psReconciler s)) = (if psMain s = Exited then 1 else 0) \<and>
    (psMain s = Exited \<longleftrightarrow> psServer s = ServerStopped) \<and>
    (psMain s \<in> {Stopping, Exited} \<longrightarrow>
       psCanceled s \<and> \<not> controllerActive (psLifecycle s) \<and> (\<exists>r. lifecycleResult (psLifecycle s) = Some r \<and> reported r (psLog s)))"
proof -
  have inv: "processInv s" by (rule process.run_invariant [OF assms])
  have "\<not> controllerActive (psLifecycle s)" if "lifecycleResult (psLifecycle s) = Some r" for r
    using that inv by (cases "psLifecycle s") (auto simp: processInv_def leaseInv_def split: main_pc.splits)
  with inv show ?thesis by (auto simp: processInv_def)
qed

text \<open>
  The process does not hang on its own: once the lifecycle has returned, three steps of \<^verbatim>\<open>main\<close> at most end it, from every
  reachable state and whatever the outcome of the shutdown of the server.
\<close>

theorem process_ends:
  assumes "(process_step E options)\<^sup>*\<^sup>* processStart s" and "lifecycleResult (psLifecycle s) = Some r"
  shows "\<exists>s'. (process_step E options)\<^sup>*\<^sup>* s s' \<and> psMain s' = Exited"
proof -
  have inv: "processInv s" by (rule process.run_invariant [OF assms(1)])
  have stop: "\<exists>s'. (process_step E options)\<^sup>*\<^sup>* t s' \<and> psMain s' = Exited" if "psMain t = Stopping" for t
  proof (intro exI conjI)
    show "(process_step E options)\<^sup>*\<^sup>* t (stopProcess None t)" using that by (intro r_into_rtranclp process_step.stop_process)
  qed (simp add: stopProcess_def)
  show ?thesis
  proof (cases "psMain s")
    case Selecting
    with inv assms(2) have "process_step E options s (selectLifecycle r s)" by (intro process_step.select_lifecycle) (auto simp: processInv_def)
    with stop [of "selectLifecycle r s"] show ?thesis by (auto simp: selectLifecycle_def intro: converse_rtranclp_into_rtranclp)
  next
    case AwaitingLifecycle
    with inv assms(2) have "process_step E options s (awaitLifecycle r s)" by (intro process_step.await_lifecycle) (auto simp: processInv_def)
    with stop [of "awaitLifecycle r s"] show ?thesis by (auto simp: awaitLifecycle_def intro: converse_rtranclp_into_rtranclp)
  next
    case Stopping
    then show ?thesis by (rule stop)
  next
    case Exited
    then show ?thesis by blast
  qed
qed

text \<open>A process whose runtime server cannot listen, and whose single controller then returns with the canceled context.\<close>

definition singleOptions :: leaderElectionOptions where
  "singleOptions = noOptions\<lparr>Enabled := False\<rparr>"

definition failedRun :: process_state where
  "failedRun =
     (let s1 = setLifecycle SingleActive processStart; s2 = serverError ''address in use'' s1; s3 = s2\<lparr>psMain := AwaitingLifecycle\<rparr>
      in lifecycleSends None (setLifecycle (Ended None) s3))"

lemma failedRun_run: "(process_step exampleElection singleOptions)\<^sup>*\<^sup>* processStart failedRun"
proof -
  let ?s1 = "setLifecycle SingleActive processStart"
  let ?s2 = "serverError ''address in use'' ?s1"
  let ?s3 = "?s2\<lparr>psMain := AwaitingLifecycle\<rparr>"
  have "process_step exampleElection singleOptions processStart ?s1" by (rule process_step.launch_single)
       (simp_all add: processStart_def runControllerLifecycle_def validate_def singleOptions_def)
  moreover have "process_step exampleElection singleOptions ?s1 ?s2" by (rule process_step.server_fails) (simp_all add: processStart_def setLifecycle_def)
  moreover have "process_step exampleElection singleOptions ?s2 ?s3" by (rule process_step.select_canceled) (simp_all add: processStart_def process_updates)
  moreover have "process_step exampleElection singleOptions ?s3 failedRun"
    unfolding failedRun_def Let_def
    by (rule process_step.single_ends [where err = None])
       (simp_all add: processStart_def process_updates runSingleControllerLifecycle_def normalizeActiveControllerError_def)
  ultimately show ?thesis by (meson converse_rtranclp_into_rtranclp rtranclp.rtrancl_refl)
qed

theorem process_ends_witness: "\<exists>s'. (process_step exampleElection singleOptions)\<^sup>*\<^sup>* failedRun s' \<and> psMain s' = Exited"
  by (rule process_ends [OF failedRun_run, of None]) (simp add: failedRun_def process_updates Let_def)

theorem process_stops_last_witness:
  "bcShutdowns (roBroadcaster (psReconciler (stopProcess None (awaitLifecycle None failedRun)))) = 1"
proof -
  have "process_step exampleElection singleOptions failedRun (awaitLifecycle None failedRun)"
    by (rule process_step.await_lifecycle) (simp_all add: failedRun_def process_updates Let_def)
  moreover have "process_step exampleElection singleOptions (awaitLifecycle None failedRun) (stopProcess None (awaitLifecycle None failedRun))"
    by (rule process_step.stop_process) (simp add: awaitLifecycle_def)
  ultimately have "(process_step exampleElection singleOptions)\<^sup>*\<^sup>* processStart (stopProcess None (awaitLifecycle None failedRun))"
    using failedRun_run by (meson rtranclp.rtrancl_into_rtrancl)
  from process_stops_last [OF this] show ?thesis by (simp add: stopProcess_def)
qed

end
