(* ===== verification/Spec2Isabelle.thy ===== *)
theory Spec2Isabelle
  imports Pool_Allocation Graph_Guarantees CDI_Driver Server_Stream Redaction E2E_Check Command_Line Controller_Process
begin

text \<open>
  A verification library for DRAForge, a simulator and observer for Kubernetes Dynamic Resource Allocation (the Go
  packages under \<^verbatim>\<open>src/internal\<close>, \<^verbatim>\<open>src/pkg\<close> and \<^verbatim>\<open>src/cmd\<close>).

  \<^bold>\<open>The program.\<close> Users declare SimulatedDevicePools. The controller process elects a leader; the leader runs two pipelines over
  work queues. The pool pipeline turns every pool into ResourceSlices with devices and removes what no pool asks for. The
  allocation pipeline plans devices for pending ResourceClaims and writes the plans to the claims' status. On every node a driver turns
  the allocated claims of the node into a CDI document on disk. Beside them, discovery reads slices, claims and pods into a model that the
  graph, the explanations, the diagnostics, the HTTP server, the command line and the terminal UI show.

  \<^bold>\<open>Theories and sources.\<close>
  \<^item> \<open>Prelude\<close>, \<open>Go_Text\<close>: Go's maps, 64-bit integers and string functions. \<open>API_Monad\<close>: calls that return a value or an error and change
    a state, with the rules for what holds after them. \<open>Step_System\<close>: invariants of interleaved steps. \<open>Quantity\<close>: the interface of
    \<^verbatim>\<open>resource.Quantity\<close>. \<open>DRA_Types\<close>, \<open>Model_Types\<close> (\<^verbatim>\<open>pkg/model/model.go\<close>): the data.
  \<^item> Allocation, \<^verbatim>\<open>internal/simulator\<close>: \<open>Draeval\<close> (\<^verbatim>\<open>internal/draeval/evaluator.go\<close>), \<open>Capacity_Policy\<close> (\<^verbatim>\<open>capacity_policy.go\<close>,
    \<^verbatim>\<open>allocation_capacity.go\<close>), \<open>Allocation_Usage\<close> (\<^verbatim>\<open>allocation_usage.go\<close>), \<open>Allocation_Plan\<close> (\<^verbatim>\<open>allocation_plan.go\<close>),
    \<open>Allocation_Constraints\<close> (\<^verbatim>\<open>allocation_constraints.go\<close>), \<open>Allocation\<close> (\<^verbatim>\<open>allocation.go\<close>).
  \<^item> Pools, \<^verbatim>\<open>internal/simulator\<close>: \<open>Pool_Spec\<close>, \<open>Pool_Reconcile\<close> (\<^verbatim>\<open>reconcile.go\<close>, \<^verbatim>\<open>ownership.go\<close>, \<^verbatim>\<open>controller.go\<close>), with the proofs in
    \<open>Pool_Sync\<close> and \<open>Pool_Guarantees\<close>. \<open>Pool_Allocation\<close> joins both: the slices of the pools as the input of an allocation pass.
  \<^item> The controller: \<open>Event_Controller\<close> (\<^verbatim>\<open>event_controller.go\<close>, \<^verbatim>\<open>error_policy.go\<close>), \<open>Leader_Election\<close> (\<^verbatim>\<open>leader_election.go\<close>),
    \<open>Readiness\<close> (\<^verbatim>\<open>internal/health/readiness.go\<close>), \<open>Controller_Process\<close> (\<^verbatim>\<open>cmd/draforge-controller/main.go\<close>, \<^verbatim>\<open>runtime.go\<close>,
    \<^verbatim>\<open>internal/cluster/client.go\<close>).
  \<^item> The node driver, \<^verbatim>\<open>cmd/draforge-sim-driver\<close>: \<open>CDI_Files\<close> and \<open>CDI_Driver\<close> (\<^verbatim>\<open>driver.go\<close>, \<^verbatim>\<open>main.go\<close>).
  \<^item> The observers: \<open>Discovery\<close>, \<open>Graph\<close> with \<open>Graph_Mermaid\<close> and \<open>Graph_Guarantees\<close>, \<open>Explain\<close>, \<open>Doctor\<close>, \<open>Redaction\<close> (the packages of these names),
    \<open>Server\<close> and \<open>Server_Stream\<close> (\<^verbatim>\<open>internal/server/server.go\<close>), \<open>Terminal_UI\<close> (\<^verbatim>\<open>internal/tui/tui.go\<close>), \<open>Command_Line\<close>
    (\<^verbatim>\<open>cmd/draforge/main.go\<close>), \<open>E2E_Check\<close> (\<^verbatim>\<open>internal/e2echeck/check.go\<close>, \<^verbatim>\<open>cmd/draforge-e2e-check/main.go\<close>).

  \<^bold>\<open>How the code is modelled.\<close> A struct is a record, an operation a function of the same name that returns what the Go function
  returns and the state it leaves; an error is a value. What lies outside the repository comes in as a record of functions: quantities
  (\<open>quantity_api\<close>), the CEL evaluator (\<open>cel_api\<close>), the API server (\<open>cluster_api\<close>, \<open>pool_api\<close>, \<open>dynamic_api\<close>), the work queue
  (\<open>queue_api\<close>), accessors of unstructured objects (\<open>object_api\<close>), Unicode tables (\<open>go_unicode\<close>), the operating system (\<open>os_env\<close>). A theorem
  that relies on how such a package behaves has its documented laws as a hypothesis, and its witness an instance that satisfies them.
  Goroutines that interleave are step relations: the workers and event handlers of the event controller, one operation on the queue or a
  counter at a time, the callbacks of the leader
  elector, the clients and the broadcaster of the event stream, the controller process around its server and its lifecycle. System
  calls may fail one by one (\<open>CDI_Files\<close>).

  \<^bold>\<open>What the lemmas show.\<close>
  \<^item> Allocation is safe: plans serve their requests with the capacities they ask for, on devices that published slices offer; no exclusive
    device is given twice, shared capacity is never exceeded, also when a pass stops half-way; usage, capacity rounding, constraints and
    the enumeration of combinations are exact.
  \<^item> Pool synchronization converges where slice names do not collide, leaves foreign slices alone, and releases a deleted pool only after its slices are gone.
  \<^item> The controller's gauges, counters and retries are consistent in every interleaving of its single operations, retries end, at most one
    replica is active, and the process ends only after its lifecycle has returned.
  \<^item> The CDI document is replaced atomically and shows exactly the devices whose allocation is placed on the node, under valid names.
  \<^item> The graph refines its specification; discovery, diagnostics and explanations count what is there; the server's headers and status
    codes and the event stream are right in every state; redaction removes access tokens; the fault command and the result check do what
    they say.
  \<^item> Components fit together: the slices that pool synchronization leaves satisfy what the planners assume, and a pass over them never brings
    the devices of a pool that are in use above its device count (\<open>Pool_Allocation\<close>); what the simulator plans and writes is what discovery and graph report, and
    what the node's CDI document exposes (this theory).

  \<^bold>\<open>Bounds.\<close> Every function terminates on every input: recursion is over lists, or over the remaining text in \<open>Redaction\<close>. The
  backtracking search runs on the code's own branch budget of 100000, so its model needs no fuel. Integers are 64-bit words where the code
  computes with them and can overflow, and unbounded where it only compares them.

  \<^bold>\<open>Not modelled.\<close> \<^verbatim>\<open>ToJSON\<close> and every other rendering by \<^verbatim>\<open>encoding/json\<close> or \<^verbatim>\<open>yaml\<close> (values are kept instead); flag parsing and the command tree, which are \<^verbatim>\<open>flag\<close>'s and cobra's; the event loop of Bubble Tea;
  the elector and the informers of \<^verbatim>\<open>client-go\<close> beyond their construction and callbacks; log lines; the TypeScript frontend, charts, and
  scripts, which are not Go.
\<close>

section \<open>From a plan to the graph\<close>

text \<open>The claim as the API server returns it after the status update, at the time given.\<close>

definition writtenClaim :: "'q ResourceClaim \<Rightarrow> 'q allocationPlan \<Rightarrow> int \<Rightarrow> 'q live_claim" where
  "writtenClaim claim plan created =
     ResourceClaim.extend (claimWithAllocationPlan claim plan) (live_claim.fields created)"

lemma mapResourceClaim_written:
  "EffectiveAllocations (mapResourceClaim (writtenClaim claim plan created)) =
     map (\<lambda>r. \<lparr>caRequest = resRequest r, caDriverName = resDriver r, caPoolName = resPool r, caDeviceName = resDevice r,
               caNodeName = planNodeName plan\<rparr>) (planResults plan)"
  by (auto simp: EffectiveAllocations_def mapResourceClaim_def writtenClaim_def claimWithAllocationPlan_def
      mapClaimAllocations_def allocationNodeName_def exactNodeForTerm_def mergeExactNode_def Let_def
      ResourceClaim.defs live_claim.defs split: list.split)

lemma allocatedDeviceID_unique:
  assumes "distinct (map mdID devices)" and "d \<in> set devices"
    and "\<And>d. d \<in> set devices \<Longrightarrow> mdID d = deviceIdentity (mdDriverName d) (mdPoolName d) (mdNodeName d) (mdName d)"
    and "mdID d = deviceIdentity (caDriverName a) (caPoolName a) (caNodeName a) (caDeviceName a)"
    and "caPoolName a \<noteq> ''''" and "caNodeName a \<noteq> ''''"
  shows "allocatedDeviceID devices a = Some (deviceGraphID (caDriverName a) (caNodeName a) (caPoolName a) (caDeviceName a))"
proof -
  have fields: "mdDriverName d = caDriverName a \<and> mdPoolName d = caPoolName a \<and> mdNodeName d = caNodeName a \<and> mdName d = caDeviceName a"
    using assms(2,3,4) by simp
  have "deviceMatches a d' \<longleftrightarrow> d' = d" if "d' \<in> set devices" for d'
  proof
    assume "deviceMatches a d'"
    then have "mdID d' = mdID d" using assms(3,5,6) that by (simp add: assms(4) deviceMatches_def)
    then show "d' = d" using assms(1,2) that by (simp add: distinct_map inj_on_def)
  qed (simp add: deviceMatches_def fields)
  then have "filter (deviceMatches a) devices = filter (\<lambda>d'. d' = d) devices" by (intro filter_cong) simp_all
  also have "\<dots> = [d]"
    using assms(1,2) by (induction devices) (auto simp: filter_empty_conv)
  finally show ?thesis using fields by (simp add: allocatedDeviceID_def)
qed

text \<open>
  C29. What the simulator plans is what users see: when the plan of a claim has been written to its status, discovery
  reports one allocation for every result, in order, on the plan's node, and in the graph each of them resolves to
  the device with the driver, node, pool and name the plan chose. The slices have pool and node names, and publish
  a device once.
\<close>

theorem planned_claim_resolves:
  assumes "slicesOk Q den (map ResourceSlice.truncate items)"
    and "planClaimAllocation Q evaluator X claim claims (map ResourceSlice.truncate items) classes clock = (Inr plan, clock')"
    and "distinct (concat (map sliceDeviceIDs items))"
    and "\<And>sl. sl \<in> set items \<Longrightarrow> poolName sl \<noteq> '''' \<and> sliceNodeName sl \<noteq> Some ''''"
  shows "map (allocatedDeviceID (dvDevices (DiscoverDRAWithStatus G Q claimList (Inr items) podList)))
           (EffectiveAllocations (mapResourceClaim (writtenClaim claim plan created))) =
         map (\<lambda>r. Some (deviceGraphID (resDriver r) (planNodeName plan) (resPool r) (resDevice r))) (planResults plan)"
proof -
  let ?devices = "dvDevices (DiscoverDRAWithStatus G Q claimList (Inr items) podList)"
  note ids = DiscoverDRAWithStatus_devices [where G = G and Q = Q and claimList = claimList and items = items and podList = podList]
  have distinct: "distinct (map mdID ?devices)" using assms(3) ids(1) by simp
  have "allocatedDeviceID ?devices \<lparr>caRequest = resRequest r, caDriverName = resDriver r, caPoolName = resPool r,
      caDeviceName = resDevice r, caNodeName = planNodeName plan\<rparr> =
      Some (deviceGraphID (resDriver r) (planNodeName plan) (resPool r) (resDevice r))"
    if "r \<in> set (planResults plan)" for r
  proof -
    from planClaimAllocation_published [OF assms(1,2) that] obtain sl device where
      sl: "sl \<in> set items" "device \<in> set (sliceDevices sl)" "sliceNodeName sl = Some (planNodeName plan)"
        "resDriver r = sliceDriver sl" "resPool r = poolName sl" "resDevice r = devName device"
      using assms(4) by (auto simp: publishedOn_def sliceOnNode_def resultAt_def ResourceSlice.defs)
    have "deviceIdentity (resDriver r) (resPool r) (planNodeName plan) (resDevice r) \<in> set (sliceDeviceIDs sl)"
      using sl by (auto simp: sliceDeviceIDs_def)
    then have "deviceIdentity (resDriver r) (resPool r) (planNodeName plan) (resDevice r) \<in> set (map mdID ?devices)"
      using sl(1) ids(1) by auto
    then obtain d where d: "d \<in> set ?devices" "mdID d = deviceIdentity (resDriver r) (resPool r) (planNodeName plan) (resDevice r)"
      by auto
    have "resPool r \<noteq> ''''" "planNodeName plan \<noteq> ''''" using assms(4) sl by force+
    then show ?thesis
      using allocatedDeviceID_unique [OF distinct d(1) ids(2), of "\<lparr>caRequest = resRequest r, caDriverName = resDriver r,
          caPoolName = resPool r, caDeviceName = resDevice r, caNodeName = planNodeName plan\<rparr>"] d(2) by simp
  qed
  then show ?thesis by (simp add: mapResourceClaim_written)
qed

definition exampleItems :: "rat live_slice list" where
  "exampleItems = [ResourceSlice.extend exampleSlice (live_slice.fields 0)]"

theorem planned_claim_resolves_witness:
  "map (allocatedDeviceID (dvDevices (DiscoverDRAWithStatus asciiUnicode exact_quantity (Inl ''down'') (Inr exampleItems) (Inr []))))
     (EffectiveAllocations (mapResourceClaim (writtenClaim (pendingClaim [shareRequest] [])
       \<lparr>planResults = [exampleShare CHR ''b'' 6], planNodeName = ''node''\<rparr> 0))) =
   [Some (deviceGraphID ''d'' ''node'' ''p'' ''gpu'')]"
proof -
  have items: "map ResourceSlice.truncate exampleItems = [exampleSlice]"
    by (simp add: exampleItems_def ResourceSlice.defs live_slice.defs)
  have ok: "slicesOk exact_quantity (\<lambda>a. a) [exampleSlice]"
    using exact_quantity_laws
    by (simp add: slicesOk_def capacitiesWf_def coherentDevices_def plainSlice_def exampleSlice_def exampleDevice_def)
  have "distinct (concat (map sliceDeviceIDs exampleItems))"
    by (simp add: exampleItems_def sliceDeviceIDs_def exampleSlice_def ResourceSlice.defs live_slice.defs)
  moreover have "poolName sl \<noteq> '''' \<and> sliceNodeName sl \<noteq> Some ''''" if "sl \<in> set exampleItems" for sl
    using that by (auto simp: exampleItems_def exampleSlice_def ResourceSlice.defs live_slice.defs)
  ultimately show ?thesis
    using planned_claim_resolves [OF ok [folded items] example_plan_claim [folded items], of asciiUnicode "Inl ''down''" "Inr []" 0]
    by (simp add: exampleShare_def)
qed

section \<open>From a plan to the node\<close>

text \<open>What the node driver makes of the selector that \<^verbatim>\<open>claimWithAllocationPlan\<close> writes.\<close>

lemma shownResults_planned:
  "shownResults n (claimWithAllocationPlan claim plan) =
     map (Pair (claimWithAllocationPlan claim plan))
       (filter (\<lambda>r. (planNodeName plan \<noteq> '''' \<and> n = planNodeName plan \<or> resPool r = n) \<and> isSimulatedDriver (resDriver r)) (planResults plan))"
  by (auto simp: shownResults_def claimWithAllocationPlan_def placedOn_def namesNodes_def admitsNode_def nameRequirements_def intro!: filter_cong)

lemma planned_on_node:
  assumes "slicesOk Q den slices"
    and "planClaimAllocation Q evaluator X claim claims slices classes clock = (Inr plan, clock')"
    and "\<And>sl. sl \<in> set slices \<Longrightarrow> sliceNodeName sl \<noteq> Some ''''"
    and "r \<in> set (planResults plan)"
  obtains sl device where "sl \<in> set slices" "device \<in> set (sliceDevices sl)" "sliceNodeName sl = Some (planNodeName plan)"
    "planNodeName plan \<noteq> ''''" "qualifiedDeviceIdentity r = sliceDriver sl @ ''/'' @ poolName sl @ ''/'' @ devName device"
proof -
  from planClaimAllocation_published [OF assms(1,2,4)] obtain sl device where
    sl: "sl \<in> set slices" "device \<in> set (sliceDevices sl)" "sliceOnNode sl (planNodeName plan)" "resultAt sl device r"
    unfolding publishedOn_def by blast
  with assms(3) have "sliceNodeName sl = Some (planNodeName plan)" "planNodeName plan \<noteq> ''''" by (auto simp: sliceOnNode_def)
  with that sl show ?thesis by (simp add: resultAt_def qualifiedDeviceIdentity_def)
qed

text \<open>
  C30. What the simulator plans is what the node exposes: when the plan of a claim has been written to its status, the claim adds to
  the CDI document of the plan's node exactly the devices the plan chose from simulated drivers, each of which a slice of that
  node publishes, and to the document of another node only devices of a pool that has that node's name; whatever other claims are listed
  beside it keep what they expose.
\<close>

theorem planned_claim_exposed:
  assumes "slicesOk Q den slices"
    and "planClaimAllocation Q evaluator X claim claims slices classes clock = (Inr plan, clock')"
    and "\<And>sl. sl \<in> set slices \<Longrightarrow> sliceNodeName sl \<noteq> Some ''''"
  shows "exposed (buildCDISpec G sha256hex (claimWithAllocationPlan claim plan # others) n) =
      exposed (buildCDISpec G sha256hex others n) \<union>
      {qualifiedDeviceIdentity r | r. r \<in> set (planResults plan) \<and> isSimulatedDriver (resDriver r) \<and> (n = planNodeName plan \<or> resPool r = n)} \<and>
    (\<forall>r \<in> set (planResults plan). \<exists>sl \<in> set slices. \<exists>device \<in> set (sliceDevices sl).
       sliceNodeName sl = Some (planNodeName plan) \<and>
       qualifiedDeviceIdentity r = sliceDriver sl @ ''/'' @ poolName sl @ ''/'' @ devName device)"
proof (intro conjI ballI)
  have "planNodeName plan \<noteq> ''''" if "r \<in> set (planResults plan)" for r
    using planned_on_node [OF assms that] by blast
  then have "shownIdentity ` set (shownResults n (claimWithAllocationPlan claim plan)) =
      {qualifiedDeviceIdentity r | r. r \<in> set (planResults plan) \<and> isSimulatedDriver (resDriver r) \<and> (n = planNodeName plan \<or> resPool r = n)}"
    by (auto simp: shownResults_planned shownIdentity_def image_iff)
  then show "exposed (buildCDISpec G sha256hex (claimWithAllocationPlan claim plan # others) n) =
      exposed (buildCDISpec G sha256hex others n) \<union>
      {qualifiedDeviceIdentity r | r. r \<in> set (planResults plan) \<and> isSimulatedDriver (resDriver r) \<and> (n = planNodeName plan \<or> resPool r = n)}"
    by (simp add: exposed_shown image_Un Un_commute)
  show "\<exists>sl \<in> set slices. \<exists>device \<in> set (sliceDevices sl). sliceNodeName sl = Some (planNodeName plan) \<and>
      qualifiedDeviceIdentity r = sliceDriver sl @ ''/'' @ poolName sl @ ''/'' @ devName device" if "r \<in> set (planResults plan)" for r
    using planned_on_node [OF assms that] by blast
qed

text \<open>A claim for one device of a simulated driver, planned on the only node.\<close>

definition nodeSlices :: "rat ResourceSlice list" where
  "nodeSlices = [exampleSlice\<lparr>sliceDriver := simulatedDriverName, sliceDevices := [exclusiveDevice ''gpu'']\<rparr>]"

definition nodePlan :: "rat allocationPlan" where
  "nodePlan = \<lparr>planResults = [exampleExclusive\<lparr>resDriver := simulatedDriverName\<rparr>], planNodeName = ''node''\<rparr>"

lemma node_plan:
  "planClaimAllocation exact_quantity acceptingCEL exampleContext (pendingClaim [exampleRequest] []) [] nodeSlices
     [''class'' \<mapsto> \<lparr>className = ''class'', classSelectors = [\<lparr>selCEL = Some ''true''\<rparr>]\<rparr>] \<lparr>clkUUIDs = 0, clkPolls = 0\<rparr>
   = (Inr nodePlan, \<lparr>clkUUIDs = 0, clkPolls = 0\<rparr>)"
proof -
  let ?planner = "newClaimPlanner exact_quantity acceptingCEL [] nodeSlices
    [''class'' \<mapsto> \<lparr>className = ''class'', classSelectors = [\<lparr>selCEL = Some ''true''\<rparr>]\<rparr>] []"
  have alts: "supportedAlternatives exact_quantity exampleRequest =
     Inr [\<lparr>altRequestName = ''r'', altDeviceClassName = ''class'', altSelectors = [], altMode = ModeExactCount, altCount = 1, altCapacity = None\<rparr>]"
    by (simp add: example_request_defs)
  have "selectRequest ?planner exampleRequest '''' 32 =
      Inr \<lparr>selResults = planResults nodePlan, selNodeName = ''node'', selMatched = True, selLimitExceeded = False\<rparr>"
    unfolding selectRequest_def nodeSlices_def nodePlan_def
    by (simp add: example_plan_defs alts Let_def)
  then have "planUnconstrainedClaimAllocation ?planner (pendingClaim [exampleRequest] []) = Inr nodePlan"
    by (simp add: planUnconstrainedClaimAllocation_def pendingClaim_def AllocationResultsMaxSize_def validateClaimResultLimit_def
        appendSelection_def nodePlan_def)
  moreover have "\<not> hasManagedShareableDevice nodeSlices"
    by (simp add: hasManagedShareableDevice_def nodeSlices_def exclusiveDevice_def exampleDevice_def deviceAllowsMultipleAllocations_def)
  moreover have "supportedMatchAttributeConstraints (pendingClaim [exampleRequest] []) = Inr []"
    by (simp add: supportedMatchAttributeConstraints_def pendingClaim_def)
  moreover have "collectCommittedAllocationUsage exact_quantity [] = Inr []"
    by (simp add: collectCommittedAllocationUsage_def)
  ultimately show ?thesis by (simp add: planClaimAllocation_def hasShared_def)
qed

theorem planned_claim_exposed_witness:
  "exposed (buildCDISpec asciiUnicode exampleHash [claimWithAllocationPlan (pendingClaim [exampleRequest] []) nodePlan] ''node'') =
     {''sim.draforge.oaslananka/p/gpu''}"
proof -
  have ok: "slicesOk exact_quantity (\<lambda>a. a) nodeSlices"
    using exact_quantity_laws
    by (simp add: slicesOk_def capacitiesWf_def coherentDevices_def plainSlice_def nodeSlices_def exclusiveDevice_def exampleSlice_def exampleDevice_def simulatedDriverName_def)
  have named: "sliceNodeName sl \<noteq> Some ''''" if "sl \<in> set nodeSlices" for sl
    using that by (simp add: nodeSlices_def exampleSlice_def)
  have "exposed (buildCDISpec asciiUnicode exampleHash ([] :: rat ResourceClaim list) ''node'') = {}" by (simp add: exposed_shown)
  then show ?thesis
    using planned_claim_exposed [OF ok node_plan named, of asciiUnicode exampleHash "[]" "''node''"]
    by (simp add: nodePlan_def exampleExclusive_def isSimulatedDriver_def qualifiedDeviceIdentity_def simulatedDriverName_def)
qed

end
